(* ===== verification/Rust_Base.thy ===== *)
theory Rust_Base
  imports Complex_Main "HOL-Library.Word"
begin

unbundle bit_operations_syntax

text \<open>
  Prelude: the Rust values the program computes with, and the automation the
  other theories share.

  A Rust \<open>String\<close> is a list of Unicode scalar values (\<open>uchar\<close>, a natural number);
  \<open>lit ''abc''\<close> is an ASCII literal.  The byte length that \<open>str::len\<close> returns and the
  byte offsets that slicing uses are computed from the UTF-8 width of each scalar,
  so \<open>len\<close> and \<open>chars().count()\<close> stay different functions.  \<open>u8\<close> is an 8-bit word.
  The Unicode lower-case table is not part of the program: \<open>to_lowercase\<close> takes it
  as an argument and fixes only what it does on ASCII.

  The locale \<open>code_enum\<close> is the contract of every pair \<open>as_code\<close>/\<open>from_code\<close>.
\<close>

type_synonym uchar = nat
type_synonym ustring = "uchar list"
type_synonym byte = "8 word"

named_theorems codes "the code tables of the enums, unfolded by the codec proofs"

section \<open>Strings\<close>

definition lit :: "string \<Rightarrow> ustring" where
  "lit s = map of_char s"

lemma lit_inject [simp]: "lit s = lit t \<longleftrightarrow> s = t"
  unfolding lit_def by (rule inj_map_eq_map) (simp add: inj_def)

lemma lit_Nil [simp]: "lit [] = []" "lit s = [] \<longleftrightarrow> s = []" "[] = lit s \<longleftrightarrow> s = []"
  by (simp_all add: lit_def)

lemma length_lit [simp]: "length (lit s) = length s"
  by (simp add: lit_def)

definition is_ascii :: "ustring \<Rightarrow> bool" where
  "is_ascii s \<longleftrightarrow> (\<forall>c \<in> set s. c < 128)"

text \<open>\<open>char::is_whitespace\<close>: the scalars with the \<open>White_Space\<close> property.\<close>

definition is_whitespace :: "uchar \<Rightarrow> bool" where
  "is_whitespace c \<longleftrightarrow>
     9 \<le> c \<and> c \<le> 13 \<or> c = 32 \<or> c = 133 \<or> c = 160 \<or> c = 5760 \<or> 8192 \<le> c \<and> c \<le> 8202
     \<or> c = 8232 \<or> c = 8233 \<or> c = 8239 \<or> c = 8287 \<or> c = 12288"

definition trim_start :: "ustring \<Rightarrow> ustring" where
  "trim_start s = dropWhile is_whitespace s"

definition trim_end :: "ustring \<Rightarrow> ustring" where
  "trim_end s = rev (dropWhile is_whitespace (rev s))"

definition trim :: "ustring \<Rightarrow> ustring" where
  "trim s = trim_end (trim_start s)"

lemma dropWhile_idem_hd:
  "xs = [] \<or> \<not> P (hd xs) \<Longrightarrow> dropWhile P xs = xs"
  by (cases xs) auto

lemma trim_end_Nil [simp]: "trim_end [] = []"
  by (simp add: trim_end_def)

lemma trim_end_last: "trim_end s \<noteq> [] \<Longrightarrow> \<not> is_whitespace (last (trim_end s))"
  by (metis hd_dropWhile last_rev rev_is_Nil_conv trim_end_def)

lemma trim_end_prefix: "\<exists>t. s = trim_end s @ t \<and> (\<forall>c \<in> set t. is_whitespace c)"
proof -
  have "rev s = takeWhile is_whitespace (rev s) @ dropWhile is_whitespace (rev s)" by simp
  then have "s = rev (dropWhile is_whitespace (rev s)) @ rev (takeWhile is_whitespace (rev s))"
    by (metis rev_append rev_rev_ident)
  then show ?thesis unfolding trim_end_def
    by (metis set_rev set_takeWhileD)
qed

lemma trim_end_id: "s = [] \<or> \<not> is_whitespace (last s) \<Longrightarrow> trim_end s = s"
  unfolding trim_end_def
  by (cases "s = []") (simp_all add: dropWhile_idem_hd hd_rev)

lemma set_trim: "set (trim s) \<subseteq> set s"
proof -
  have "set (dropWhile P xs) \<subseteq> set xs" for P and xs :: ustring by (auto dest: set_dropWhileD)
  then show ?thesis unfolding trim_def trim_end_def trim_start_def by (metis set_rev subset_trans)
qed

lemma trim_hd: "trim s \<noteq> [] \<Longrightarrow> \<not> is_whitespace (hd (trim s))"
proof -
  assume ne: "trim s \<noteq> []"
  obtain t where t: "trim_start s = trim_end (trim_start s) @ t"
    using trim_end_prefix by blast
  with ne have "hd (trim_start s) = hd (trim s)" "trim_start s \<noteq> []"
    unfolding trim_def by (metis hd_append2, auto)
  then show ?thesis
    unfolding trim_start_def by (metis hd_dropWhile)
qed

lemma trim_last: "trim s \<noteq> [] \<Longrightarrow> \<not> is_whitespace (last (trim s))"
  unfolding trim_def by (rule trim_end_last)

lemma trim_id:
  "s = [] \<or> \<not> is_whitespace (hd s) \<and> \<not> is_whitespace (last s) \<Longrightarrow> trim s = s"
  unfolding trim_def trim_start_def by (auto simp: dropWhile_idem_hd trim_end_id)

lemma trim_idem [simp]: "trim (trim s) = trim s"
  by (rule trim_id) (use trim_hd trim_last in blast)

definition to_ascii_lower_char :: "uchar \<Rightarrow> uchar" where
  "to_ascii_lower_char c = (if 65 \<le> c \<and> c \<le> 90 then c + 32 else c)"

definition to_ascii_upper_char :: "uchar \<Rightarrow> uchar" where
  "to_ascii_upper_char c = (if 97 \<le> c \<and> c \<le> 122 then c - 32 else c)"

definition to_ascii_lowercase :: "ustring \<Rightarrow> ustring" where
  "to_ascii_lowercase s = map to_ascii_lower_char s"

definition to_ascii_uppercase :: "ustring \<Rightarrow> ustring" where
  "to_ascii_uppercase s = map to_ascii_upper_char s"

lemma to_ascii_lower_char_idem [simp]:
  "to_ascii_lower_char (to_ascii_lower_char c) = to_ascii_lower_char c"
  by (simp add: to_ascii_lower_char_def)

lemma to_ascii_lower_char_ascii [simp]: "to_ascii_lower_char c < 128 \<longleftrightarrow> c < 128"
  by (simp add: to_ascii_lower_char_def)

lemma is_whitespace_ascii_lower [simp]:
  "is_whitespace (to_ascii_lower_char c) = is_whitespace c"
  by (auto simp: to_ascii_lower_char_def is_whitespace_def)

text \<open>
  \<open>str::to_lowercase\<close>: ASCII letters are folded here; the image of any other scalar
  (which may depend on its position, for a final sigma) is the argument \<open>ulow\<close>.
\<close>

type_synonym lower_table = "ustring \<Rightarrow> nat \<Rightarrow> ustring"

definition to_lowercase :: "lower_table \<Rightarrow> ustring \<Rightarrow> ustring" where
  "to_lowercase ulow s =
     concat (map (\<lambda>i. if s ! i < 128 then [to_ascii_lower_char (s ! i)] else ulow s i) [0..<length s])"

lemma to_lowercase_ascii:
  assumes "is_ascii s"
  shows "to_lowercase ulow s = to_ascii_lowercase s"
proof -
  have "to_lowercase ulow s = concat (map (\<lambda>i. [to_ascii_lower_char (s ! i)]) [0..<length s])"
    unfolding to_lowercase_def
    by (rule arg_cong[where f = concat], rule map_cong) (use assms in \<open>auto simp: is_ascii_def\<close>)
  also have "\<dots> = map (\<lambda>i. to_ascii_lower_char (s ! i)) [0..<length s]"
    by (induction s rule: rev_induct) simp_all
  also have "\<dots> = to_ascii_lowercase s"
    unfolding to_ascii_lowercase_def by (rule nth_equalityI) simp_all
  finally show ?thesis .
qed

lemma is_ascii_lowercase [simp]: "is_ascii (to_ascii_lowercase s) = is_ascii s"
  by (auto simp: is_ascii_def to_ascii_lowercase_def)

lemma to_ascii_lowercase_idem [simp]:
  "to_ascii_lowercase (to_ascii_lowercase s) = to_ascii_lowercase s"
  by (simp add: to_ascii_lowercase_def comp_def)

text \<open>\<open>split_once(c)\<close>, \<open>contains(c)\<close> and \<open>split(c)\<close> on one scalar.\<close>

definition split_once :: "uchar \<Rightarrow> ustring \<Rightarrow> (ustring \<times> ustring) option" where
  "split_once c s =
     (if c \<in> set s then Some (takeWhile (\<lambda>x. x \<noteq> c) s, tl (dropWhile (\<lambda>x. x \<noteq> c) s)) else None)"

fun split_on :: "uchar \<Rightarrow> ustring \<Rightarrow> ustring list" where
  "split_on c [] = [[]]"
| "split_on c (x # xs) =
     (if x = c then [] # split_on c xs
      else (case split_on c xs of [] \<Rightarrow> [[x]] | p # ps \<Rightarrow> (x # p) # ps))"

definition starts_with :: "ustring \<Rightarrow> ustring \<Rightarrow> bool" where
  "starts_with s p \<longleftrightarrow> take (length p) s = p"

definition strip_prefix :: "ustring \<Rightarrow> ustring \<Rightarrow> ustring option" where
  "strip_prefix s p = (if starts_with s p then Some (drop (length p) s) else None)"

lemma dropWhile_neq_member: "c \<in> set s \<Longrightarrow> dropWhile (\<lambda>x. x \<noteq> c) s = c # tl (dropWhile (\<lambda>x. x \<noteq> c) s)"
  by (induction s) auto

lemma split_once_Some:
  assumes "split_once c s = Some (a, b)"
  shows "s = a @ c # b \<and> c \<notin> set a"
proof -
  from assms have c: "c \<in> set s" and a: "a = takeWhile (\<lambda>x. x \<noteq> c) s"
    and b: "b = tl (dropWhile (\<lambda>x. x \<noteq> c) s)"
    by (auto simp: split_once_def split: if_splits)
  have "s = a @ c # b"
    unfolding a b dropWhile_neq_member[OF c, symmetric] by (rule takeWhile_dropWhile_id[symmetric])
  moreover have "c \<notin> set a" unfolding a by (auto dest: set_takeWhileD)
  ultimately show ?thesis by simp
qed

lemma split_on_join: "concat (map (\<lambda>p. c # p) (split_on c s)) = c # s"
  by (induction s) (auto split: list.splits)

section \<open>Decimal numerals and floating point\<close>

text \<open>\<open>format!("{n}")\<close> of an integer.\<close>

fun show_nat :: "nat \<Rightarrow> ustring" where
  "show_nat n = (if n < 10 then [48 + n] else show_nat (n div 10) @ [48 + n mod 10])"

declare show_nat.simps [simp del]

definition show_int :: "int \<Rightarrow> ustring" where
  "show_int i = (if i < 0 then 45 # show_nat (nat (- i)) else show_nat (nat i))"

lemma show_nat_digits: "c \<in> set (show_nat n) \<Longrightarrow> 48 \<le> c \<and> c \<le> 57"
  by (induction n rule: show_nat.induct) (subst (asm) (2) show_nat.simps, auto split: if_splits)

lemma show_nat_nonempty: "show_nat n \<noteq> []"
  by (subst show_nat.simps) simp

lemma show_nat_inject: "show_nat m = show_nat n \<longleftrightarrow> m = n"
proof (induction m arbitrary: n rule: show_nat.induct)
  case (1 m)
  show ?case
  proof
    assume e: "show_nat m = show_nat n"
    show "m = n"
    proof (cases "m < 10"; cases "n < 10")
      assume "m < 10" "n < 10"
      with e show ?thesis by (simp add: show_nat.simps[of m] show_nat.simps[of n])
    next
      assume "m < 10" "\<not> n < 10"
      with e have False
        by (simp add: show_nat.simps[of m] show_nat.simps[of n] show_nat_nonempty show_nat_nonempty[symmetric] append_eq_Cons_conv Cons_eq_append_conv)
      then show ?thesis ..
    next
      assume "\<not> m < 10" "n < 10"
      with e have False
        by (simp add: show_nat.simps[of m] show_nat.simps[of n] show_nat_nonempty show_nat_nonempty[symmetric] append_eq_Cons_conv Cons_eq_append_conv)
      then show ?thesis ..
    next
      assume m: "\<not> m < 10" and n: "\<not> n < 10"
      with e have "show_nat (m div 10) = show_nat (n div 10)" "m mod 10 = n mod 10"
        by (simp_all add: show_nat.simps[of m] show_nat.simps[of n])
      with 1[OF m] show ?thesis by (metis div_mod_decomp)
    qed
  qed simp
qed

lemma show_int_inject: "show_int i = show_int j \<longleftrightarrow> i = j"
proof -
  have "45 \<notin> set (show_nat n)" for n using show_nat_digits[of 45 n] by auto
  then have "45 # show_nat m \<noteq> show_nat n" "show_nat n \<noteq> 45 # show_nat m" for m n
    by (metis list.set_intros(1))+
  then show ?thesis by (auto simp: show_int_def show_nat_inject)
qed

text \<open>\<open>f64\<close>, for the comparisons the program makes: a finite value is its exact
  rational, and no comparison with \<open>NaN\<close> holds.\<close>

datatype f64 = Fin rat | PosInf | NegInf | NaN

definition f64_finite :: "f64 \<Rightarrow> bool" where
  "f64_finite x = (case x of Fin _ \<Rightarrow> True | _ \<Rightarrow> False)"

text \<open>\<open>(a..=b).contains(&x)\<close> for finite bounds.\<close>

definition f64_within :: "rat \<Rightarrow> rat \<Rightarrow> f64 \<Rightarrow> bool" where
  "f64_within a b x = (case x of Fin q \<Rightarrow> a \<le> q \<and> q \<le> b | _ \<Rightarrow> False)"

lemma f64_withinE: "f64_within a b x \<Longrightarrow> (\<And>q. x = Fin q \<Longrightarrow> a \<le> q \<Longrightarrow> q \<le> b \<Longrightarrow> P) \<Longrightarrow> P"
  by (auto simp: f64_within_def split: f64.splits)

text \<open>\<open>Result::ok\<close>.\<close>

definition ok :: "'e + 'a \<Rightarrow> 'a option" where
  "ok r = (case r of Inl _ \<Rightarrow> None | Inr a \<Rightarrow> Some a)"

lemma ok_simps [simp]: "ok (Inl e) = None" "ok (Inr a) = Some a"
  by (simp_all add: ok_def)

lemma ok_eq_Some [simp]: "ok r = Some a \<longleftrightarrow> r = Inr a"
  by (cases r) simp_all

section \<open>UTF-8 widths and byte slices\<close>

definition utf8_len :: "uchar \<Rightarrow> nat" where
  "utf8_len c = (if c < 128 then 1 else if c < 2048 then 2 else if c < 65536 then 3 else 4)"

definition str_len :: "ustring \<Rightarrow> nat" where
  "str_len s = sum_list (map utf8_len s)"

text \<open>Split off the first \<open>n\<close> bytes; \<open>None\<close> when \<open>n\<close> is not a character boundary or is
  past the end, where Rust's slicing panics.\<close>

fun split_bytes :: "nat \<Rightarrow> ustring \<Rightarrow> (ustring \<times> ustring) option" where
  "split_bytes n s =
     (if n = 0 then Some ([], s)
      else (case s of [] \<Rightarrow> None
            | c # cs \<Rightarrow>
                if n < utf8_len c then None
                else (case split_bytes (n - utf8_len c) cs of
                        None \<Rightarrow> None | Some (a, b) \<Rightarrow> Some (c # a, b))))"

declare split_bytes.simps [simp del]

lemma utf8_len_pos: "0 < utf8_len c"
  by (simp add: utf8_len_def)

lemma str_len_Cons [simp]: "str_len (c # s) = utf8_len c + str_len s" "str_len [] = 0"
  by (simp_all add: str_len_def)

lemma str_len_append [simp]: "str_len (a @ b) = str_len a + str_len b"
  by (simp add: str_len_def)

lemma split_bytes_append: "split_bytes (str_len a) (a @ b) = Some (a, b)"
  using utf8_len_pos by (induction a) (subst split_bytes.simps, simp)+

lemma str_len_ascii: "is_ascii s \<Longrightarrow> str_len s = length s"
  by (induction s) (simp_all add: is_ascii_def utf8_len_def)

section \<open>A value or a panic\<close>

datatype 'a outcome = Returned 'a | Panicked

section \<open>Hexadecimal bytes\<close>

definition hex_digit :: "nat \<Rightarrow> uchar" where
  "hex_digit n = (if n < 10 then 48 + n else 87 + n)"

definition byte_to_hex :: "byte \<Rightarrow> ustring" where
  "byte_to_hex b = [hex_digit (unat b div 16), hex_digit (unat b mod 16)]"

definition digit16 :: "uchar \<Rightarrow> nat option" where
  "digit16 c =
     (if 48 \<le> c \<and> c \<le> 57 then Some (c - 48)
      else if 97 \<le> c \<and> c \<le> 102 then Some (c - 87)
      else if 65 \<le> c \<and> c \<le> 70 then Some (c - 55) else None)"

fun radix16_digits :: "nat \<Rightarrow> ustring \<Rightarrow> nat option" where
  "radix16_digits acc [] = Some acc"
| "radix16_digits acc (c # cs) =
     (case digit16 c of None \<Rightarrow> None
      | Some d \<Rightarrow> if acc * 16 + d < 256 then radix16_digits (acc * 16 + d) cs else None)"

text \<open>\<open>u8::from_str_radix(s, 16)\<close>: a single leading \<open>+\<close> is accepted, an empty string and
  a lone sign are not, and a value above 255 overflows.\<close>

definition u8_from_str_radix16 :: "ustring \<Rightarrow> byte option" where
  "u8_from_str_radix16 s =
     (case s of [] \<Rightarrow> None
      | c # cs \<Rightarrow>
          if cs = [] \<and> (c = 43 \<or> c = 45) then None
          else map_option of_nat (radix16_digits 0 (if c = 43 then cs else s)))"

lemma digit16_hex_digit [simp]: "n < 16 \<Longrightarrow> digit16 (hex_digit n) = Some n"
  by (auto simp: digit16_def hex_digit_def)

lemma hex_digit_range: "n < 16 \<Longrightarrow> hex_digit n < 128 \<and> hex_digit n \<noteq> 43 \<and> hex_digit n \<noteq> 45"
  by (simp add: hex_digit_def)

lemma unat_byte_less [simp]: "unat (b :: byte) < 256"
  using unsigned_less [of b, where 'a = nat] by simp

lemma byte_nibbles: "unat (b :: byte) div 16 < 16" "unat b mod 16 < 16"
  by (rule less_mult_imp_div_less, use unat_byte_less [of b] in simp) simp

lemma u8_from_str_radix16_byte_to_hex [simp]: "u8_from_str_radix16 (byte_to_hex b) = Some b"
  using hex_digit_range[OF byte_nibbles(1)[of b]] byte_nibbles(1)[of b]
  by (simp add: u8_from_str_radix16_def byte_to_hex_def byte_nibbles less_trans[of _ 16 256])

lemma byte_to_hex_ascii: "is_ascii (byte_to_hex b)"
  by (simp add: byte_to_hex_def is_ascii_def hex_digit_range byte_nibbles)

lemma str_len_byte_to_hex [simp]: "str_len (byte_to_hex b) = 2"
  by (simp add: str_len_ascii[OF byte_to_hex_ascii]) (simp add: byte_to_hex_def)

section \<open>Codes of enums\<close>

text \<open>The contract of an enum stored as a text code: every value has a code, and
  decoding accepts exactly the codes.\<close>

locale code_enum =
  fixes as_code :: "'a \<Rightarrow> ustring"
    and from_code :: "ustring \<Rightarrow> 'a option"
  assumes from_as: "from_code (as_code x) = Some x"
    and as_from: "from_code c = Some x \<Longrightarrow> as_code x = c"
begin

lemma from_code_iff: "from_code c = Some x \<longleftrightarrow> c = as_code x"
  using from_as as_from by auto

lemma as_code_inject: "as_code x = as_code y \<longleftrightarrow> x = y"
  by (metis from_as option.inject)

lemma from_code_None_iff: "from_code c = None \<longleftrightarrow> c \<notin> range as_code"
proof
  assume "from_code c = None"
  then show "c \<notin> range as_code" using from_as by auto
next
  assume "c \<notin> range as_code"
  then show "from_code c = None" using as_from by (cases "from_code c") auto
qed

text \<open>A column filled through \<open>as_code\<close> always decodes again.\<close>

lemma decode_stored: "map_option as_code (from_code (as_code x)) = Some (as_code x)"
  by (simp add: from_as)

lemma decode_all: "those (map (from_code \<circ> as_code) xs) = Some xs"
  by (induction xs) (simp_all add: from_as)

end

end
