(* ===== verification/Dom_Identity.thy ===== *)
theory Dom_Identity
  imports Rust_Base
begin

text \<open>
  Identity value objects of the domain crate: \<open>domain/src/lib.rs\<close> (email address,
  locale code, domain errors) and \<open>domain/src/auth.rs\<close> (account states, roles,
  providers, password policy, the three opaque 32-byte credentials, the user).

  The credentials' base64url coding is done by a crate outside the repository: the
  codec is a pair of functions passed to the definitions that use it.
\<close>

section \<open>Errors, email, locale\<close>

datatype domain_error =
    EmptyEmail
  | InvalidEmail ustring
  | Invalid ustring
  | WeakPassword
  | InvalidRole ustring
  | InvalidState ustring

text \<open>\<open>UserEmail(String)\<close> is represented by its string.\<close>

definition parse_email :: "lower_table \<Rightarrow> ustring \<Rightarrow> domain_error + ustring" where
  "parse_email ulow raw =
     (let normalized = to_lowercase ulow (trim raw) in
      if normalized = [] then Inl EmptyEmail
      else case split_once 64 normalized of
             None \<Rightarrow> Inl (InvalidEmail raw)
           | Some (local_part, domain) \<Rightarrow>
               if local_part = [] \<or> domain = [] \<or> 46 \<notin> set domain then Inl (InvalidEmail raw)
               else Inr normalized)"

datatype locale_code = PtBr | En

definition parse_locale :: "ustring \<Rightarrow> locale_code option" where
  "parse_locale raw =
     (let s = to_ascii_lowercase (trim raw) in
      if s = lit ''pt-br'' \<or> s = lit ''pt'' then Some PtBr
      else if s = lit ''en'' then Some En
      else None)"

definition locale_as_str :: "locale_code \<Rightarrow> ustring" where
  "locale_as_str l = (case l of PtBr \<Rightarrow> lit ''pt-BR'' | En \<Rightarrow> lit ''en'')"

definition default_locale :: locale_code where
  "default_locale = PtBr"

section \<open>Account states, roles, providers\<close>

datatype account_state = PendingEmailVerification | Active | Suspended | Deleted

definition account_state_code :: "account_state \<Rightarrow> ustring" where
  "account_state_code s =
     (case s of PendingEmailVerification \<Rightarrow> lit ''PENDING_EMAIL_VERIFICATION''
      | Active \<Rightarrow> lit ''ACTIVE'' | Suspended \<Rightarrow> lit ''SUSPENDED'' | Deleted \<Rightarrow> lit ''DELETED'')"

definition account_state_from :: "ustring \<Rightarrow> account_state option" where
  "account_state_from c =
     (if c = lit ''PENDING_EMAIL_VERIFICATION'' then Some PendingEmailVerification
      else if c = lit ''ACTIVE'' then Some Active
      else if c = lit ''SUSPENDED'' then Some Suspended
      else if c = lit ''DELETED'' then Some Deleted
      else None)"

definition can_log_in :: "account_state \<Rightarrow> bool" where
  "can_log_in s \<longleftrightarrow> s = PendingEmailVerification \<or> s = Active"

definition can_access_account :: "account_state \<Rightarrow> bool" where
  "can_access_account s \<longleftrightarrow> s = PendingEmailVerification \<or> s = Active"

definition is_verified_gate :: "account_state \<Rightarrow> bool" where
  "is_verified_gate s \<longleftrightarrow> s = Active"

datatype role = RUser | RModerator | RAdmin

definition role_code :: "role \<Rightarrow> ustring" where
  "role_code r =
     (case r of RUser \<Rightarrow> lit ''USER'' | RModerator \<Rightarrow> lit ''MODERATOR'' | RAdmin \<Rightarrow> lit ''ADMIN'')"

definition role_from :: "ustring \<Rightarrow> role option" where
  "role_from c =
     (if c = lit ''USER'' then Some RUser
      else if c = lit ''MODERATOR'' then Some RModerator
      else if c = lit ''ADMIN'' then Some RAdmin
      else None)"

text \<open>The derived order of \<open>Role\<close>: the order of the variants.\<close>

definition role_rank :: "role \<Rightarrow> nat" where
  "role_rank r = (case r of RUser \<Rightarrow> 0 | RModerator \<Rightarrow> 1 | RAdmin \<Rightarrow> 2)"

instantiation role :: linorder
begin

definition less_eq_role :: "role \<Rightarrow> role \<Rightarrow> bool" where
  "less_eq_role a b \<longleftrightarrow> role_rank a \<le> role_rank b"

definition less_role :: "role \<Rightarrow> role \<Rightarrow> bool" where
  "less_role a b \<longleftrightarrow> role_rank a < role_rank b"

instance
  by standard (auto simp: less_eq_role_def less_role_def role_rank_def split: role.splits)

end

datatype auth_provider = PasswordProvider | Google

definition provider_code :: "auth_provider \<Rightarrow> ustring" where
  "provider_code p = (case p of PasswordProvider \<Rightarrow> lit ''password'' | Google \<Rightarrow> lit ''google'')"

definition provider_from :: "ustring \<Rightarrow> auth_provider option" where
  "provider_from c =
     (if c = lit ''password'' then Some PasswordProvider
      else if c = lit ''google'' then Some Google
      else None)"

lemmas identity_codes [codes] =
  account_state_code_def account_state_from_def role_code_def role_from_def
  provider_code_def provider_from_def

interpretation account_state: code_enum account_state_code account_state_from
  by unfold_locales (auto simp: codes split: account_state.splits if_splits)

interpretation role: code_enum role_code role_from
  by unfold_locales (auto simp: codes split: role.splits if_splits)

interpretation provider: code_enum provider_code provider_from
  by unfold_locales (auto simp: codes split: auth_provider.splits if_splits)

section \<open>Password policy\<close>

definition policy_min_len :: nat where
  "policy_min_len = 8"

definition validate_password :: "ustring \<Rightarrow> domain_error + unit" where
  "validate_password pw = (if length pw < policy_min_len then Inl WeakPassword else Inr ())"

section \<open>Session identifiers\<close>

definition bytes_to_hex :: "byte list \<Rightarrow> ustring" where
  "bytes_to_hex bs = concat (map byte_to_hex bs)"

text \<open>The loop of \<open>from_hex\<close>: the slice \<open>s[2i..2i+2]\<close> panics off a character boundary,
  and the first chunk that is not a number ends the collection.\<close>

fun hex_chunks :: "nat \<Rightarrow> ustring \<Rightarrow> byte list option outcome" where
  "hex_chunks 0 s = Returned (Some [])"
| "hex_chunks (Suc n) s =
     (case split_bytes 2 s of
        None \<Rightarrow> Panicked
      | Some (chunk, rest) \<Rightarrow>
          (case u8_from_str_radix16 chunk of
             None \<Rightarrow> Returned None
           | Some b \<Rightarrow>
               (case hex_chunks n rest of
                  Panicked \<Rightarrow> Panicked
                | Returned None \<Rightarrow> Returned None
                | Returned (Some bs) \<Rightarrow> Returned (Some (b # bs)))))"

definition session_id_from_hex :: "ustring \<Rightarrow> byte list option outcome" where
  "session_id_from_hex s = (if str_len s \<noteq> 64 then Returned None else hex_chunks 32 s)"

section \<open>Credentials coded in base64url\<close>

text \<open>The codec of the \<open>base64\<close> crate: encoding, and decoding that may refuse.\<close>

record b64_codec =
  b64_encode :: "byte list \<Rightarrow> ustring"
  b64_decode :: "ustring \<Rightarrow> byte list option"

definition b64_law :: "b64_codec \<Rightarrow> bool" where
  "b64_law C \<longleftrightarrow> (\<forall>bs. b64_decode C (b64_encode C bs) = Some bs)"

definition token_from_base64url :: "b64_codec \<Rightarrow> ustring \<Rightarrow> byte list option" where
  "token_from_base64url C s =
     (case b64_decode C s of None \<Rightarrow> None
      | Some bytes \<Rightarrow> if length bytes \<noteq> 32 then None else Some bytes)"

text \<open>\<open>CsrfToken::verify\<close>: the differences of all bytes are accumulated before the verdict.\<close>

definition csrf_verify :: "b64_codec \<Rightarrow> byte list \<Rightarrow> ustring \<Rightarrow> bool" where
  "csrf_verify C tok encoded =
     (case b64_decode C encoded of
        None \<Rightarrow> False
      | Some decoded \<Rightarrow>
          if length decoded \<noteq> length tok then False
          else fold (\<lambda>(a, b) diff. diff OR (a XOR b)) (zip tok decoded) 0 = 0)"

section \<open>Users\<close>

record provider_identity =
  pi_provider :: auth_provider
  pi_subject :: ustring
  pi_email :: ustring
  pi_email_verified :: bool

record user =
  u_id :: int
  u_email :: ustring
  u_display_name :: "ustring option"
  u_state :: account_state
  u_verified_at :: "int option"
  u_roles :: "role list"
  u_locale :: locale_code

definition new_user :: "int \<Rightarrow> ustring \<Rightarrow> ustring option \<Rightarrow> user" where
  "new_user i email name =
     \<lparr>u_id = i, u_email = email, u_display_name = name, u_state = PendingEmailVerification,
      u_verified_at = None, u_roles = [RUser], u_locale = default_locale\<rparr>"

definition has_role :: "user \<Rightarrow> role \<Rightarrow> bool" where
  "has_role u r \<longleftrightarrow> r \<in> set (u_roles u)"

definition is_verified :: "user \<Rightarrow> bool" where
  "is_verified u \<longleftrightarrow> u_verified_at u \<noteq> None"

section \<open>Lemmas\<close>

lemma parse_email_Inr:
  assumes "parse_email ulow raw = Inr e"
  obtains a b where "e = a @ 64 # b" "a \<noteq> []" "64 \<notin> set a" "b \<noteq> []" "46 \<in> set b"
    "e = to_lowercase ulow (trim raw)"
  using assms split_once_Some[of 64 "to_lowercase ulow (trim raw)"]
  by (auto simp: parse_email_def Let_def split: if_splits option.splits)

lemma is_ascii_trim: "is_ascii s \<Longrightarrow> is_ascii (trim s)"
  using set_trim[of s] by (auto simp: is_ascii_def)

lemma trim_to_ascii_lowercase: "trim (to_ascii_lowercase (trim s)) = to_ascii_lowercase (trim s)"
proof (cases "trim s = []")
  case True then show ?thesis by (simp add: to_ascii_lowercase_def trim_id)
next
  case False
  then show ?thesis
    using trim_hd[OF False] trim_last[OF False]
    by (intro trim_id) (auto simp: to_ascii_lowercase_def hd_map last_map)
qed

lemma bytes_to_hex_Cons [simp]:
  "bytes_to_hex (b # bs) = byte_to_hex b @ bytes_to_hex bs" "bytes_to_hex [] = []"
  by (simp_all add: bytes_to_hex_def)

lemma str_len_bytes_to_hex [simp]: "str_len (bytes_to_hex bs) = 2 * length bs"
  by (induction bs) simp_all

lemma hex_chunks_bytes_to_hex: "hex_chunks (length bs) (bytes_to_hex bs) = Returned (Some bs)"
proof (induction bs)
  case (Cons b bs)
  have "split_bytes 2 (byte_to_hex b @ bytes_to_hex bs) = Some (byte_to_hex b, bytes_to_hex bs)"
    using split_bytes_append[of "byte_to_hex b" "bytes_to_hex bs"] by simp
  then show ?case using Cons by simp
qed simp

lemma xor_eq_0_iff: "(a XOR b = (0 :: byte)) \<longleftrightarrow> a = b"
  by (metis bit.xor_self xor.assoc xor.left_neutral xor.commute)

lemma or_eq_0_iff_byte: "(a OR b = (0 :: byte)) \<longleftrightarrow> a = 0 \<and> b = 0"
  by (rule or_eq_0_iff)

lemma csrf_fold_zero:
  "length xs = length ys \<Longrightarrow>
   fold (\<lambda>(a, b) diff. diff OR (a XOR b)) (zip xs ys) (d :: byte) = 0 \<longleftrightarrow> d = 0 \<and> xs = ys"
  by (induction xs ys arbitrary: d rule: list_induct2) (auto simp: or_eq_0_iff_byte xor_eq_0_iff)

section \<open>Properties\<close>

text \<open>An ASCII address that was accepted once is a fixed point: parsing the
  normalized text again accepts it and returns it unchanged.\<close>

lemma parse_email_idempotent:
  assumes "is_ascii raw" and "parse_email ulow raw = Inr e"
  shows "parse_email ulow e = Inr e \<and> is_ascii e"
proof -
  have e: "e = to_ascii_lowercase (trim raw)"
    using assms by (metis parse_email_Inr to_lowercase_ascii is_ascii_trim)
  have n: "to_lowercase ulow (trim raw) = e" "to_lowercase ulow (trim e) = e"
    using e assms(1) by (simp_all add: to_lowercase_ascii is_ascii_trim trim_to_ascii_lowercase)
  show ?thesis
    using assms n e by (auto simp: parse_email_def is_ascii_trim Let_def split: option.splits if_splits)
qed

end
