(* ===== verification/Effects.thy ===== *)
theory Effects
  imports Rust_Base
begin

text \<open>
  Effects: asynchronous Rust functions over a mutable world, as a state monad with
  exceptions.  An operation takes the world and returns \<open>Inl e\<close> (the early return of
  \<open>?\<close> or \<open>Err\<close>) or \<open>Inr a\<close>, and the world it leaves behind in both cases: what was
  written before an error stays written, unless a transaction rolls it back.

  \<open>exec\<close> collects the rules that run an operation on a world, \<open>pres\<close> the rules that
  compose preservation of an invariant (\<open>keeps\<close>) along an operation's text.
\<close>

section \<open>Result and state monad\<close>

type_synonym ('s, 'e, 'a) m = "'s \<Rightarrow> ('e + 'a) \<times> 's"

named_theorems exec "execution of the monad's operations on a world"
named_theorems pres "invariant preservation, one rule per operation"

definition retM :: "'a \<Rightarrow> ('s, 'e, 'a) m" where
  "retM a = (\<lambda>s. (Inr a, s))"

definition throwM :: "'e \<Rightarrow> ('s, 'e, 'a) m" where
  "throwM e = (\<lambda>s. (Inl e, s))"

definition bindM :: "('s, 'e, 'a) m \<Rightarrow> ('a \<Rightarrow> ('s, 'e, 'b) m) \<Rightarrow> ('s, 'e, 'b) m" where
  "bindM m f = (\<lambda>s. case m s of (Inl e, s') \<Rightarrow> (Inl e, s') | (Inr a, s') \<Rightarrow> f a s')"

definition thenM :: "('s, 'e, 'a) m \<Rightarrow> ('s, 'e, 'b) m \<Rightarrow> ('s, 'e, 'b) m" where
  "thenM m n = bindM m (\<lambda>_. n)"

definition getM :: "('s \<Rightarrow> 'a) \<Rightarrow> ('s, 'e, 'a) m" where
  "getM f = (\<lambda>s. (Inr (f s), s))"

definition modifyM :: "('s \<Rightarrow> 's) \<Rightarrow> ('s, 'e, unit) m" where
  "modifyM f = (\<lambda>s. (Inr (), f s))"

definition liftR :: "'e + 'a \<Rightarrow> ('s, 'e, 'a) m" where
  "liftR r = (\<lambda>s. (r, s))"

definition mapErrM :: "('e \<Rightarrow> 'f) \<Rightarrow> ('s, 'e, 'a) m \<Rightarrow> ('s, 'f, 'a) m" where
  "mapErrM g m = (\<lambda>s. case m s of (Inl e, s') \<Rightarrow> (Inl (g e), s') | (Inr a, s') \<Rightarrow> (Inr a, s'))"

text \<open>\<open>attemptM m\<close> is \<open>match m.await\<close>: the result becomes a value.\<close>

definition attemptM :: "('s, 'e, 'a) m \<Rightarrow> ('s, 'f, 'e + 'a) m" where
  "attemptM m = (\<lambda>s. case m s of (r, s') \<Rightarrow> (Inr r, s'))"

text \<open>\<open>ignoreM m\<close> is \<open>let _ = m.await\<close> or \<open>.ok()\<close>.\<close>

definition ignoreM :: "('s, 'e, 'a) m \<Rightarrow> ('s, 'f, unit) m" where
  "ignoreM m = (\<lambda>s. (Inr (), snd (m s)))"

definition requireM :: "bool \<Rightarrow> 'e \<Rightarrow> ('s, 'e, unit) m" where
  "requireM c e = (if c then retM () else throwM e)"

definition whenM :: "bool \<Rightarrow> ('s, 'e, unit) m \<Rightarrow> ('s, 'e, unit) m" where
  "whenM c m = (if c then m else retM ())"

definition okOrM :: "'e \<Rightarrow> 'a option \<Rightarrow> ('s, 'e, 'a) m" where
  "okOrM e x = (case x of None \<Rightarrow> throwM e | Some a \<Rightarrow> retM a)"

fun forM :: "'a list \<Rightarrow> ('a \<Rightarrow> ('s, 'e, unit) m) \<Rightarrow> ('s, 'e, unit) m" where
  "forM [] f = retM ()"
| "forM (x # xs) f = thenM (f x) (forM xs f)"

fun mapM :: "('a \<Rightarrow> ('s, 'e, 'b) m) \<Rightarrow> 'a list \<Rightarrow> ('s, 'e, 'b list) m" where
  "mapM f [] = retM []"
| "mapM f (x # xs) = bindM (f x) (\<lambda>y. bindM (mapM f xs) (\<lambda>ys. retM (y # ys)))"

text \<open>Execution on a concrete world.\<close>

lemma retM_exec [exec]: "retM a s = (Inr a, s)" by (simp add: retM_def)
lemma throwM_exec [exec]: "throwM e s = (Inl e, s)" by (simp add: throwM_def)
lemma getM_exec [exec]: "getM f s = (Inr (f s), s)" by (simp add: getM_def)
lemma modifyM_exec [exec]: "modifyM f s = (Inr (), f s)" by (simp add: modifyM_def)
lemma liftR_exec [exec]: "liftR r s = (r, s)" by (simp add: liftR_def)

lemma bindM_exec [exec]:
  "bindM m f s = (case m s of (Inl e, s') \<Rightarrow> (Inl e, s') | (Inr a, s') \<Rightarrow> f a s')"
  by (simp add: bindM_def)

lemma thenM_exec [exec]:
  "thenM m n s = (case m s of (Inl e, s') \<Rightarrow> (Inl e, s') | (Inr a, s') \<Rightarrow> n s')"
  by (simp add: thenM_def bindM_def)

lemma mapErrM_exec [exec]:
  "mapErrM g m s = (case m s of (Inl e, s') \<Rightarrow> (Inl (g e), s') | (Inr a, s') \<Rightarrow> (Inr a, s'))"
  by (simp add: mapErrM_def)

lemma attemptM_exec [exec]: "attemptM m s = (case m s of (r, s') \<Rightarrow> (Inr r, s'))"
  by (simp add: attemptM_def)

lemma ignoreM_exec [exec]: "ignoreM m s = (Inr (), snd (m s))"
  by (simp add: ignoreM_def)

lemma requireM_exec [exec]: "requireM c e s = (if c then (Inr (), s) else (Inl e, s))"
  by (simp add: requireM_def exec)

lemma whenM_exec [exec]: "whenM c m s = (if c then m s else (Inr (), s))"
  by (simp add: whenM_def exec)

lemma okOrM_exec [exec]:
  "okOrM e x s = (case x of None \<Rightarrow> (Inl e, s) | Some a \<Rightarrow> (Inr a, s))"
  by (simp add: okOrM_def exec split: option.split)

text \<open>The monad laws.\<close>

lemma bindM_ret [simp]: "bindM (retM a) f = f a"
  by (simp add: bindM_def retM_def)

lemma bindM_retM [simp]: "bindM m retM = m"
  by (rule ext) (simp add: bindM_def retM_def split: prod.split sum.split)

lemma bindM_assoc: "bindM (bindM m f) g = bindM m (\<lambda>a. bindM (f a) g)"
  by (rule ext) (simp add: bindM_def split: prod.split sum.split)

lemma bindM_throw [simp]: "bindM (throwM e) f = throwM e"
  by (simp add: bindM_def throwM_def)

text \<open>An operation that returned went through each of its parts.\<close>

lemma bindM_InrE:
  assumes "bindM m f s = (Inr b, s'')"
  obtains a s' where "m s = (Inr a, s')" "f a s' = (Inr b, s'')"
  using assms by (auto simp: bindM_def split: prod.splits sum.splits)

lemma thenM_InrE:
  assumes "thenM m n s = (Inr b, s'')"
  obtains a s' where "m s = (Inr a, s')" "n s' = (Inr b, s'')"
  using assms unfolding thenM_def by (rule bindM_InrE)

lemma requireM_InrE:
  assumes "requireM c e s = (Inr a, s')"
  obtains "c" "s' = s"
  using assms by (auto simp: exec split: if_splits)

lemma okOrM_InrE:
  assumes "okOrM e x s = (Inr a, s')"
  obtains "x = Some a" "s' = s"
  using assms by (auto simp: exec split: option.splits)

lemma retM_InrE:
  assumes "retM x s = (Inr a, s')"
  obtains "x = a" "s' = s"
  using assms by (simp add: exec)

lemma liftR_InrE:
  assumes "liftR r s = (Inr a, s')"
  obtains "r = Inr a" "s' = s"
  using assms by (simp add: exec)

lemma getM_InrE:
  assumes "getM f s = (Inr a, s')"
  obtains "f s = a" "s' = s"
proof (rule that)
  show "f s = a" using assms by (auto simp: getM_def)
  show "s' = s" using assms by (auto simp: getM_def)
qed

lemma throwM_InrE: "throwM e s = (Inr a, s') \<Longrightarrow> P"
  by (simp add: exec)

lemma mapErrM_InrE:
  assumes "mapErrM g m s = (Inr a, s')"
  obtains "m s = (Inr a, s')"
  using assms by (auto simp: exec split: prod.splits sum.splits)

lemma whenM_InrE:
  assumes "whenM c m s = (Inr a, s')"
  obtains "c" "m s = (Inr a, s')" | "\<not> c" "s' = s"
  using assms by (auto simp: exec split: if_splits)

lemmas InrEs = retM_InrE liftR_InrE getM_InrE throwM_InrE mapErrM_InrE bindM_InrE thenM_InrE requireM_InrE okOrM_InrE

text \<open>\<open>never e m\<close>: \<open>m\<close> does not fail with \<open>e\<close>.\<close>

definition never :: "'e \<Rightarrow> ('s, 'e, 'a) m \<Rightarrow> bool" where
  "never e m \<longleftrightarrow> (\<forall>s. fst (m s) \<noteq> Inl e)"

lemma neverD: "never e m \<Longrightarrow> m s = (Inl e, s') \<Longrightarrow> False"
  unfolding never_def by (metis fst_conv)

lemma never_ret: "never e (retM a)" "never e (getM f)" "never e (ignoreM m)"
  by (simp_all add: never_def exec)

lemma never_throw: "e' \<noteq> e \<Longrightarrow> never e (throwM e')"
  by (simp add: never_def exec)

lemma never_bind:
  assumes "never e m" "\<And>a. never e (f a)"
  shows "never e (bindM m f)"
  unfolding never_def
proof
  fix s
  obtain r s' where r: "m s = (r, s')" by fastforce
  show "fst (bindM m f s) \<noteq> Inl e"
  proof (cases r)
    case (Inl d)
    then show ?thesis using assms(1) r by (auto simp: never_def bindM_exec dest: spec[of _ s])
  next
    case (Inr a)
    then show ?thesis using assms(2)[of a] r by (simp add: never_def bindM_exec)
  qed
qed

lemma never_then: "never e m \<Longrightarrow> never e n \<Longrightarrow> never e (thenM m n)"
  unfolding thenM_def by (rule never_bind)

lemma never_mapErr: "(\<And>x. g x \<noteq> e) \<Longrightarrow> never e (mapErrM g m)"
  unfolding never_def by (auto simp: exec split: prod.splits sum.splits)

lemma never_okOr: "e' \<noteq> e \<Longrightarrow> never e (okOrM e' x)" "e' \<noteq> e \<Longrightarrow> never e (requireM c e')"
  by (auto simp: never_def exec split: option.splits)

lemma never_case_option: "never e m \<Longrightarrow> (\<And>a. never e (f a)) \<Longrightarrow> never e (case x of None \<Rightarrow> m | Some a \<Rightarrow> f a)"
  by (cases x) simp_all

lemma never_mapM: "(\<And>x. never e (f x)) \<Longrightarrow> never e (mapM f xs)"
  by (induction xs) (auto intro!: never_ret never_bind)

lemmas nevers = never_ret never_throw never_bind never_then never_mapErr never_okOr never_case_option never_mapM

lemma bindM_InlE:
  assumes "bindM m f s = (Inl e, s'')"
  obtains "m s = (Inl e, s'')" | a s' where "m s = (Inr a, s')" "f a s' = (Inl e, s'')"
  using assms by (auto simp: bindM_def split: prod.splits sum.splits)

lemma thenM_InlE:
  assumes "thenM m n s = (Inl e, s'')"
  obtains "m s = (Inl e, s'')" | a s' where "m s = (Inr a, s')" "n s' = (Inl e, s'')"
  using assms unfolding thenM_def by (rule bindM_InlE)

section \<open>Preservation of an invariant\<close>

text \<open>\<open>keeps I m\<close>: \<open>m\<close> preserves \<open>I\<close>, whether it returns or fails.\<close>

definition keeps :: "('s \<Rightarrow> bool) \<Rightarrow> ('s, 'e, 'a) m \<Rightarrow> bool" where
  "keeps I m \<longleftrightarrow> (\<forall>s. I s \<longrightarrow> I (snd (m s)))"

lemma keepsI: "(\<And>s. I s \<Longrightarrow> I (snd (m s))) \<Longrightarrow> keeps I m"
  by (simp add: keeps_def)

lemma keepsD: "keeps I m \<Longrightarrow> I s \<Longrightarrow> m s = (r, s') \<Longrightarrow> I s'"
  by (metis keeps_def snd_conv)

lemma keeps_conj: "keeps I m \<Longrightarrow> keeps J m \<Longrightarrow> keeps (\<lambda>s. I s \<and> J s) m"
  by (simp add: keeps_def)

lemma keeps_ret [pres]: "keeps I (retM a)" by (simp add: keeps_def exec)
lemma keeps_throw [pres]: "keeps I (throwM e)" by (simp add: keeps_def exec)
lemma keeps_get [pres]: "keeps I (getM f)" by (simp add: keeps_def exec)
lemma keeps_liftR [pres]: "keeps I (liftR r)" by (simp add: keeps_def exec)
lemma keeps_require [pres]: "keeps I (requireM c e)" by (simp add: keeps_def exec)
lemma keeps_okOr [pres]: "keeps I (okOrM e x)" by (simp add: keeps_def exec split: option.split)

lemma keeps_bind [pres]:
  "keeps I m \<Longrightarrow> (\<And>a. keeps I (f a)) \<Longrightarrow> keeps I (bindM m f)"
  unfolding keeps_def bindM_def by (auto split: prod.splits sum.splits simp: prod_eq_iff)

lemma keeps_then [pres]: "keeps I m \<Longrightarrow> keeps I n \<Longrightarrow> keeps I (thenM m n)"
  unfolding thenM_def by (intro keeps_bind)

lemma keeps_mapErr [pres]: "keeps I m \<Longrightarrow> keeps I (mapErrM g m)"
  unfolding keeps_def mapErrM_def by (auto split: prod.splits sum.splits simp: prod_eq_iff)

lemma keeps_attempt [pres]: "keeps I m \<Longrightarrow> keeps I (attemptM m)"
  unfolding keeps_def attemptM_def by (auto split: prod.splits)

lemma keeps_ignore [pres]: "keeps I m \<Longrightarrow> keeps I (ignoreM m)"
  unfolding keeps_def ignoreM_def by auto

lemma keeps_when [pres]: "keeps I m \<Longrightarrow> keeps I (whenM c m)"
  by (simp add: whenM_def keeps_ret)

lemma keeps_modify: "(\<And>s. I s \<Longrightarrow> I (f s)) \<Longrightarrow> keeps I (modifyM f)"
  by (simp add: keeps_def exec)

lemma keeps_if [pres]: "keeps I m \<Longrightarrow> keeps I n \<Longrightarrow> keeps I (if c then m else n)"
  by simp

lemma keeps_case_option [pres]:
  "keeps I m \<Longrightarrow> (\<And>a. keeps I (f a)) \<Longrightarrow> keeps I (case x of None \<Rightarrow> m | Some a \<Rightarrow> f a)"
  by (cases x) simp_all

lemma keeps_case_sum [pres]:
  "(\<And>e. keeps I (f e)) \<Longrightarrow> (\<And>a. keeps I (g a)) \<Longrightarrow> keeps I (case x of Inl e \<Rightarrow> f e | Inr a \<Rightarrow> g a)"
  by (cases x) simp_all

lemma keeps_case_prod [pres]:
  "(\<And>a b. keeps I (f a b)) \<Longrightarrow> keeps I (case p of (a, b) \<Rightarrow> f a b)"
  by (cases p) simp

lemma keeps_let [pres]: "(\<And>a. keeps I (f a)) \<Longrightarrow> keeps I (let a = x in f a)"
  by simp

lemma keeps_forM [pres]: "(\<And>x. keeps I (f x)) \<Longrightarrow> keeps I (forM xs f)"
  by (induction xs) (auto intro: pres)

lemma keeps_mapM [pres]: "(\<And>x. keeps I (f x)) \<Longrightarrow> keeps I (mapM f xs)"
  by (induction xs) (auto intro!: pres)

text \<open>What holds of every outcome, whichever part of an operation fails.\<close>

lemma outcome_bind:
  assumes "bindM m f w = (r, w')" "keeps A m" "A w"
    "\<And>e v. A v \<Longrightarrow> P (Inl e) v" "\<And>a v. A v \<Longrightarrow> m w = (Inr a, v) \<Longrightarrow> f a v = (r, w') \<Longrightarrow> P r w'"
  shows "P r w'"
proof -
  obtain r0 v where m: "m w = (r0, v)" by fastforce
  with keepsD[OF assms(2,3) m] assms(1,4,5) show ?thesis by (cases r0) (auto simp: bindM_exec)
qed

lemma outcome_then:
  assumes "thenM m n w = (r, w')" "keeps A m" "A w"
    "\<And>e v. A v \<Longrightarrow> P (Inl e) v" "\<And>a v. A v \<Longrightarrow> m w = (Inr a, v) \<Longrightarrow> n v = (r, w') \<Longrightarrow> P r w'"
  shows "P r w'"
  using outcome_bind[of m "\<lambda>_. n" w r w' A P] assms by (simp add: thenM_def)

end
