(* ===== verification/Database.thy ===== *)
theory Database
  imports Effects
begin

text \<open>
  The database seen from Rust (\<open>infrastructure/src/db_error.rs\<close>), and the world every
  component shares: the clock (microseconds since the epoch), the schedule of database
  faults, and the blocks of random bytes that the operating system still has to give
  out.  Components extend the record with their own tables, so an operation of an
  early component is also an operation on every larger world.

  \<open>sql\<close> is one statement.  It takes the next entry of the fault schedule and either
  runs or fails there, leaving every table alone.  A statement can also be rejected by
  a constraint of the schema, which is the statement's own \<open>Inl\<close>.  \<open>transaction\<close> is
  \<open>begin\<close>, a body and \<open>commit\<close>: an error at any of the three restores every table.
\<close>

section \<open>Failures and their classification\<close>

datatype db_failure =
    DbConflict "ustring option"
  | DbInvalid "ustring option"
  | DbRetryable
  | DbUnavailable
  | DbOther

definition failure_constraint :: "db_failure \<Rightarrow> ustring option" where
  "failure_constraint f =
     (case f of DbConflict c \<Rightarrow> c | DbInvalid c \<Rightarrow> c | _ \<Rightarrow> None)"

definition failure_kind :: "db_failure \<Rightarrow> ustring" where
  "failure_kind f =
     (case f of DbConflict _ \<Rightarrow> lit ''conflict'' | DbInvalid _ \<Rightarrow> lit ''invalid''
      | DbRetryable \<Rightarrow> lit ''retryable'' | DbUnavailable \<Rightarrow> lit ''unavailable''
      | DbOther \<Rightarrow> lit ''other'')"

definition with_constraint :: "db_failure \<Rightarrow> ustring option \<Rightarrow> db_failure" where
  "with_constraint f c =
     (case f of DbConflict _ \<Rightarrow> DbConflict c | DbInvalid _ \<Rightarrow> DbInvalid c | other \<Rightarrow> other)"

definition classify_code :: "ustring \<Rightarrow> db_failure" where
  "classify_code c =
     (if c \<in> {lit ''23505'', lit ''23P01''} then DbConflict None
      else if c \<in> {lit ''23502'', lit ''23503'', lit ''23514''} then DbInvalid None
      else if c \<in> {lit ''40001'', lit ''40P01''} then DbRetryable
      else if c \<in> {lit ''57014'', lit ''57P01'', lit ''57P02'', lit ''57P03'', lit ''53300'',
                   lit ''08000'', lit ''08003'', lit ''08006''} then DbUnavailable
      else DbOther)"

text \<open>What the code reads of the driver's error: the variant, and for a database error
  the constraint, the driver's own verdicts and the SQLSTATE.\<close>

record driver_error =
  de_constraint :: "ustring option"
  de_unique :: bool
  de_check :: bool
  de_foreign_key :: bool
  de_code :: "ustring option"

datatype sqlx_error =
    SqlxDatabase driver_error
  | PoolTimedOut | PoolClosed | SqlxIo | SqlxTls | SqlxProtocol
  | RowNotFound | SqlxOther

definition classify :: "sqlx_error \<Rightarrow> db_failure" where
  "classify e =
     (case e of
        SqlxDatabase db \<Rightarrow>
          if de_unique db then DbConflict (de_constraint db)
          else if de_check db \<or> de_foreign_key db then DbInvalid (de_constraint db)
          else (case de_code db of
                  Some code \<Rightarrow> with_constraint (classify_code code) (de_constraint db)
                | None \<Rightarrow> DbOther)
      | PoolTimedOut \<Rightarrow> DbUnavailable | PoolClosed \<Rightarrow> DbUnavailable | SqlxIo \<Rightarrow> DbUnavailable
      | SqlxTls \<Rightarrow> DbUnavailable | SqlxProtocol \<Rightarrow> DbUnavailable
      | RowNotFound \<Rightarrow> DbOther | SqlxOther \<Rightarrow> DbOther)"

definition invalid_hint :: "ustring option \<Rightarrow> ustring" where
  "invalid_hint c = (case c of Some n \<Rightarrow> n | None \<Rightarrow> lit ''database constraint'')"

text \<open>The two-variant errors of the read-only ports and of the audit log.\<close>

datatype reader_error = ReaderUnavailable | ReaderUnexpected ustring
datatype audit_error = AuditUnavailable | AuditUnexpected ustring

definition reader_of_db :: "db_failure \<Rightarrow> reader_error" where
  "reader_of_db f = (case f of DbUnavailable \<Rightarrow> ReaderUnavailable | _ \<Rightarrow> ReaderUnexpected (failure_kind f))"

definition audit_of_db :: "db_failure \<Rightarrow> audit_error" where
  "audit_of_db f = (case f of DbUnavailable \<Rightarrow> AuditUnavailable | _ \<Rightarrow> AuditUnexpected (failure_kind f))"

lemma with_constraint_kind [simp]: "failure_kind (with_constraint f c) = failure_kind f"
  by (cases f) (simp_all add: with_constraint_def failure_kind_def)

section \<open>The world\<close>

record world =
  now :: int
  faults :: "db_failure option list"
  entropy :: "nat \<Rightarrow> byte list"
  drawn :: nat

definition seconds :: "int \<Rightarrow> int" where "seconds n = n * 1000000"
definition millis :: "int \<Rightarrow> int" where "millis n = n * 1000"
definition minutes :: "int \<Rightarrow> int" where "minutes n = seconds (n * 60)"
definition hours :: "int \<Rightarrow> int" where "hours n = minutes (n * 60)"
definition days :: "int \<Rightarrow> int" where "days n = hours (n * 24)"

lemmas time_units = seconds_def millis_def minutes_def hours_def days_def

definition random_bytes :: "('w world_scheme, 'e, byte list) m" where
  "random_bytes = (\<lambda>w. (Inr (entropy w (drawn w)), w\<lparr>drawn := Suc (drawn w)\<rparr>))"

definition run_stmt ::
  "(db_failure \<Rightarrow> 'e) \<Rightarrow> ('w world_scheme \<Rightarrow> db_failure + 'a \<times> 'w world_scheme) \<Rightarrow> ('w world_scheme, 'e, 'a) m" where
  "run_stmt conv f = (\<lambda>w. case f w of Inl e \<Rightarrow> (Inl (conv e), w) | Inr (a, w') \<Rightarrow> (Inr a, w'))"

definition sql ::
  "(db_failure \<Rightarrow> 'e) \<Rightarrow> ('w world_scheme \<Rightarrow> db_failure + 'a \<times> 'w world_scheme) \<Rightarrow> ('w world_scheme, 'e, 'a) m" where
  "sql conv f = (\<lambda>w. case faults w of
       [] \<Rightarrow> run_stmt conv f w
     | None # fs \<Rightarrow> run_stmt conv f (w\<lparr>faults := fs\<rparr>)
     | Some e # fs \<Rightarrow> (Inl (conv e), w\<lparr>faults := fs\<rparr>))"

text \<open>A statement that only reads, and one that no constraint can reject.\<close>

definition query :: "(db_failure \<Rightarrow> 'e) \<Rightarrow> ('w world_scheme \<Rightarrow> 'a) \<Rightarrow> ('w world_scheme, 'e, 'a) m" where
  "query conv f = sql conv (\<lambda>w. Inr (f w, w))"

definition command :: "(db_failure \<Rightarrow> 'e) \<Rightarrow> ('w world_scheme \<Rightarrow> 'w world_scheme) \<Rightarrow> ('w world_scheme, 'e, unit) m" where
  "command conv f = sql conv (\<lambda>w. Inr ((), f w))"

definition rollback :: "'w world_scheme \<Rightarrow> 'w world_scheme \<Rightarrow> 'w world_scheme" where
  "rollback w w' = w\<lparr>faults := faults w', drawn := drawn w'\<rparr>"

definition transaction :: "(db_failure \<Rightarrow> 'e) \<Rightarrow> ('w world_scheme, 'e, 'a) m \<Rightarrow> ('w world_scheme, 'e, 'a) m" where
  "transaction conv body = (\<lambda>w.
     case thenM (command conv id) (bindM body (\<lambda>a. thenM (command conv id) (retM a))) w of
       (Inl e, w') \<Rightarrow> (Inl e, rollback w w')
     | (Inr a, w') \<Rightarrow> (Inr a, w'))"

section \<open>Tables\<close>

text \<open>A table is the list of its rows in insertion order: \<open>UPDATE ... WHERE\<close> rewrites the
  rows of a condition, \<open>DELETE\<close> filters, \<open>SELECT\<close> finds.\<close>

definition update_where :: "('r \<Rightarrow> bool) \<Rightarrow> ('r \<Rightarrow> 'r) \<Rightarrow> 'r list \<Rightarrow> 'r list" where
  "update_where P f t = map (\<lambda>r. if P r then f r else r) t"

definition select_one :: "('r \<Rightarrow> bool) \<Rightarrow> 'r list \<Rightarrow> 'r option" where
  "select_one P t = List.find P t"

lemma update_where_simps [simp]:
  "update_where P f [] = []"
  "update_where P f (r # t) = (if P r then f r else r) # update_where P f t"
  "length (update_where P f t) = length t"
  by (simp_all add: update_where_def)

lemma update_where_none: "(\<And>r. r \<in> set t \<Longrightarrow> \<not> P r) \<Longrightarrow> update_where P f t = t"
  unfolding update_where_def by (rule map_idI) auto

lemma set_update_where: "set (update_where P f t) = (\<lambda>r. if P r then f r else r) ` set t"
  by (simp add: update_where_def)

lemma bex_update_where: "(\<exists>r \<in> set (update_where P f t). Q r) \<longleftrightarrow> (\<exists>r \<in> set t. Q (if P r then f r else r))"
  by (induction t) simp_all

lemma ball_update_where: "(\<forall>r \<in> set (update_where P f t). Q r) \<longleftrightarrow> (\<forall>r \<in> set t. Q (if P r then f r else r))"
  by (induction t) simp_all

lemma update_where_append [simp]:
  "update_where P f (t @ u) = update_where P f t @ update_where P f u"
  by (simp add: update_where_def)

lemma map_update_where:
  "(\<And>r. P r \<Longrightarrow> g (f r) = g r) \<Longrightarrow> map g (update_where P f t) = map g t"
  by (simp add: update_where_def)

text \<open>A column that a statement does not write keeps its values: the unique keys of a
  table survive an update of other columns.\<close>

lemma distinct_update_where:
  "(\<And>r. P r \<Longrightarrow> g (f r) = g r) \<Longrightarrow> distinct (map g (update_where P f t)) = distinct (map g t)"
  by (simp add: map_update_where)

lemma select_one_SomeD: "select_one P t = Some r \<Longrightarrow> r \<in> set t \<and> P r"
  unfolding select_one_def by (induction t) (auto split: if_splits)

lemma select_one_None_iff: "select_one P t = None \<longleftrightarrow> (\<forall>r \<in> set t. \<not> P r)"
  unfolding select_one_def by (auto simp: find_None_iff)

lemma select_one_unique:
  assumes "distinct (map g t)" "r \<in> set t" "\<And>x. P x \<longleftrightarrow> g x = g r"
  shows "select_one P t = Some r"
proof (cases "select_one P t")
  case None
  with assms show ?thesis by (auto simp: select_one_None_iff)
next
  case (Some x)
  from select_one_SomeD[OF Some] assms show ?thesis using Some by (metis distinct_map inj_onD)
qed

section \<open>Rules\<close>

text \<open>An invariant of the tables does not look at the fault schedule or the entropy.\<close>

definition table_inv :: "('w world_scheme \<Rightarrow> bool) \<Rightarrow> bool" where
  "table_inv I \<longleftrightarrow> (\<forall>w fs d. I (w\<lparr>faults := fs, drawn := d\<rparr>) = I w)"

lemma table_inv_faults: "table_inv I \<Longrightarrow> I (w\<lparr>faults := fs\<rparr>) = I w"
  unfolding table_inv_def by (drule spec[of _ w], drule spec[of _ fs], drule spec[of _ "drawn w"]) simp

lemma table_inv_drawn: "table_inv I \<Longrightarrow> I (w\<lparr>drawn := d\<rparr>) = I w"
  unfolding table_inv_def by (drule spec[of _ w], drule spec[of _ "faults w"], drule spec[of _ d]) simp

lemma table_inv_rollback: "table_inv I \<Longrightarrow> I (rollback w w') = I w"
  by (simp add: table_inv_def rollback_def)

lemma keeps_random [pres]: "table_inv I \<Longrightarrow> keeps I random_bytes"
  by (simp add: keeps_def random_bytes_def table_inv_drawn)

lemma keeps_sql:
  assumes "table_inv I" and "\<And>w a w'. I w \<Longrightarrow> f w = Inr (a, w') \<Longrightarrow> I w'"
  shows "keeps I (sql conv f)"
proof (rule keepsI)
  fix w assume I: "I w"
  have run: "I (snd (run_stmt conv f v))" if "I v" for v
    using that assms(2)[of v] by (auto simp: run_stmt_def split: sum.splits prod.splits)
  show "I (snd (sql conv f w))"
    using I run by (auto simp: sql_def table_inv_faults[OF assms(1)] split: list.splits option.splits)
qed

lemma keeps_query [pres]: "table_inv I \<Longrightarrow> keeps I (query conv f)"
  unfolding query_def by (rule keeps_sql) auto

lemma keeps_command: "table_inv I \<Longrightarrow> (\<And>w. I w \<Longrightarrow> I (f w)) \<Longrightarrow> keeps I (command conv f)"
  unfolding command_def by (rule keeps_sql) auto

lemma keeps_transaction [pres]:
  assumes "table_inv I" and "keeps I body"
  shows "keeps I (transaction conv body)"
proof (rule keepsI)
  fix w assume I: "I w"
  have k: "keeps I (thenM (command conv id) (bindM body (\<lambda>a. thenM (command conv id) (retM a))))"
    by (intro pres assms keeps_command[OF assms(1)]) simp_all
  show "I (snd (transaction conv body w))"
    using I keepsD[OF k I]
    by (auto simp: transaction_def table_inv_rollback[OF assms(1)] split: prod.splits sum.splits)
qed

text \<open>Without a fault in the schedule a statement runs.\<close>

lemma sql_ok [exec]: "faults w = [] \<Longrightarrow> sql conv f w = (case f w of Inl e \<Rightarrow> (Inl (conv e), w) | Inr (a, w') \<Rightarrow> (Inr a, w'))"
  by (simp add: sql_def run_stmt_def)

lemma query_ok [exec]: "faults w = [] \<Longrightarrow> query conv f w = (Inr (f w), w)"
  by (simp add: query_def exec)

lemma command_ok [exec]: "faults w = [] \<Longrightarrow> command conv f w = (Inr (), f w)"
  by (simp add: command_def exec)

lemma random_bytes_exec [exec]:
  "random_bytes w = (Inr (entropy w (drawn w)), w\<lparr>drawn := Suc (drawn w)\<rparr>)"
  by (simp add: random_bytes_def)

lemma rollback_faults [simp]: "faults (rollback w w') = faults w'" "now (rollback w w') = now w"
  by (simp_all add: rollback_def)

text \<open>A transaction that fails changes no table.\<close>

lemma transaction_Inl: "transaction conv body w = (Inl e, w') \<Longrightarrow> \<exists>v. w' = rollback w v"
  by (auto simp: transaction_def split: prod.splits sum.splits)

lemma transaction_ok [exec]:
  assumes "faults w = []"
  shows "transaction conv body w =
    (case body w of (Inl e, w') \<Rightarrow> (Inl e, rollback w w')
     | (Inr a, w') \<Rightarrow>
        (case command conv id w' of (Inl e, w'') \<Rightarrow> (Inl e, rollback w w'') | (Inr _, w'') \<Rightarrow> (Inr a, w'')))"
  by (simp add: transaction_def exec assms split: prod.split sum.split)

text \<open>A statement that returned ran, whatever the schedule of faults.\<close>

lemma sql_InrE:
  assumes "sql conv f w = (Inr a, w')"
  obtains fs where "f (w\<lparr>faults := fs\<rparr>) = Inr (a, w')"
proof (cases "faults w")
  case Nil
  have "w = w\<lparr>faults := []\<rparr>" using Nil by simp
  with assms Nil that[of "[]"] show ?thesis by (auto simp: sql_def run_stmt_def split: sum.splits prod.splits)
next
  case (Cons x fs)
  with assms that[of fs] show ?thesis
    by (auto simp: sql_def run_stmt_def split: sum.splits prod.splits option.splits)
qed

lemma query_InrE:
  assumes "query conv f w = (Inr a, w')"
  obtains fs where "w' = w\<lparr>faults := fs\<rparr>" "a = f w'"
  using assms unfolding query_def by (elim sql_InrE) (auto intro: that)

lemma command_InrE:
  assumes "command conv f w = (Inr a, w')"
  obtains fs where "w' = f (w\<lparr>faults := fs\<rparr>)"
  using assms unfolding command_def by (elim sql_InrE) (auto intro: that)

lemma random_bytes_InrE:
  assumes "random_bytes w = (Inr a, w')"
  obtains "a = entropy w (drawn w)" "w' = w\<lparr>drawn := Suc (drawn w)\<rparr>"
  using assms by (simp add: exec)

lemma transaction_InrE:
  assumes "transaction conv body w = (Inr a, w')"
  obtains fs v fs' where "body (w\<lparr>faults := fs\<rparr>) = (Inr a, v)" "w' = v\<lparr>faults := fs'\<rparr>"
proof -
  from assms have "thenM (command conv id) (bindM body (\<lambda>a. thenM (command conv id) (retM a))) w = (Inr a, w')"
    by (auto simp: transaction_def split: prod.splits sum.splits)
  then show ?thesis
    by (elim thenM_InrE bindM_InrE retM_InrE command_InrE) (auto intro: that)
qed

lemma never_sql: "(\<And>f. conv f \<noteq> e) \<Longrightarrow> never e (sql conv f)"
  unfolding never_def by (auto simp: sql_def run_stmt_def split: list.splits option.splits sum.splits prod.splits)

lemma never_random: "never e random_bytes"
  by (simp add: never_def exec)

text \<open>A transaction keeps what its body keeps when it returns: a failure rolls back.\<close>

lemma keeps_transaction_Inr:
  assumes I: "table_inv I" and body: "\<And>w a w'. I w \<Longrightarrow> body w = (Inr a, w') \<Longrightarrow> I w'"
  shows "keeps I (transaction conv body)"
proof (rule keepsI)
  fix w assume w: "I w"
  obtain r w' where r: "transaction conv body w = (r, w')" by fastforce
  show "I (snd (transaction conv body w))"
  proof (cases r)
    case (Inl e)
    with transaction_Inl r show ?thesis by (metis table_inv_rollback[OF I] snd_conv w)
  next
    case (Inr a)
    from r[unfolded Inr] obtain fs v fs' where "body (w\<lparr>faults := fs\<rparr>) = (Inr a, v)" "w' = v\<lparr>faults := fs'\<rparr>"
      by (rule transaction_InrE)
    then show ?thesis using body[of "w\<lparr>faults := fs\<rparr>" a v] w r by (simp add: table_inv_faults[OF I])
  qed
qed

lemma snd_sql_Inr:
  assumes "table_inv I" "I w" and "\<And>a w'. sql conv f w = (Inr a, w') \<Longrightarrow> I w'"
  shows "I (snd (sql conv f w))"
proof -
  obtain r w' where r: "sql conv f w = (r, w')" by fastforce
  show ?thesis
  proof (cases r)
    case (Inl e)
    with r assms(2) show ?thesis
      by (auto simp: sql_def run_stmt_def table_inv_faults[OF assms(1)] split: list.splits option.splits sum.splits prod.splits)
  next
    case (Inr a)
    with r assms(3) show ?thesis by simp
  qed
qed

lemma keeps_sql_Inr:
  assumes I: "table_inv I" and "\<And>w a w'. I w \<Longrightarrow> sql conv f w = (Inr a, w') \<Longrightarrow> I w'"
  shows "keeps I (sql conv f)"
  by (rule keepsI, rule snd_sql_Inr[OF I]) (use assms(2) in blast)+

end
