(* ===== verification/Dom_Time.thy ===== *)
theory Dom_Time
  imports Database
begin

text \<open>
  Opening hours (\<open>domain/src/hours.rs\<close>), the database function of the same meaning
  (\<open>migrations/0020_open_now_fn.sql\<close>) and freshness (\<open>domain/src/freshness.rs\<close>).

  Instants are microseconds since the epoch, wall-clock times microseconds since
  midnight.  The timezone database is outside the repository: \<open>local_of\<close> maps an
  instant to the local wall clock, again as microseconds since 1970-01-01 00:00.
\<close>

section \<open>Opening hours\<close>

record time_range =
  opens_at :: int
  closes_at :: int
  all_day :: bool

definition range_new :: "int \<Rightarrow> int \<Rightarrow> time_range" where
  "range_new a b = \<lparr>opens_at = a, closes_at = b, all_day = False\<rparr>"

definition range_all_day :: time_range where
  "range_all_day = \<lparr>opens_at = 0, closes_at = hours 23 + minutes 59 + seconds 59, all_day = True\<rparr>"

datatype opening_hours = UnknownHours | Weekly "(nat \<times> time_range) list"

datatype open_status = OpenNow | ClosedNow | UnknownStatus

definition is_unknown :: "opening_hours \<Rightarrow> bool" where
  "is_unknown h = (case h of UnknownHours \<Rightarrow> True | Weekly _ \<Rightarrow> False)"

text \<open>ISO weekday (1970-01-01 was a Thursday) and time of day of a local instant.\<close>

definition iso_weekday :: "int \<Rightarrow> nat" where
  "iso_weekday l = nat ((l div days 1 + 3) mod 7) + 1"

definition time_of_day :: "int \<Rightarrow> int" where
  "time_of_day l = l mod days 1"

definition prev_iso_day :: "nat \<Rightarrow> nat" where
  "prev_iso_day d = (if d = 1 then 7 else d - 1)"

definition overnight :: "time_range \<Rightarrow> bool" where
  "overnight r \<longleftrightarrow> \<not> all_day r \<and> closes_at r \<le> opens_at r"

text \<open>The loop of \<open>status_at\<close>, one branch per early return.\<close>

fun status_rows :: "nat \<Rightarrow> nat \<Rightarrow> int \<Rightarrow> (nat \<times> time_range) list \<Rightarrow> open_status" where
  "status_rows today yesterday t [] = ClosedNow"
| "status_rows today yesterday t ((day, rg) # rows) =
     (if day = today \<and> all_day rg then OpenNow
      else if day = today \<and> overnight rg \<and> opens_at rg \<le> t then OpenNow
      else if day = today \<and> \<not> overnight rg \<and> opens_at rg \<le> t \<and> t < closes_at rg then OpenNow
      else if day = yesterday \<and> overnight rg \<and> t < closes_at rg then OpenNow
      else status_rows today yesterday t rows)"

definition status_at :: "opening_hours \<Rightarrow> (int \<Rightarrow> int) \<Rightarrow> int \<Rightarrow> open_status" where
  "status_at h local_of inst =
     (case h of
        UnknownHours \<Rightarrow> UnknownStatus
      | Weekly rows \<Rightarrow>
          (let l = local_of inst; today = iso_weekday l
           in status_rows today (prev_iso_day today) (time_of_day l) rows))"

text \<open>\<open>rows_by_day\<close>: an array of seven vectors.\<close>

definition rows_by_day :: "opening_hours \<Rightarrow> time_range list list" where
  "rows_by_day h =
     (case h of
        UnknownHours \<Rightarrow> replicate 7 []
      | Weekly rows \<Rightarrow>
          foldl (\<lambda>dss (day, rg). if 1 \<le> day \<and> day \<le> 7
                                     then dss[day - 1 := dss ! (day - 1) @ [rg]] else dss)
            (replicate 7 []) rows)"

definition hms_s :: "int \<Rightarrow> int \<Rightarrow> int \<Rightarrow> int outcome" where
  "hms_s h m s =
     (if 0 \<le> h \<and> h < 24 \<and> 0 \<le> m \<and> m < 60 \<and> 0 \<le> s \<and> s < 60
      then Returned (hours h + minutes m + seconds s) else Panicked)"

definition local_day_and_time :: "int \<Rightarrow> (int \<Rightarrow> int) \<Rightarrow> nat \<times> int" where
  "local_day_and_time inst local_of =
     (iso_weekday (local_of inst), time_of_day (local_of inst) - time_of_day (local_of inst) mod seconds 1)"

text \<open>The database function: the rows of the location, the weekday of the local time
  and of the local time one day before, three arms for today and one for yesterday.\<close>

definition sql_is_open_at :: "(nat \<times> time_range) list \<Rightarrow> (int \<Rightarrow> int) \<Rightarrow> int \<Rightarrow> bool" where
  "sql_is_open_at rows local_of at_instant =
     (let local_ts = local_of at_instant;
          dow = iso_weekday local_ts;
          prev_dow = iso_weekday (local_ts - days 1);
          lt = time_of_day local_ts
      in list_ex (\<lambda>(day, oh).
           (day = dow \<and> (all_day oh
                          \<or> (opens_at oh \<le> lt \<and> lt < closes_at oh)
                          \<or> (closes_at oh \<le> opens_at oh \<and> opens_at oh \<le> lt)))
           \<or> (day = prev_dow \<and> \<not> all_day oh \<and> closes_at oh \<le> opens_at oh \<and> lt < closes_at oh)) rows)"

section \<open>Freshness\<close>

record freshness_thresholds =
  fresh_days :: int
  recent_days :: int
  aging_days :: int
  stale_days :: int

definition default_thresholds :: freshness_thresholds where
  "default_thresholds = \<lparr>fresh_days = 30, recent_days = 90, aging_days = 180, stale_days = 365\<rparr>"

datatype freshness = Fresh | RecentlyVerified | Aging | Stale | VeryStale | Never

definition freshness_code :: "freshness \<Rightarrow> ustring" where
  "freshness_code c =
     (case c of Fresh \<Rightarrow> lit ''fresh'' | RecentlyVerified \<Rightarrow> lit ''recently_verified''
      | Aging \<Rightarrow> lit ''aging'' | Stale \<Rightarrow> lit ''stale'' | VeryStale \<Rightarrow> lit ''very_stale''
      | Never \<Rightarrow> lit ''never'')"

text \<open>\<open>TimeDelta::num_days\<close> truncates towards zero.\<close>

definition num_days :: "int \<Rightarrow> int" where
  "num_days d = (if d < 0 then - ((- d) div days 1) else d div days 1)"

definition categorize :: "int option \<Rightarrow> int \<Rightarrow> freshness_thresholds \<Rightarrow> freshness" where
  "categorize last_verified_at inst th =
     (case last_verified_at of
        None \<Rightarrow> Never
      | Some verified \<Rightarrow>
          (let d = max 0 (num_days (inst - verified)) in
           if d < fresh_days th then Fresh
           else if d < recent_days th then RecentlyVerified
           else if d < aging_days th then Aging
           else if d < stale_days th then Stale
           else VeryStale))"

section \<open>What a row means: an interval of the week\<close>

text \<open>The specification of a weekly row, without weekdays: it starts at a moment of the
  week and lasts for a while, and the week is a circle.\<close>

definition week :: int where "week = days 7"

definition week_moment :: "int \<Rightarrow> int" where
  "week_moment l = (l + days 3) mod week"

definition row_start :: "nat \<times> time_range \<Rightarrow> int" where
  "row_start dr = days (int (fst dr) - 1) + (if all_day (snd dr) then 0 else opens_at (snd dr))"

definition row_duration :: "nat \<times> time_range \<Rightarrow> int" where
  "row_duration dr =
     (let r = snd dr in
      if all_day r then days 1
      else if closes_at r \<le> opens_at r then days 1 - opens_at r + closes_at r
      else closes_at r - opens_at r)"

definition row_covers :: "int \<Rightarrow> nat \<times> time_range \<Rightarrow> bool" where
  "row_covers w dr \<longleftrightarrow> (w - row_start dr) mod week < row_duration dr"

definition wf_row :: "nat \<times> time_range \<Rightarrow> bool" where
  "wf_row dr \<longleftrightarrow> 1 \<le> fst dr \<and> fst dr \<le> 7
     \<and> 0 \<le> opens_at (snd dr) \<and> opens_at (snd dr) < days 1
     \<and> 0 \<le> closes_at (snd dr) \<and> closes_at (snd dr) < days 1"

lemma iso_weekday_range: "1 \<le> iso_weekday l" "iso_weekday l \<le> 7"
  by (simp_all add: iso_weekday_def nat_le_iff)

lemma mod7_cases:
  fixes e :: int
  obtains k where "e mod 7 = int k" "k < 7" "(e - 1) mod 7 = int (if k = 0 then 6 else k - 1)"
proof -
  define k where "k = nat (e mod 7)"
  have k: "e mod 7 = int k" "k < 7" by (simp_all add: k_def)
  have "(e - 1) mod 7 = (int k - 1) mod 7"
    unfolding k(1)[symmetric] by (rule mod_diff_left_eq[symmetric])
  also have "\<dots> = int (if k = 0 then 6 else k - 1)"
    using k(2) by (cases k) (auto intro: mod_pos_pos_trivial)
  finally show thesis using k that by blast
qed

lemma iso_weekday_prev: "iso_weekday (l - days 1) = prev_iso_day (iso_weekday l)"
proof -
  have e: "(l - days 1) div days 1 + 3 = l div days 1 + 3 - 1"
    using div_mult_self1[of "days 1" l "- 1"] by (simp add: time_units)
  obtain k where k: "(l div days 1 + 3) mod 7 = int k" "k < 7"
    "(l div days 1 + 3 - 1) mod 7 = int (if k = 0 then 6 else k - 1)"
    by (rule mod7_cases)
  show ?thesis unfolding iso_weekday_def e k prev_iso_day_def by (cases k) simp_all
qed

lemma status_rows_iff:
  "status_rows today yest t rows = OpenNow \<longleftrightarrow>
   list_ex (\<lambda>(d, r). d = today \<and> (all_day r \<or> overnight r \<and> opens_at r \<le> t
                         \<or> \<not> overnight r \<and> opens_at r \<le> t \<and> t < closes_at r)
                     \<or> d = yest \<and> overnight r \<and> t < closes_at r) rows"
  by (induction today yest t rows rule: status_rows.induct) auto

lemma status_rows_cases: "status_rows today yest t rows = OpenNow \<or> status_rows today yest t rows = ClosedNow"
  by (induction today yest t rows rule: status_rows.induct) auto

lemma list_ex_cong_ball: "(\<And>x. x \<in> set xs \<Longrightarrow> P x = Q x) \<Longrightarrow> list_ex P xs = list_ex Q xs"
  by (induction xs) auto

text \<open>The moment of the week, split into weekday and time of day.\<close>

lemma week_moment_split:
  "week_moment l = days (int (iso_weekday l) - 1) + time_of_day l"
proof -
  define d t where "d = l div days 1" and "t = l mod days 1"
  have l: "l = d * days 1 + t" and t: "0 \<le> t" "t < days 1"
    by (simp_all add: d_def t_def time_units)
  have "(l + days 3) mod week = ((d + 3) * 86400000000 + t) mod (86400000000 * 7)"
    using l by (simp add: week_def time_units algebra_simps)
  also have "\<dots> = 86400000000 * (((d + 3) * 86400000000 + t) div 86400000000 mod 7)
                  + ((d + 3) * 86400000000 + t) mod 86400000000"
    by (rule zmod_zmult2_eq) simp
  also have "((d + 3) * 86400000000 + t) div 86400000000 = d + 3"
    using t by (simp add: time_units)
  also have "((d + 3) * 86400000000 + t) mod 86400000000 = t"
    using t by (subst mod_mult_self3) (simp add: time_units)
  finally show ?thesis
    unfolding week_moment_def by (simp add: iso_weekday_def time_of_day_def d_def t_def time_units)
qed

lemma row_covers_iff:
  assumes wf: "wf_row (d, r)" and T: "1 \<le> today" "today \<le> 7" and t: "0 \<le> t" "t < days 1"
  shows "row_covers (days (int today - 1) + t) (d, r) \<longleftrightarrow>
     d = today \<and> (all_day r \<or> overnight r \<and> opens_at r \<le> t
                  \<or> \<not> overnight r \<and> opens_at r \<le> t \<and> t < closes_at r)
     \<or> d = prev_iso_day today \<and> overnight r \<and> t < closes_at r"
proof -
  have shift: "(x :: int) mod week = (if x < 0 then x + week else x)" if "- week \<le> x" "x < week" for x
    using that mod_pos_pos_trivial[of x week] mod_pos_pos_trivial[of "x + week" week]
    by (auto simp: week_def time_units)
  define s where "s = row_start (d, r)"
  have s: "0 \<le> s" "s < week"
    using wf by (auto simp: s_def row_start_def wf_row_def week_def time_units)
  have m: "- week \<le> days (int today - 1) + t - s" "days (int today - 1) + t - s < week"
    using s T t by (auto simp: week_def time_units)
  define D where "D = int today - int d"
  define off where "off = (if all_day r then 0 else opens_at r)"
  have x: "days (int today - 1) + t - s = days D + (t - off)"
    by (simp add: s_def row_start_def D_def off_def time_units algebra_simps)
  have off: "0 \<le> off" "off < days 1" using wf by (auto simp: off_def wf_row_def time_units)
  have D: "- 6 \<le> D" "D \<le> 6" using wf T by (auto simp: D_def wf_row_def)
  have dur: "row_duration (d, r) \<le> days 1"
    using wf by (auto simp: row_duration_def wf_row_def Let_def)
  have today: "d = today \<longleftrightarrow> D = 0" by (auto simp: D_def)
  have yest: "d = prev_iso_day today \<longleftrightarrow> D = 1 \<or> D = - 6"
    using wf T by (auto simp: D_def prev_iso_day_def wf_row_def)
  have cov: "row_covers (days (int today - 1) + t) (d, r) \<longleftrightarrow>
      (if days D + (t - off) < 0 then days D + (t - off) + week else days D + (t - off)) < row_duration (d, r)"
    using m unfolding row_covers_def s_def[symmetric] by (simp only: shift x)
  consider "D = 0" | "D = 1 \<or> D = - 6" | "2 \<le> D" | "- 5 \<le> D \<and> D < 0" using D by linarith
  then show ?thesis
  proof cases
    case 1
    then show ?thesis using wf t unfolding cov today yest
      by (auto simp: off_def row_duration_def overnight_def wf_row_def week_def Let_def time_units)
  next
    case 2
    then show ?thesis using wf t unfolding cov today yest
      by (auto simp: off_def row_duration_def overnight_def wf_row_def week_def Let_def time_units)
  next
    case 3
    then have "\<not> row_covers (days (int today - 1) + t) (d, r)"
      using off t dur unfolding cov by (auto simp: time_units)
    then show ?thesis using 3 today yest by auto
  next
    case 4
    then have "\<not> row_covers (days (int today - 1) + t) (d, r)"
      using off t dur unfolding cov by (auto simp: week_def time_units)
    then show ?thesis using 4 today yest by auto
  qed
qed

lemma num_days_mono: "a \<le> b \<Longrightarrow> max 0 (num_days a) \<le> max 0 (num_days b)"
  by (auto simp: num_days_def max_def time_units zdiv_mono1 pos_imp_zdiv_nonneg_iff)

text \<open>The age of information, from freshest to never verified.\<close>

definition freshness_rank :: "freshness \<Rightarrow> nat" where
  "freshness_rank c =
     (case c of Fresh \<Rightarrow> 0 | RecentlyVerified \<Rightarrow> 1 | Aging \<Rightarrow> 2 | Stale \<Rightarrow> 3 | VeryStale \<Rightarrow> 4 | Never \<Rightarrow> 5)"

section \<open>Properties\<close>

lemma status_at_sql:
  "status_at (Weekly rows) local_of inst = (if sql_is_open_at rows local_of inst then OpenNow else ClosedNow)
   \<and> status_at UnknownHours local_of inst = UnknownStatus \<and> \<not> sql_is_open_at [] local_of inst"
proof -
  have "status_at (Weekly rows) local_of inst = OpenNow \<longleftrightarrow> sql_is_open_at rows local_of inst"
    unfolding status_at_def sql_is_open_at_def Let_def opening_hours.case status_rows_iff iso_weekday_prev
    by (rule list_ex_cong_ball) (auto simp: overnight_def)
  moreover have "status_at (Weekly rows) local_of inst = OpenNow \<or> status_at (Weekly rows) local_of inst = ClosedNow"
    using status_rows_cases by (simp add: status_at_def Let_def)
  ultimately show ?thesis by (auto simp: status_at_def sql_is_open_at_def)
qed

text \<open>C39: the two implementations of "open now" agree: the domain's loop over the rows
  answers \<open>Open\<close> exactly when the database function of migration 0020 answers true on
  the same rows, in every timezone and at every instant.\<close>

theorem status_at_matches_sql:
  "status_at (Weekly rows) local_of inst = (if sql_is_open_at rows local_of inst then OpenNow else ClosedNow)
   \<and> status_at UnknownHours local_of inst = UnknownStatus \<and> \<not> sql_is_open_at [] local_of inst"
  by (rule status_at_sql)

text \<open>C38: the weekday-and-wall-clock loop implements the intended meaning of a schedule:
  each row is an interval on the circle of the week (starting on its day, lasting past
  midnight when it closes no later than it opens, a whole day when marked all-day), and
  the location is open exactly when the current moment of the week lies in some
  row's interval.\<close>

theorem status_at_is_week_interval:
  assumes "\<forall>row \<in> set rows. wf_row row"
  shows "status_at (Weekly rows) local_of inst = OpenNow
           \<longleftrightarrow> (\<exists>row \<in> set rows. row_covers (week_moment (local_of inst)) row)"
proof -
  let ?l = "local_of inst"
  have t: "0 \<le> time_of_day ?l" "time_of_day ?l < days 1" by (simp_all add: time_of_day_def time_units)
  have "status_at (Weekly rows) local_of inst = OpenNow
      \<longleftrightarrow> list_ex (row_covers (days (int (iso_weekday ?l) - 1) + time_of_day ?l)) rows"
    unfolding status_at_def Let_def opening_hours.case status_rows_iff
  proof (rule list_ex_cong_ball)
    fix dr assume "dr \<in> set rows"
    with assms have "wf_row (fst dr, snd dr)" by simp
    from row_covers_iff[OF this iso_weekday_range t]
    show "(case dr of (d, r) \<Rightarrow> d = iso_weekday ?l \<and> (all_day r \<or> overnight r \<and> opens_at r \<le> time_of_day ?l
            \<or> \<not> overnight r \<and> opens_at r \<le> time_of_day ?l \<and> time_of_day ?l < closes_at r)
          \<or> d = prev_iso_day (iso_weekday ?l) \<and> overnight r \<and> time_of_day ?l < closes_at r)
        = row_covers (days (int (iso_weekday ?l) - 1) + time_of_day ?l) dr"
      by (simp add: case_prod_beta)
  qed
  then show ?thesis by (simp add: week_moment_split list_ex_iff)
qed

theorem status_at_is_week_interval_witness:
  "status_at (Weekly [(7, range_new (hours 22) (hours 2))]) id (days 4 + hours 1) = OpenNow"
proof -
  have "\<forall>row \<in> set [(7, range_new (hours 22) (hours 2))]. wf_row row"
    by (simp add: wf_row_def range_new_def time_units)
  from status_at_is_week_interval[OF this, of id "days 4 + hours 1"] show ?thesis
    by (simp add: row_covers_def row_start_def row_duration_def range_new_def week_moment_def week_def
        time_units)
qed

text \<open>Freshness only decays: with the thresholds in order, the category of a
  verification never gets fresher as time passes, and an older verification is never
  fresher than a newer one.\<close>

lemma categorize_decays:
  assumes "fresh_days th \<le> recent_days th" "recent_days th \<le> aging_days th" "aging_days th \<le> stale_days th"
    and "v' \<le> v" "inst \<le> inst'"
  shows "freshness_rank (categorize (Some v) inst th) \<le> freshness_rank (categorize (Some v') inst' th)"
proof -
  define d d' where "d = max 0 (num_days (inst - v))" and "d' = max 0 (num_days (inst' - v'))"
  have "d \<le> d'" using assms unfolding d_def d'_def by (intro num_days_mono) simp
  with assms(1,2,3) show ?thesis
    unfolding categorize_def option.case Let_def d_def[symmetric] d'_def[symmetric]
    by (auto simp: freshness_rank_def)
qed

lemma categorize_decays_witness:
  "freshness_rank (categorize (Some 0) (days 29) default_thresholds)
     \<le> freshness_rank (categorize (Some 0) (days 200) default_thresholds)
   \<and> categorize (Some 0) (days 29) default_thresholds = Fresh
   \<and> categorize (Some 0) (days 200) default_thresholds = Stale"
  using categorize_decays[of default_thresholds 0 0 "days 29" "days 200"]
  by (simp add: default_thresholds_def categorize_def num_days_def time_units)

end
