(* ===== verification/Dom_Parking.thy ===== *)
theory Dom_Parking
  imports Dom_Identity Dom_Time
begin

text \<open>
  The parking location of the domain crate (\<open>domain/src/parking.rs\<close>): validated
  coordinates, type, cost, security features, moderation state, rating and the
  aggregate.  A text \<open>from_code\<close> of this file answers \<open>Err(Invalid(..))\<close> on an unknown
  code; \<open>ok\<close> turns it into the option the codec contract speaks of.  The haversine
  distance is floating-point trigonometry and is not modelled.
\<close>

section \<open>Coordinates\<close>

record geo_point =
  gp_lat :: f64
  gp_lon :: f64

definition geo_point_new :: "f64 \<Rightarrow> f64 \<Rightarrow> domain_error + geo_point" where
  "geo_point_new lat lon =
     (if \<not> f64_within (- 90) 90 lat \<or> \<not> f64_within (- 180) 180 lon
      then Inl (Invalid (lit ''coordinates out of range''))
      else Inr \<lparr>gp_lat = lat, gp_lon = lon\<rparr>)"

section \<open>Enumerations\<close>

datatype parking_type = Rack | ParkingFacility | Indoor | Secured | Locker | OtherType

definition parking_type_code :: "parking_type \<Rightarrow> ustring" where
  "parking_type_code t =
     (case t of Rack \<Rightarrow> lit ''rack'' | ParkingFacility \<Rightarrow> lit ''parking_facility''
      | Indoor \<Rightarrow> lit ''indoor'' | Secured \<Rightarrow> lit ''secured'' | Locker \<Rightarrow> lit ''locker''
      | OtherType \<Rightarrow> lit ''other'')"

definition parking_type_from :: "ustring \<Rightarrow> domain_error + parking_type" where
  "parking_type_from c =
     (if c = lit ''rack'' then Inr Rack
      else if c = lit ''parking_facility'' then Inr ParkingFacility
      else if c = lit ''indoor'' then Inr Indoor
      else if c = lit ''secured'' then Inr Secured
      else if c = lit ''locker'' then Inr Locker
      else if c = lit ''other'' then Inr OtherType
      else Inl (Invalid (lit ''unknown parking type: '' @ c)))"

definition all_parking_types :: "parking_type list" where
  "all_parking_types = [Rack, ParkingFacility, Indoor, Secured, Locker, OtherType]"

datatype pricing_unit = Hour | Day | Month | Entry

definition pricing_unit_code :: "pricing_unit \<Rightarrow> ustring" where
  "pricing_unit_code u =
     (case u of Hour \<Rightarrow> lit ''hour'' | Day \<Rightarrow> lit ''day'' | Month \<Rightarrow> lit ''month'' | Entry \<Rightarrow> lit ''entry'')"

definition pricing_unit_from :: "ustring \<Rightarrow> domain_error + pricing_unit" where
  "pricing_unit_from c =
     (if c = lit ''hour'' then Inr Hour
      else if c = lit ''day'' then Inr Day
      else if c = lit ''month'' then Inr Month
      else if c = lit ''entry'' then Inr Entry
      else Inl (Invalid (lit ''unknown pricing unit: '' @ c)))"

datatype moderation_state = MActive | MPendingReview | MFlagged | MInvalid | MRemoved

definition moderation_state_code :: "moderation_state \<Rightarrow> ustring" where
  "moderation_state_code s =
     (case s of MActive \<Rightarrow> lit ''ACTIVE'' | MPendingReview \<Rightarrow> lit ''PENDING_REVIEW''
      | MFlagged \<Rightarrow> lit ''FLAGGED'' | MInvalid \<Rightarrow> lit ''INVALID'' | MRemoved \<Rightarrow> lit ''REMOVED'')"

definition moderation_state_from :: "ustring \<Rightarrow> domain_error + moderation_state" where
  "moderation_state_from c =
     (if c = lit ''ACTIVE'' then Inr MActive
      else if c = lit ''PENDING_REVIEW'' then Inr MPendingReview
      else if c = lit ''FLAGGED'' then Inr MFlagged
      else if c = lit ''INVALID'' then Inr MInvalid
      else if c = lit ''REMOVED'' then Inr MRemoved
      else Inl (Invalid (lit ''unknown moderation state: '' @ c)))"

definition location_publicly_visible :: "moderation_state \<Rightarrow> bool" where
  "location_publicly_visible s \<longleftrightarrow> s = MActive"

lemmas parking_codes [codes] =
  parking_type_code_def parking_type_from_def pricing_unit_code_def pricing_unit_from_def
  moderation_state_code_def moderation_state_from_def

interpretation parking_type: code_enum parking_type_code "\<lambda>c. ok (parking_type_from c)"
  by unfold_locales (auto simp: codes split: parking_type.splits if_splits)

interpretation pricing_unit: code_enum pricing_unit_code "\<lambda>c. ok (pricing_unit_from c)"
  by unfold_locales (auto simp: codes split: pricing_unit.splits if_splits)

interpretation moderation_state: code_enum moderation_state_code "\<lambda>c. ok (moderation_state_from c)"
  by unfold_locales (auto simp: codes split: moderation_state.splits if_splits)

section \<open>Cost\<close>

definition is_ascii_alphabetic :: "uchar \<Rightarrow> bool" where
  "is_ascii_alphabetic c \<longleftrightarrow> 65 \<le> c \<and> c \<le> 90 \<or> 97 \<le> c \<and> c \<le> 122"

definition parse_currency :: "ustring \<Rightarrow> domain_error + ustring" where
  "parse_currency raw =
     (let code = to_ascii_uppercase (trim raw) in
      if str_len code = 3 \<and> list_all is_ascii_alphabetic code then Inr code
      else Inl (Invalid (lit ''invalid currency code: '' @ code)))"

record money =
  cents :: int
  currency :: ustring
  unit_of :: pricing_unit

datatype cost = FreeCost | PaidCost "money option" | UnknownCost

definition cost_kind_code :: "cost \<Rightarrow> ustring" where
  "cost_kind_code c =
     (case c of FreeCost \<Rightarrow> lit ''free'' | PaidCost _ \<Rightarrow> lit ''paid'' | UnknownCost \<Rightarrow> lit ''unknown'')"

definition cost_from_kind_and_price :: "ustring \<Rightarrow> money option \<Rightarrow> domain_error + cost" where
  "cost_from_kind_and_price kind price =
     (if kind = lit ''free'' then Inr FreeCost
      else if kind = lit ''paid'' then Inr (PaidCost price)
      else if kind = lit ''unknown'' then Inr UnknownCost
      else Inl (Invalid (lit ''unknown cost kind: '' @ kind)))"

text \<open>The price columns of a stored cost.\<close>

definition cost_price :: "cost \<Rightarrow> money option" where
  "cost_price c = (case c of PaidCost p \<Rightarrow> p | _ \<Rightarrow> None)"

section \<open>Security\<close>

datatype security_state = SecUnknown | SecYes | SecNo

definition security_state_from_smallint :: "int \<Rightarrow> domain_error + security_state" where
  "security_state_from_smallint v =
     (if v = 0 then Inr SecUnknown
      else if v = 1 then Inr SecYes
      else if v = 2 then Inr SecNo
      else Inl (Invalid (lit ''unknown security state: '' @ show_int v)))"

definition security_feature_codes :: "ustring list" where
  "security_feature_codes =
     [lit ''dedicated_locking_point'', lit ''indoor'', lit ''cctv'', lit ''staffed'',
      lit ''security_guard'', lit ''controlled_access'', lit ''well_lit'', lit ''restricted_access'']"

definition is_known_security_code :: "ustring \<Rightarrow> bool" where
  "is_known_security_code c \<longleftrightarrow> c \<in> set security_feature_codes"

record security_feature =
  sf_code :: ustring
  sf_state :: security_state

section \<open>Rating\<close>

record rating =
  r_avg :: "f64 option"
  r_count :: int

definition rating_new :: "f64 option \<Rightarrow> int \<Rightarrow> domain_error + rating" where
  "rating_new avg n =
     (if (case avg of Some a \<Rightarrow> \<not> f64_within 0 5 a | None \<Rightarrow> False)
      then Inl (Invalid (lit ''rating avg out of range''))
      else if n < 0 then Inl (Invalid (lit ''negative rating count''))
      else Inr \<lparr>r_avg = (if n = 0 then None else avg), r_count = n\<rparr>)"

section \<open>The aggregate\<close>

record parking_location =
  pl_id :: int
  pl_name :: ustring
  pl_address :: ustring
  pl_description :: "ustring option"
  pl_type :: parking_type
  pl_cost :: cost
  pl_point :: geo_point
  pl_timezone :: ustring
  pl_hours :: opening_hours
  pl_security :: "security_feature list"
  pl_moderation :: moderation_state
  pl_rating :: rating
  pl_created_at :: int
  pl_updated_at :: int
  pl_meaningful_update_at :: "int option"
  pl_verified_at :: "int option"
  pl_version :: int

text \<open>\<open>ParkingLocation::new\<close> on the record of its arguments: only the name and the address
  are checked and trimmed.\<close>

definition parking_location_new :: "parking_location \<Rightarrow> domain_error + parking_location" where
  "parking_location_new a =
     (if trim (pl_name a) = [] then Inl (Invalid (lit ''name is required''))
      else if trim (pl_address a) = [] then Inl (Invalid (lit ''address is required''))
      else Inr (a\<lparr>pl_name := trim (pl_name a), pl_address := trim (pl_address a)\<rparr>))"

section \<open>What the constructors guarantee\<close>

definition wf_geo_point :: "geo_point \<Rightarrow> bool" where
  "wf_geo_point p \<longleftrightarrow> (\<exists>x y. gp_lat p = Fin x \<and> gp_lon p = Fin y \<and> \<bar>x\<bar> \<le> 90 \<and> \<bar>y\<bar> \<le> 180)"

definition wf_rating :: "rating \<Rightarrow> bool" where
  "wf_rating r \<longleftrightarrow> 0 \<le> r_count r \<and> (r_count r = 0 \<longrightarrow> r_avg r = None)
     \<and> (\<forall>a. r_avg r = Some a \<longrightarrow> (\<exists>q. a = Fin q \<and> 0 \<le> q \<and> q \<le> 5))"

definition wf_currency :: "ustring \<Rightarrow> bool" where
  "wf_currency c \<longleftrightarrow> length c = 3 \<and> (\<forall>x \<in> set c. 65 \<le> x \<and> x \<le> 90)"

lemma geo_point_new_wf: "geo_point_new lat lon = Inr p \<Longrightarrow> wf_geo_point p"
  by (auto simp: geo_point_new_def wf_geo_point_def abs_le_iff split: if_splits elim!: f64_withinE)

lemma rating_new_wf: "rating_new avg n = Inr r \<Longrightarrow> wf_rating r"
  by (auto simp: rating_new_def wf_rating_def split: if_splits option.splits elim!: f64_withinE)

lemma upper_alpha_range: "is_ascii_alphabetic (to_ascii_upper_char c) \<Longrightarrow>
    65 \<le> to_ascii_upper_char c \<and> to_ascii_upper_char c \<le> 90"
  by (auto simp: is_ascii_alphabetic_def to_ascii_upper_char_def split: if_splits)

lemma parse_currency_wf: "parse_currency raw = Inr c \<Longrightarrow> wf_currency c"
proof -
  assume h: "parse_currency raw = Inr c"
  then have c: "c = to_ascii_uppercase (trim raw)" "str_len c = 3" "list_all is_ascii_alphabetic c"
    by (auto simp: parse_currency_def Let_def split: if_splits)
  then have "is_ascii c" by (auto simp: is_ascii_def list_all_iff is_ascii_alphabetic_def)
  with c have "length c = 3" by (simp add: str_len_ascii)
  moreover have "\<forall>x \<in> set c. 65 \<le> x \<and> x \<le> 90"
    using c upper_alpha_range by (auto simp: list_all_iff to_ascii_uppercase_def)
  ultimately show ?thesis by (simp add: wf_currency_def)
qed

lemma parse_currency_fixpoint:
  assumes "wf_currency c" shows "parse_currency c = Inr c"
proof -
  have r: "\<forall>x \<in> set c. 65 \<le> x \<and> x \<le> 90" and l: "length c = 3"
    using assms by (auto simp: wf_currency_def)
  then have ne: "c \<noteq> []" by auto
  have "trim c = c"
    using r hd_in_set[OF ne] last_in_set[OF ne]
    by (intro trim_id) (fastforce simp: is_whitespace_def)
  moreover have "to_ascii_uppercase c = c"
    unfolding to_ascii_uppercase_def using r by (intro map_idI) (auto simp: to_ascii_upper_char_def)
  moreover have "str_len c = 3"
    using r l by (subst str_len_ascii) (fastforce simp: is_ascii_def)+
  ultimately show ?thesis
    using r by (auto simp: parse_currency_def list_all_iff is_ascii_alphabetic_def)
qed

lemma cost_roundtrip: "cost_from_kind_and_price (cost_kind_code c) (cost_price c) = Inr c"
  by (cases c) (simp_all add: cost_from_kind_and_price_def cost_kind_code_def cost_price_def)

end
