(* ===== verification/Dom_Community.thy ===== *)
theory Dom_Community
  imports Dom_Identity Dom_Time
begin

text \<open>
  Community contributions of the domain crate (\<open>domain/src/community.rs\<close>): star
  rating, review body, verification kinds and results, proposals with their JSON
  payload, proposal status, change kinds, and the confidence rule.

  A \<open>serde_json::Value\<close> is the datatype \<open>json\<close>; an object is its list of members, read
  by \<open>jget\<close>.  Integers convert to \<open>f64\<close> exactly here; Rust rounds above \<open>2^53\<close>, which
  is outside every range that is tested afterwards.
\<close>

section \<open>Star rating and review body\<close>

definition star_rating_new :: "byte \<Rightarrow> domain_error + byte" where
  "star_rating_new v =
     (if \<not> (1 \<le> v \<and> v \<le> 5)
      then Inl (Invalid (lit ''rating must be between 1 and 5: '' @ show_nat (unat v)))
      else Inr v)"

text \<open>\<open>value as u8\<close> of an \<open>i16\<close> keeps the low byte.\<close>

definition star_rating_from_smallint :: "16 word \<Rightarrow> domain_error + byte" where
  "star_rating_from_smallint v =
     (if \<not> (1 \<le> sint v \<and> sint v \<le> 5)
      then Inl (Invalid (lit ''rating must be between 1 and 5: '' @ show_int (sint v)))
      else Inr (ucast v))"

definition star_rating_as_i16 :: "byte \<Rightarrow> 16 word" where
  "star_rating_as_i16 r = ucast r"

definition review_body_new :: "ustring \<Rightarrow> domain_error + ustring" where
  "review_body_new raw =
     (let trimmed = trim raw; n = length trimmed in
      if \<not> (1 \<le> n \<and> n \<le> 2000)
      then Inl (Invalid (lit ''review body must be 1..=2000 characters: '' @ show_nat n))
      else Inr trimmed)"

section \<open>Verification kinds and results\<close>

datatype verification_kind = VExistence | VAttribute | VParkedHere

definition verification_kind_code :: "verification_kind \<Rightarrow> ustring" where
  "verification_kind_code k =
     (case k of VExistence \<Rightarrow> lit ''existence'' | VAttribute \<Rightarrow> lit ''attribute''
      | VParkedHere \<Rightarrow> lit ''parked_here'')"

definition verification_kind_from :: "ustring \<Rightarrow> domain_error + verification_kind" where
  "verification_kind_from c =
     (if c = lit ''existence'' then Inr VExistence
      else if c = lit ''attribute'' then Inr VAttribute
      else if c = lit ''parked_here'' then Inr VParkedHere
      else Inl (Invalid (lit ''unknown verification kind: '' @ c)))"

datatype existence_result = StillExists | NoLongerExists | InfoChanged

definition existence_result_code :: "existence_result \<Rightarrow> ustring" where
  "existence_result_code r =
     (case r of StillExists \<Rightarrow> lit ''still_exists'' | NoLongerExists \<Rightarrow> lit ''no_longer_exists''
      | InfoChanged \<Rightarrow> lit ''info_changed'')"

definition existence_result_from :: "ustring \<Rightarrow> domain_error + existence_result" where
  "existence_result_from c =
     (if c = lit ''still_exists'' then Inr StillExists
      else if c = lit ''no_longer_exists'' then Inr NoLongerExists
      else if c = lit ''info_changed'' then Inr InfoChanged
      else Inl (Invalid (lit ''unknown existence result: '' @ c)))"

datatype attribute_result = Correct | Incorrect

definition attribute_result_code :: "attribute_result \<Rightarrow> ustring" where
  "attribute_result_code r = (case r of Correct \<Rightarrow> lit ''correct'' | Incorrect \<Rightarrow> lit ''incorrect'')"

definition attribute_result_from :: "ustring \<Rightarrow> domain_error + attribute_result" where
  "attribute_result_from c =
     (if c = lit ''correct'' then Inr Correct
      else if c = lit ''incorrect'' then Inr Incorrect
      else Inl (Invalid (lit ''unknown attribute result: '' @ c)))"

definition attribute_codes :: "ustring list" where
  "attribute_codes =
     [lit ''name'', lit ''address'', lit ''type'', lit ''cost'', lit ''hours'', lit ''security'', lit ''location'']"

definition is_known_attribute_code :: "ustring \<Rightarrow> bool" where
  "is_known_attribute_code c \<longleftrightarrow> c \<in> set attribute_codes"

section \<open>JSON\<close>

datatype json =
    JNull | JBool bool | JInt int | JFloat f64 | JString ustring | JArray "json list"
  | JObject "(ustring \<times> json) list"

definition jget :: "ustring \<Rightarrow> json \<Rightarrow> json option" where
  "jget k j = (case j of JObject ms \<Rightarrow> map_of ms k | _ \<Rightarrow> None)"

definition as_f64 :: "json \<Rightarrow> f64 option" where
  "as_f64 j = (case j of JInt n \<Rightarrow> Some (Fin (of_int n)) | JFloat x \<Rightarrow> Some x | _ \<Rightarrow> None)"

definition as_str :: "json \<Rightarrow> ustring option" where
  "as_str j = (case j of JString s \<Rightarrow> Some s | _ \<Rightarrow> None)"

definition as_bool :: "json \<Rightarrow> bool option" where
  "as_bool j = (case j of JBool b \<Rightarrow> Some b | _ \<Rightarrow> None)"

text \<open>\<open>json!\<close> of an \<open>f64\<close>: a number cannot be infinite or NaN.\<close>

definition json_of_f64 :: "f64 \<Rightarrow> json" where
  "json_of_f64 x = (case x of Fin _ \<Rightarrow> JFloat x | _ \<Rightarrow> JNull)"

section \<open>Proposals\<close>

datatype proposal_kind = MoveLocationKind | ChangeExistenceKind

definition proposal_kind_code :: "proposal_kind \<Rightarrow> ustring" where
  "proposal_kind_code k =
     (case k of MoveLocationKind \<Rightarrow> lit ''move_location'' | ChangeExistenceKind \<Rightarrow> lit ''change_existence'')"

definition proposal_kind_from :: "ustring \<Rightarrow> domain_error + proposal_kind" where
  "proposal_kind_from c =
     (if c = lit ''move_location'' then Inr MoveLocationKind
      else if c = lit ''change_existence'' then Inr ChangeExistenceKind
      else Inl (Invalid (lit ''unknown proposal kind: '' @ c)))"

datatype proposed_change =
    MoveLocation f64 f64 "ustring option"
  | ChangeExistence bool
  | UnknownChange

definition change_kind_of :: "proposed_change \<Rightarrow> proposal_kind option" where
  "change_kind_of c =
     (case c of MoveLocation _ _ _ \<Rightarrow> Some MoveLocationKind
      | ChangeExistence _ \<Rightarrow> Some ChangeExistenceKind | UnknownChange \<Rightarrow> None)"

definition coords_in_range :: "f64 \<Rightarrow> f64 \<Rightarrow> bool" where
  "coords_in_range lat lon \<longleftrightarrow>
     f64_finite lat \<and> f64_finite lon \<and> f64_within (- 90) 90 lat \<and> f64_within (- 180) 180 lon"

text \<open>\<open>.map(str::trim).filter(|s| !s.is_empty())\<close>\<close>

definition trimmed_nonempty :: "ustring option \<Rightarrow> ustring option" where
  "trimmed_nonempty x =
     (case x of None \<Rightarrow> None | Some s \<Rightarrow> if trim s = [] then None else Some (trim s))"

definition change_from_json :: "proposal_kind \<Rightarrow> json \<Rightarrow> proposed_change" where
  "change_from_json kind raw =
     (case kind of
        MoveLocationKind \<Rightarrow>
          (case (Option.bind (jget (lit ''lat'') raw) as_f64, Option.bind (jget (lit ''lon'') raw) as_f64) of
             (Some lat, Some lon) \<Rightarrow>
               if coords_in_range lat lon
               then MoveLocation lat lon (trimmed_nonempty (Option.bind (jget (lit ''timezone'') raw) as_str))
               else UnknownChange
           | _ \<Rightarrow> UnknownChange)
      | ChangeExistenceKind \<Rightarrow>
          (case Option.bind (jget (lit ''existence'') raw) as_str of
             Some code \<Rightarrow>
               if code = lit ''exists'' then ChangeExistence True
               else if code = lit ''removed'' then ChangeExistence False
               else UnknownChange
           | None \<Rightarrow>
               (case Option.bind (jget (lit ''exists'') raw) as_bool of
                  Some exists \<Rightarrow> ChangeExistence exists
                | None \<Rightarrow> UnknownChange)))"

definition change_members :: "proposed_change \<Rightarrow> (ustring \<times> json) list" where
  "change_members c =
     (case c of
        MoveLocation lat lon tz \<Rightarrow>
          (case tz of
             Some z \<Rightarrow> [(lit ''lat'', json_of_f64 lat), (lit ''lon'', json_of_f64 lon), (lit ''timezone'', JString z)]
           | None \<Rightarrow> [(lit ''lat'', json_of_f64 lat), (lit ''lon'', json_of_f64 lon)])
      | ChangeExistence exists \<Rightarrow>
          [(lit ''existence'', JString (if exists then lit ''exists'' else lit ''removed''))]
      | UnknownChange \<Rightarrow> [])"

definition change_to_json :: "proposed_change \<Rightarrow> json" where
  "change_to_json c = JObject (change_members c)"

record proposal_payload =
  pp_change :: proposed_change
  pp_reason :: "ustring option"

definition payload_new :: "proposed_change \<Rightarrow> ustring option \<Rightarrow> proposal_payload" where
  "payload_new c reason = \<lparr>pp_change = c, pp_reason = trimmed_nonempty reason\<rparr>"

definition payload_from_json :: "proposal_kind \<Rightarrow> json \<Rightarrow> proposal_payload" where
  "payload_from_json kind raw =
     payload_new (change_from_json kind raw) (Option.bind (jget (lit ''reason'') raw) as_str)"

text \<open>\<open>insert\<close> on an object replaces a member of the same name.\<close>

definition payload_to_json :: "proposal_payload \<Rightarrow> json" where
  "payload_to_json p =
     (case (change_to_json (pp_change p), pp_reason p) of
        (JObject ms, Some reason) \<Rightarrow> JObject ((lit ''reason'', JString reason) # ms)
      | (out, _) \<Rightarrow> out)"

datatype proposal_status = PPending | PApproved | PRejected | PSuperseded

definition proposal_status_code :: "proposal_status \<Rightarrow> ustring" where
  "proposal_status_code s =
     (case s of PPending \<Rightarrow> lit ''PENDING'' | PApproved \<Rightarrow> lit ''APPROVED''
      | PRejected \<Rightarrow> lit ''REJECTED'' | PSuperseded \<Rightarrow> lit ''SUPERSEDED'')"

definition proposal_status_from :: "ustring \<Rightarrow> domain_error + proposal_status" where
  "proposal_status_from c =
     (if c = lit ''PENDING'' then Inr PPending
      else if c = lit ''APPROVED'' then Inr PApproved
      else if c = lit ''REJECTED'' then Inr PRejected
      else if c = lit ''SUPERSEDED'' then Inr PSuperseded
      else Inl (Invalid (lit ''unknown proposal status: '' @ c)))"

datatype change_kind = CKCreate | CKEdit | CKModeration | CKVerification

definition change_kind_code :: "change_kind \<Rightarrow> ustring" where
  "change_kind_code k =
     (case k of CKCreate \<Rightarrow> lit ''create'' | CKEdit \<Rightarrow> lit ''edit''
      | CKModeration \<Rightarrow> lit ''moderation'' | CKVerification \<Rightarrow> lit ''verification'')"

definition change_kind_from :: "ustring \<Rightarrow> domain_error + change_kind" where
  "change_kind_from c =
     (if c = lit ''create'' then Inr CKCreate
      else if c = lit ''edit'' then Inr CKEdit
      else if c = lit ''moderation'' then Inr CKModeration
      else if c = lit ''verification'' then Inr CKVerification
      else Inl (Invalid (lit ''unknown change kind: '' @ c)))"

section \<open>Confidence\<close>

datatype confidence_level = ConfReported | ConfVerified | ConfRecent | ConfStale | ConfConflicting

definition confidence_code :: "confidence_level \<Rightarrow> ustring" where
  "confidence_code c =
     (case c of ConfReported \<Rightarrow> lit ''reported'' | ConfVerified \<Rightarrow> lit ''verified''
      | ConfRecent \<Rightarrow> lit ''recently_verified'' | ConfStale \<Rightarrow> lit ''stale''
      | ConfConflicting \<Rightarrow> lit ''conflicting'')"

definition confidence_from :: "ustring \<Rightarrow> confidence_level option" where
  "confidence_from c =
     (if c = lit ''reported'' then Some ConfReported
      else if c = lit ''verified'' then Some ConfVerified
      else if c = lit ''recently_verified'' then Some ConfRecent
      else if c = lit ''stale'' then Some ConfStale
      else if c = lit ''conflicting'' then Some ConfConflicting
      else None)"

record existence_signal =
  es_user :: int
  es_result :: existence_result
  es_at :: int

text \<open>\<open>max_by\<close> keeps the last of equal maxima.\<close>

definition latest_signal :: "existence_signal list \<Rightarrow> existence_signal option" where
  "latest_signal ss =
     foldl (\<lambda>acc s. case acc of None \<Rightarrow> Some s | Some m \<Rightarrow> if es_at s < es_at m then Some m else Some s) None ss"

definition confidence :: "existence_signal list \<Rightarrow> int \<Rightarrow> freshness_thresholds \<Rightarrow> confidence_level" where
  "confidence signals at_now th =
     (if signals = [] then ConfReported
      else if list_ex (\<lambda>s. es_result s = NoLongerExists) signals then ConfConflicting
      else case latest_signal (filter (\<lambda>s. es_result s = StillExists) signals) of
             None \<Rightarrow> ConfReported
           | Some latest \<Rightarrow>
               (case categorize (Some (es_at latest)) at_now th of
                  Fresh \<Rightarrow> ConfRecent
                | RecentlyVerified \<Rightarrow> ConfVerified | Aging \<Rightarrow> ConfVerified
                | Stale \<Rightarrow> ConfStale | VeryStale \<Rightarrow> ConfStale
                | Never \<Rightarrow> ConfReported))"

lemmas community_codes [codes] =
  verification_kind_code_def verification_kind_from_def existence_result_code_def
  existence_result_from_def attribute_result_code_def attribute_result_from_def
  proposal_kind_code_def proposal_kind_from_def proposal_status_code_def proposal_status_from_def
  change_kind_code_def change_kind_from_def confidence_code_def confidence_from_def

interpretation verification_kind: code_enum verification_kind_code "\<lambda>c. ok (verification_kind_from c)"
  by unfold_locales (auto simp: codes split: verification_kind.splits if_splits)

interpretation existence_result: code_enum existence_result_code "\<lambda>c. ok (existence_result_from c)"
  by unfold_locales (auto simp: codes split: existence_result.splits if_splits)

interpretation attribute_result: code_enum attribute_result_code "\<lambda>c. ok (attribute_result_from c)"
  by unfold_locales (auto simp: codes split: attribute_result.splits if_splits)

interpretation proposal_kind: code_enum proposal_kind_code "\<lambda>c. ok (proposal_kind_from c)"
  by unfold_locales (auto simp: codes split: proposal_kind.splits if_splits)

interpretation proposal_status: code_enum proposal_status_code "\<lambda>c. ok (proposal_status_from c)"
  by unfold_locales (auto simp: codes split: proposal_status.splits if_splits)

interpretation change_kind: code_enum change_kind_code "\<lambda>c. ok (change_kind_from c)"
  by unfold_locales (auto simp: codes split: change_kind.splits if_splits)

interpretation confidence_level: code_enum confidence_code confidence_from
  by unfold_locales (auto simp: codes split: confidence_level.splits if_splits)

section \<open>Lemmas\<close>

lemma trimmed_nonempty_idem [simp]: "trimmed_nonempty (trimmed_nonempty x) = trimmed_nonempty x"
  by (simp add: trimmed_nonempty_def split: option.split)

lemma trimmed_nonempty_Some: "trimmed_nonempty (Some s) = (if trim s = [] then None else Some (trim s))"
  by (simp add: trimmed_nonempty_def)

text \<open>The changes a stored payload can decode to.\<close>

definition wf_change :: "proposal_kind \<Rightarrow> proposed_change \<Rightarrow> bool" where
  "wf_change k c =
     (case c of
        MoveLocation lat lon tz \<Rightarrow> k = MoveLocationKind \<and> coords_in_range lat lon \<and> trimmed_nonempty tz = tz
      | ChangeExistence _ \<Rightarrow> k = ChangeExistenceKind
      | UnknownChange \<Rightarrow> True)"

lemma change_from_json_wf: "wf_change k (change_from_json k raw)"
  by (auto simp: wf_change_def change_from_json_def split: proposal_kind.splits option.splits prod.splits)

lemma coords_finite: "coords_in_range lat lon \<Longrightarrow> json_of_f64 lat = JFloat lat \<and> json_of_f64 lon = JFloat lon"
  by (auto simp: coords_in_range_def f64_finite_def json_of_f64_def split: f64.splits)

lemma change_json_roundtrip:
  assumes "wf_change k c" and "extra = [] \<or> (\<exists>v. extra = [(lit ''reason'', v)])"
  shows "change_from_json k (JObject (extra @ change_members c)) = c"
proof (cases c)
  case (MoveLocation lat lon tz)
  with assms(1) have k: "k = MoveLocationKind" "coords_in_range lat lon" "trimmed_nonempty tz = tz"
    by (simp_all add: wf_change_def)
  then show ?thesis using assms(2) coords_finite[OF k(2)]
    by (cases tz)
      (auto simp: MoveLocation change_from_json_def change_members_def jget_def as_f64_def as_str_def
        trimmed_nonempty_def)
next
  case (ChangeExistence b)
  with assms(1) have "k = ChangeExistenceKind" by (simp add: wf_change_def)
  then show ?thesis using assms(2)
    by (auto simp: ChangeExistence change_from_json_def change_members_def jget_def as_str_def)
next
  case UnknownChange
  then show ?thesis using assms(2)
    by (auto simp: change_from_json_def change_members_def jget_def split: proposal_kind.split)
qed

lemma latest_signal_fold:
  "foldl (\<lambda>acc s. case acc of None \<Rightarrow> Some s | Some m \<Rightarrow> if es_at s < es_at m then Some m else Some s) (Some m) ss
     = Some m' \<Longrightarrow> (m' = m \<or> m' \<in> set ss) \<and> es_at m \<le> es_at m' \<and> (\<forall>s \<in> set ss. es_at s \<le> es_at m')"
proof (induction ss arbitrary: m)
  case (Cons s ss)
  let ?m = "if es_at s < es_at m then m else s"
  have "foldl (\<lambda>acc s. case acc of None \<Rightarrow> Some s | Some m \<Rightarrow> if es_at s < es_at m then Some m else Some s)
      (Some ?m) ss = Some m'"
    using Cons.prems by (simp split: if_splits)
  from Cons.IH[OF this] show ?case by (auto split: if_splits)
qed simp

lemma foldl_option_Some:
  "\<exists>m'. foldl (\<lambda>acc s. case acc of None \<Rightarrow> Some s | Some m \<Rightarrow> if es_at s < es_at m then Some m else Some s)
     (Some m) ss = Some m'"
  by (induction ss arbitrary: m) auto

lemma latest_signal_None: "latest_signal ss = None \<longleftrightarrow> ss = []"
proof (cases ss)
  case (Cons s rest)
  then show ?thesis using foldl_option_Some[of s rest] by (auto simp: latest_signal_def)
qed (simp add: latest_signal_def)

lemma latest_signal_Max:
  assumes "latest_signal ss = Some m"
  shows "es_at m = Max (es_at ` set ss)"
proof -
  from assms obtain s rest where ss: "ss = s # rest" by (cases ss) (auto simp: latest_signal_def)
  with assms have "(m = s \<or> m \<in> set rest) \<and> es_at s \<le> es_at m \<and> (\<forall>x \<in> set rest. es_at x \<le> es_at m)"
    by (intro latest_signal_fold) (simp add: latest_signal_def)
  then show ?thesis unfolding ss by (intro Max_eqI[symmetric]) auto
qed

lemma payload_json_wf:
  assumes wf: "wf_change k c" and r: "trimmed_nonempty r = r"
  shows "payload_from_json k (payload_to_json \<lparr>pp_change = c, pp_reason = r\<rparr>) = \<lparr>pp_change = c, pp_reason = r\<rparr>"
proof -
  have no_reason: "map_of (change_members c) (lit ''reason'') = None"
    by (auto simp: change_members_def split: proposed_change.split option.split)
  show ?thesis
  proof (cases r)
    case None
    then show ?thesis using change_json_roundtrip[OF wf, of "[]"] no_reason
      by (simp add: payload_to_json_def change_to_json_def payload_from_json_def payload_new_def jget_def
          trimmed_nonempty_def)
  next
    case (Some s)
    then show ?thesis using change_json_roundtrip[OF wf, of "[(lit ''reason'', JString s)]"] r
      by (simp add: payload_to_json_def change_to_json_def payload_from_json_def payload_new_def jget_def
          as_str_def)
  qed
qed

text \<open>The rule as a function of the set of signals.\<close>

definition confidence_spec :: "existence_signal set \<Rightarrow> int \<Rightarrow> freshness_thresholds \<Rightarrow> confidence_level" where
  "confidence_spec S t th =
     (let gone = {s \<in> S. es_result s = NoLongerExists}; seen = {s \<in> S. es_result s = StillExists} in
      if gone \<noteq> {} then ConfConflicting
      else if seen = {} then ConfReported
      else (let r = freshness_rank (categorize (Some (Max (es_at ` seen))) t th) in
            if r = 0 then ConfRecent else if r \<le> 2 then ConfVerified else ConfStale))"

section \<open>Properties\<close>

text \<open>A stored proposal payload survives the moderation queue: whatever JSON a row
  holds, decoding it, writing the decoded payload back and decoding again gives the same
  typed change and the same reason, for both kinds of proposal.\<close>

lemma payload_json_retract:
  "payload_from_json k (payload_to_json (payload_from_json k raw)) = payload_from_json k raw"
  unfolding payload_from_json_def[of k raw] payload_new_def
  by (rule payload_json_wf) (simp_all add: change_from_json_wf)

text \<open>C40: the confidence shown for a location depends only on the set of existence
  signals, not on their order or repetition: one report that it is gone makes it
  conflicting, otherwise the newest confirmation decides by its freshness, and without a
  confirmation it stays reported.\<close>

theorem confidence_refines_spec:
  "confidence signals t th = confidence_spec (set signals) t th"
proof (cases "\<exists>s \<in> set signals. es_result s = NoLongerExists")
  case True
  then show ?thesis by (auto simp: confidence_def confidence_spec_def list_ex_iff Let_def)
next
  case no_gone: False
  let ?pos = "filter (\<lambda>s. es_result s = StillExists) signals"
  have pos: "{s \<in> set signals. es_result s = StillExists} = set ?pos" by auto
  show ?thesis
  proof (cases "latest_signal ?pos")
    case None
    then have "set ?pos = {}" by (simp add: latest_signal_None)
    with None no_gone show ?thesis
      by (auto simp: confidence_def confidence_spec_def list_ex_iff Let_def)
  next
    case (Some m)
    then have "set ?pos \<noteq> {}" by (metis latest_signal_None option.distinct(1) set_empty)
    moreover have "signals \<noteq> []" using calculation by auto
    moreover have "categorize (Some (es_at m)) t th \<noteq> Never" by (simp add: categorize_def Let_def)
    ultimately show ?thesis
      using no_gone Some latest_signal_Max[OF Some] unfolding confidence_spec_def pos
      by (auto simp: confidence_def list_ex_iff Let_def freshness_rank_def split: freshness.splits)
  qed
qed

end
