(* ===== verification/Dom_Moderation.thy ===== *)
theory Dom_Moderation
  imports Dom_Identity
begin

text \<open>
  Reports and photos of the domain crate (\<open>domain/src/moderation.rs\<close>,
  \<open>domain/src/photo.rs\<close>): the report's states, outcomes, targets and reasons, the
  description limit, and the upload limits with their fixed-width pixel arithmetic.
\<close>

section \<open>Reports\<close>

datatype report_state = ReportOpen | ReportUnderReview | ReportResolved | ReportDismissed

definition report_state_code :: "report_state \<Rightarrow> ustring" where
  "report_state_code s =
     (case s of ReportOpen \<Rightarrow> lit ''OPEN'' | ReportUnderReview \<Rightarrow> lit ''UNDER_REVIEW''
      | ReportResolved \<Rightarrow> lit ''RESOLVED'' | ReportDismissed \<Rightarrow> lit ''DISMISSED'')"

definition report_state_from :: "ustring \<Rightarrow> domain_error + report_state" where
  "report_state_from c =
     (if c = lit ''OPEN'' then Inr ReportOpen
      else if c = lit ''UNDER_REVIEW'' then Inr ReportUnderReview
      else if c = lit ''RESOLVED'' then Inr ReportResolved
      else if c = lit ''DISMISSED'' then Inr ReportDismissed
      else Inl (Invalid (lit ''unknown report state: '' @ c)))"

datatype report_outcome = OutcomeResolved | OutcomeDismissed

definition report_outcome_code :: "report_outcome \<Rightarrow> ustring" where
  "report_outcome_code r =
     (case r of OutcomeResolved \<Rightarrow> lit ''RESOLVED'' | OutcomeDismissed \<Rightarrow> lit ''DISMISSED'')"

datatype report_target = TParking | TParkingPhoto | TReview | TReviewPhoto

definition report_target_code :: "report_target \<Rightarrow> ustring" where
  "report_target_code t =
     (case t of TParking \<Rightarrow> lit ''parking'' | TParkingPhoto \<Rightarrow> lit ''parking_photo''
      | TReview \<Rightarrow> lit ''review'' | TReviewPhoto \<Rightarrow> lit ''review_photo'')"

definition report_target_from :: "ustring \<Rightarrow> domain_error + report_target" where
  "report_target_from c =
     (if c = lit ''parking'' then Inr TParking
      else if c = lit ''parking_photo'' then Inr TParkingPhoto
      else if c = lit ''review'' then Inr TReview
      else if c = lit ''review_photo'' then Inr TReviewPhoto
      else Inl (Invalid (lit ''unknown report target type: '' @ c)))"

definition report_reasons :: "ustring list" where
  "report_reasons =
     [lit ''nonexistent_parking'', lit ''incorrect_location'', lit ''incorrect_price'',
      lit ''incorrect_hours'', lit ''incorrect_security'', lit ''duplicate'',
      lit ''inappropriate_photo'', lit ''inappropriate_review'', lit ''spam'', lit ''abuse'', lit ''other'']"

definition is_known_report_reason :: "ustring \<Rightarrow> bool" where
  "is_known_report_reason c \<longleftrightarrow> c \<in> set report_reasons"

definition reason_allowed_for :: "report_target \<Rightarrow> ustring \<Rightarrow> bool" where
  "reason_allowed_for target reason =
     (let is_photo = (target = TParkingPhoto \<or> target = TReviewPhoto);
          is_review = (target = TReview \<or> target = TReviewPhoto)
      in if reason = lit ''inappropriate_photo'' then is_photo
         else if reason = lit ''inappropriate_review'' then is_review
         else if reason = lit ''duplicate'' then target = TParking
         else True)"

definition report_description_max_len :: nat where
  "report_description_max_len = 1000"

definition report_description_new_with_len :: "ustring \<Rightarrow> nat \<Rightarrow> domain_error + ustring" where
  "report_description_new_with_len raw max_len =
     (let trimmed = trim raw; n = length trimmed in
      if max_len < n
      then Inl (Invalid (lit ''report description must be at most '' @ show_nat max_len
                         @ lit '' characters: '' @ show_nat n))
      else Inr trimmed)"

definition report_description_new :: "ustring \<Rightarrow> domain_error + ustring" where
  "report_description_new raw = report_description_new_with_len raw report_description_max_len"

record moderation_limits =
  ml_description_max_len :: nat
  ml_create_user_limit :: nat
  ml_create_ip_limit :: nat

definition default_moderation_limits :: moderation_limits where
  "default_moderation_limits =
     \<lparr>ml_description_max_len = report_description_max_len, ml_create_user_limit = 10, ml_create_ip_limit = 20\<rparr>"

section \<open>Photos\<close>

record photo_limits =
  max_bytes :: nat
  max_megapixels :: "64 word"
  thumb_max_side :: "32 word"
  derivative_quality :: byte

definition default_photo_limits :: photo_limits where
  "default_photo_limits =
     \<lparr>max_bytes = 10 * 1024 * 1024, max_megapixels = 20, thumb_max_side = 400, derivative_quality = 85\<rparr>"

record photo_dimensions =
  pd_width :: "32 word"
  pd_height :: "32 word"

definition pixel_count :: "photo_dimensions \<Rightarrow> 64 word" where
  "pixel_count d = ucast (pd_width d) * ucast (pd_height d)"

text \<open>\<open>u64::div_ceil\<close>: the quotient, plus one when a remainder is left.\<close>

definition div_ceil :: "64 word \<Rightarrow> 64 word \<Rightarrow> 64 word" where
  "div_ceil a b = (if a mod b = 0 then a div b else a div b + 1)"

definition megapixels :: "photo_dimensions \<Rightarrow> 64 word" where
  "megapixels d = div_ceil (pixel_count d) 1000000"

definition within_limit :: "photo_dimensions \<Rightarrow> 64 word \<Rightarrow> bool" where
  "within_limit d limit \<longleftrightarrow> megapixels d \<le> limit"

datatype photo_state = PhotoPending | PhotoApproved | PhotoRejected | PhotoHidden

definition photo_state_code :: "photo_state \<Rightarrow> ustring" where
  "photo_state_code s =
     (case s of PhotoPending \<Rightarrow> lit ''PENDING_REVIEW'' | PhotoApproved \<Rightarrow> lit ''APPROVED''
      | PhotoRejected \<Rightarrow> lit ''REJECTED'' | PhotoHidden \<Rightarrow> lit ''HIDDEN'')"

definition photo_state_from :: "ustring \<Rightarrow> domain_error + photo_state" where
  "photo_state_from c =
     (if c = lit ''PENDING_REVIEW'' then Inr PhotoPending
      else if c = lit ''APPROVED'' then Inr PhotoApproved
      else if c = lit ''REJECTED'' then Inr PhotoRejected
      else if c = lit ''HIDDEN'' then Inr PhotoHidden
      else Inl (Invalid (lit ''unknown photo moderation state: '' @ c)))"

definition photo_publicly_visible :: "photo_state \<Rightarrow> bool" where
  "photo_publicly_visible s \<longleftrightarrow> s = PhotoApproved"

definition bytes_within_limit :: "nat \<Rightarrow> nat \<Rightarrow> bool" where
  "bytes_within_limit bytes limit \<longleftrightarrow> bytes \<le> limit"

definition allowed_input_formats :: "ustring list" where
  "allowed_input_formats = [lit ''jpeg'', lit ''png'', lit ''webp'']"

definition format_allowed :: "ustring \<Rightarrow> bool" where
  "format_allowed f \<longleftrightarrow> f \<in> set allowed_input_formats"

lemmas moderation_codes [codes] =
  report_state_code_def report_state_from_def report_target_code_def report_target_from_def
  photo_state_code_def photo_state_from_def

interpretation report_state: code_enum report_state_code "\<lambda>c. ok (report_state_from c)"
  by unfold_locales (auto simp: codes split: report_state.splits if_splits)

interpretation report_target: code_enum report_target_code "\<lambda>c. ok (report_target_from c)"
  by unfold_locales (auto simp: codes split: report_target.splits if_splits)

interpretation photo_state: code_enum photo_state_code "\<lambda>c. ok (photo_state_from c)"
  by unfold_locales (auto simp: codes split: photo_state.splits if_splits)

section \<open>Lemmas\<close>

lemma description_bound:
  "report_description_new_with_len raw n = Inr d \<Longrightarrow> d = trim raw \<and> length d \<le> n"
  by (auto simp: report_description_new_with_len_def Let_def split: if_splits)

lemma unat_pixel_count: "unat (pixel_count d) = unat (pd_width d) * unat (pd_height d)"
proof -
  have w: "unat (pd_width d) < 2 ^ 32" "unat (pd_height d) < 2 ^ 32"
    using unsigned_less[of "pd_width d", where 'a = nat] unsigned_less[of "pd_height d", where 'a = nat] by simp_all
  then have "unat (pd_width d) * unat (pd_height d) < 2 ^ 32 * 2 ^ 32" by (intro mult_strict_mono) auto
  then show ?thesis
    by (simp add: pixel_count_def unat_mult_lem[THEN iffD1] unsigned_ucast_eq take_bit_nat_eq_self unat_word_ariths
        w less_trans[OF w(1)] less_trans[OF w(2)])
qed

lemma div_ceil_nat:
  fixes a b :: nat
  assumes "0 < b" "a mod b \<noteq> 0"
  shows "(a + b - 1) div b = a div b + 1"
proof -
  define q r where "q = a div b" and "r = a mod b"
  have a: "a = b * q + r" and r: "0 < r" "r < b" using assms by (simp_all add: q_def r_def)
  have "(a + b - 1) div b = q + 1" unfolding a by (rule div_nat_eqI) (use r in simp_all)
  then show ?thesis by (simp add: q_def)
qed

lemma unat_div_ceil:
  assumes "0 < unat b" "unat a div unat b + 1 < 2 ^ 64"
  shows "unat (div_ceil a b) = (unat a + unat b - 1) div unat b"
proof -
  have m: "a mod b = 0 \<longleftrightarrow> unat a mod unat b = 0"
    by (simp add: unat_mod_distrib[symmetric] unsigned_eq_0_iff)
  show ?thesis
  proof (cases "unat a mod unat b = 0")
    case True
    then obtain k where "unat a = unat b * k" by auto
    moreover have "(unat b * k + unat b - 1) div unat b = k"
      using assms(1) by (simp add: div_nat_eqI)
    ultimately show ?thesis using True m assms(1) by (simp add: div_ceil_def unat_div_distrib)
  next
    case False
    have "unat (a div b + 1) = unat a div unat b + 1"
      using assms(2) by (simp add: unat_word_ariths unat_div_distrib)
    moreover have "(unat a + unat b - 1) div unat b = unat a div unat b + 1"
      by (rule div_ceil_nat[OF assms(1) False])
    ultimately show ?thesis using False m by (simp add: div_ceil_def)
  qed
qed

end
