(* ===== verification/Dom_Privacy.thy ===== *)
theory Dom_Privacy
  imports Dom_Identity Dom_Time
begin

text \<open>
  Privacy values of the domain crate (\<open>domain/src/privacy.rs\<close>): request kinds and
  states, export states, policy kinds, the legal deadline, the replacement address of
  an anonymized account and the retention periods.
\<close>

datatype privacy_request_kind =
  PAccess | PRectification | PDeletion | PExport | PRestriction | PObjection | PConsentWithdrawal

definition privacy_request_kind_code :: "privacy_request_kind \<Rightarrow> ustring" where
  "privacy_request_kind_code k =
     (case k of PAccess \<Rightarrow> lit ''access'' | PRectification \<Rightarrow> lit ''rectification''
      | PDeletion \<Rightarrow> lit ''deletion'' | PExport \<Rightarrow> lit ''export'' | PRestriction \<Rightarrow> lit ''restriction''
      | PObjection \<Rightarrow> lit ''objection'' | PConsentWithdrawal \<Rightarrow> lit ''consent_withdrawal'')"

definition privacy_request_kind_from :: "ustring \<Rightarrow> domain_error + privacy_request_kind" where
  "privacy_request_kind_from c =
     (if c = lit ''access'' then Inr PAccess
      else if c = lit ''rectification'' then Inr PRectification
      else if c = lit ''deletion'' then Inr PDeletion
      else if c = lit ''export'' then Inr PExport
      else if c = lit ''restriction'' then Inr PRestriction
      else if c = lit ''objection'' then Inr PObjection
      else if c = lit ''consent_withdrawal'' then Inr PConsentWithdrawal
      else Inl (Invalid (lit ''unknown privacy request kind: '' @ c)))"

datatype privacy_request_state = PROpen | PRInProgress | PRCompleted | PRDeclined

definition privacy_request_state_code :: "privacy_request_state \<Rightarrow> ustring" where
  "privacy_request_state_code s =
     (case s of PROpen \<Rightarrow> lit ''OPEN'' | PRInProgress \<Rightarrow> lit ''IN_PROGRESS''
      | PRCompleted \<Rightarrow> lit ''COMPLETED'' | PRDeclined \<Rightarrow> lit ''DECLINED'')"

definition privacy_request_state_from :: "ustring \<Rightarrow> domain_error + privacy_request_state" where
  "privacy_request_state_from c =
     (if c = lit ''OPEN'' then Inr PROpen
      else if c = lit ''IN_PROGRESS'' then Inr PRInProgress
      else if c = lit ''COMPLETED'' then Inr PRCompleted
      else if c = lit ''DECLINED'' then Inr PRDeclined
      else Inl (Invalid (lit ''unknown privacy request state: '' @ c)))"

datatype export_state = ExportReady | ExportDownloaded | ExportExpired

definition export_state_code :: "export_state \<Rightarrow> ustring" where
  "export_state_code s =
     (case s of ExportReady \<Rightarrow> lit ''READY'' | ExportDownloaded \<Rightarrow> lit ''DOWNLOADED''
      | ExportExpired \<Rightarrow> lit ''EXPIRED'')"

definition export_state_from :: "ustring \<Rightarrow> domain_error + export_state" where
  "export_state_from c =
     (if c = lit ''READY'' then Inr ExportReady
      else if c = lit ''DOWNLOADED'' then Inr ExportDownloaded
      else if c = lit ''EXPIRED'' then Inr ExportExpired
      else Inl (Invalid (lit ''unknown export state: '' @ c)))"

datatype policy_kind = PrivacyPolicy | TermsPolicy | CookiesPolicy

definition policy_kind_code :: "policy_kind \<Rightarrow> ustring" where
  "policy_kind_code k =
     (case k of PrivacyPolicy \<Rightarrow> lit ''privacy'' | TermsPolicy \<Rightarrow> lit ''terms'' | CookiesPolicy \<Rightarrow> lit ''cookies'')"

definition policy_kind_from :: "ustring \<Rightarrow> domain_error + policy_kind" where
  "policy_kind_from c =
     (if c = lit ''privacy'' then Inr PrivacyPolicy
      else if c = lit ''terms'' then Inr TermsPolicy
      else if c = lit ''cookies'' then Inr CookiesPolicy
      else Inl (Invalid (lit ''unknown policy kind: '' @ c)))"

definition privacy_request_sla_days :: int where
  "privacy_request_sla_days = 15"

definition privacy_request_days_left :: "int \<Rightarrow> int \<Rightarrow> int" where
  "privacy_request_days_left created_at t =
     (let due = created_at + days privacy_request_sla_days in num_days (due - t))"

definition anonymized_email :: "int \<Rightarrow> ustring" where
  "anonymized_email user_id = lit ''deleted+'' @ show_int user_id @ lit ''@bikesnest.invalid''"

record retention_policy =
  password_reset_ttl :: int
  email_verification_ttl :: int
  session_idle :: int
  parked_here_ttl :: int
  export_ttl :: int
  upload_orphan_ttl :: int

definition default_retention :: retention_policy where
  "default_retention =
     \<lparr>password_reset_ttl = hours 1, email_verification_ttl = hours 24, session_idle = days 30,
      parked_here_ttl = days 90, export_ttl = hours 24, upload_orphan_ttl = hours 24\<rparr>"

lemmas privacy_codes [codes] =
  privacy_request_kind_code_def privacy_request_kind_from_def privacy_request_state_code_def
  privacy_request_state_from_def export_state_code_def export_state_from_def policy_kind_code_def
  policy_kind_from_def

interpretation privacy_request_kind: code_enum privacy_request_kind_code "\<lambda>c. ok (privacy_request_kind_from c)"
  by unfold_locales (auto simp: codes split: privacy_request_kind.splits if_splits)

interpretation privacy_request_state: code_enum privacy_request_state_code "\<lambda>c. ok (privacy_request_state_from c)"
  by unfold_locales (auto simp: codes split: privacy_request_state.splits if_splits)

interpretation export_state: code_enum export_state_code "\<lambda>c. ok (export_state_from c)"
  by unfold_locales (auto simp: codes split: export_state.splits if_splits)

interpretation policy_kind: code_enum policy_kind_code "\<lambda>c. ok (policy_kind_from c)"
  by unfold_locales (auto simp: codes split: policy_kind.splits if_splits)

section \<open>Lemmas\<close>

lemma anonymized_email_inject: "anonymized_email i = anonymized_email j \<longleftrightarrow> i = j"
  by (simp add: anonymized_email_def show_int_inject)

text \<open>The counter truncates towards zero: a request is still shown with zero days left
  for the whole first day after its deadline.\<close>

lemma days_left_first_overdue_day:
  "0 \<le> t \<Longrightarrow> t < days 1 \<Longrightarrow>
   privacy_request_days_left c (c + days privacy_request_sla_days + t) = 0"
  by (auto simp: privacy_request_days_left_def num_days_def time_units Let_def)

end
