(* ===== verification/Job_Queue.thy ===== *)
theory Job_Queue
  imports Dom_Community "HOL-Library.Product_Lexorder"
begin

text \<open>
  The background job table and its repository (\<open>infrastructure/src/job/repo.rs\<close>,
  \<open>migrations/0015_background_jobs.sql\<close>).  The table is the list of its rows; every
  operation is one SQL statement.  \<open>claim_inner\<close> is the \<open>FOR UPDATE SKIP LOCKED\<close>
  statement: it runs alone on the rows it locks, so claims of several workers are a
  sequence of such statements.

  The contract shared by every statement that a worker sends after its claim is the
  locale \<open>claimed_write\<close>: it is scoped to the worker, keeps the row's identity and
  leaves a well-formed row.  The five statements are its interpretations.
\<close>

section \<open>Rows and table\<close>

datatype job_state = JPending | JRunning | JSucceeded | JFailed

definition job_state_code :: "job_state \<Rightarrow> ustring" where
  "job_state_code s =
     (case s of JPending \<Rightarrow> lit ''pending'' | JRunning \<Rightarrow> lit ''running''
      | JSucceeded \<Rightarrow> lit ''succeeded'' | JFailed \<Rightarrow> lit ''failed'')"

record job_row =
  j_id :: int
  j_kind :: ustring
  j_payload :: json
  j_state :: job_state
  j_attempts :: int
  j_max_attempts :: int
  j_run_at :: int
  j_schedule :: "json option"
  j_claimed_by :: "ustring option"
  j_lease :: "int option"
  j_heartbeat :: "int option"
  j_last_error :: "ustring option"
  j_started_at :: "int option"
  j_finished_at :: "int option"
  j_key :: "ustring option"
  j_created_at :: int
  j_updated_at :: int

record job_world = world +
  jobs :: "job_row list"
  next_job :: int

datatype job_repo_error = JobDb db_failure

record claimed_job =
  c_id :: int
  c_kind :: ustring
  c_payload :: json
  c_attempts :: int
  c_max_attempts :: int
  c_schedule :: "json option"

section \<open>Enqueue\<close>

definition new_job_row :: "int \<Rightarrow> int \<Rightarrow> ustring \<Rightarrow> json \<Rightarrow> int \<Rightarrow> int option \<Rightarrow> ustring option \<Rightarrow> job_row" where
  "new_job_row i t kind payload run_at max_attempts key =
     \<lparr>j_id = i, j_kind = kind, j_payload = payload, j_state = JPending, j_attempts = 0,
      j_max_attempts = (case max_attempts of Some m \<Rightarrow> m | None \<Rightarrow> 5),
      j_run_at = run_at, j_schedule = None, j_claimed_by = None, j_lease = None,
      j_heartbeat = None, j_last_error = None, j_started_at = None, j_finished_at = None,
      j_key = key, j_created_at = t, j_updated_at = t\<rparr>"

definition key_taken :: "ustring option \<Rightarrow> job_row list \<Rightarrow> bool" where
  "key_taken key t \<longleftrightarrow> key \<noteq> None \<and> (\<exists>r \<in> set t. j_key r = key)"

definition enqueue ::
  "ustring \<Rightarrow> json \<Rightarrow> int \<Rightarrow> int option \<Rightarrow> ustring option \<Rightarrow> ('w job_world_scheme, job_repo_error, int option) m" where
  "enqueue kind payload run_at max_attempts key =
     sql JobDb (\<lambda>w.
       if key_taken key (jobs w) then Inr (None, w\<lparr>next_job := next_job w + 1\<rparr>)
       else Inr (Some (next_job w),
                 w\<lparr>jobs := jobs w @ [new_job_row (next_job w) (now w) kind payload run_at max_attempts key],
                   next_job := next_job w + 1\<rparr>))"

section \<open>Claim\<close>

definition claimable :: "int \<Rightarrow> ustring list option \<Rightarrow> job_row \<Rightarrow> bool" where
  "claimable t kinds r \<longleftrightarrow>
     (j_state r = JPending \<or> j_state r = JRunning \<and> (case j_lease r of Some l \<Rightarrow> l < t | None \<Rightarrow> False))
     \<and> j_run_at r \<le> t
     \<and> (case kinds of None \<Rightarrow> True | Some ks \<Rightarrow> j_kind r \<in> set ks)"

definition candidates :: "nat \<Rightarrow> int \<Rightarrow> ustring list option \<Rightarrow> job_row list \<Rightarrow> job_row list" where
  "candidates batch t kinds table =
     take batch (sort_key (\<lambda>r. (j_run_at r, j_id r)) (filter (claimable t kinds) table))"

definition claim_row :: "int \<Rightarrow> ustring \<Rightarrow> int \<Rightarrow> job_row \<Rightarrow> job_row" where
  "claim_row t worker lease_secs r =
     r\<lparr>j_state := JRunning, j_claimed_by := Some worker, j_lease := Some (t + seconds lease_secs),
       j_heartbeat := Some t,
       j_started_at := (case j_started_at r of Some s \<Rightarrow> Some s | None \<Rightarrow> Some t),
       j_attempts := j_attempts r + 1, j_updated_at := t\<rparr>"

definition claimed_of :: "job_row \<Rightarrow> claimed_job" where
  "claimed_of r =
     \<lparr>c_id = j_id r, c_kind = j_kind r, c_payload = j_payload r, c_attempts = j_attempts r,
      c_max_attempts = j_max_attempts r, c_schedule = j_schedule r\<rparr>"

definition claim_inner ::
  "nat \<Rightarrow> ustring \<Rightarrow> int \<Rightarrow> ustring list option \<Rightarrow> ('w job_world_scheme, job_repo_error, claimed_job list) m" where
  "claim_inner batch worker lease_secs kinds =
     sql JobDb (\<lambda>w.
       let cs = candidates batch (now w) kinds (jobs w);
           upd = claim_row (now w) worker lease_secs
       in Inr (map (\<lambda>r. claimed_of (upd r)) cs,
               w\<lparr>jobs := update_where (\<lambda>r. j_id r \<in> j_id ` set cs) upd (jobs w)\<rparr>))"

definition claim :: "nat \<Rightarrow> ustring \<Rightarrow> int \<Rightarrow> ('w job_world_scheme, job_repo_error, claimed_job list) m" where
  "claim batch worker lease_secs = claim_inner batch worker lease_secs None"

definition claim_kinds ::
  "nat \<Rightarrow> ustring \<Rightarrow> int \<Rightarrow> ustring list \<Rightarrow> ('w job_world_scheme, job_repo_error, claimed_job list) m" where
  "claim_kinds batch worker lease_secs kinds = claim_inner batch worker lease_secs (Some kinds)"

section \<open>Statements of the claiming worker\<close>

definition owned_update :: "int \<Rightarrow> ustring \<Rightarrow> (job_row \<Rightarrow> job_row) \<Rightarrow> job_row list \<Rightarrow> job_row list" where
  "owned_update i worker upd = update_where (\<lambda>r. j_id r = i \<and> j_claimed_by r = Some worker) upd"

definition release :: "job_row \<Rightarrow> job_row" where
  "release r = r\<lparr>j_claimed_by := None, j_lease := None, j_heartbeat := None\<rparr>"

definition heartbeat_row :: "int \<Rightarrow> int \<Rightarrow> job_row \<Rightarrow> job_row" where
  "heartbeat_row t lease_secs r =
     (if j_state r = JRunning
      then r\<lparr>j_heartbeat := Some t, j_lease := Some (t + seconds lease_secs), j_updated_at := t\<rparr> else r)"

definition reschedule_row :: "int \<Rightarrow> int \<Rightarrow> int \<Rightarrow> job_row \<Rightarrow> job_row" where
  "reschedule_row t nxt finished_at r =
     (release r)\<lparr>j_state := JPending, j_attempts := 0, j_run_at := nxt, j_started_at := None,
       j_last_error := None, j_finished_at := Some finished_at, j_updated_at := t\<rparr>"

definition succeed_row :: "int \<Rightarrow> int \<Rightarrow> job_row \<Rightarrow> job_row" where
  "succeed_row t finished_at r =
     (release r)\<lparr>j_state := JSucceeded, j_finished_at := Some finished_at, j_started_at := None, j_updated_at := t\<rparr>"

definition retry_row :: "int \<Rightarrow> ustring \<Rightarrow> int \<Rightarrow> job_row \<Rightarrow> job_row" where
  "retry_row t err run_at r =
     (release r)\<lparr>j_state := JPending, j_run_at := run_at, j_last_error := Some err, j_started_at := None,
       j_updated_at := t\<rparr>"

definition fail_row :: "int \<Rightarrow> ustring \<Rightarrow> job_row \<Rightarrow> job_row" where
  "fail_row t err r =
     (release r)\<lparr>j_state := JFailed, j_finished_at := Some t, j_last_error := Some err, j_updated_at := t\<rparr>"

definition heartbeat :: "int \<Rightarrow> ustring \<Rightarrow> int \<Rightarrow> ('w job_world_scheme, job_repo_error, unit) m" where
  "heartbeat i worker lease_secs =
     command JobDb (\<lambda>w. w\<lparr>jobs := owned_update i worker (heartbeat_row (now w) lease_secs) (jobs w)\<rparr>)"

definition finish_success ::
  "int \<Rightarrow> ustring \<Rightarrow> int option \<Rightarrow> int \<Rightarrow> ('w job_world_scheme, job_repo_error, unit) m" where
  "finish_success i worker next_run_at finished_at =
     (case next_run_at of
        Some nxt \<Rightarrow>
          command JobDb (\<lambda>w. w\<lparr>jobs := owned_update i worker (reschedule_row (now w) nxt finished_at) (jobs w)\<rparr>)
      | None \<Rightarrow>
          command JobDb (\<lambda>w. w\<lparr>jobs := owned_update i worker (succeed_row (now w) finished_at) (jobs w)\<rparr>))"

definition retry :: "int \<Rightarrow> ustring \<Rightarrow> ustring \<Rightarrow> int \<Rightarrow> ('w job_world_scheme, job_repo_error, unit) m" where
  "retry i worker err run_at =
     command JobDb (\<lambda>w. w\<lparr>jobs := owned_update i worker (retry_row (now w) err run_at) (jobs w)\<rparr>)"

definition fail :: "int \<Rightarrow> ustring \<Rightarrow> ustring \<Rightarrow> ('w job_world_scheme, job_repo_error, unit) m" where
  "fail i worker err =
     command JobDb (\<lambda>w. w\<lparr>jobs := owned_update i worker (fail_row (now w) err) (jobs w)\<rparr>)"

definition collectable :: "int \<Rightarrow> job_row \<Rightarrow> bool" where
  "collectable cutoff r \<longleftrightarrow>
     (j_state r = JSucceeded \<or> j_state r = JFailed)
     \<and> (case j_finished_at r of Some f \<Rightarrow> f < cutoff | None \<Rightarrow> False)"

definition gc :: "int \<Rightarrow> ('w job_world_scheme, job_repo_error, nat) m" where
  "gc cutoff =
     sql JobDb (\<lambda>w. Inr (length (filter (collectable cutoff) (jobs w)),
                         w\<lparr>jobs := filter (\<lambda>r. \<not> collectable cutoff r) (jobs w)\<rparr>))"

section \<open>Well-formed tables\<close>

text \<open>A row is claimed, leased and running together or not at all.\<close>

definition wf_job :: "job_row \<Rightarrow> bool" where
  "wf_job r \<longleftrightarrow>
     (j_claimed_by r \<noteq> None \<longleftrightarrow> j_state r = JRunning) \<and> (j_lease r \<noteq> None \<longleftrightarrow> j_state r = JRunning)
     \<and> 0 \<le> j_attempts r \<and> (j_state r = JSucceeded \<or> j_state r = JFailed \<longrightarrow> j_finished_at r \<noteq> None)"

definition job_keys :: "job_row list \<Rightarrow> ustring list" where
  "job_keys t = concat (map (\<lambda>r. case j_key r of Some k \<Rightarrow> [k] | None \<Rightarrow> []) t)"

definition wf_jobs :: "'w job_world_scheme \<Rightarrow> bool" where
  "wf_jobs w \<longleftrightarrow>
     (\<forall>r \<in> set (jobs w). wf_job r \<and> j_id r < next_job w)
     \<and> distinct (map j_id (jobs w)) \<and> distinct (job_keys (jobs w))"

lemma table_inv_wf_jobs [pres]: "table_inv wf_jobs"
  by (simp add: table_inv_def wf_jobs_def)

lemma set_job_keys: "set (job_keys t) = {k. \<exists>r \<in> set t. j_key r = Some k}"
  by (auto simp: job_keys_def split: option.splits)

lemma job_keys_update:
  "(\<And>r. P r \<Longrightarrow> j_key (f r) = j_key r) \<Longrightarrow> job_keys (update_where P f t) = job_keys t"
  by (induction t) (auto simp: job_keys_def)

lemma distinct_keys_filter: "distinct (job_keys t) \<Longrightarrow> distinct (job_keys (filter P t))"
  by (induction t) (auto simp: job_keys_def split: option.splits)

section \<open>The contract of a post-claim statement\<close>

locale claimed_write =
  fixes upd :: "job_row \<Rightarrow> job_row"
  assumes upd_id: "j_id (upd r) = j_id r"
    and upd_key: "j_key (upd r) = j_key r"
    and upd_kind: "j_kind (upd r) = j_kind r" "j_payload (upd r) = j_payload r"
      "j_max_attempts (upd r) = j_max_attempts r" "j_schedule (upd r) = j_schedule r"
    and upd_wf: "wf_job r \<Longrightarrow> j_state r = JRunning \<Longrightarrow> wf_job (upd r)"
    and upd_claim: "j_claimed_by (upd r) = None \<or> j_claimed_by (upd r) = j_claimed_by r"
begin

text \<open>The table stays well formed.\<close>

lemma keeps_wf:
  assumes "wf_jobs w"
  shows "wf_jobs (w\<lparr>jobs := owned_update i worker upd (jobs w)\<rparr>)"
proof -
  let ?t = "owned_update i worker upd (jobs w)"
  have "wf_job r \<and> j_id r < next_job w" if r: "r \<in> set ?t" for r
  proof -
    from r obtain q where q: "q \<in> set (jobs w)"
      and e: "r = (if j_id q = i \<and> j_claimed_by q = Some worker then upd q else q)"
      by (auto simp: owned_update_def set_update_where)
    have wq: "wf_job q" "j_id q < next_job w" using assms q by (auto simp: wf_jobs_def)
    then have "j_claimed_by q = Some worker \<Longrightarrow> wf_job (upd q)" by (intro upd_wf) (auto simp: wf_job_def)
    with wq e show ?thesis by (simp add: upd_id)
  qed
  moreover have "distinct (map j_id ?t)" "distinct (job_keys ?t)"
    using assms unfolding owned_update_def wf_jobs_def
    by (simp_all add: distinct_update_where job_keys_update upd_id upd_key)
  ultimately show ?thesis by (simp add: wf_jobs_def)
qed

text \<open>A row that another worker holds, or that nobody holds, does not change.\<close>

lemma fenced:
  assumes "r \<in> set t" "j_claimed_by r \<noteq> Some worker"
  shows "r \<in> set (owned_update i worker upd t)"
  using assms by (force simp: owned_update_def set_update_where)

lemma zombie_noop:
  assumes "\<And>r. r \<in> set t \<Longrightarrow> j_id r = i \<Longrightarrow> j_claimed_by r \<noteq> Some worker"
  shows "owned_update i worker upd t = t"
  unfolding owned_update_def by (rule update_where_none) (use assms in auto)

text \<open>No statement can make a row belong to a worker that did not claim it.\<close>

lemma no_theft:
  assumes "r' \<in> set (owned_update i worker upd t)" "j_claimed_by r' = Some v"
  obtains r where "r \<in> set t" "j_id r = j_id r'" "j_claimed_by r = Some v"
  using assms upd_claim upd_id unfolding owned_update_def set_update_where
  by (auto split: if_splits) (metis option.distinct(1))+

lemma keeps_ids: "map j_id (owned_update i worker upd t) = map j_id t"
  unfolding owned_update_def by (rule map_update_where) (simp add: upd_id)

end

lemmas job_row_writes =
  heartbeat_row_def reschedule_row_def succeed_row_def retry_row_def fail_row_def release_def

interpretation heartbeat_stmt: claimed_write "heartbeat_row t lease_secs"
  by unfold_locales (auto simp: job_row_writes wf_job_def)

interpretation reschedule_stmt: claimed_write "reschedule_row t nxt finished_at"
  by unfold_locales (auto simp: job_row_writes wf_job_def)

interpretation succeed_stmt: claimed_write "succeed_row t finished_at"
  by unfold_locales (auto simp: job_row_writes wf_job_def)

interpretation retry_stmt: claimed_write "retry_row t err run_at"
  by unfold_locales (auto simp: job_row_writes wf_job_def)

interpretation fail_stmt: claimed_write "fail_row t err"
  by unfold_locales (auto simp: job_row_writes wf_job_def)

section \<open>Every statement keeps the table well formed\<close>

lemma keeps_heartbeat [pres]: "keeps wf_jobs (heartbeat i worker lease_secs)"
  unfolding heartbeat_def by (rule keeps_command[OF table_inv_wf_jobs heartbeat_stmt.keeps_wf])

lemma keeps_finish_success [pres]: "keeps wf_jobs (finish_success i worker nxt fin)"
  unfolding finish_success_def
  by (cases nxt)
    (auto intro!: keeps_command[OF table_inv_wf_jobs] reschedule_stmt.keeps_wf succeed_stmt.keeps_wf)

lemma keeps_retry [pres]: "keeps wf_jobs (retry i worker err run_at)"
  unfolding retry_def by (rule keeps_command[OF table_inv_wf_jobs retry_stmt.keeps_wf])

lemma keeps_fail [pres]: "keeps wf_jobs (fail i worker err)"
  unfolding fail_def by (rule keeps_command[OF table_inv_wf_jobs fail_stmt.keeps_wf])

lemma keeps_gc [pres]: "keeps wf_jobs (gc cutoff)"
  unfolding gc_def
  by (rule keeps_sql[OF table_inv_wf_jobs])
    (auto simp: wf_jobs_def distinct_keys_filter distinct_map_filter)

lemma new_job_row_simps [simp]:
  "j_id (new_job_row i t kind p ra ma key) = i" "j_key (new_job_row i t kind p ra ma key) = key"
  "j_state (new_job_row i t kind p ra ma key) = JPending"
  "j_run_at (new_job_row i t kind p ra ma key) = ra"
  "j_attempts (new_job_row i t kind p ra ma key) = 0"
  "j_kind (new_job_row i t kind p ra ma key) = kind"
  "j_schedule (new_job_row i t kind p ra ma key) = None"
  "wf_job (new_job_row i t kind p ra ma key)"
  by (simp_all add: new_job_row_def wf_job_def)

lemma keeps_enqueue [pres]: "keeps wf_jobs (enqueue kind payload run_at ma key)"
  unfolding enqueue_def
proof (rule keeps_sql[OF table_inv_wf_jobs])
  fix w w' :: "'w job_world_scheme" and a
  assume wf: "wf_jobs w"
    and step: "(if key_taken key (jobs w) then Inr (None, w\<lparr>next_job := next_job w + 1\<rparr>)
       else Inr (Some (next_job w),
                 w\<lparr>jobs := jobs w @ [new_job_row (next_job w) (now w) kind payload run_at ma key],
                   next_job := next_job w + 1\<rparr>)) = Inr (a, w')"
  have ids: "\<forall>r \<in> set (jobs w). j_id r < next_job w + 1" using wf by (fastforce simp: wf_jobs_def)
  have fresh: "next_job w \<notin> j_id ` set (jobs w)" using wf by (auto simp: wf_jobs_def)
  show "wf_jobs w'"
  proof (cases "key_taken key (jobs w)")
    case True
    with step wf ids show ?thesis by (auto simp: wf_jobs_def)
  next
    case False
    then have "distinct (job_keys (jobs w @ [new_job_row (next_job w) (now w) kind payload run_at ma key]))"
      using wf by (auto simp: wf_jobs_def key_taken_def job_keys_def split: option.splits)
    with False step wf ids fresh show ?thesis by (auto simp: wf_jobs_def)
  qed
qed

lemma claim_row_simps [simp]:
  "j_id (claim_row t wk ls r) = j_id r" "j_key (claim_row t wk ls r) = j_key r"
  "j_kind (claim_row t wk ls r) = j_kind r" "j_payload (claim_row t wk ls r) = j_payload r"
  "j_attempts (claim_row t wk ls r) = j_attempts r + 1"
  "j_claimed_by (claim_row t wk ls r) = Some wk"
  "j_state (claim_row t wk ls r) = JRunning"
  "j_lease (claim_row t wk ls r) = Some (t + seconds ls)"
  "j_schedule (claim_row t wk ls r) = j_schedule r"
  "j_max_attempts (claim_row t wk ls r) = j_max_attempts r"
  "j_run_at (claim_row t wk ls r) = j_run_at r"
  by (simp_all add: claim_row_def)

lemma wf_claim_row: "wf_job r \<Longrightarrow> wf_job (claim_row t wk ls r)"
  by (simp add: wf_job_def)

lemma keeps_claim_inner [pres]: "keeps wf_jobs (claim_inner batch worker lease_secs kinds)"
  unfolding claim_inner_def
  by (rule keeps_sql[OF table_inv_wf_jobs])
    (auto simp: wf_jobs_def Let_def set_update_where distinct_update_where job_keys_update wf_claim_row)

lemma keeps_claim [pres]: "keeps wf_jobs (claim batch worker lease_secs)"
  "keeps wf_jobs (claim_kinds batch worker lease_secs kinds)"
  by (simp_all add: claim_def claim_kinds_def keeps_claim_inner)

end
