(* ===== verification/Job_Worker.thy ===== *)
theory Job_Worker
  imports Job_Queue
begin

text \<open>
  The job worker: schedules and backoff (\<open>job/schedule.rs\<close>), the handler registry
  (\<open>job/registry.rs\<close>, \<open>application/src/jobs.rs\<close>) and one iteration of the worker loop
  (\<open>job/worker.rs\<close>).  The endless loop of \<open>Worker::run\<close> is \<open>poll_once\<close> repeated; the
  heartbeat task, which runs beside a handler, is the statement \<open>heartbeat\<close> interleaved
  as an action of its own in \<open>Job_System\<close>.

  Outside the repository, and therefore arguments: the cron parser, the text rendering
  of JSON values and strings in error messages, and the random jitter.
\<close>

section \<open>Errors and handlers\<close>

datatype job_error = JobFailed ustring | JobPermanent ustring

definition job_error_text :: "job_error \<Rightarrow> ustring" where
  "job_error_text e =
     (case e of JobFailed m \<Rightarrow> lit ''job failed: '' @ m
      | JobPermanent m \<Rightarrow> lit ''job failed permanently (no retry): '' @ m)"

record 'w job_handler =
  h_kind :: ustring
  h_run :: "json \<Rightarrow> ('w, job_error, unit) m"
  h_dead_letter :: "json \<Rightarrow> ustring \<Rightarrow> 'w \<Rightarrow> 'w"

record recurring_kind =
  rk_kind :: ustring
  rk_payload :: json
  rk_schedule :: json
  rk_key :: ustring
  rk_max_attempts :: int

record 'w job_registry =
  reg_handlers :: "'w job_handler list"
  reg_recurring :: "recurring_kind list"

text \<open>Collecting into a map keeps the last handler of a kind.\<close>

definition registry_get :: "'w job_registry \<Rightarrow> ustring \<Rightarrow> 'w job_handler option" where
  "registry_get reg kind = List.find (\<lambda>h. h_kind h = kind) (rev (reg_handlers reg))"

definition job_retention :: ustring where "job_retention = lit ''retention''"
definition job_jobs_gc :: ustring where "job_jobs_gc = lit ''jobs.gc''"
definition job_email_send :: ustring where "job_email_send = lit ''email.send''"

text \<open>The recurring jobs that \<open>job_services\<close> registers.\<close>

definition builtin_recurring :: "int \<Rightarrow> recurring_kind list" where
  "builtin_recurring max_attempts =
     [\<lparr>rk_kind = job_retention, rk_payload = JObject [],
       rk_schedule = JObject [(lit ''every_seconds'', JInt 86400)],
       rk_key = lit ''recurring:retention'', rk_max_attempts = max_attempts\<rparr>,
      \<lparr>rk_kind = job_jobs_gc, rk_payload = JObject [],
       rk_schedule = JObject [(lit ''every_seconds'', JInt 86400)],
       rk_key = lit ''recurring:jobs.gc'', rk_max_attempts = max_attempts\<rparr>]"

text \<open>\<open>JobsGcHandler::run\<close>.\<close>

definition jobs_gc_handler :: "int \<Rightarrow> ('w job_world_scheme) job_handler" where
  "jobs_gc_handler retention_days =
     \<lparr>h_kind = job_jobs_gc,
      h_run = (\<lambda>_ w. case gc (now w - days retention_days) w of
                  (Inl (JobDb e), w') \<Rightarrow> (Inl (JobFailed (lit ''jobs.gc failed: database error: '' @ failure_kind e)), w')
                | (Inr _, w') \<Rightarrow> (Inr (), w')),
      h_dead_letter = (\<lambda>_ _ w. w)\<rparr>"

section \<open>Schedules\<close>

record job_externals =
  cron_parse :: "ustring \<Rightarrow> ustring + (int \<Rightarrow> int option)"
  show_json :: "json \<Rightarrow> ustring"
  show_debug :: "ustring \<Rightarrow> ustring"
  jitter_of :: "claimed_job \<Rightarrow> 64 word"

definition as_i64 :: "json \<Rightarrow> int option" where
  "as_i64 j = (case j of JInt n \<Rightarrow> if - (2 ^ 63) \<le> n \<and> n < 2 ^ 63 then Some n else None | _ \<Rightarrow> None)"

text \<open>\<open>split_whitespace().count()\<close>: the number of maximal runs of other characters.\<close>

fun word_count :: "bool \<Rightarrow> ustring \<Rightarrow> nat" where
  "word_count in_word [] = 0"
| "word_count in_word (c # cs) =
     (if is_whitespace c then word_count False cs
      else (if in_word then 0 else 1) + word_count True cs)"

definition normalize_cron :: "ustring \<Rightarrow> ustring" where
  "normalize_cron expr = (if word_count False expr = 5 then lit ''0 '' @ expr else expr)"

definition next_run_at :: "job_externals \<Rightarrow> json option \<Rightarrow> int \<Rightarrow> job_error + int option" where
  "next_run_at X schedule t =
     (case schedule of
        None \<Rightarrow> Inr None
      | Some s \<Rightarrow>
          if s = JNull then Inr None
          else if (case s of JObject _ \<Rightarrow> False | _ \<Rightarrow> True)
          then Inl (JobPermanent (lit ''schedule must be an object, got '' @ show_json X s))
          else case Option.bind (jget (lit ''every_seconds'') s) as_i64 of
            Some secs \<Rightarrow>
              if secs \<le> 0
              then Inl (JobPermanent (lit ''every_seconds must be positive, got '' @ show_int secs))
              else Inr (Some (t + seconds secs))
          | None \<Rightarrow>
              (case Option.bind (jget (lit ''cron'') s) as_str of
                 Some expr \<Rightarrow>
                   (case cron_parse X (normalize_cron expr) of
                      Inl e \<Rightarrow>
                        Inl (JobPermanent (lit ''invalid cron expression '' @ show_debug X expr @ lit '': '' @ e))
                    | Inr after \<Rightarrow>
                        (case after t of
                           None \<Rightarrow> Inl (JobPermanent (lit ''cron '' @ show_debug X expr @ lit '' yields no future run''))
                         | Some nxt \<Rightarrow> Inr (Some nxt)))
               | None \<Rightarrow> Inl (JobPermanent (lit ''unsupported schedule: '' @ show_json X s))))"

section \<open>Backoff\<close>

definition sat_mul :: "64 word \<Rightarrow> 64 word \<Rightarrow> 64 word" where
  "sat_mul a b = (if unat a * unat b < 2 ^ 64 then a * b else - 1)"

definition sat_add :: "64 word \<Rightarrow> 64 word \<Rightarrow> 64 word" where
  "sat_add a b = (if unat a + unat b < 2 ^ 64 then a + b else - 1)"

definition backoff_ms :: "int \<Rightarrow> 64 word \<Rightarrow> 64 word \<Rightarrow> 64 word" where
  "backoff_ms attempt base_ms jitter =
     (let ex = nat (max (attempt - 1) 0);
          exponential = sat_mul base_ms (push_bit (min ex 63) 1)
      in sat_add exponential jitter)"

section \<open>Running a claimed job\<close>

record worker_config =
  wc_batch :: nat
  wc_lease_secs :: int
  wc_backoff_base :: "64 word"

text \<open>\<open>delay_ms as i64\<close> reinterprets the word as a signed number.\<close>

definition run_job ::
  "job_externals \<Rightarrow> worker_config \<Rightarrow> ustring \<Rightarrow> ('w job_world_scheme) job_registry \<Rightarrow> claimed_job
    \<Rightarrow> ('w job_world_scheme, job_repo_error, unit) m" where
  "run_job X cfg worker reg job =
     (case registry_get reg (c_kind job) of
        None \<Rightarrow>
          ignoreM (fail (c_id job) worker
            (lit ''no handler registered for kind '' @ [39] @ c_kind job @ [39]))
      | Some handler \<Rightarrow>
          bindM (attemptM (h_run handler (c_payload job))) (\<lambda>result.
          bindM (getM now) (\<lambda>t.
            case result of
              Inr _ \<Rightarrow>
                (case next_run_at X (c_schedule job) t of
                   Inr nxt \<Rightarrow> ignoreM (finish_success (c_id job) worker nxt t)
                 | Inl e \<Rightarrow> ignoreM (fail (c_id job) worker (job_error_text e)))
            | Inl (JobFailed e) \<Rightarrow>
                if c_attempts job < c_max_attempts job then
                  (let delay_ms = backoff_ms (c_attempts job) (wc_backoff_base cfg) (jitter_of X job);
                       run_at = t + millis (sint delay_ms)
                   in ignoreM (retry (c_id job) worker e run_at))
                else
                  thenM (modifyM (h_dead_letter handler (c_payload job) e))
                        (ignoreM (fail (c_id job) worker e))
            | Inl (JobPermanent e) \<Rightarrow>
                thenM (modifyM (h_dead_letter handler (c_payload job) e))
                      (ignoreM (fail (c_id job) worker e)))))"

text \<open>One iteration of the loop of \<open>Worker::run\<close>: a failed claim is logged and waited out.\<close>

definition poll_once ::
  "job_externals \<Rightarrow> worker_config \<Rightarrow> ustring \<Rightarrow> ('w job_world_scheme) job_registry
    \<Rightarrow> ('w job_world_scheme, job_repo_error, unit) m" where
  "poll_once X cfg worker reg =
     bindM (attemptM (claim (wc_batch cfg) worker (wc_lease_secs cfg))) (\<lambda>r.
       case r of
         Inl _ \<Rightarrow> retM ()
       | Inr js \<Rightarrow> forM js (run_job X cfg worker reg))"

definition bootstrap :: "('w job_world_scheme) job_registry \<Rightarrow> ('w job_world_scheme, job_repo_error, unit) m" where
  "bootstrap reg =
     bindM (getM now) (\<lambda>t.
       forM (reg_recurring reg) (\<lambda>rk.
         ignoreM (enqueue (rk_kind rk) (rk_payload rk) t (Some (rk_max_attempts rk)) (Some (rk_key rk)))))"

section \<open>Lemmas\<close>

lemma unat_sat_mul: "unat (sat_mul a b) = min (2 ^ 64 - 1) (unat a * unat b)"
  by (auto simp: sat_mul_def unat_word_ariths unsigned_minus_1_eq_mask mask_eq_exp_minus_1 min_def)

lemma unat_sat_add: "unat (sat_add a b) = min (2 ^ 64 - 1) (unat a + unat b)"
  by (auto simp: sat_add_def unat_word_ariths unsigned_minus_1_eq_mask mask_eq_exp_minus_1 min_def)

lemma min_cut: "min (m :: nat) (min m a + b) = min m (a + b)"
  by (simp add: min_def)

lemma unat_push_one: "n < 64 \<Longrightarrow> unat (push_bit n (1 :: 64 word)) = 2 ^ n"
  unfolding unsigned_push_bit_eq by (simp add: take_bit_nat_eq_self)

lemma keeps_bootstrap [pres]: "keeps wf_jobs (bootstrap reg)"
  unfolding bootstrap_def by (intro pres)

text \<open>A handler may change anything but the job table's well-formedness.\<close>

definition handlers_keep :: "(('w job_world_scheme) \<Rightarrow> bool) \<Rightarrow> ('w job_world_scheme) job_registry \<Rightarrow> bool" where
  "handlers_keep I reg \<longleftrightarrow>
     (\<forall>h \<in> set (reg_handlers reg). (\<forall>p. keeps I (h_run h p)) \<and> (\<forall>p e w. I w \<longrightarrow> I (h_dead_letter h p e w)))"

lemma registry_get_mem: "registry_get reg k = Some h \<Longrightarrow> h \<in> set (reg_handlers reg) \<and> h_kind h = k"
  unfolding registry_get_def by (auto simp: find_Some_iff) (metis nth_mem set_rev length_rev)

lemma keeps_run_job [pres]:
  assumes "handlers_keep wf_jobs reg"
  shows "keeps wf_jobs (run_job X cfg worker reg job)"
proof (cases "registry_get reg (c_kind job)")
  case None
  then show ?thesis unfolding run_job_def by (simp add: pres)
next
  case (Some h)
  with assms have h: "\<And>p. keeps wf_jobs (h_run h p)" "\<And>p e w. wf_jobs w \<Longrightarrow> wf_jobs (h_dead_letter h p e w)"
    using registry_get_mem[OF Some] by (auto simp: handlers_keep_def)
  show ?thesis unfolding run_job_def Some option.case Let_def
  proof (intro keeps_bind keeps_attempt h(1) keeps_get)
    fix result :: "job_error + unit" and t
    show "keeps wf_jobs
      (case result of
         Inl e \<Rightarrow> (case e of
            JobFailed e \<Rightarrow>
              if c_attempts job < c_max_attempts job
              then ignoreM (retry (c_id job) worker e
                     (t + millis (sint (backoff_ms (c_attempts job) (wc_backoff_base cfg) (jitter_of X job)))))
              else thenM (modifyM (h_dead_letter h (c_payload job) e)) (ignoreM (fail (c_id job) worker e))
          | JobPermanent e \<Rightarrow>
              thenM (modifyM (h_dead_letter h (c_payload job) e)) (ignoreM (fail (c_id job) worker e)))
       | Inr _ \<Rightarrow> (case next_run_at X (c_schedule job) t of
                   Inl e \<Rightarrow> ignoreM (fail (c_id job) worker (job_error_text e))
                 | Inr nxt \<Rightarrow> ignoreM (finish_success (c_id job) worker nxt t)))"
      by (cases result; auto split: job_error.splits sum.splits intro!: pres keeps_modify h(2))
  qed
qed

lemma keeps_poll_once [pres]: "handlers_keep wf_jobs reg \<Longrightarrow> keeps wf_jobs (poll_once X cfg worker reg)"
  unfolding poll_once_def by (intro pres)

text \<open>A recurring job never goes backwards in time.\<close>

lemma next_run_at_future:
  assumes "\<And>expr f u v. cron_parse X expr = Inr f \<Longrightarrow> f u = Some v \<Longrightarrow> u < v"
    and "next_run_at X s t = Inr (Some nxt)"
  shows "t < nxt"
  using assms(2)
  by (auto simp: next_run_at_def time_units split: option.splits if_splits json.splits sum.splits dest: assms(1))

section \<open>Properties\<close>

text \<open>The retry delay is exact in 64-bit arithmetic: it is the base times two to the
  attempt (the exponent stops at 63) plus the jitter, cut at the largest \<open>u64\<close>; it can
  never wrap around to a small delay.\<close>

lemma backoff_exact:
  "unat (backoff_ms attempt base_ms jitter)
     = min (2 ^ 64 - 1) (unat base_ms * 2 ^ min (nat (attempt - 1)) 63 + unat jitter)"
proof -
  have "min (nat (attempt - 1)) 63 < 64" by simp
  then have p: "unat (push_bit (min (nat (attempt - 1)) 63) (1 :: 64 word)) = 2 ^ min (nat (attempt - 1)) 63"
    by (rule unat_push_one)
  have n: "nat (max (attempt - 1) 0) = nat (attempt - 1)" by simp
  show ?thesis
    unfolding backoff_ms_def Let_def unat_sat_add unat_sat_mul n p by (rule min_cut)
qed

end
