(* ===== verification/Job_System.thy ===== *)
theory Job_System
  imports Job_Worker
begin

text \<open>
  The job queue as a system: several workers, each sending the statements of
  \<open>Job_Queue\<close> in any order (also workers whose lease has long passed to another), new
  jobs, the garbage collector and the clock.  \<open>queue_step\<close> is the labelled step
  relation; a run is a list of labels.  The theorems say what no interleaving can do.
\<close>

section \<open>Actions\<close>

datatype queue_action =
    AEnqueue ustring json int "int option" "ustring option"
  | AClaim ustring nat int "ustring list option"
  | AHeartbeat ustring int int
  | AFinish ustring int "int option" int
  | ARetry ustring int ustring int
  | AFail ustring int ustring
  | AGc int
  | ATick nat

definition act :: "queue_action \<Rightarrow> 'w job_world_scheme \<Rightarrow> 'w job_world_scheme" where
  "act a w =
     (case a of
        AEnqueue kind payload run_at ma key \<Rightarrow> snd (enqueue kind payload run_at ma key w)
      | AClaim wk batch ls kinds \<Rightarrow> snd (claim_inner batch wk ls kinds w)
      | AHeartbeat wk i ls \<Rightarrow> snd (heartbeat i wk ls w)
      | AFinish wk i nxt fin \<Rightarrow> snd (finish_success i wk nxt fin w)
      | ARetry wk i err run_at \<Rightarrow> snd (retry i wk err run_at w)
      | AFail wk i err \<Rightarrow> snd (fail i wk err w)
      | AGc cutoff \<Rightarrow> snd (gc cutoff w)
      | ATick d \<Rightarrow> w\<lparr>now := now w + int d\<rparr>)"

text \<open>The worker an action belongs to.\<close>

definition actor :: "queue_action \<Rightarrow> ustring option" where
  "actor a =
     (case a of AClaim wk _ _ _ \<Rightarrow> Some wk | AHeartbeat wk _ _ \<Rightarrow> Some wk | AFinish wk _ _ _ \<Rightarrow> Some wk
      | ARetry wk _ _ _ \<Rightarrow> Some wk | AFail wk _ _ \<Rightarrow> Some wk | _ \<Rightarrow> None)"

inductive queue_step :: "'w job_world_scheme \<Rightarrow> queue_action \<Rightarrow> 'w job_world_scheme \<Rightarrow> bool" where
  step: "queue_step w a (act a w)"

inductive queue_run :: "'w job_world_scheme \<Rightarrow> queue_action list \<Rightarrow> 'w job_world_scheme \<Rightarrow> bool" where
  done_run: "queue_run w [] w"
| more_run: "queue_step w a w' \<Longrightarrow> queue_run w' as w'' \<Longrightarrow> queue_run w (a # as) w''"

inductive_cases queue_stepE: "queue_step w a w'"
inductive_simps queue_run_Nil: "queue_run w [] w'"
inductive_simps queue_run_Cons: "queue_run w (a # as) w'"

lemma queue_step_iff: "queue_step w a w' \<longleftrightarrow> w' = act a w"
  by (auto intro: step elim: queue_stepE)

section \<open>Effect of one statement on the table\<close>

text \<open>Whatever the fault schedule says, a statement either leaves the table alone or does
  what its SQL says, and the clock does not move.\<close>

lemma sql_snd:
  "snd (sql conv f w) = w\<lparr>faults := tl (faults w)\<rparr>
   \<or> (\<exists>v. v = w\<lparr>faults := tl (faults w)\<rparr> \<and>
         (case f v of Inl _ \<Rightarrow> snd (sql conv f w) = v | Inr (_, v') \<Rightarrow> snd (sql conv f w) = v'))"
proof (cases "faults w")
  case Nil
  then have eq: "w\<lparr>faults := []\<rparr> = w" by (metis world.surjective world.update_convs(2))
  show ?thesis unfolding Nil list.sel eq using Nil by (auto simp: sql_def run_stmt_def split: sum.splits prod.splits)
next
  case (Cons x xs)
  then show ?thesis
    by (cases x) (auto simp: sql_def run_stmt_def split: sum.splits prod.splits)
qed

lemma sql_jobs_cases:
  assumes "w' = snd (sql conv f w)"
    and "\<And>v. jobs v = jobs w \<Longrightarrow> now v = now w \<Longrightarrow> (case f v of Inl _ \<Rightarrow> True | Inr (_, v') \<Rightarrow> R (jobs v') \<and> now v' = now w)"
    and "R (jobs w)"
  shows "R (jobs w') \<and> now w' = now w"
  using assms(1,3) assms(2)[of "w\<lparr>faults := tl (faults w)\<rparr>"] sql_snd[of conv f w]
  by (auto split: sum.splits prod.splits)

lemma command_jobs_cases:
  assumes "w' = snd (command conv (\<lambda>w. w\<lparr>jobs := g w (jobs w)\<rparr>) w)"
    and "\<And>v. now v = now w \<Longrightarrow> R (g v (jobs w))" and "R (jobs w)"
  shows "R (jobs w') \<and> now w' = now w"
  using assms unfolding command_def by (intro sql_jobs_cases[where R = R]) auto

text \<open>What survives an action: a row that its owner's lease still protects, against
  every action of somebody else; and a finished row, against everything but the
  collector.\<close>

definition protected :: "ustring \<Rightarrow> int \<Rightarrow> job_row \<Rightarrow> bool" where
  "protected v t r \<longleftrightarrow> j_state r = JRunning \<and> j_claimed_by r = Some v \<and> (\<exists>l. j_lease r = Some l \<and> t \<le> l)"

definition finished :: "job_row \<Rightarrow> bool" where
  "finished r \<longleftrightarrow> j_state r = JSucceeded \<or> j_state r = JFailed"

lemma not_claimable:
  "protected v t r \<Longrightarrow> \<not> claimable t kinds r" "finished r \<Longrightarrow> \<not> claimable t kinds r"
  by (auto simp: protected_def finished_def claimable_def)

lemma candidates_claimable: "r \<in> set (candidates batch t kinds table) \<Longrightarrow> r \<in> set table \<and> claimable t kinds r"
  unfolding candidates_def by (auto dest: in_set_takeD)

lemma claim_keeps_row:
  assumes "distinct (map j_id table)" "r \<in> set table" "\<not> claimable t kinds r"
  shows "r \<in> set (update_where (\<lambda>q. j_id q \<in> j_id ` set (candidates batch t kinds table)) upd table)"
proof -
  have "j_id r \<notin> j_id ` set (candidates batch t kinds table)"
    using assms candidates_claimable by (auto dest!: inj_onD[OF distinct_map[THEN iffD1, THEN conjunct2]])
  with assms(2) show ?thesis by (force simp: set_update_where)
qed

lemma act_keeps_row:
  assumes wf: "wf_jobs w" and r: "r \<in> set (jobs w)"
    and kind: "(\<exists>v. protected v (now w) r \<and> actor a \<noteq> Some v) \<or> finished r"
    and gc: "\<And>cutoff. a = AGc cutoff \<Longrightarrow> \<not> collectable cutoff r"
  shows "r \<in> set (jobs (act a w))"
proof -
  have ids: "distinct (map j_id (jobs w))" using wf by (simp add: wf_jobs_def)
  have nc: "\<not> claimable (now w) kinds r" for kinds using kind not_claimable by blast
  have own: "j_claimed_by r \<noteq> Some wk" if "actor a = Some wk" for wk
    using kind that wf r by (auto simp: protected_def finished_def wf_jobs_def wf_job_def)
  note by_command = command_jobs_cases[where R = "\<lambda>t. r \<in> set t", THEN conjunct1]
  show ?thesis
  proof (cases a)
    case (AEnqueue kd p ra ma key)
    show ?thesis unfolding AEnqueue act_def queue_action.case enqueue_def
      by (rule sql_jobs_cases[where R = "\<lambda>t. r \<in> set t", THEN conjunct1, OF refl]) (use r in auto)
  next
    case (AClaim wk batch ls kinds)
    show ?thesis unfolding AClaim act_def queue_action.case claim_inner_def
      by (rule sql_jobs_cases[where R = "\<lambda>t. r \<in> set t", THEN conjunct1, OF refl])
        (use r claim_keeps_row[OF ids r nc] in \<open>auto simp: Let_def\<close>)
  next
    case (AHeartbeat wk i ls)
    then show ?thesis using r heartbeat_stmt.fenced[OF _ own]
      by (auto simp: act_def heartbeat_def actor_def intro!: by_command[OF refl])
  next
    case (AFinish wk i nxt fin)
    then show ?thesis
      using r reschedule_stmt.fenced[OF _ own] succeed_stmt.fenced[OF _ own]
      by (cases nxt) (auto simp: act_def finish_success_def actor_def intro!: by_command[OF refl])
  next
    case (ARetry wk i err ra)
    then show ?thesis using r retry_stmt.fenced[OF _ own]
      by (auto simp: act_def retry_def actor_def intro!: by_command[OF refl])
  next
    case (AFail wk i err)
    then show ?thesis using r fail_stmt.fenced[OF _ own]
      by (auto simp: act_def fail_def actor_def intro!: by_command[OF refl])
  next
    case (AGc cutoff)
    show ?thesis unfolding AGc act_def queue_action.case gc_def
      by (rule sql_jobs_cases[where R = "\<lambda>t. r \<in> set t", THEN conjunct1, OF refl])
        (use r gc[OF AGc] in auto)
  next
    case (ATick d)
    then show ?thesis using r by (simp add: act_def)
  qed
qed

lemma wf_jobs_act:
  fixes w :: "'w job_world_scheme"
  assumes wf: "wf_jobs w"
  shows "wf_jobs (act a w)"
proof -
  have k: "keeps wf_jobs m \<Longrightarrow> wf_jobs (snd (m w))" for m :: "('w job_world_scheme, 'e, 'b) m"
    using wf by (simp add: keeps_def)
  show ?thesis
    by (cases a) (use wf in \<open>simp_all add: act_def k[OF keeps_enqueue] k[OF keeps_claim_inner] k[OF keeps_heartbeat]
      k[OF keeps_finish_success] k[OF keeps_retry] k[OF keeps_fail] k[OF keeps_gc] wf_jobs_def[of "w\<lparr>now := _\<rparr>"]
      wf_jobs_def[of w]\<close>)
qed

lemma sql_now: "(\<And>v x v'. f v = Inr (x, v') \<Longrightarrow> now v' = now v) \<Longrightarrow> now (snd (sql conv f w)) = now w"
  using sql_snd[of conv f w] by (auto split: sum.splits prod.splits)

lemma now_act: "now (act a w) = now w + (case a of ATick d \<Rightarrow> int d | _ \<Rightarrow> 0)"
  by (cases a)
    (auto simp: act_def enqueue_def claim_inner_def heartbeat_def finish_success_def retry_def fail_def gc_def
      command_def Let_def intro!: sql_now split: option.split if_splits)

lemma now_run: "queue_run w as w' \<Longrightarrow> now w \<le> now w'"
  by (induction rule: queue_run.induct) (auto simp: queue_step_iff now_act split: queue_action.splits)

lemma wf_jobs_run: "queue_run w as w' \<Longrightarrow> wf_jobs w \<Longrightarrow> wf_jobs w'"
  by (induction rule: queue_run.induct) (auto simp: queue_step_iff wf_jobs_act)

section \<open>Properties\<close>

text \<open>C25: a lease is exclusive: as long as the clock has not passed the lease of a
  running job, no sequence of actions of other workers, of producers or of the garbage
  collector changes the row: nobody else can claim, finish, retry or delete it.\<close>

theorem lease_is_exclusive:
  assumes "queue_run w as w'" and "wf_jobs w" and "r \<in> set (jobs w)"
    and "j_claimed_by r = Some v" and "j_lease r = Some l" and "now w' \<le> l"
    and "\<forall>a \<in> set as. actor a \<noteq> Some v"
  shows "r \<in> set (jobs w')"
  using assms
proof (induction rule: queue_run.induct)
  case (more_run w a w1 as w')
  have w1: "w1 = act a w" using more_run(1) by (simp add: queue_step_iff)
  have run: "j_state r = JRunning" using more_run.prems(1,2,3) by (auto simp: wf_jobs_def wf_job_def)
  have "now w \<le> now w1" "now w1 \<le> now w'"
    using now_run[OF more_run(2)] w1 by (auto simp: now_act split: queue_action.split)
  then have "protected v (now w) r" using more_run.prems run by (auto simp: protected_def)
  then have "r \<in> set (jobs w1)" unfolding w1
    using more_run.prems run by (intro act_keeps_row) (auto simp: collectable_def)
  then show ?case using more_run.IH more_run.prems wf_jobs_act[OF more_run.prems(1), of a] w1 by auto
qed simp

text \<open>A job that succeeded or was dead-lettered is never run again: its row is not
  claimed, not rewritten by a late worker and stays as it is until a garbage collection
  whose cutoff lies after its finishing time.\<close>

lemma finished_jobs_stay:
  assumes "queue_run w as w'" and "wf_jobs w" and "r \<in> set (jobs w)" and "finished r"
    and "\<forall>cutoff. AGc cutoff \<in> set as \<longrightarrow> \<not> collectable cutoff r"
  shows "r \<in> set (jobs w') \<and> \<not> claimable (now w') kinds r"
  using assms
proof (induction rule: queue_run.induct)
  case (more_run w a w1 as w')
  have w1: "w1 = act a w" using more_run(1) by (simp add: queue_step_iff)
  have "r \<in> set (jobs w1)" unfolding w1
    by (rule act_keeps_row) (use more_run.prems in auto)
  then show ?case using more_run.IH more_run.prems wf_jobs_act[OF more_run.prems(1), of a] w1 by auto
qed (simp add: not_claimable)

end
