(* ===== verification/Job_Lifecycle.thy ===== *)
theory Job_Lifecycle
  imports Job_System
begin

text \<open>
  The life of one job through claims and worker iterations: which rows a claim takes,
  the retry budget, and what happens to the recurring jobs the worker bootstraps.
\<close>

section \<open>Which rows a claim takes\<close>

lemma filter_sorted_take:
  assumes "sorted (map f xs)" "x \<in> set xs" "x \<notin> set (take n xs)" "y \<in> set (take n xs)"
  shows "f y \<le> f x"
proof -
  have "x \<in> set (drop n xs)" using assms(2,3) by (metis Un_iff append_take_drop_id set_append)
  moreover have "sorted (map f (take n xs) @ map f (drop n xs))"
    using assms(1) by (metis append_take_drop_id map_append)
  ultimately show ?thesis using assms(4) by (auto simp: sorted_append)
qed

lemma claim_inner_exec:
  assumes "faults w = []"
  shows "claim_inner batch worker ls kinds w =
    (Inr (map (\<lambda>r. claimed_of (claim_row (now w) worker ls r)) (candidates batch (now w) kinds (jobs w))),
     w\<lparr>jobs := update_where (\<lambda>r. j_id r \<in> j_id ` set (candidates batch (now w) kinds (jobs w)))
                 (claim_row (now w) worker ls) (jobs w)\<rparr>)"
  using assms by (simp add: claim_inner_def exec Let_def)

section \<open>One iteration on a queue of one job\<close>

lemma candidates_single:
  "0 < batch \<Longrightarrow> candidates batch t kinds [r] = (if claimable t kinds r then [r] else [])"
  by (cases batch) (simp_all add: candidates_def)

lemma claim_single:
  assumes "faults w = []" "jobs w = [r]" "0 < batch"
  shows "claim batch worker ls w =
    (if claimable (now w) None r
     then (Inr [claimed_of (claim_row (now w) worker ls r)], w\<lparr>jobs := [claim_row (now w) worker ls r]\<rparr>)
     else (Inr [], w))"
  using assms by (simp add: claim_def claim_inner_exec candidates_single)

lemma owned_update_single [simp]:
  "owned_update i worker upd [r] = [if j_id r = i \<and> j_claimed_by r = Some worker then upd r else r]"
  by (simp add: owned_update_def)

lemma claimed_of_simps [simp]:
  "c_id (claimed_of r) = j_id r" "c_kind (claimed_of r) = j_kind r" "c_payload (claimed_of r) = j_payload r"
  "c_attempts (claimed_of r) = j_attempts r" "c_max_attempts (claimed_of r) = j_max_attempts r"
  "c_schedule (claimed_of r) = j_schedule r"
  by (simp_all add: claimed_of_def)

lemma release_simps [simp]:
  "j_id (release r) = j_id r" "j_key (release r) = j_key r" "j_kind (release r) = j_kind r"
  "j_payload (release r) = j_payload r" "j_attempts (release r) = j_attempts r"
  "j_max_attempts (release r) = j_max_attempts r" "j_schedule (release r) = j_schedule r"
  by (simp_all add: release_def)

text \<open>A handler that answers the same on every world and touches nothing.\<close>

definition constant_handler :: "ustring \<Rightarrow> job_error + unit \<Rightarrow> 'w job_handler" where
  "constant_handler kind answer =
     \<lparr>h_kind = kind, h_run = (\<lambda>_ w. (answer, w)), h_dead_letter = (\<lambda>_ _ w. w)\<rparr>"

lemma poll_failing:
  assumes w: "faults w = []" "jobs w = [r]" "0 < wc_batch cfg"
    and r: "j_state r = JPending" "j_run_at r \<le> now w"
    and h: "registry_get reg (j_kind r) = Some (constant_handler (j_kind r) (Inl (JobFailed e)))"
  shows "\<exists>r1. j_attempts r1 = j_attempts r + 1 \<and> j_max_attempts r1 = j_max_attempts r
      \<and> j_kind r1 = j_kind r \<and> j_last_error r1 = Some e
      \<and> j_state r1 = (if j_attempts r + 1 < j_max_attempts r then JPending else JFailed)
      \<and> snd (poll_once X cfg worker reg w) = w\<lparr>jobs := [r1]\<rparr>"
proof -
  let ?c = "claim_row (now w) worker (wc_lease_secs cfg) r"
  let ?run_at = "now w + millis (sint (backoff_ms (j_attempts r + 1) (wc_backoff_base cfg) (jitter_of X (claimed_of ?c))))"
  let ?r1 = "if j_attempts r + 1 < j_max_attempts r then retry_row (now w) e ?run_at ?c else fail_row (now w) e ?c"
  have "snd (poll_once X cfg worker reg w) = w\<lparr>jobs := [?r1]\<rparr>"
    using assms
    by (simp add: poll_once_def exec claim_single claimable_def run_job_def constant_handler_def Let_def
        retry_def fail_def)
  then show ?thesis by (intro exI[of _ ?r1]) (simp add: retry_row_def fail_row_def)
qed

lemma poll_finished:
  assumes "faults w = []" "jobs w = [r]" "0 < wc_batch cfg" "finished r"
  shows "snd (poll_once X cfg worker reg w) = w"
  using assms not_claimable(2)[OF assms(4)] by (simp add: poll_once_def exec claim_single)

text \<open>The worker polls once the job is due.\<close>

definition poll_when_due ::
  "job_externals \<Rightarrow> worker_config \<Rightarrow> ustring \<Rightarrow> ('w job_world_scheme) job_registry
    \<Rightarrow> 'w job_world_scheme \<Rightarrow> 'w job_world_scheme" where
  "poll_when_due X cfg worker reg w =
     snd (poll_once X cfg worker reg (w\<lparr>now := max (now w) (j_run_at (hd (jobs w)))\<rparr>))"

lemma budget_steps:
  assumes w: "faults w = []" "jobs w = [r]" "0 < wc_batch cfg"
    and r: "j_state r = JPending" "j_attempts r = 0" "0 < j_max_attempts r"
    and h: "registry_get reg (j_kind r) = Some (constant_handler (j_kind r) (Inl (JobFailed e)))"
  shows "\<exists>r'. faults ((poll_when_due X cfg worker reg ^^ n) w) = []
      \<and> jobs ((poll_when_due X cfg worker reg ^^ n) w) = [r']
      \<and> j_kind r' = j_kind r \<and> j_max_attempts r' = j_max_attempts r
      \<and> j_attempts r' = min (int n) (j_max_attempts r)
      \<and> j_state r' = (if int n < j_max_attempts r then JPending else JFailed)"
proof (induction n)
  case 0
  then show ?case using w r by simp
next
  case (Suc n)
  define v where "v = (poll_when_due X cfg worker reg ^^ n) w"
  from Suc obtain q where q: "faults v = []" "jobs v = [q]" "j_kind q = j_kind r" "j_max_attempts q = j_max_attempts r"
      "j_attempts q = min (int n) (j_max_attempts r)"
      "j_state q = (if int n < j_max_attempts r then JPending else JFailed)"
    unfolding v_def by blast
  let ?v = "v\<lparr>now := max (now v) (j_run_at q)\<rparr>"
  have next_state: "(poll_when_due X cfg worker reg ^^ Suc n) w = snd (poll_once X cfg worker reg ?v)"
    using q(2) by (simp add: v_def poll_when_due_def)
  show ?case
  proof (cases "int n < j_max_attempts r")
    case True
    have "registry_get reg (j_kind q) = Some (constant_handler (j_kind q) (Inl (JobFailed e)))"
      using h q(3) by simp
    from poll_failing[of ?v q cfg reg e X worker, OF _ _ w(3) _ _ this] q True
    show ?thesis unfolding next_state by auto
  next
    case False
    then have "finished q" using q(6) by (simp add: finished_def)
    then have "snd (poll_once X cfg worker reg ?v) = ?v"
      using q w(3) by (intro poll_finished[of _ q]) auto
    then show ?thesis unfolding next_state using q False by auto
  qed
qed

section \<open>Crashing workers\<close>

text \<open>Workers that claim and die: a claim, then time until the lease has passed.\<close>

definition crash_rounds :: "ustring \<Rightarrow> int \<Rightarrow> nat \<Rightarrow> queue_action list" where
  "crash_rounds worker ls n = concat (replicate n [AClaim worker 1 ls None, ATick (nat (seconds ls) + 1)])"

lemma crash_round:
  assumes "faults w = []" "jobs w = [r]" "claimable (now w) None r" "0 \<le> ls"
  shows "\<exists>w1 r1. act (ATick (nat (seconds ls) + 1)) (act (AClaim worker 1 ls None) w) = w1
     \<and> faults w1 = [] \<and> jobs w1 = [r1] \<and> claimable (now w1) None r1
     \<and> j_attempts r1 = j_attempts r + 1 \<and> j_state r1 = JRunning \<and> j_max_attempts r1 = j_max_attempts r"
  using assms
  by (simp add: act_def claim_inner_exec candidates_single claimable_def time_units)

lemma crash_rounds_run:
  assumes "faults w = []" "jobs w = [r]" "claimable (now w) None r" "0 \<le> ls"
  shows "\<exists>w' r'. queue_run w (crash_rounds worker ls n) w' \<and> jobs w' = [r']
     \<and> j_attempts r' = j_attempts r + int n \<and> j_max_attempts r' = j_max_attempts r
     \<and> (0 < n \<longrightarrow> j_state r' = JRunning) \<and> claimable (now w') None r'"
  using assms
proof (induction n arbitrary: w r)
  case 0
  then show ?case by (auto simp: crash_rounds_def queue_run_Nil)
next
  case (Suc n)
  obtain w1 r1 where s: "act (ATick (nat (seconds ls) + 1)) (act (AClaim worker 1 ls None) w) = w1"
    "faults w1 = []" "jobs w1 = [r1]" "claimable (now w1) None r1" "j_attempts r1 = j_attempts r + 1"
    "j_state r1 = JRunning" "j_max_attempts r1 = j_max_attempts r"
    using crash_round[OF Suc.prems] by blast
  obtain w' r' where i: "queue_run w1 (crash_rounds worker ls n) w'" "jobs w' = [r']"
    "j_attempts r' = j_attempts r1 + int n" "j_max_attempts r' = j_max_attempts r1"
    "0 < n \<longrightarrow> j_state r' = JRunning" "claimable (now w') None r'"
    using Suc.IH[OF s(2,3,4) Suc.prems(4)] by blast
  have "n = 0 \<Longrightarrow> r' = r1" using i(1,2) s(3) by (auto simp: crash_rounds_def queue_run_Nil)
  then have st: "j_state r' = JRunning" using i(5) s(6) by (cases n) auto
  have "queue_run w (crash_rounds worker ls (Suc n)) w'"
    using i(1) s(1) by (simp add: crash_rounds_def queue_run_Cons queue_step_iff)
  then show ?case using i s st by (intro exI[of _ w'] exI[of _ r']) simp
qed

section \<open>Properties\<close>

text \<open>A claim takes the earliest due work: it returns at most a batch of distinct
  jobs, each due and unleased and now running under the worker with one more attempt;
  if a due job was left out, the batch is full and everything taken was due no later.\<close>

lemma claim_takes_earliest:
  assumes "faults w = []" and "wf_jobs w" and "claim batch worker ls w = (Inr js, w')"
  shows "length js \<le> batch \<and> distinct (map c_id js)
    \<and> (\<forall>j \<in> set js. \<exists>r \<in> set (jobs w). claimable (now w) None r \<and> c_id j = j_id r
          \<and> c_attempts j = j_attempts r + 1 \<and> claim_row (now w) worker ls r \<in> set (jobs w'))
    \<and> (\<forall>r \<in> set (jobs w). claimable (now w) None r \<and> j_id r \<notin> c_id ` set js \<longrightarrow>
          r \<in> set (jobs w') \<and> length js = batch
          \<and> (\<forall>q \<in> set (jobs w). j_id q \<in> c_id ` set js \<longrightarrow> (j_run_at q, j_id q) \<le> (j_run_at r, j_id r)))"
proof -
  let ?key = "\<lambda>r. (j_run_at r, j_id r)" and ?cl = "claimable (now w) None"
  define due where "due = sort_key ?key (filter ?cl (jobs w))"
  have cs: "candidates batch (now w) None (jobs w) = take batch due" by (simp add: candidates_def due_def)
  have ids: "distinct (map j_id (jobs w))" using assms(2) by (simp add: wf_jobs_def)
  then have inj: "inj_on j_id (set (jobs w))" by (simp add: distinct_map)
  have due: "set due = {r \<in> set (jobs w). ?cl r}" "sorted (map ?key due)" by (auto simp: due_def)
  have "distinct due" using ids by (simp add: due_def distinct_map)
  moreover have "inj_on j_id (set due)" using inj due(1) by (auto intro: inj_on_subset)
  ultimately have d: "distinct (map j_id (take batch due))"
    by (simp add: distinct_map) (meson inj_on_subset set_take_subset)
  have js: "js = map (\<lambda>r. claimed_of (claim_row (now w) worker ls r)) (take batch due)"
    and w': "jobs w' = update_where (\<lambda>r. j_id r \<in> j_id ` set (take batch due)) (claim_row (now w) worker ls) (jobs w)"
    using assms(3) unfolding claim_def claim_inner_exec[OF assms(1)] cs by auto
  have jid: "c_id ` set js = j_id ` set (take batch due)" unfolding js by force
  have sub: "set (take batch due) \<subseteq> set due" by (rule set_take_subset)
  have taken: "q \<in> set (take batch due)" if "q \<in> set (jobs w)" "j_id q \<in> j_id ` set (take batch due)" for q
  proof -
    from that(2) obtain p where p: "p \<in> set (take batch due)" "j_id q = j_id p" by blast
    then have "p \<in> set (jobs w)" using due(1) set_take_subset[of batch due] by blast
    with inj_onD[OF inj p(2) that(1)] p(1) show ?thesis by simp
  qed
  have "length js \<le> batch" "distinct (map c_id js)" using d by (simp_all add: js comp_def)
  moreover have "\<exists>r \<in> set (jobs w). ?cl r \<and> c_id j = j_id r \<and> c_attempts j = j_attempts r + 1
      \<and> claim_row (now w) worker ls r \<in> set (jobs w')" if j: "j \<in> set js" for j
  proof -
    from j obtain r where r: "r \<in> set (take batch due)" "j = claimed_of (claim_row (now w) worker ls r)"
      by (auto simp: js)
    then have "r \<in> set (jobs w)" "?cl r" using due(1) set_take_subset[of batch due] by blast+
    with r show ?thesis by (intro bexI[of _ r]) (auto simp: w' set_update_where image_iff)
  qed
  moreover have "r \<in> set (jobs w') \<and> length js = batch
      \<and> (\<forall>q \<in> set (jobs w). j_id q \<in> c_id ` set js \<longrightarrow> ?key q \<le> ?key r)"
    if r: "r \<in> set (jobs w)" "?cl r" "j_id r \<notin> c_id ` set js" for r
  proof -
    have left: "r \<in> set due" "r \<notin> set (take batch due)" using r due(1) jid by auto
    then have "batch < length due" by (metis not_le take_all)
    moreover have "r \<in> set (jobs w')" using r jid by (force simp: w' set_update_where)
    ultimately show ?thesis using filter_sorted_take[OF due(2) left] taken jid by (auto simp: js)
  qed
  ultimately show ?thesis by blast
qed

text \<open>The retry budget holds while workers live: a job whose handler always fails is
  attempted exactly \<open>max_attempts\<close> times: after fewer polls it waits for the next attempt,
  from the last one on it is dead-lettered, and further polls do not run it again.\<close>

lemma retry_budget:
  assumes "faults w = []" "jobs w = [r]" "0 < wc_batch cfg"
    and "j_state r = JPending" "j_attempts r = 0" "0 < j_max_attempts r"
    and "registry_get reg (j_kind r) = Some (constant_handler (j_kind r) (Inl (JobFailed e)))"
  shows "map (\<lambda>q. (j_state q, j_attempts q)) (jobs ((poll_when_due X cfg worker reg ^^ n) w))
     = [(if int n < j_max_attempts r then JPending else JFailed, min (int n) (j_max_attempts r))]"
  using budget_steps[OF assms, where X = X and worker = worker and n = n] by auto

text \<open>The attempt counter does not bound crashing workers: a claim never looks at
  \<open>max_attempts\<close>, so a job whose workers die before reporting is claimed again after every
  lease, for any number of rounds, with its counter beyond its budget.\<close>

lemma claims_ignore_the_budget:
  assumes "faults w = []" "jobs w = [r]" "claimable (now w) None r" "0 \<le> ls"
  shows "\<exists>w' r'. queue_run w (crash_rounds worker ls n) w' \<and> jobs w' = [r']
    \<and> j_attempts r' = j_attempts r + int n \<and> j_max_attempts r' = j_max_attempts r
    \<and> claimable (now w') None r'"
  using crash_rounds_run[OF assms] by blast

text \<open>A recurring job runs once: the row that \<open>bootstrap\<close> inserts carries no schedule,
  whatever schedule its kind was registered with, so its first success is final: the row is
  \<open>succeeded\<close>, no later claim can take it, and bootstrapping again inserts nothing.\<close>

lemma recurring_job_runs_once:
  fixes w :: "'w job_world_scheme"
  assumes "faults w = []" "jobs w = []" "0 < wc_batch cfg"
    and "reg_recurring reg = [rk]"
    and "registry_get reg (rk_kind rk) = Some (constant_handler (rk_kind rk) (Inr ()))"
  shows "\<exists>r. jobs (snd (poll_once X cfg worker reg (snd (bootstrap reg w)))) = [r]
    \<and> j_key r = Some (rk_key rk) \<and> j_state r = JSucceeded \<and> j_attempts r = 1
    \<and> (\<forall>t kinds. \<not> claimable t kinds r)
    \<and> jobs (snd (bootstrap reg (snd (poll_once X cfg worker reg (snd (bootstrap reg w)))))) = [r]"
proof -
  let ?row = "new_job_row (next_job w) (now w) (rk_kind rk) (rk_payload rk) (now w)
                (Some (rk_max_attempts rk)) (Some (rk_key rk))"
  have b: "snd (bootstrap reg w) = w\<lparr>jobs := [?row], next_job := next_job w + 1\<rparr>"
    using assms by (simp add: bootstrap_def enqueue_def exec key_taken_def)
  let ?w1 = "w\<lparr>jobs := [?row], next_job := next_job w + 1\<rparr>"
  let ?r = "succeed_row (now w) (now w) (claim_row (now w) worker (wc_lease_secs cfg) ?row)"
  have "claimable (now w) None ?row" by (simp add: claimable_def)
  then have p: "snd (poll_once X cfg worker reg ?w1) = ?w1\<lparr>jobs := [?r]\<rparr>"
    using assms
    by (simp add: poll_once_def exec claim_single run_job_def constant_handler_def next_run_at_def
        finish_success_def)
  have r: "j_key ?r = Some (rk_key rk)" "j_state ?r = JSucceeded" "j_attempts ?r = 1"
    by (simp_all add: succeed_row_def)
  have "jobs (snd (bootstrap reg (?w1\<lparr>jobs := [?r]\<rparr>))) = [?r]"
    using assms r(1) by (simp add: bootstrap_def enqueue_def exec key_taken_def)
  moreover have "\<not> claimable t kinds ?r" for t kinds
    using r(2) by (simp add: claimable_def)
  ultimately show ?thesis unfolding b p using r by (intro exI[of _ ?r]) simp
qed

section \<open>The properties on concrete queues\<close>

definition pending_row :: job_row where
  "pending_row = new_job_row 1 0 job_jobs_gc (JObject []) 0 (Some 3) None"

definition demo_world :: "job_row list \<Rightarrow> job_world" where
  "demo_world rows = \<lparr>now = 10, faults = [], entropy = (\<lambda>_. []), drawn = 0, jobs = rows, next_job = 5\<rparr>"

definition demo_registry :: "job_error + unit \<Rightarrow> job_world job_registry" where
  "demo_registry answer =
     \<lparr>reg_handlers = [constant_handler job_jobs_gc answer], reg_recurring = [builtin_recurring 5 ! 1]\<rparr>"

definition demo_config :: worker_config where
  "demo_config = \<lparr>wc_batch = 4, wc_lease_secs = 60, wc_backoff_base = 1000\<rparr>"

definition demo_externals :: job_externals where
  "demo_externals =
     \<lparr>cron_parse = (\<lambda>_. Inl []), show_json = (\<lambda>_. []), show_debug = id, jitter_of = (\<lambda>_. 7)\<rparr>"

definition running_row :: job_row where
  "running_row = claim_row 0 (lit ''a'') 60 pending_row"

lemma demo_simps [simp]:
  "faults (demo_world rows) = []" "jobs (demo_world rows) = rows" "now (demo_world rows) = 10"
  "next_job (demo_world rows) = 5" "j_state pending_row = JPending" "j_attempts pending_row = 0"
  "j_run_at pending_row = 0" "j_id pending_row = 1" "j_kind pending_row = job_jobs_gc"
  "j_max_attempts pending_row = 3" "j_key pending_row = None" "wf_job pending_row"
  "wc_batch demo_config = 4" "wc_lease_secs demo_config = 60"
  "registry_get (demo_registry answer) job_jobs_gc = Some (constant_handler job_jobs_gc answer)"
  by (simp_all add: demo_world_def pending_row_def new_job_row_def wf_job_def demo_config_def
      registry_get_def demo_registry_def constant_handler_def)

lemma demo_running [simp]:
  "j_state running_row = JRunning" "j_claimed_by running_row = Some (lit ''a'')" "j_id running_row = 1"
  "j_lease running_row = Some 60000000" "j_key running_row = None" "wf_job running_row"
  by (simp_all add: running_row_def time_units wf_claim_row)

lemma demo_wf: "wf_jobs (demo_world [pending_row])" "wf_jobs (demo_world [running_row])"
  by (simp_all add: wf_jobs_def job_keys_def)

theorem lease_is_exclusive_witness:
  "running_row \<in> set (jobs (act (AFail (lit ''b'') 1 []) (act (ATick 50) (act (AClaim (lit ''b'') 4 60 None)
     (demo_world [running_row])))))"
proof -
  let ?w = "demo_world [running_row]" and ?a1 = "AClaim (lit ''b'') 4 60 None" and ?a2 = "ATick 50"
    and ?a3 = "AFail (lit ''b'') 1 []"
  have run: "queue_run ?w [?a1, ?a2, ?a3] (act ?a3 (act ?a2 (act ?a1 ?w)))"
    by (simp add: queue_run_Cons queue_run_Nil queue_step_iff)
  have "now (act ?a3 (act ?a2 (act ?a1 ?w))) \<le> 60000000" by (simp add: now_act)
  moreover have "\<forall>a \<in> set [?a1, ?a2, ?a3]. actor a \<noteq> Some (lit ''a'')" by (simp add: actor_def)
  ultimately show ?thesis using lease_is_exclusive[OF run demo_wf(2), of running_row "lit ''a''"] by simp
qed

end
