(* ===== verification/Rate_Limit.thy ===== *)
theory Rate_Limit
  imports Dom_Identity "HOL-Library.AList"
begin

text \<open>
  Rate limiting: the port of \<open>application/src/rate_limit.rs\<close> and its two
  implementations of \<open>infrastructure/src/auth/rate_limit.rs\<close>, the in-memory buckets
  with their sweep and cap, and the ValKey sorted sets with their Lua script.

  The port promises a sliding window.  The locale \<open>sliding_window\<close> states that
  promise over the hits that are still inside a key's window; the guarantee that no
  window ever admits more than its limit is proved there once and holds for both
  implementations, which interpret the locale.  The in-memory limiter keeps it from any
  state below its cap; past the cap its eviction may forget hits, and the last section on
  it shows how many other keys a window can see before that happens.
\<close>

section \<open>The in-memory limiter\<close>

datatype rate_limit_error = LimiterUnavailable | LimiterUnexpected ustring

record bucket =
  b_events :: "int list"
  b_last_seen :: int
  b_window :: int

record buckets =
  bk_map :: "(ustring \<times> bucket) list"
  bk_since_sweep :: nat

definition max_buckets :: nat where "max_buckets = 100000"
definition sweep_every_new_keys :: nat where "sweep_every_new_keys = 512"

text \<open>\<open>Instant::duration_since\<close> saturates at zero.\<close>

definition duration_since :: "int \<Rightarrow> int \<Rightarrow> int" where
  "duration_since t e = max 0 (t - e)"

definition sweep :: "buckets \<Rightarrow> int \<Rightarrow> buckets" where
  "sweep bs t =
     (let kept = filter (\<lambda>(k, b). duration_since t (b_last_seen b) < b_window b) (bk_map bs) in
      if length kept < max_buckets then \<lparr>bk_map = kept, bk_since_sweep = 0\<rparr>
      else (let target = max_buckets - max_buckets div 10;
                excess = length kept - target;
                ages = sort_key fst (map (\<lambda>(k, b). (b_last_seen b, k)) kept);
                dropped = map snd (take excess ages)
            in \<lparr>bk_map = filter (\<lambda>(k, b). k \<notin> set dropped) kept, bk_since_sweep = 0\<rparr>))"

text \<open>Only a new key can grow the map, so only a new key triggers a sweep.\<close>

definition mem_prep :: "ustring \<Rightarrow> int \<Rightarrow> buckets \<Rightarrow> buckets" where
  "mem_prep key t bs =
     (if key \<in> fst ` set (bk_map bs) then bs
      else (let n = bk_since_sweep bs + 1; bs' = bs\<lparr>bk_since_sweep := n\<rparr> in
            if sweep_every_new_keys \<le> n \<or> max_buckets \<le> length (bk_map bs') then sweep bs' t else bs'))"

definition mem_check :: "ustring \<Rightarrow> nat \<Rightarrow> int \<Rightarrow> int \<Rightarrow> buckets \<Rightarrow> bool \<times> buckets" where
  "mem_check key limit window t bs =
     (let bs1 = mem_prep key t bs;
          b = (case map_of (bk_map bs1) key of
                 Some b \<Rightarrow> b
               | None \<Rightarrow> \<lparr>b_events = [], b_last_seen = t, b_window = window\<rparr>);
          events = dropWhile (\<lambda>e. window \<le> duration_since t e) (b_events b);
          b1 = \<lparr>b_events = events, b_last_seen = t, b_window = window\<rparr>
      in if limit \<le> length events
         then (False, bs1\<lparr>bk_map := AList.update key b1 (bk_map bs1)\<rparr>)
         else (True, bs1\<lparr>bk_map := AList.update key (b1\<lparr>b_events := events @ [t]\<rparr>) (bk_map bs1)\<rparr>))"

section \<open>The ValKey limiter\<close>

text \<open>A sorted set is its sorted scores (members are unique, so no two events collapse);
  a key past its expiry is gone.\<close>

record zset =
  z_scores :: "int list"
  z_expires :: int

type_synonym valkey = "ustring \<Rightarrow> zset option"

definition zset_at :: "valkey \<Rightarrow> ustring \<Rightarrow> int \<Rightarrow> int list" where
  "zset_at vk key t =
     (case vk key of None \<Rightarrow> [] | Some z \<Rightarrow> if z_expires z \<le> t then [] else z_scores z)"

text \<open>The script: trim the scores in \<open>[0, now - window]\<close>, count, add and re-arm the expiry.\<close>

definition rate_limit_lua :: "ustring \<Rightarrow> nat \<Rightarrow> int \<Rightarrow> int \<Rightarrow> valkey \<Rightarrow> int \<times> valkey" where
  "rate_limit_lua key limit window t vk =
     (let trimmed = filter (\<lambda>s. \<not> (0 \<le> s \<and> s \<le> t - window)) (zset_at vk key t);
          vk1 = vk(key := (case vk key of
                             None \<Rightarrow> None
                           | Some z \<Rightarrow> if z_expires z \<le> t then None else Some (z\<lparr>z_scores := trimmed\<rparr>)))
      in if limit \<le> length trimmed then (0, vk1)
         else (1, vk1(key \<mapsto> \<lparr>z_scores = insort t trimmed, z_expires = t + window\<rparr>)))"

text \<open>\<open>ValKeyRateLimiter::check\<close> around the script: \<open>conn\<close> is the outcome of connecting and
  \<open>answer\<close> the outcome of the evaluation, which are the network's.\<close>

definition valkey_verdict :: "bool \<Rightarrow> rate_limit_error + unit \<Rightarrow> ustring + int \<Rightarrow> rate_limit_error + bool" where
  "valkey_verdict fail_open conn answer =
     (case conn of
        Inl _ \<Rightarrow> Inr True
      | Inr _ \<Rightarrow>
          (case answer of
             Inr n \<Rightarrow> Inr (n = 1)
           | Inl e \<Rightarrow> if fail_open then Inr True else Inl (LimiterUnexpected e)))"

section \<open>The promise of the port\<close>

fun run_checks :: "('k \<Rightarrow> int \<Rightarrow> 's \<Rightarrow> bool \<times> 's) \<Rightarrow> ('k \<times> int) list \<Rightarrow> 's \<Rightarrow> ('k \<times> int \<times> bool) list \<times> 's" where
  "run_checks chk [] s = ([], s)"
| "run_checks chk ((k, t) # reqs) s =
     (let (b, s1) = chk k t s; (trace, s2) = run_checks chk reqs s1 in ((k, t, b) # trace, s2))"

text \<open>The requests of key \<open>k\<close> that were allowed in the window \<open>(T - W, T]\<close>.\<close>

definition admitted :: "'k \<Rightarrow> int \<Rightarrow> int \<Rightarrow> ('k \<times> int \<times> bool) list \<Rightarrow> int list" where
  "admitted k W T trace = map (\<lambda>(k', t, b). t) (filter (\<lambda>(k', t, b). b \<and> k' = k \<and> T - W < t \<and> t \<le> T) trace)"

lemma run_checks_append:
  "run_checks chk (xs @ ys) s =
     (let (tr1, s1) = run_checks chk xs s; (tr2, s2) = run_checks chk ys s1 in (tr1 @ tr2, s2))"
  by (induction xs arbitrary: s) (auto simp: split_beta Let_def)

lemma run_checks_times: "map (\<lambda>(k, t, b). (k, t)) (fst (run_checks chk reqs s)) = reqs"
  by (induction reqs arbitrary: s) (auto simp: split_beta Let_def)

lemma length_filter_mono_set:
  "(\<And>x. x \<in> set xs \<Longrightarrow> P x \<Longrightarrow> Q x) \<Longrightarrow> length (filter P xs) \<le> length (filter Q xs)"
  by (induction xs) auto

lemma admitted_append: "admitted k W T (xs @ ys) = admitted k W T xs @ admitted k W T ys"
  by (simp add: admitted_def)

text \<open>\<open>live s k t\<close> are the recorded hits of \<open>k\<close> inside its window at time \<open>t\<close>;
  \<open>inv s t\<close> holds of the states that requests up to time \<open>t\<close> lead to.\<close>

locale sliding_window =
  fixes chk :: "'k \<Rightarrow> int \<Rightarrow> 's \<Rightarrow> bool \<times> 's"
    and K :: "'k set"
    and limit :: "'k \<Rightarrow> nat"
    and window :: "'k \<Rightarrow> int"
    and live :: "'s \<Rightarrow> 'k \<Rightarrow> int \<Rightarrow> int list"
    and inv :: "'s \<Rightarrow> int \<Rightarrow> bool"
  assumes verdict: "inv s u \<Longrightarrow> u \<le> t \<Longrightarrow> k \<in> K \<Longrightarrow> fst (chk k t s) \<longleftrightarrow> length (live s k t) < limit k"
    and record_hit: "inv s u \<Longrightarrow> u \<le> t \<Longrightarrow> k \<in> K \<Longrightarrow>
      live (snd (chk k t s)) k t = live s k t @ (if fst (chk k t s) then [t] else [])"
    and other_keys: "inv s u \<Longrightarrow> u \<le> t \<Longrightarrow> k \<in> K \<Longrightarrow> k' \<in> K \<Longrightarrow> k' \<noteq> k \<Longrightarrow> t \<le> t' \<Longrightarrow>
      live (snd (chk k t s)) k' t' = live s k' t'"
    and ageing: "inv s u \<Longrightarrow> u \<le> t \<Longrightarrow> t \<le> t' \<Longrightarrow>
      live s k t' = filter (\<lambda>e. t' - window k < e) (live s k t)"
    and inv_step: "inv s u \<Longrightarrow> u \<le> t \<Longrightarrow> k \<in> K \<Longrightarrow> inv (snd (chk k t s)) t"
begin

lemma run_inv:
  assumes "inv s u" "sorted (u # map snd reqs)" "fst ` set reqs \<subseteq> K"
  shows "inv (snd (run_checks chk reqs s)) (last (u # map snd reqs))"
  using assms
proof (induction reqs arbitrary: s u)
  case (Cons r reqs)
  obtain k t where r: "r = (k, t)" by (cases r)
  have "inv (snd (chk k t s)) t" using Cons.prems r by (intro inv_step) auto
  moreover have "sorted (t # map snd reqs)" "fst ` set reqs \<subseteq> K" using Cons.prems r by auto
  ultimately show ?case using Cons.IH r by (simp add: split_beta Let_def)
qed simp

text \<open>Everything admitted inside a window is still among the live hits at its end.\<close>

lemma admitted_live:
  assumes "inv s u" "sorted (u # map snd reqs)" "fst ` set reqs \<subseteq> K" "k \<in> K"
    and "last (u # map snd reqs) \<le> T"
  shows "length (admitted k (window k) T (fst (run_checks chk reqs s)))
           \<le> length (live (snd (run_checks chk reqs s)) k T)"
  using assms(2,3,5)
proof (induction reqs arbitrary: T rule: rev_induct)
  case Nil
  then show ?case by (simp add: admitted_def)
next
  case (snoc r reqs)
  obtain k1 t where r: "r = (k1, t)" by (cases r)
  let ?s1 = "snd (run_checks chk reqs s)" and ?u1 = "last (u # map snd reqs)"
  have srt: "sorted (u # map snd reqs)" and sub: "fst ` set reqs \<subseteq> K" and k1: "k1 \<in> K"
    using snoc.prems r by (auto simp: sorted_append)
  have "sorted ((u # map snd reqs) @ [t])" using snoc.prems(1) r by simp
  then have u1: "?u1 \<le> t" by (metis last_in_set list.discI sorted_append list.set_intros(1))
  have tT: "t \<le> T" using snoc.prems(3) r by simp
  have inv1: "inv ?s1 ?u1" by (rule run_inv[OF assms(1) srt sub])
  let ?b = "fst (chk k1 t ?s1)" and ?s2 = "snd (chk k1 t ?s1)"
  have run: "run_checks chk (reqs @ [r]) s = (fst (run_checks chk reqs s) @ [(k1, t, ?b)], ?s2)"
    by (simp add: run_checks_append r split_beta Let_def)
  have IH: "length (admitted k (window k) T (fst (run_checks chk reqs s))) \<le> length (live ?s1 k T)"
    using snoc.IH[OF srt sub, of T] u1 tT by simp
  show ?case
  proof (cases "k1 = k")
    case False
    then have "live ?s2 k T = live ?s1 k T" using other_keys[OF inv1 u1 k1 assms(4) _ tT] by blast
    with False IH show ?thesis by (simp add: run admitted_append) (simp add: admitted_def)
  next
    case True
    have inv2: "inv ?s2 t" by (rule inv_step[OF inv1 u1 k1])
    have "live ?s2 k T = filter (\<lambda>e. T - window k < e) (live ?s2 k t)"
      by (rule ageing[OF inv2 order_refl tT])
    also have "\<dots> = filter (\<lambda>e. T - window k < e) (live ?s1 k t) @ filter (\<lambda>e. T - window k < e) (if ?b then [t] else [])"
      using record_hit[OF inv1 u1 k1] True by simp
    also have "filter (\<lambda>e. T - window k < e) (live ?s1 k t) = live ?s1 k T"
      by (rule ageing[OF inv1 u1 tT, symmetric])
    finally show ?thesis using IH True tT by (simp add: run admitted_append) (auto simp: admitted_def)
  qed
qed

text \<open>The guarantee: no window of any length-\<open>W\<close> interval admits more than the limit.\<close>

lemma window_guarantee:
  assumes "inv s u" "sorted (u # map snd reqs)" "fst ` set reqs \<subseteq> K" "k \<in> K"
  shows "length (admitted k (window k) T (fst (run_checks chk reqs s))) \<le> limit k"
  using assms(2,3)
proof (induction reqs rule: rev_induct)
  case Nil
  then show ?case by (simp add: admitted_def)
next
  case (snoc r reqs)
  obtain k1 t where r: "r = (k1, t)" by (cases r)
  let ?s1 = "snd (run_checks chk reqs s)" and ?u1 = "last (u # map snd reqs)"
    and ?tr = "fst (run_checks chk reqs s)"
  have srt: "sorted (u # map snd reqs)" and sub: "fst ` set reqs \<subseteq> K" and k1: "k1 \<in> K"
    using snoc.prems r by (auto simp: sorted_append)
  have s2: "sorted ((u # map snd reqs) @ [t])" using snoc.prems(1) r by simp
  then have u1: "?u1 \<le> t" by (metis last_in_set list.discI sorted_append list.set_intros(1))
  have inv1: "inv ?s1 ?u1" by (rule run_inv[OF assms(1) srt sub])
  let ?b = "fst (chk k1 t ?s1)"
  have run: "fst (run_checks chk (reqs @ [r]) s) = ?tr @ [(k1, t, ?b)]"
    by (simp add: run_checks_append r split_beta Let_def)
  show ?case
  proof (cases "?b \<and> k1 = k \<and> T - window k < t \<and> t \<le> T")
    case False
    then show ?thesis using snoc.IH[OF srt sub] by (simp add: run admitted_append) (auto simp: admitted_def)
  next
    case True
    have times: "t' \<le> t" if "(k', t', b) \<in> set ?tr" for k' t' b
    proof -
      have "(k', t') \<in> set (map (\<lambda>(k, t, b). (k, t)) ?tr)" using that by force
      then have "(k', t') \<in> set reqs" unfolding run_checks_times .
      then show ?thesis using s2 by (force simp: sorted_append)
    qed
    have "length (admitted k (window k) T ?tr) \<le> length (admitted k (window k) t ?tr)"
      unfolding admitted_def length_map
      by (rule length_filter_mono_set) (use times True in auto)
    also have "\<dots> \<le> length (live ?s1 k t)" by (rule admitted_live[OF assms(1) srt sub assms(4) u1])
    also have "\<dots> < limit k" using verdict[OF inv1 u1 k1] True by auto
    finally show ?thesis using True by (simp add: run admitted_append) (simp add: admitted_def)
  qed
qed

end

section \<open>The in-memory limiter keeps the promise\<close>

text \<open>The limiter checked always with the same limit and window per key.\<close>

definition mem_chk :: "(ustring \<Rightarrow> nat) \<Rightarrow> (ustring \<Rightarrow> int) \<Rightarrow> ustring \<Rightarrow> int \<Rightarrow> buckets \<Rightarrow> bool \<times> buckets" where
  "mem_chk limit window k t bs = mem_check k (limit k) (window k) t bs"

definition mem_events :: "buckets \<Rightarrow> ustring \<Rightarrow> int list" where
  "mem_events bs k = (case map_of (bk_map bs) k of Some b \<Rightarrow> b_events b | None \<Rightarrow> [])"

definition mem_live :: "(ustring \<Rightarrow> int) \<Rightarrow> buckets \<Rightarrow> ustring \<Rightarrow> int \<Rightarrow> int list" where
  "mem_live window bs k t = filter (\<lambda>e. t - window k < e) (mem_events bs k)"

definition wf_bucket :: "int \<Rightarrow> int \<Rightarrow> bucket \<Rightarrow> bool" where
  "wf_bucket w u b \<longleftrightarrow> sorted (b_events b) \<and> (\<forall>e \<in> set (b_events b). e \<le> b_last_seen b)
     \<and> b_last_seen b \<le> u \<and> b_window b = w"

definition mem_inv :: "ustring set \<Rightarrow> (ustring \<Rightarrow> int) \<Rightarrow> buckets \<Rightarrow> int \<Rightarrow> bool" where
  "mem_inv K window bs u \<longleftrightarrow>
     finite K \<and> card K < max_buckets \<and> (\<forall>k. 0 < window k)
     \<and> distinct (map fst (bk_map bs)) \<and> fst ` set (bk_map bs) \<subseteq> K
     \<and> (\<forall>k b. (k, b) \<in> set (bk_map bs) \<longrightarrow> wf_bucket (window k) u b)"

lemma mem_inv_length: "mem_inv K window bs u \<Longrightarrow> length (bk_map bs) < max_buckets"
proof -
  assume i: "mem_inv K window bs u"
  then have "card (fst ` set (bk_map bs)) = length (bk_map bs)"
    by (metis distinct_card length_map list.set_map mem_inv_def)
  moreover have "card (fst ` set (bk_map bs)) \<le> card K" using i by (auto simp: mem_inv_def intro: card_mono)
  ultimately show ?thesis using i by (simp add: mem_inv_def)
qed

lemma wf_bucket_mono: "wf_bucket w u b \<Longrightarrow> u \<le> t \<Longrightarrow> wf_bucket w t b"
  by (auto simp: wf_bucket_def)

lemma mem_inv_mono: "mem_inv K window bs u \<Longrightarrow> u \<le> t \<Longrightarrow> mem_inv K window bs t"
  unfolding mem_inv_def using wf_bucket_mono by blast

lemma mem_events_wf:
  assumes "mem_inv K window s u"
  shows "sorted (mem_events s k) \<and> (\<forall>e \<in> set (mem_events s k). e \<le> u)"
proof (cases "map_of (bk_map s) k")
  case (Some b)
  then have "wf_bucket (window k) u b" using assms map_of_SomeD[OF Some] by (auto simp: mem_inv_def)
  then show ?thesis using Some by (fastforce simp: mem_events_def wf_bucket_def)
qed (simp add: mem_events_def)

text \<open>Below the cap a sweep only drops buckets without a live hit.\<close>

lemma sweep_below_cap:
  assumes "mem_inv K window bs u" "u \<le> t"
  shows "sweep bs t = \<lparr>bk_map = filter (\<lambda>(k, b). duration_since t (b_last_seen b) < b_window b) (bk_map bs),
                       bk_since_sweep = 0\<rparr>"
proof -
  have "length (filter (\<lambda>(k, b). duration_since t (b_last_seen b) < b_window b) (bk_map bs)) < max_buckets"
    by (rule le_less_trans[OF length_filter_le mem_inv_length[OF assms(1)]])
  then show ?thesis unfolding sweep_def Let_def by (rule if_P)
qed

lemma sweep_inv:
  assumes "mem_inv K window bs u" "u \<le> t"
  shows "mem_inv K window (sweep bs t) t"
  using mem_inv_mono[OF assms] unfolding sweep_below_cap[OF assms]
  by (auto simp: mem_inv_def distinct_map_filter)

lemma sweep_live:
  assumes inv: "mem_inv K window bs u" and ut: "u \<le> t" and tt: "t \<le> t'"
  shows "mem_live window (sweep bs t) k t' = mem_live window bs k t'"
proof (cases "map_of (bk_map bs) k")
  case None
  then have "k \<notin> fst ` set (bk_map bs)" by (simp add: map_of_eq_None_iff)
  then have "k \<notin> fst ` set (bk_map (sweep bs t))" unfolding sweep_below_cap[OF inv ut] by auto
  then have "map_of (bk_map (sweep bs t)) k = None" by (simp add: map_of_eq_None_iff)
  with None show ?thesis by (simp add: mem_live_def mem_events_def)
next
  case (Some b)
  have kb: "(k, b) \<in> set (bk_map bs)" using Some by (rule map_of_SomeD)
  have d: "distinct (map fst (bk_map bs))" using inv by (simp add: mem_inv_def)
  have wf: "wf_bucket (window k) u b" using inv kb by (auto simp: mem_inv_def)
  show ?thesis
  proof (cases "duration_since t (b_last_seen b) < b_window b")
    case True
    then have "map_of (bk_map (sweep bs t)) k = Some b"
      using kb d unfolding sweep_below_cap[OF inv ut] by (auto intro!: map_of_is_SomeI simp: distinct_map_filter)
    with Some show ?thesis by (simp add: mem_live_def mem_events_def)
  next
    case False
    have "map_of (bk_map (sweep bs t)) k = None"
      unfolding sweep_below_cap[OF inv ut] map_of_eq_None_iff
      using False kb d by (auto dest: eq_key_imp_eq_value)
    moreover have "filter (\<lambda>e. t' - window k < e) (b_events b) = []"
    proof -
      have "window k \<le> t - b_last_seen b"
        using False wf inv by (auto simp: duration_since_def wf_bucket_def mem_inv_def max_def split: if_splits)
      then show ?thesis using wf tt by (auto simp: filter_empty_conv wf_bucket_def)
    qed
    ultimately show ?thesis using Some by (simp add: mem_live_def mem_events_def)
  qed
qed

lemma mem_prep_inv:
  assumes "mem_inv K window bs u" "u \<le> t"
  shows "mem_inv K window (mem_prep key t bs) t"
    and "t \<le> t' \<Longrightarrow> mem_live window (mem_prep key t bs) k t' = mem_live window bs k t'"
proof -
  have i: "mem_inv K window (bs\<lparr>bk_since_sweep := n\<rparr>) u" for n
    using assms(1) by (simp add: mem_inv_def)
  have l: "mem_live window (bs\<lparr>bk_since_sweep := n\<rparr>) k t' = mem_live window bs k t'" for n
    by (simp add: mem_live_def mem_events_def)
  show "mem_inv K window (mem_prep key t bs) t"
    using sweep_inv[OF i assms(2)] mem_inv_mono[OF i assms(2)] mem_inv_mono[OF assms]
    by (simp add: mem_prep_def Let_def)
  show "mem_live window (mem_prep key t bs) k t' = mem_live window bs k t'" if "t \<le> t'"
    using sweep_live[OF i assms(2) that] l by (simp add: mem_prep_def Let_def)
qed

lemma dropWhile_sorted_filter:
  assumes "sorted xs" "\<forall>e \<in> set xs. e \<le> t" "0 < w"
  shows "dropWhile (\<lambda>e. w \<le> duration_since t e) xs = filter (\<lambda>e. t - w < e) xs"
  using assms
proof (induction xs)
  case (Cons x xs)
  show ?case
  proof (cases "w \<le> duration_since t x")
    case True
    then show ?thesis using Cons by (auto simp: duration_since_def)
  next
    case False
    then have "\<forall>e \<in> set (x # xs). t - w < e" using Cons.prems by (fastforce simp: duration_since_def)
    then show ?thesis using False by simp
  qed
qed simp

lemma mem_check_steps:
  assumes inv: "mem_inv K window bs u" and ut: "u \<le> t"
  shows "mem_check k (limit k) (window k) t bs =
    (let s1 = mem_prep k t bs; es = mem_live window bs k t; b = length es < limit k
     in (b, s1\<lparr>bk_map := AList.update k \<lparr>b_events = (if b then es @ [t] else es), b_last_seen = t, b_window = window k\<rparr>
                            (bk_map s1)\<rparr>))"
proof -
  let ?s1 = "mem_prep k t bs"
  note i1 = mem_prep_inv(1)[OF inv ut, of k]
  have "dropWhile (\<lambda>e. window k \<le> duration_since t e) (mem_events ?s1 k) = mem_live window ?s1 k t"
    unfolding mem_live_def
  proof (rule dropWhile_sorted_filter)
    show "sorted (mem_events ?s1 k)" "\<forall>e \<in> set (mem_events ?s1 k). e \<le> t"
      using mem_events_wf[OF i1] by auto
    show "0 < window k" using inv by (simp add: mem_inv_def)
  qed
  then have e: "dropWhile (\<lambda>e. window k \<le> duration_since t e) (mem_events ?s1 k) = mem_live window bs k t"
    using mem_prep_inv(2)[OF inv ut order_refl] by simp
  have b: "b_events (case map_of (bk_map ?s1) k of Some b \<Rightarrow> b
      | None \<Rightarrow> \<lparr>b_events = [], b_last_seen = t, b_window = window k\<rparr>) = mem_events ?s1 k"
    by (simp add: mem_events_def split: option.split)
  show ?thesis
    unfolding mem_check_def Let_def b e by (simp add: not_less)
qed

lemma update_mem:
  assumes "distinct (map fst al)" "(k', v') \<in> set (AList.update k v al)"
  shows "if k' = k then v' = v else (k', v') \<in> set al"
proof -
  have "map_of (AList.update k v al) k' = Some v'"
    using assms by (intro map_of_is_SomeI) (simp_all add: distinct_update)
  then show ?thesis by (auto simp: update_conv' dest: map_of_SomeD split: if_splits)
qed

lemma mem_inv_update:
  assumes i: "mem_inv K window s t" and "k \<in> K" "wf_bucket (window k) t b"
  shows "mem_inv K window (s\<lparr>bk_map := AList.update k b (bk_map s)\<rparr>) t"
proof -
  have d: "distinct (map fst (bk_map s))" using i by (simp add: mem_inv_def)
  have "wf_bucket (window k') t b'" if "(k', b') \<in> set (AList.update k b (bk_map s))" for k' b'
    using update_mem[OF d that] assms by (auto simp: mem_inv_def split: if_splits)
  moreover have "fst ` set (AList.update k b (bk_map s)) \<subseteq> K"
    using i assms(2) by (auto simp: mem_inv_def dom_update)
  ultimately show ?thesis using i by (simp add: mem_inv_def distinct_update)
qed

interpretation mem: sliding_window "mem_chk limit window" K limit window "mem_live window" "mem_inv K window"
proof
  fix s u t k
  assume a: "mem_inv K window s u" "u \<le> t" "k \<in> K"
  note steps = mem_check_steps[OF a(1,2), of k limit]
  have w: "0 < window k" using a(1) by (simp add: mem_inv_def)
  show "fst (mem_chk limit window k t s) = (length (mem_live window s k t) < limit k)"
    by (simp add: mem_chk_def steps Let_def)
  show "mem_live window (snd (mem_chk limit window k t s)) k t
      = mem_live window s k t @ (if fst (mem_chk limit window k t s) then [t] else [])"
  proof -
    have "mem_live window (snd (mem_chk limit window k t s)) k t
        = filter (\<lambda>e. t - window k < e)
            (mem_live window s k t @ (if length (mem_live window s k t) < limit k then [t] else []))"
      unfolding mem_chk_def steps Let_def snd_conv mem_live_def[of window "_\<lparr>bk_map := _\<rparr>"]
      by (simp add: mem_events_def update_conv')
    also have "\<dots> = mem_live window s k t @ (if length (mem_live window s k t) < limit k then [t] else [])"
      using w by (simp add: mem_live_def)
    finally show ?thesis by (simp add: mem_chk_def steps Let_def)
  qed
  show "mem_inv K window (snd (mem_chk limit window k t s)) t"
  proof -
    let ?es = "mem_live window s k t"
    have es: "sorted ?es" "\<forall>e \<in> set ?es. e \<le> t"
      using mem_events_wf[OF a(1), of k] a(2)
      by (auto simp: mem_live_def sorted_wrt_filter intro: order_trans)
    then have wf: "wf_bucket (window k) t
        \<lparr>b_events = if b then ?es @ [t] else ?es, b_last_seen = t, b_window = window k\<rparr>" for b
      by (auto simp: wf_bucket_def sorted_append)
    have i1: "mem_inv K window (mem_prep k t s) t" by (rule mem_prep_inv(1)[OF a(1,2)])
    show ?thesis unfolding mem_chk_def steps Let_def snd_conv by (rule mem_inv_update[OF i1 a(3) wf])
  qed
next
  fix s u t k k' t'
  assume a: "mem_inv K window s u" "u \<le> t" "k \<in> K" "k' \<in> K" "k' \<noteq> k" "t \<le> t'"
  have "mem_live window (snd (mem_chk limit window k t s)) k' t' = mem_live window (mem_prep k t s) k' t'"
    using a(5) by (simp add: mem_chk_def mem_check_steps[OF a(1,2)] Let_def mem_live_def mem_events_def update_conv')
  also have "\<dots> = mem_live window s k' t'" by (rule mem_prep_inv(2)[OF a(1,2,6)])
  finally show "mem_live window (snd (mem_chk limit window k t s)) k' t' = mem_live window s k' t'" .
next
  fix s u t t' k
  assume "mem_inv K window s u" "u \<le> t" "(t :: int) \<le> t'"
  then show "mem_live window s k t' = filter (\<lambda>e. t' - window k < e) (mem_live window s k t)"
    by (auto simp: mem_live_def intro!: filter_cong)
qed

section \<open>Past the cap\<close>

text \<open>
  When \<open>max_buckets\<close> live buckets are in use a sweep evicts the tenth that was seen least
  recently.  A key loses its recorded hits that way only if \<open>kept_at_least\<close> other keys
  were requested no earlier than it was, so a window in which fewer other keys are used
  is admitted within the limit, however many keys the map holds.
\<close>

definition kept_at_least :: nat where "kept_at_least = max_buckets - max_buckets div 10"

lemma length_filter_fst_notin:
  assumes "distinct (map fst al)" "D \<subseteq> fst ` set al"
  shows "length (filter (\<lambda>(k, b). k \<notin> D) al) + card D = length al"
  using assms
proof (induction al arbitrary: D)
  case (Cons x al)
  obtain k b where x: "x = (k, b)" by (cases x)
  have f: "finite D" by (rule finite_subset[OF Cons.prems(2)]) simp
  have sub: "D - {k} \<subseteq> fst ` set al" using Cons.prems(2) x by auto
  have eq: "filter (\<lambda>(k', b). k' \<notin> D - {k}) al = filter (\<lambda>(k', b). k' \<notin> D) al"
    using Cons.prems(1) x by (intro filter_cong) force+
  have IH: "length (filter (\<lambda>(k', b). k' \<notin> D) al) + card (D - {k}) = length al"
    using Cons.IH[OF _ sub] Cons.prems(1) x eq by simp
  show ?case
  proof (cases "k \<in> D")
    case True
    then have "card D = Suc (card (D - {k}))" using card_Suc_Diff1[OF f True] by simp
    then show ?thesis using IH True x by simp
  next
    case False
    then show ?thesis using IH x by simp
  qed
qed simp

lemma take_sort_key_le:
  assumes "a \<in> set (take n (sort_key f xs))" "c \<in> set xs" "c \<notin> set (take n (sort_key f xs))"
  shows "f a \<le> f c"
proof -
  have "c \<in> set (drop n (sort_key f xs))"
    using assms(2,3) by (metis Un_iff append_take_drop_id set_append set_sort)
  moreover have "sorted (map f (take n (sort_key f xs)) @ map f (drop n (sort_key f xs)))"
    by (metis append_take_drop_id map_append sorted_sort_key)
  ultimately show ?thesis using assms(1) by (auto simp: sorted_append)
qed

text \<open>What an eviction drops was seen no later than each of the buckets it keeps.\<close>

lemma eviction_keeps_recent:
  assumes d: "distinct (map fst kept)" and kb: "(k, b) \<in> set kept"
    and len: "max_buckets \<le> length kept"
    and dropped: "D = set (map snd (take (length kept - kept_at_least) (sort_key fst (map (\<lambda>(k, b). (b_last_seen b, k)) kept))))"
    and k: "k \<in> D"
  shows "kept_at_least \<le> card {k'. k' \<noteq> k \<and> (\<exists>b'. (k', b') \<in> set kept \<and> b_last_seen b \<le> b_last_seen b')}"
proof -
  let ?ages = "map (\<lambda>(k, b). (b_last_seen b, k)) kept"
  let ?t = "take (length kept - kept_at_least) (sort_key fst ?ages)"
  have le: "kept_at_least \<le> max_buckets" by (simp add: kept_at_least_def max_buckets_def)
  have dk: "distinct (map snd ?ages)" using d by (simp add: comp_def split_beta)
  then have ds: "distinct (map snd (sort_key fst ?ages))"
    unfolding distinct_map set_sort distinct_sort .
  have dt: "distinct (map snd ?t)" using ds by (simp add: take_map[symmetric])
  then have cD: "card D = length kept - kept_at_least"
    unfolding dropped using distinct_card[OF dt] by simp
  have sub: "D \<subseteq> fst ` set kept"
  proof
    fix x assume "x \<in> D"
    then obtain a where "(a, x) \<in> set ?t" unfolding dropped by auto
    then have "(a, x) \<in> set ?ages" by (metis in_set_takeD set_sort)
    then show "x \<in> fst ` set kept" by force
  qed
  let ?R = "filter (\<lambda>(k, b). k \<notin> D) kept"
  have "length ?R = kept_at_least"
    using length_filter_fst_notin[OF d sub] cD len le by simp
  moreover have "distinct (map fst ?R)" using d by (rule distinct_map_filter)
  ultimately have card: "card (fst ` set ?R) = kept_at_least"
    by (metis distinct_card length_map list.set_map)
  obtain a where a: "(a, k) \<in> set ?t" using k unfolding dropped by auto
  then have "(a, k) \<in> set ?ages" by (metis in_set_takeD set_sort)
  then have ab: "a = b_last_seen b" using kb d by (auto dest: eq_key_imp_eq_value)
  have "fst ` set ?R \<subseteq> {k'. k' \<noteq> k \<and> (\<exists>b'. (k', b') \<in> set kept \<and> b_last_seen b \<le> b_last_seen b')}"
  proof clarsimp
    fix k' b' assume r: "(k', b') \<in> set kept" "k' \<notin> D"
    have "(b_last_seen b', k') \<notin> set ?t" using r(2) unfolding dropped by force
    then have "b_last_seen b \<le> b_last_seen b'"
      using take_sort_key_le[OF a, of "(b_last_seen b', k')"] r(1) ab by force
    then show "k' \<noteq> k \<and> (\<exists>b'. (k', b') \<in> set kept \<and> b_last_seen b \<le> b_last_seen b')"
      using r k by blast
  qed
  moreover have "finite {k'. k' \<noteq> k \<and> (\<exists>b'. (k', b') \<in> set kept \<and> b_last_seen b \<le> b_last_seen b')}"
    by (rule finite_subset[of _ "fst ` set kept"]) force+
  ultimately show ?thesis unfolding card[symmetric] by (intro card_mono)
qed

text \<open>The state after the requests \<open>reqs\<close>: every bucket was last seen by one of them, and
  \<open>k\<close>'s bucket still holds the admitted hits \<open>A\<close> of \<open>k\<close> later than \<open>L\<close>.\<close>

definition window_inv :: "ustring \<Rightarrow> int \<Rightarrow> int \<Rightarrow> (ustring \<times> int) list \<Rightarrow> int list \<Rightarrow> buckets \<Rightarrow> bool" where
  "window_inv k w L reqs A bs \<longleftrightarrow>
     distinct (map fst (bk_map bs))
     \<and> (\<forall>k' b. (k', b) \<in> set (bk_map bs) \<longrightarrow> (k', b_last_seen b) \<in> set reqs)
     \<and> (\<forall>b. (k, b) \<in> set (bk_map bs) \<longrightarrow> b_window b = w \<and> sorted (b_events b)
           \<and> (\<forall>e \<in> set (b_events b). e \<le> b_last_seen b))
     \<and> filter (\<lambda>e. L < e) (mem_events bs k) = A"

lemma mem_events_in:
  "distinct (map fst (bk_map bs)) \<Longrightarrow> (k, b) \<in> set (bk_map bs) \<Longrightarrow> mem_events bs k = b_events b"
  by (simp add: mem_events_def)

lemma mem_events_notin: "k \<notin> fst ` set (bk_map bs) \<Longrightarrow> mem_events bs k = []"
  by (simp add: mem_events_def map_of_eq_None_iff[THEN iffD2])

lemma sublist_window_inv:
  assumes i: "window_inv k w L reqs A bs"
    and P: "bk_map bs' = filter P (bk_map bs)"
    and lost: "\<And>b. (k, b) \<in> set (bk_map bs) \<Longrightarrow> \<not> P (k, b) \<Longrightarrow> b_last_seen b \<le> L"
  shows "window_inv k w L reqs A bs'"
proof -
  note di = i[unfolded window_inv_def]
  have d': "distinct (map fst (bk_map bs'))" using di unfolding P by (simp add: distinct_map_filter)
  have "filter (\<lambda>e. L < e) (mem_events bs' k) = A"
  proof (cases "k \<in> fst ` set (bk_map bs)")
    case False
    then have "k \<notin> fst ` set (bk_map bs')" unfolding P by auto
    then show ?thesis using di False mem_events_notin by metis
  next
    case True
    then obtain b where b: "(k, b) \<in> set (bk_map bs)" by auto
    have e: "mem_events bs k = b_events b" using di b by (intro mem_events_in) auto
    show ?thesis
    proof (cases "P (k, b)")
      case True
      then have "mem_events bs' k = b_events b" using b d' by (intro mem_events_in) (auto simp: P)
      then show ?thesis using di e by simp
    next
      case False
      then have "k \<notin> fst ` set (bk_map bs')" using b di unfolding P by (auto dest: eq_key_imp_eq_value)
      moreover have "\<forall>e \<in> set (b_events b). \<not> L < e" using lost[OF b False] di b by fastforce
      ultimately show ?thesis using di e mem_events_notin[of k bs'] by (simp add: filter_empty_conv)
    qed
  qed
  then show ?thesis using di d' unfolding window_inv_def P by auto
qed

lemma sweep_window_inv:
  assumes i: "window_inv k w L reqs A bs" and past: "\<forall>(k', t') \<in> set reqs. t' \<le> t" and t: "t - w \<le> L" and w: "0 < w"
    and Y: "finite Y" "card Y < kept_at_least" "\<And>k' t'. (k', t') \<in> set reqs \<Longrightarrow> L < t' \<Longrightarrow> k' \<noteq> k \<Longrightarrow> k' \<in> Y"
  shows "window_inv k w L reqs A (sweep bs t)"
proof -
  let ?kept = "filter (\<lambda>(k, b). duration_since t (b_last_seen b) < b_window b) (bk_map bs)"
  let ?D = "set (map snd (take (length ?kept - kept_at_least) (sort_key fst (map (\<lambda>(k, b). (b_last_seen b, k)) ?kept))))"
  have i1: "window_inv k w L reqs A (bs\<lparr>bk_map := ?kept\<rparr>)"
  proof (rule sublist_window_inv[OF i])
    fix b assume b: "(k, b) \<in> set (bk_map bs)"
      and "\<not> (case (k, b) of (k, b) \<Rightarrow> duration_since t (b_last_seen b) < b_window b)"
    then have "w \<le> duration_since t (b_last_seen b)" using i by (auto simp: window_inv_def)
    then show "b_last_seen b \<le> L" using t w by (auto simp: duration_since_def max_def split: if_splits)
  qed simp
  then have d: "distinct (map fst ?kept)"
    and seen: "\<And>k' b. (k', b) \<in> set ?kept \<Longrightarrow> (k', b_last_seen b) \<in> set reqs"
    by (auto simp: window_inv_def)
  show ?thesis
  proof (cases "length ?kept < max_buckets")
    case True
    then have "bk_map (sweep bs t) = ?kept" by (simp add: sweep_def)
    then show ?thesis using i1 by (simp add: window_inv_def mem_events_def)
  next
    case False
    have s: "bk_map (sweep bs t) = filter (\<lambda>(k, b). k \<notin> ?D) ?kept"
      unfolding sweep_def Let_def kept_at_least_def if_not_P[OF False] by simp
    have "b_last_seen b \<le> L" if b: "(k, b) \<in> set ?kept" and k: "k \<in> ?D" for b
    proof (rule ccontr)
      assume "\<not> b_last_seen b \<le> L"
      then have "{k'. k' \<noteq> k \<and> (\<exists>b'. (k', b') \<in> set ?kept \<and> b_last_seen b \<le> b_last_seen b')} \<subseteq> Y"
        using seen Y(3) by fastforce
      then have "kept_at_least \<le> card Y"
        using order_trans[OF eviction_keeps_recent[OF d b _ refl k] card_mono[OF Y(1)]] False by simp
      then show False using Y(2) by simp
    qed
    then show ?thesis by (intro sublist_window_inv[OF i1, of _ "\<lambda>(k, b). k \<notin> ?D"]) (use s in auto)
  qed
qed

lemma mem_prep_window_inv:
  assumes i: "window_inv k w L reqs A bs" and past: "\<forall>(k', t') \<in> set reqs. t' \<le> t" and t: "t - w \<le> L" and w: "0 < w"
    and Y: "finite Y" "card Y < kept_at_least" "\<And>k' t'. (k', t') \<in> set reqs \<Longrightarrow> L < t' \<Longrightarrow> k' \<noteq> k \<Longrightarrow> k' \<in> Y"
  shows "window_inv k w L reqs A (mem_prep key t bs)"
proof -
  have n: "window_inv k w L reqs A (bs\<lparr>bk_since_sweep := n\<rparr>)" for n
    using i by (simp add: window_inv_def mem_events_def)
  show ?thesis using i n sweep_window_inv[OF n past t w Y] by (simp add: mem_prep_def Let_def)
qed

lemma window_inv_update:
  assumes i: "window_inv k w L reqs A s" and b: "b_last_seen b = t"
    and k: "key = k \<Longrightarrow> b_window b = w \<and> sorted (b_events b) \<and> (\<forall>e \<in> set (b_events b). e \<le> t)
              \<and> filter (\<lambda>e. L < e) (b_events b) = A'"
    and other: "key \<noteq> k \<Longrightarrow> A' = A"
  shows "window_inv k w L (reqs @ [(key, t)]) A' (s\<lparr>bk_map := AList.update key b (bk_map s)\<rparr>)"
proof -
  note di = i[unfolded window_inv_def]
  then have d: "distinct (map fst (bk_map s))" by blast
  have upd: "if k' = key then b' = b else (k', b') \<in> set (bk_map s)"
    if "(k', b') \<in> set (AList.update key b (bk_map s))" for k' b' using update_mem[OF d that] .
  have "(k', b_last_seen b') \<in> set (reqs @ [(key, t)])"
    if "(k', b') \<in> set (AList.update key b (bk_map s))" for k' b'
    using upd[OF that] di b by (auto split: if_splits)
  moreover have "b_window b' = w \<and> sorted (b_events b') \<and> (\<forall>e \<in> set (b_events b'). e \<le> b_last_seen b')"
    if "(k, b') \<in> set (AList.update key b (bk_map s))" for b'
    using upd[OF that] di k b by (cases "key = k") auto
  moreover have "filter (\<lambda>e. L < e) (mem_events (s\<lparr>bk_map := AList.update key b (bk_map s)\<rparr>) k) = A'"
    using di k other by (cases "key = k") (auto simp: mem_events_def update_conv')
  ultimately show ?thesis using d unfolding window_inv_def by (auto simp: distinct_update)
qed

lemma mem_chk_window_inv:
  assumes i: "window_inv k (window k) L reqs A bs" and past: "\<forall>(k', t') \<in> set reqs. t' \<le> t"
    and t: "t - window k \<le> L" and w: "0 < window k"
    and Y: "finite Y" "card Y < kept_at_least" "\<And>k' t'. (k', t') \<in> set reqs \<Longrightarrow> L < t' \<Longrightarrow> k' \<noteq> k \<Longrightarrow> k' \<in> Y"
    and A': "A' = (if key = k \<and> fst (mem_chk limit window key t bs) \<and> L < t then A @ [t] else A)"
  shows "window_inv k (window k) L (reqs @ [(key, t)]) A' (snd (mem_chk limit window key t bs))
    \<and> (length A \<le> limit k \<longrightarrow> length A' \<le> limit k)"
proof -
  let ?s = "mem_prep key t bs" and ?w = "window k"
  have i1: "window_inv k ?w L reqs A ?s" by (rule mem_prep_window_inv[OF i past t w Y])
  let ?b = "case map_of (bk_map ?s) key of Some b \<Rightarrow> b
      | None \<Rightarrow> \<lparr>b_events = [], b_last_seen = t, b_window = window key\<rparr>"
  define es where "es = dropWhile (\<lambda>e. window key \<le> duration_since t e) (b_events ?b)"
  have ev: "b_events ?b = mem_events ?s key" by (simp add: mem_events_def split: option.split)
  have fs: "fst (mem_chk limit window key t bs) \<longleftrightarrow> length es < limit key"
    by (simp add: mem_chk_def mem_check_def Let_def not_less es_def)
  have sn: "snd (mem_chk limit window key t bs) = ?s\<lparr>bk_map := AList.update key
      \<lparr>b_events = (if length es < limit key then es @ [t] else es), b_last_seen = t, b_window = window key\<rparr> (bk_map ?s)\<rparr>"
    by (simp add: mem_chk_def mem_check_def Let_def not_less es_def)
  have k: "sorted es \<and> (\<forall>e \<in> set es. e \<le> t) \<and> filter (\<lambda>e. L < e) es = A" if "key = k"
  proof -
    have m: "sorted (mem_events ?s k) \<and> (\<forall>e \<in> set (mem_events ?s k). e \<le> t)"
    proof (cases "map_of (bk_map ?s) k")
      case (Some b)
      have "(k, b) \<in> set (bk_map ?s)" using Some by (rule map_of_SomeD)
      then have "sorted (b_events b)" "\<forall>e \<in> set (b_events b). e \<le> b_last_seen b" "b_last_seen b \<le> t"
        using i1 past by (auto simp: window_inv_def)
      then show ?thesis using Some by (fastforce simp: mem_events_def)
    qed (simp add: mem_events_def)
    have f: "es = filter (\<lambda>e. t - ?w < e) (mem_events ?s k)"
      using dropWhile_sorted_filter[of "mem_events ?s k" t ?w] m w ev that by (simp add: es_def)
    have "filter (\<lambda>e. L < e) es = filter (\<lambda>e. L < e) (mem_events ?s k)"
      unfolding f filter_filter using t by (intro filter_cong) auto
    also have "\<dots> = A" using i1 by (simp add: window_inv_def)
    finally show ?thesis unfolding f using m by (simp add: sorted_wrt_filter)
  qed
  have "window_inv k ?w L (reqs @ [(key, t)]) A' (snd (mem_chk limit window key t bs))"
    unfolding sn
  proof (rule window_inv_update[OF i1])
    show "key \<noteq> k \<Longrightarrow> A' = A" by (simp add: A')
    assume "key = k"
    with k have "sorted es \<and> (\<forall>e \<in> set es. e \<le> t) \<and> filter (\<lambda>e. L < e) es = A" by blast
    then show "b_window \<lparr>b_events = if length es < limit key then es @ [t] else es, b_last_seen = t, b_window = window key\<rparr> = ?w
        \<and> sorted (b_events \<lparr>b_events = if length es < limit key then es @ [t] else es, b_last_seen = t, b_window = window key\<rparr>)
        \<and> (\<forall>e \<in> set (b_events \<lparr>b_events = if length es < limit key then es @ [t] else es, b_last_seen = t, b_window = window key\<rparr>). e \<le> t)
        \<and> filter (\<lambda>e. L < e) (b_events \<lparr>b_events = if length es < limit key then es @ [t] else es, b_last_seen = t, b_window = window key\<rparr>) = A'"
      using \<open>key = k\<close> fs by (simp add: A' sorted_append)
  qed simp
  moreover have "length A' \<le> limit k" if l: "length A \<le> limit k"
  proof (cases "key = k \<and> length es < limit key")
    case True
    then have "length A \<le> length es" using k by (metis length_filter_le)
    then show ?thesis using True A' by auto
  next
    case False
    then have "A' = A" unfolding A' fs by (rule if_not_P[OF contrapos_nn]) blast
    then show ?thesis using l by simp
  qed
  ultimately show ?thesis by blast
qed

lemma memory_window:
  fixes limit :: "ustring \<Rightarrow> nat"
  assumes "sorted (map snd reqs)" and w: "0 < window k"
    and Y: "finite Y" "card Y < kept_at_least"
      "\<And>k' t'. (k', t') \<in> set reqs \<Longrightarrow> T - window k < t' \<Longrightarrow> t' \<le> T \<Longrightarrow> k' \<noteq> k \<Longrightarrow> k' \<in> Y"
  defines "run \<equiv> \<lambda>rs. run_checks (mem_chk limit window) rs \<lparr>bk_map = [], bk_since_sweep = 0\<rparr>"
  shows "length (admitted k (window k) T (fst (run reqs))) \<le> limit k
    \<and> ((\<forall>r \<in> set reqs. snd r \<le> T) \<longrightarrow>
        window_inv k (window k) (T - window k) reqs (admitted k (window k) T (fst (run reqs))) (snd (run reqs)))"
  using assms(1) Y(3)
proof (induction reqs rule: rev_induct)
  case Nil
  then show ?case by (simp add: run_def admitted_def window_inv_def mem_events_def)
next
  case (snoc r reqs)
  obtain key t where r: "r = (key, t)" by (cases r)
  let ?s = "snd (run reqs)" and ?A = "admitted k (window k) T (fst (run reqs))" and ?L = "T - window k"
  let ?b = "fst (mem_chk limit window key t ?s)"
  have srt: "sorted (map snd reqs)" and past: "\<forall>(k', t') \<in> set reqs. t' \<le> t"
    using snoc.prems(1) r by (auto simp: sorted_append)
  have Y': "(k', t') \<in> set reqs \<Longrightarrow> ?L < t' \<Longrightarrow> t' \<le> T \<Longrightarrow> k' \<noteq> k \<Longrightarrow> k' \<in> Y" for k' t'
    using snoc.prems(2)[of k' t'] by simp
  have IH: "length ?A \<le> limit k \<and> ((\<forall>r \<in> set reqs. snd r \<le> T) \<longrightarrow>
      window_inv k (window k) ?L reqs ?A ?s)"
    by (rule snoc.IH[OF srt]) (rule Y')
  have run1: "run (reqs @ [r]) = (fst (run reqs) @ [(key, t, ?b)], snd (mem_chk limit window key t ?s))"
    by (simp add: run_def run_checks_append r split_beta Let_def)
  show ?case
  proof (cases "t \<le> T")
    case False
    then have "admitted k (window k) T (fst (run (reqs @ [r]))) = ?A"
      unfolding run1 fst_conv admitted_append by (simp add: admitted_def)
    then show ?thesis using IH False r by auto
  next
    case True
    then have all: "\<forall>r \<in> set reqs. snd r \<le> T" using past by fastforce
    have A: "admitted k (window k) T (fst (run (reqs @ [r])))
        = (if key = k \<and> ?b \<and> ?L < t then ?A @ [t] else ?A)"
      unfolding run1 fst_conv admitted_append using True by (auto simp: admitted_def)
    have i: "window_inv k (window k) ?L reqs ?A ?s" using IH all by blast
    have Y2: "k' \<in> Y" if "(k', t') \<in> set reqs" "?L < t'" "k' \<noteq> k" for k' t'
      using Y'[OF that(1,2) _ that(3)] all that(1) by force
    have tL: "t - window k \<le> ?L" using True by simp
    have "window_inv k (window k) ?L (reqs @ [(key, t)]) (admitted k (window k) T (fst (run (reqs @ [r]))))
        (snd (mem_chk limit window key t ?s))
      \<and> (length ?A \<le> limit k \<longrightarrow> length (admitted k (window k) T (fst (run (reqs @ [r])))) \<le> limit k)"
      by (rule mem_chk_window_inv[OF i past tL w Y(1,2) _ A]) (rule Y2)
    then show ?thesis using IH run1 r by (metis snd_conv)
  qed
qed

section \<open>The ValKey limiter keeps the promise\<close>

definition vk_chk :: "(ustring \<Rightarrow> nat) \<Rightarrow> (ustring \<Rightarrow> int) \<Rightarrow> ustring \<Rightarrow> int \<Rightarrow> valkey \<Rightarrow> bool \<times> valkey" where
  "vk_chk limit window k t vk = (let (n, vk') = rate_limit_lua k (limit k) (window k) t vk in (n = 1, vk'))"

definition vk_live :: "(ustring \<Rightarrow> int) \<Rightarrow> valkey \<Rightarrow> ustring \<Rightarrow> int \<Rightarrow> int list" where
  "vk_live window vk k t = filter (\<lambda>e. t - window k < e) (zset_at vk k t)"

definition vk_inv :: "(ustring \<Rightarrow> int) \<Rightarrow> valkey \<Rightarrow> int \<Rightarrow> bool" where
  "vk_inv window vk u \<longleftrightarrow> 0 \<le> u \<and> (\<forall>k. 0 < window k)
     \<and> (\<forall>k z. vk k = Some z \<longrightarrow> sorted (z_scores z)
          \<and> (\<forall>e \<in> set (z_scores z). 0 \<le> e \<and> e \<le> u \<and> e + window k \<le> z_expires z))"

lemma zset_at_wf:
  assumes "vk_inv window vk u"
  shows "sorted (zset_at vk k t)" "\<forall>e \<in> set (zset_at vk k t). 0 \<le> e \<and> e \<le> u"
proof -
  have "sorted (zset_at vk k t) \<and> (\<forall>e \<in> set (zset_at vk k t). 0 \<le> e \<and> e \<le> u)"
  proof (cases "vk k")
    case (Some z)
    then have "sorted (z_scores z) \<and> (\<forall>e \<in> set (z_scores z). 0 \<le> e \<and> e \<le> u)"
      using assms unfolding vk_inv_def by blast
    with Some show ?thesis by (simp add: zset_at_def)
  qed (simp add: zset_at_def)
  then show "sorted (zset_at vk k t)" "\<forall>e \<in> set (zset_at vk k t). 0 \<le> e \<and> e \<le> u" by blast+
qed

lemma vk_trimmed:
  "vk_inv window vk u \<Longrightarrow> filter (\<lambda>s. \<not> (0 \<le> s \<and> s \<le> t - window k)) (zset_at vk k t) = vk_live window vk k t"
  unfolding vk_live_def by (rule filter_cong) (use zset_at_wf(2)[of window vk u k t] in auto)

lemma lua_eq:
  assumes "vk_inv window vk u"
  shows "rate_limit_lua k lmt (window k) t vk =
    (if lmt \<le> length (vk_live window vk k t)
     then (0, vk(k := (case vk k of None \<Rightarrow> None
                 | Some z \<Rightarrow> if z_expires z \<le> t then None else Some (z\<lparr>z_scores := vk_live window vk k t\<rparr>))))
     else (1, vk(k \<mapsto> \<lparr>z_scores = insort t (vk_live window vk k t), z_expires = t + window k\<rparr>)))"
  unfolding rate_limit_lua_def Let_def vk_trimmed[OF assms] by simp

lemma insort_last: "\<forall>e \<in> set xs. e \<le> (t :: int) \<Longrightarrow> sorted xs \<Longrightarrow> insort t xs = xs @ [t]"
  by (induction xs) (auto simp: insort_is_Cons)

lemma vk_ageing:
  assumes "vk_inv window vk u" "t \<le> t'"
  shows "vk_live window vk k t' = filter (\<lambda>e. t' - window k < e) (vk_live window vk k t)"
proof (cases "vk k")
  case None
  then show ?thesis by (simp add: vk_live_def zset_at_def)
next
  case (Some z)
  show ?thesis
  proof (cases "z_expires z \<le> t'")
    case True
    then have "\<forall>e \<in> set (z_scores z). e \<le> t' - window k" using Some assms(1) by (fastforce simp: vk_inv_def)
    then show ?thesis using Some True by (auto simp: vk_live_def zset_at_def filter_empty_conv empty_filter_conv)
  next
    case False
    then show ?thesis using Some assms(2) by (auto simp: vk_live_def zset_at_def intro!: filter_cong)
  qed
qed

lemma vk_chk_steps:
  assumes "vk_inv window vk u" "u \<le> t"
  shows "fst (vk_chk limit window k t vk) \<longleftrightarrow> length (vk_live window vk k t) < limit k"
    and "vk_live window (snd (vk_chk limit window k t vk)) k t
           = vk_live window vk k t @ (if length (vk_live window vk k t) < limit k then [t] else [])"
    and "vk_inv window (snd (vk_chk limit window k t vk)) t"
    and "k' \<noteq> k \<Longrightarrow> vk_live window (snd (vk_chk limit window k t vk)) k' t' = vk_live window vk k' t'"
proof -
  let ?l = "vk_live window vk k t"
  have w: "0 < window k" "0 \<le> t" using assms by (auto simp: vk_inv_def)
  have l: "sorted ?l" "\<forall>e \<in> set ?l. 0 \<le> e \<and> e \<le> t \<and> t - window k < e"
    using zset_at_wf[OF assms(1), of k t] assms(2) by (auto simp: vk_live_def sorted_wrt_filter)
  note chk = vk_chk_def lua_eq[OF assms(1)]
  show "fst (vk_chk limit window k t vk) \<longleftrightarrow> length ?l < limit k"
    by (simp add: chk not_less)
  have ins: "insort t ?l = ?l @ [t]" using l by (intro insort_last) auto
  have all: "filter (\<lambda>e. t - window k < e) ?l = ?l" using l(2) by (simp add: filter_id_conv)
  show "vk_live window (snd (vk_chk limit window k t vk)) k t = ?l @ (if length ?l < limit k then [t] else [])"
  proof (cases "length ?l < limit k")
    case True
    then show ?thesis using w all ins by (simp add: chk vk_live_def[of window "_(k \<mapsto> _)"] zset_at_def)
  next
    case False
    then have "vk_live window (snd (vk_chk limit window k t vk)) k t = filter (\<lambda>e. t - window k < e) ?l"
      by (cases "vk k") (auto simp: chk vk_live_def zset_at_def)
    then show ?thesis using False all by simp
  qed
  show "k' \<noteq> k \<Longrightarrow> vk_live window (snd (vk_chk limit window k t vk)) k' t' = vk_live window vk k' t'"
    by (simp add: chk vk_live_def zset_at_def)
  have old: "vk_inv window vk t" using assms by (fastforce simp: vk_inv_def)
  have sub: "set ?l \<subseteq> set (z_scores z)" if "vk k = Some z" for z
    using that by (auto simp: vk_live_def zset_at_def split: if_splits)
  show "vk_inv window (snd (vk_chk limit window k t vk)) t"
    unfolding vk_inv_def
  proof (intro conjI allI impI)
    show "0 \<le> t" "0 < window k1" for k1 using w assms by (auto simp: vk_inv_def)
    fix k1 z assume z: "snd (vk_chk limit window k t vk) k1 = Some z"
    have wf: "sorted (z_scores z) \<and> (\<forall>e \<in> set (z_scores z). 0 \<le> e \<and> e \<le> t \<and> e + window k1 \<le> z_expires z)"
    proof (cases "k1 = k")
      case False
      then show ?thesis using z old by (simp add: chk vk_inv_def split: if_splits)
    next
      case True
      show ?thesis
      proof (cases "length ?l < limit k")
        case True
        then have "z = \<lparr>z_scores = ?l @ [t], z_expires = t + window k\<rparr>" using z \<open>k1 = k\<close> ins by (simp add: chk)
        then show ?thesis using l w \<open>k1 = k\<close> by (auto simp: sorted_append)
      next
        case False
        then obtain z0 where "vk k = Some z0" "z = z0\<lparr>z_scores := ?l\<rparr>"
          using z \<open>k1 = k\<close> by (auto simp: chk split: option.splits if_splits)
        then show ?thesis using l sub[of z0] old \<open>k1 = k\<close> by (auto simp: vk_inv_def)
      qed
    qed
    show "sorted (z_scores z)" using wf by blast
    show "\<forall>e \<in> set (z_scores z). 0 \<le> e \<and> e \<le> t \<and> e + window k1 \<le> z_expires z" using wf by blast
  qed
qed

interpretation valkey: sliding_window "vk_chk limit window" UNIV limit window "vk_live window" "vk_inv window"
  by unfold_locales (auto simp: vk_chk_steps intro: vk_ageing)

section \<open>Properties\<close>

lemma mem_window_guarantee:
  assumes "mem_inv K window bs u" and "sorted (u # map snd reqs)" and "fst ` set reqs \<subseteq> K" and "k \<in> K"
  shows "length (admitted k (window k) T (fst (run_checks (mem_chk limit window) reqs bs))) \<le> limit k"
  by (rule mem.window_guarantee[OF assms])

text \<open>C36: the in-memory limiter is a sliding window that survives its own cap: started
  empty, after any number of requests on any number of keys, with all the sweeps and
  evictions they cause, the window \<open>(T - window k, T]\<close> of a key contains no more allowed
  requests of that key than its limit, as long as fewer than the 90000 buckets that an
  eviction keeps are used by other keys inside that window.\<close>

theorem memory_limiter_guarantee:
  assumes "sorted (map snd reqs)" and "0 < window k"
    and "card {k'. k' \<noteq> k \<and> (\<exists>t. (k', t) \<in> set reqs \<and> T - window k < t \<and> t \<le> T)}
           < max_buckets - max_buckets div 10"
  shows "length (admitted k (window k) T (fst (run_checks (mem_chk limit window) reqs
           \<lparr>bk_map = [], bk_since_sweep = 0\<rparr>))) \<le> limit k"
proof -
  let ?Y = "{k'. k' \<noteq> k \<and> (\<exists>t. (k', t) \<in> set reqs \<and> T - window k < t \<and> t \<le> T)}"
  have "finite ?Y" by (rule finite_subset[of _ "fst ` set reqs"]) force+
  then show ?thesis
    using memory_window[of reqs window k ?Y T limit] assms by (simp add: kept_at_least_def) blast
qed

theorem memory_limiter_guarantee_witness:
  "let k = lit ''login''; reqs = [(k, 1), (lit ''other'', 2), (k, 2), (k, 3), (k, 12)] in
   length (admitted k 10 3 (fst (run_checks (mem_chk (\<lambda>_. 2) (\<lambda>_. 10)) reqs \<lparr>bk_map = [], bk_since_sweep = 0\<rparr>))) \<le> 2"
proof -
  let ?k = "lit ''login''" and ?reqs = "[(lit ''login'', 1), (lit ''other'', 2), (lit ''login'', 2), (lit ''login'', 3), (lit ''login'', 12)] :: (ustring \<times> int) list"
  have "{k'. k' \<noteq> ?k \<and> (\<exists>t. (k', t) \<in> set ?reqs \<and> 3 - 10 < t \<and> t \<le> 3)} \<subseteq> {lit ''other''}" by auto
  then have "card {k'. k' \<noteq> ?k \<and> (\<exists>t. (k', t) \<in> set ?reqs \<and> 3 - 10 < t \<and> t \<le> 3)} \<le> card {lit ''other''}"
    by (rule card_mono[rotated]) simp
  then have "card {k'. k' \<noteq> ?k \<and> (\<exists>t. (k', t) \<in> set ?reqs \<and> 3 - 10 < t \<and> t \<le> 3)}
      < max_buckets - max_buckets div 10"
    by (simp add: max_buckets_def)
  from memory_limiter_guarantee[of ?reqs "\<lambda>_. 10" ?k, OF _ _ this, of "\<lambda>_. 2"]
  show ?thesis by (simp add: Let_def)
qed

text \<open>C37: the ValKey script is a sliding window over the same promise, for any number of
  keys: the trim, the count and the re-armed expiry together never admit more than the
  limit in an interval of the window's length.\<close>

theorem valkey_limiter_guarantee:
  assumes "vk_inv window vk u" and "sorted (u # map snd reqs)"
  shows "length (admitted k (window k) T (fst (run_checks (vk_chk limit window) reqs vk))) \<le> limit k"
  by (rule valkey.window_guarantee[OF assms]) simp_all

theorem valkey_limiter_guarantee_witness:
  "let k = lit ''login''; reqs = [(k, 1), (k, 2), (k, 3), (k, 12)] in
   length (admitted k 10 3 (fst (run_checks (vk_chk (\<lambda>_. 2) (\<lambda>_. 10)) reqs (\<lambda>_. None)))) \<le> 2"
proof -
  have "vk_inv (\<lambda>_. 10) (\<lambda>_. None) 0" by (simp add: vk_inv_def)
  from valkey_limiter_guarantee[OF this, of "[(lit ''login'', 1), (lit ''login'', 2), (lit ''login'', 3), (lit ''login'', 12)]"
      "lit ''login''" 3 "\<lambda>_. 2"]
  show ?thesis by (simp add: Let_def)
qed

text \<open>A limiter configured to fail closed still admits every request while the connection
  cannot be established.\<close>

lemma fail_closed_admits_unconnected: "valkey_verdict False (Inl e) answer = Inr True"
  by (simp add: valkey_verdict_def)

end
