(* ===== verification/Auth_Types.thy ===== *)
theory Auth_Types
  imports Dom_Identity Dom_Privacy Job_Queue Rate_Limit
begin

text \<open>
  What the authentication code shares: its errors (\<open>application/src/auth.rs\<close>), the
  mapping of database, rate-limit, mail, audit and domain errors into them
  (\<open>infrastructure/src/db_error.rs\<close>), the rows of the account tables
  (\<open>migrations/0001, 0005, 0006, 0012, 0018\<close>) and the functions of third-party crates and of
  the database's collation that the code calls, collected in one record.

  Text columns hold the codes the code writes and decodes; an enum that is stored is
  stored as its code.
\<close>

section \<open>Errors\<close>

datatype auth_error =
    InvalidCredentials | EmailTaken | AuthWeakPassword | AuthInvalidEmail | TokenExpired | TokenUsed
  | TokenInvalid | RateLimited | AccountSuspended | AccountDeleted | ProviderFailed | Unauthorized
  | RefuseAdminSelfRevoke | AuthConflict | AuthUnavailable | AuthInternal

datatype email_error = EmailUnavailable | EmailUnexpected ustring

definition auth_of_db :: "db_failure \<Rightarrow> auth_error" where
  "auth_of_db f =
     (case f of DbConflict _ \<Rightarrow> AuthConflict | DbRetryable \<Rightarrow> AuthConflict
      | DbInvalid _ \<Rightarrow> AuthInternal | DbUnavailable \<Rightarrow> AuthUnavailable | DbOther \<Rightarrow> AuthInternal)"

definition auth_of_rate :: "rate_limit_error \<Rightarrow> auth_error" where
  "auth_of_rate e = RateLimited"

definition auth_of_email :: "email_error \<Rightarrow> auth_error" where
  "auth_of_email e = AuthInternal"

definition auth_of_audit :: "audit_error \<Rightarrow> auth_error" where
  "auth_of_audit e = AuthInternal"

definition auth_of_domain :: "domain_error \<Rightarrow> auth_error" where
  "auth_of_domain e =
     (case e of WeakPassword \<Rightarrow> AuthWeakPassword
      | EmptyEmail \<Rightarrow> AuthInvalidEmail | InvalidEmail _ \<Rightarrow> AuthInvalidEmail
      | InvalidRole _ \<Rightarrow> AuthInternal | InvalidState _ \<Rightarrow> AuthInternal | Invalid _ \<Rightarrow> AuthInternal)"

section \<open>Functions outside the repository\<close>

text \<open>Unicode lower-casing, the database's \<open>lower\<close>, SHA-256, base64url, argon2 (hashing with
  a salt and verification, \<open>None\<close> where the blocking task fails), the OAuth provider's code exchange, and the
  configured base URL.\<close>

record auth_externals =
  ax_lower :: lower_table
  ax_pg_lower :: "ustring \<Rightarrow> ustring"
  ax_sha256 :: "byte list \<Rightarrow> byte list"
  ax_b64 :: b64_codec
  ax_hash :: "ustring \<Rightarrow> byte list \<Rightarrow> ustring option"
  ax_verify :: "ustring \<Rightarrow> ustring \<Rightarrow> bool option"
  ax_oauth :: "ustring \<Rightarrow> auth_error + provider_identity"
  ax_base_url :: ustring

definition sha256_hex :: "auth_externals \<Rightarrow> byte list \<Rightarrow> ustring" where
  "sha256_hex E bytes = bytes_to_hex (ax_sha256 E bytes)"

section \<open>Rows\<close>

record user_row =
  ur_id :: int
  ur_email :: ustring
  ur_display_name :: "ustring option"
  ur_state :: ustring
  ur_verified_at :: "int option"
  ur_locale :: ustring
  ur_updated_at :: int
  ur_created_at :: int
  ur_deleted_at :: "int option"

record identity_row =
  ir_id :: int
  ir_user :: int
  ir_provider :: ustring
  ir_subject :: ustring
  ir_hash :: "ustring option"

record session_row =
  sr_hash :: ustring
  sr_user :: int
  sr_csrf :: ustring
  sr_created_at :: int
  sr_last_seen_at :: int
  sr_expires_at :: int
  sr_revoked_at :: "int option"

record verification_row =
  vr_hash :: ustring
  vr_user :: int
  vr_email :: ustring
  vr_expires_at :: int
  vr_used_at :: "int option"

record reset_row =
  rr_hash :: ustring
  rr_user :: int
  rr_expires_at :: int
  rr_used_at :: "int option"

record role_row =
  rl_user :: int
  rl_role :: ustring
  rl_granted_by :: "int option"
  rl_granted_at :: int

record audit_event =
  ae_actor :: "int option"
  ae_action :: ustring
  ae_target_type :: ustring
  ae_target_id :: ustring
  ae_result :: ustring
  ae_metadata :: json

record audit_row =
  ar_id :: int
  ar_event :: audit_event
  ar_created_at :: int

record auth_world = job_world +
  limiter :: buckets
  users :: "user_row list"
  next_user :: int
  identities :: "identity_row list"
  next_identity :: int
  sessions :: "session_row list"
  verif_tokens :: "verification_row list"
  reset_tokens :: "reset_row list"
  user_roles :: "role_row list"
  audit_events :: "audit_row list"
  next_audit :: int

section \<open>Constraints of the schema\<close>

text \<open>A statement whose result would break a unique index is rejected as a conflict; a row
  that references no user is rejected as invalid.\<close>

definition check_unique :: "string \<Rightarrow> bool \<Rightarrow> 'a \<times> 'w \<Rightarrow> db_failure + 'a \<times> 'w" where
  "check_unique name good r = (if good then Inr r else Inl (DbConflict (Some (lit name))))"

definition user_exists :: "'w auth_world_scheme \<Rightarrow> int \<Rightarrow> bool" where
  "user_exists w i \<longleftrightarrow> (\<exists>r \<in> set (users w). ur_id r = i)"

definition check_user :: "string \<Rightarrow> 'w auth_world_scheme \<Rightarrow> int \<Rightarrow> db_failure + 'b \<Rightarrow> db_failure + 'b" where
  "check_user name w i r = (if user_exists w i then r else Inl (DbInvalid (Some (lit name))))"

lemma check_unique_Inr [simp]:
  "check_unique name good r = Inr r' \<longleftrightarrow> good \<and> r' = r" by (auto simp: check_unique_def)

lemma check_user_Inr [simp]:
  "check_user name w i r = Inr r' \<longleftrightarrow> user_exists w i \<and> r = Inr r'" by (auto simp: check_user_def)

section \<open>Audit log\<close>

definition audit_success :: "int option \<Rightarrow> string \<Rightarrow> string \<Rightarrow> ustring \<Rightarrow> audit_event" where
  "audit_success actor action target_type target_id =
     \<lparr>ae_actor = actor, ae_action = lit action, ae_target_type = lit target_type, ae_target_id = target_id,
      ae_result = lit ''success'', ae_metadata = JObject []\<rparr>"

definition audit_failure :: "int option \<Rightarrow> string \<Rightarrow> string \<Rightarrow> ustring \<Rightarrow> audit_event" where
  "audit_failure actor action target_type target_id =
     \<lparr>ae_actor = actor, ae_action = lit action, ae_target_type = lit target_type, ae_target_id = target_id,
      ae_result = lit ''failure'', ae_metadata = JObject []\<rparr>"

text \<open>\<open>SqlxAuditLog::record\<close>: an actor that is not a user violates the foreign key.\<close>

definition audit_record :: "audit_event \<Rightarrow> ('w auth_world_scheme, audit_error, unit) m" where
  "audit_record ev =
     sql audit_of_db (\<lambda>w.
       if (case ae_actor ev of None \<Rightarrow> True | Some a \<Rightarrow> user_exists w a)
       then Inr ((), w\<lparr>audit_events := audit_events w @
                        [\<lparr>ar_id = next_audit w, ar_event = ev, ar_created_at = now w\<rparr>],
                      next_audit := next_audit w + 1\<rparr>)
       else Inl (DbInvalid (Some (lit ''audit_events_actor_user_id_fkey''))))"

section \<open>The invariant of the account tables\<close>

definition identity_key :: "identity_row \<Rightarrow> ustring \<times> ustring" where
  "identity_key r = (ir_provider r, ir_subject r)"

definition role_key :: "role_row \<Rightarrow> int \<times> ustring" where
  "role_key r = (rl_user r, rl_role r)"

text \<open>The keys of every table are unique, ids are below the sequences, and every row that
  names a user names an existing one.\<close>

definition wf_users :: "auth_externals \<Rightarrow> 'w auth_world_scheme \<Rightarrow> bool" where
  "wf_users E w \<longleftrightarrow>
     distinct (map ur_id (users w)) \<and> (\<forall>r \<in> set (users w). ur_id r < next_user w)
     \<and> distinct (map (\<lambda>r. ax_pg_lower E (ur_email r)) (users w))"

definition wf_auth :: "auth_externals \<Rightarrow> 'w auth_world_scheme \<Rightarrow> bool" where
  "wf_auth E w \<longleftrightarrow>
     wf_users E w
     \<and> distinct (map identity_key (identities w)) \<and> (\<forall>r \<in> set (identities w). user_exists w (ir_user r))
     \<and> distinct (map sr_hash (sessions w)) \<and> (\<forall>r \<in> set (sessions w). user_exists w (sr_user r))
     \<and> distinct (map vr_hash (verif_tokens w)) \<and> (\<forall>r \<in> set (verif_tokens w). user_exists w (vr_user r))
     \<and> distinct (map rr_hash (reset_tokens w)) \<and> (\<forall>r \<in> set (reset_tokens w). user_exists w (rr_user r))
     \<and> distinct (map role_key (user_roles w)) \<and> (\<forall>r \<in> set (user_roles w). user_exists w (rl_user r))"

lemma table_inv_wf_auth [pres]: "table_inv (wf_auth E)"
  by (simp add: table_inv_def wf_auth_def wf_users_def user_exists_def)

lemma user_exists_update [simp]:
  "user_exists (w\<lparr>sessions := a\<rparr>) i = user_exists w i" "user_exists (w\<lparr>identities := b\<rparr>) i = user_exists w i"
  "user_exists (w\<lparr>verif_tokens := c\<rparr>) i = user_exists w i" "user_exists (w\<lparr>reset_tokens := d\<rparr>) i = user_exists w i"
  "user_exists (w\<lparr>user_roles := f\<rparr>) i = user_exists w i" "user_exists (w\<lparr>audit_events := g\<rparr>) i = user_exists w i"
  "user_exists (w\<lparr>next_identity := n\<rparr>) i = user_exists w i" "user_exists (w\<lparr>next_audit := n\<rparr>) i = user_exists w i"
  "user_exists (w\<lparr>limiter := l\<rparr>) i = user_exists w i" "user_exists (w\<lparr>jobs := j\<rparr>) i = user_exists w i"
  "user_exists (w\<lparr>next_job := n\<rparr>) i = user_exists w i" "user_exists (w\<lparr>faults := fs\<rparr>) i = user_exists w i"
  "user_exists (w\<lparr>drawn := dn\<rparr>) i = user_exists w i" "user_exists (w\<lparr>now := t\<rparr>) i = user_exists w i"
  by (simp_all add: user_exists_def)

lemma keeps_audit [pres]: "keeps (wf_auth E) (audit_record ev)"
  unfolding audit_record_def
  by (rule keeps_sql[OF table_inv_wf_auth]) (auto simp: wf_auth_def wf_users_def split: if_splits)

end
