(* ===== verification/Account_Store.thy ===== *)
theory Account_Store
  imports Auth_Types "HOL-Library.List_Lexorder" "HOL-Library.Sublist"
begin

text \<open>
  The account repository (\<open>infrastructure/src/auth/account_repo.rs\<close>): reading accounts
  with their roles, creating, changing and linking them, and the guarded revocation of
  roles.  One definition per method; a method that opens a transaction is a
  \<open>transaction\<close> of its statements.  The aggregate \<open>activity_for\<close>, which counts rows of
  the contribution tables, is not modelled.
\<close>

section \<open>Reading accounts\<close>

definition roles_by_sql :: "int \<Rightarrow> ('w auth_world_scheme, auth_error, role list) m" where
  "roles_by_sql i =
     query auth_of_db (\<lambda>w.
       List.map_filter role_from (sort (map rl_role (filter (\<lambda>r. rl_user r = i) (user_roles w)))))"

definition load_user :: "auth_externals \<Rightarrow> user_row \<Rightarrow> ('w auth_world_scheme, auth_error, user) m" where
  "load_user E row =
     (case parse_email (ax_lower E) (ur_email row) of
        Inl _ \<Rightarrow> throwM AuthInternal
      | Inr email \<Rightarrow>
          (case account_state_from (ur_state row) of
             None \<Rightarrow> throwM AuthInternal
           | Some st \<Rightarrow>
               bindM (roles_by_sql (ur_id row)) (\<lambda>roles.
                 retM \<lparr>u_id = ur_id row, u_email = email, u_display_name = ur_display_name row,
                       u_state = st, u_verified_at = ur_verified_at row,
                       u_roles = (if RUser \<in> set roles then roles else roles @ [RUser]),
                       u_locale = (case parse_locale (ur_locale row) of Some l \<Rightarrow> l | None \<Rightarrow> default_locale)\<rparr>)))"

definition load_users :: "auth_externals \<Rightarrow> user_row list \<Rightarrow> ('w auth_world_scheme, auth_error, user list) m" where
  "load_users E rows = mapM (load_user E) rows"

definition load_optional :: "auth_externals \<Rightarrow> user_row option \<Rightarrow> ('w auth_world_scheme, auth_error, user option) m" where
  "load_optional E row =
     (case row of None \<Rightarrow> retM None | Some r \<Rightarrow> bindM (load_user E r) (\<lambda>u. retM (Some u)))"

definition find_by_email :: "auth_externals \<Rightarrow> ustring \<Rightarrow> ('w auth_world_scheme, auth_error, user option) m" where
  "find_by_email E email =
     bindM (query auth_of_db (\<lambda>w.
              select_one (\<lambda>r. ax_pg_lower E (ur_email r) = to_lowercase (ax_lower E) email) (users w)))
           (load_optional E)"

definition find_by_id :: "auth_externals \<Rightarrow> int \<Rightarrow> ('w auth_world_scheme, auth_error, user option) m" where
  "find_by_id E i =
     bindM (query auth_of_db (\<lambda>w. select_one (\<lambda>r. ur_id r = i) (users w))) (load_optional E)"

section \<open>Creating and changing accounts\<close>

record new_account =
  na_email :: ustring
  na_display_name :: "ustring option"
  na_password_hash :: ustring
  na_state :: account_state
  na_locale :: locale_code

definition unique_emails :: "auth_externals \<Rightarrow> user_row list \<Rightarrow> bool" where
  "unique_emails E t \<longleftrightarrow> distinct (map (\<lambda>r. ax_pg_lower E (ur_email r)) t)"

definition unique_identities :: "identity_row list \<Rightarrow> bool" where
  "unique_identities t \<longleftrightarrow> distinct (map identity_key t)"

definition insert_user :: "auth_externals \<Rightarrow> new_account \<Rightarrow> ('w auth_world_scheme, auth_error, int) m" where
  "insert_user E new =
     sql auth_of_db (\<lambda>w.
       let row = \<lparr>ur_id = next_user w, ur_email = na_email new, ur_display_name = na_display_name new,
                  ur_state = account_state_code (na_state new), ur_verified_at = None,
                  ur_locale = locale_as_str (na_locale new), ur_updated_at = now w,
                  ur_created_at = now w, ur_deleted_at = None\<rparr>;
           t = users w @ [row]
       in check_unique ''idx_users_email'' (unique_emails E t)
            (next_user w, w\<lparr>users := t, next_user := next_user w + 1\<rparr>))"

definition insert_identity ::
  "int \<Rightarrow> ustring \<Rightarrow> ustring \<Rightarrow> ustring option \<Rightarrow> ('w auth_world_scheme, auth_error, unit) m" where
  "insert_identity i provider subject hash =
     sql auth_of_db (\<lambda>w.
       let t = identities w @ [\<lparr>ir_id = next_identity w, ir_user = i, ir_provider = provider,
                               ir_subject = subject, ir_hash = hash\<rparr>]
       in check_user ''authentication_identities_user_id_fkey'' w i
            (check_unique ''authentication_identities_provider_provider_subject_key'' (unique_identities t)
              ((), w\<lparr>identities := t, next_identity := next_identity w + 1\<rparr>)))"

definition insert_role :: "int \<Rightarrow> ustring \<Rightarrow> int option \<Rightarrow> ('w auth_world_scheme, auth_error, unit) m" where
  "insert_role i code granted_by =
     sql auth_of_db (\<lambda>w.
       let t = user_roles w @ [\<lparr>rl_user = i, rl_role = code, rl_granted_by = granted_by, rl_granted_at = now w\<rparr>]
       in check_user ''user_roles_user_id_fkey'' w i
            (check_unique ''user_roles_pkey'' (distinct (map role_key t)) ((), w\<lparr>user_roles := t\<rparr>)))"

definition create_account :: "auth_externals \<Rightarrow> new_account \<Rightarrow> ('w auth_world_scheme, auth_error, int) m" where
  "create_account E new =
     transaction auth_of_db
       (bindM (insert_user E new) (\<lambda>i.
        thenM (whenM (na_password_hash new \<noteq> [])
                 (insert_identity i (lit ''password'') (na_email new) (Some (na_password_hash new))))
       (thenM (insert_role i (lit ''USER'') None)
              (retM i))))"

definition update_user :: "auth_externals \<Rightarrow> int \<Rightarrow> (user_row \<Rightarrow> user_row) \<Rightarrow> ('w auth_world_scheme, auth_error, unit) m" where
  "update_user E i f =
     sql auth_of_db (\<lambda>w.
       let t = update_where (\<lambda>r. ur_id r = i) (\<lambda>r. (f r)\<lparr>ur_updated_at := now w\<rparr>) (users w)
       in check_unique ''idx_users_email'' (unique_emails E t) ((), w\<lparr>users := t\<rparr>))"

definition update_password_identity ::
  "int \<Rightarrow> (identity_row \<Rightarrow> identity_row) \<Rightarrow> ('w auth_world_scheme, auth_error, unit) m" where
  "update_password_identity i f =
     sql auth_of_db (\<lambda>w.
       let t = update_where (\<lambda>r. ir_user r = i \<and> ir_provider r = lit ''password'') f (identities w)
       in check_unique ''authentication_identities_provider_provider_subject_key'' (unique_identities t)
            ((), w\<lparr>identities := t\<rparr>))"

definition set_state :: "auth_externals \<Rightarrow> int \<Rightarrow> account_state \<Rightarrow> ('w auth_world_scheme, auth_error, unit) m" where
  "set_state E i st = update_user E i (\<lambda>r. r\<lparr>ur_state := account_state_code st\<rparr>)"

definition mark_email_verified :: "auth_externals \<Rightarrow> int \<Rightarrow> int \<Rightarrow> ('w auth_world_scheme, auth_error, unit) m" where
  "mark_email_verified E i t = update_user E i (\<lambda>r. r\<lparr>ur_verified_at := Some t\<rparr>)"

definition update_canonical_email :: "auth_externals \<Rightarrow> int \<Rightarrow> ustring \<Rightarrow> ('w auth_world_scheme, auth_error, unit) m" where
  "update_canonical_email E i email =
     transaction auth_of_db
       (thenM (update_user E i (\<lambda>r. r\<lparr>ur_email := email\<rparr>))
              (update_password_identity i (\<lambda>r. r\<lparr>ir_subject := email\<rparr>)))"

definition confirm_email :: "auth_externals \<Rightarrow> int \<Rightarrow> int \<Rightarrow> ustring \<Rightarrow> ('w auth_world_scheme, auth_error, unit) m" where
  "confirm_email E i t email =
     transaction auth_of_db
       (thenM (update_user E i (\<lambda>r. r\<lparr>ur_email := email, ur_verified_at := Some t, ur_state := lit ''ACTIVE''\<rparr>))
              (update_password_identity i (\<lambda>r. r\<lparr>ir_subject := email\<rparr>)))"

definition set_password :: "int \<Rightarrow> ustring \<Rightarrow> ('w auth_world_scheme, auth_error, unit) m" where
  "set_password i hash = update_password_identity i (\<lambda>r. r\<lparr>ir_hash := Some hash\<rparr>)"

definition set_locale_row :: "auth_externals \<Rightarrow> int \<Rightarrow> locale_code \<Rightarrow> ('w auth_world_scheme, auth_error, unit) m" where
  "set_locale_row E i l = update_user E i (\<lambda>r. r\<lparr>ur_locale := locale_as_str l\<rparr>)"

section \<open>Identities\<close>

record identity_record =
  id_id :: int
  id_user :: int
  id_provider :: auth_provider
  id_subject :: ustring
  id_hash :: "ustring option"

definition link_identity ::
  "int \<Rightarrow> auth_provider \<Rightarrow> ustring \<Rightarrow> ustring option \<Rightarrow> ('w auth_world_scheme, auth_error, unit) m" where
  "link_identity i provider subject hash =
     sql auth_of_db (\<lambda>w.
       let row = \<lparr>ir_id = next_identity w, ir_user = i, ir_provider = provider_code provider,
                  ir_subject = subject, ir_hash = hash\<rparr>
       in if identity_key row \<in> identity_key ` set (identities w)
          then Inr ((), w\<lparr>next_identity := next_identity w + 1\<rparr>)
          else check_user ''authentication_identities_user_id_fkey'' w i
                 (Inr ((), w\<lparr>identities := identities w @ [row], next_identity := next_identity w + 1\<rparr>)))"

definition find_identity :: "auth_provider \<Rightarrow> ustring \<Rightarrow> ('w auth_world_scheme, auth_error, identity_record option) m" where
  "find_identity provider subject =
     bindM (query auth_of_db (\<lambda>w.
              select_one (\<lambda>r. ir_provider r = provider_code provider \<and> ir_subject r = subject) (identities w)))
       (\<lambda>row. case row of
          None \<Rightarrow> retM None
        | Some r \<Rightarrow>
            bindM (okOrM AuthInternal (provider_from (ir_provider r))) (\<lambda>p.
              retM (Some \<lparr>id_id = ir_id r, id_user = ir_user r, id_provider = p, id_subject = ir_subject r,
                         id_hash = ir_hash r\<rparr>)))"

section \<open>Roles\<close>

definition count_admins :: "('w auth_world_scheme, auth_error, nat) m" where
  "count_admins = query auth_of_db (\<lambda>w. length (filter (\<lambda>r. rl_role r = lit ''ADMIN'') (user_roles w)))"

definition grant_role_row :: "int \<Rightarrow> role \<Rightarrow> int \<Rightarrow> ('w auth_world_scheme, auth_error, unit) m" where
  "grant_role_row i r granted_by =
     sql auth_of_db (\<lambda>w.
       let row = \<lparr>rl_user = i, rl_role = role_code r, rl_granted_by = Some granted_by, rl_granted_at = now w\<rparr>
       in if role_key row \<in> role_key ` set (user_roles w) then Inr ((), w)
          else check_user ''user_roles_user_id_fkey'' w i
                 (check_user ''user_roles_granted_by_fkey'' w granted_by
                   (Inr ((), w\<lparr>user_roles := user_roles w @ [row]\<rparr>))))"

definition admin_ids :: "'w auth_world_scheme \<Rightarrow> int list" where
  "admin_ids w = map rl_user (filter (\<lambda>r. rl_role r = lit ''ADMIN'') (user_roles w))"

definition revoke_role_guarded :: "int \<Rightarrow> role \<Rightarrow> ('w auth_world_scheme, auth_error, bool) m" where
  "revoke_role_guarded i r =
     transaction auth_of_db
       (bindM (query auth_of_db admin_ids) (\<lambda>admins.
        if r = RAdmin \<and> length admins \<le> 1 \<and> i \<in> set admins then throwM RefuseAdminSelfRevoke
        else sql auth_of_db (\<lambda>w.
          let gone = (\<lambda>x. rl_user x = i \<and> rl_role x = role_code r)
          in Inr (0 < length (filter gone (user_roles w)),
                  w\<lparr>user_roles := filter (\<lambda>x. \<not> gone x) (user_roles w)\<rparr>))))"

section \<open>Listing\<close>

definition list_user_rows :: "auth_externals \<Rightarrow> ('w auth_world_scheme, auth_error, user list) m" where
  "list_user_rows E =
     bindM (query auth_of_db (\<lambda>w. sort_key (\<lambda>r. - ur_id r) (users w))) (load_users E)"

definition replace_char :: "uchar \<Rightarrow> ustring \<Rightarrow> ustring \<Rightarrow> ustring" where
  "replace_char c r s = concat (map (\<lambda>x. if x = c then r else [x]) s)"

definition escape_like :: "ustring \<Rightarrow> ustring" where
  "escape_like term =
     replace_char 95 (lit ''!_'') (replace_char 37 (lit ''!%'') (replace_char 33 (lit ''!!'') term))"

text \<open>\<open>LIKE pattern ESCAPE '!'\<close>: \<open>%\<close> is any run, \<open>_\<close> any one character, and an escaped
  character is itself.\<close>

fun like_match :: "ustring \<Rightarrow> ustring \<Rightarrow> bool" where
  "like_match [] s \<longleftrightarrow> s = []"
| "like_match (c # p) s \<longleftrightarrow>
     (if c = 33 then (case (p, s) of (d # p', x # s') \<Rightarrow> x = d \<and> like_match p' s' | _ \<Rightarrow> False)
      else if c = 37 then like_match p s \<or> (case s of [] \<Rightarrow> False | _ # s' \<Rightarrow> like_match (c # p) s')
      else (case s of [] \<Rightarrow> False | x # s' \<Rightarrow> (c = 95 \<or> x = c) \<and> like_match p s'))"

definition ilike :: "auth_externals \<Rightarrow> ustring \<Rightarrow> ustring \<Rightarrow> bool" where
  "ilike E s pattern \<longleftrightarrow> like_match (ax_pg_lower E pattern) (ax_pg_lower E s)"

definition search_pattern :: "ustring \<Rightarrow> ustring" where
  "search_pattern q = lit ''%'' @ escape_like q @ lit ''%''"

definition clamp :: "int \<Rightarrow> int \<Rightarrow> int \<Rightarrow> int" where
  "clamp lo hi x = max lo (min hi x)"

definition search_rows :: "auth_externals \<Rightarrow> ustring option \<Rightarrow> int option \<Rightarrow> int \<Rightarrow> user_row list \<Rightarrow> user_row list" where
  "search_rows E q after_id limit table =
     take (nat (clamp 1 200 limit))
       (sort_key (\<lambda>r. - ur_id r)
         (filter (\<lambda>r.
            (case q of None \<Rightarrow> True
             | Some s \<Rightarrow> ilike E (ur_email r) (search_pattern s)
                        \<or> (case ur_display_name r of None \<Rightarrow> False | Some n \<Rightarrow> ilike E n (search_pattern s)))
            \<and> (case after_id of None \<Rightarrow> True | Some a \<Rightarrow> ur_id r < a)) table))"

definition search_user_rows ::
  "auth_externals \<Rightarrow> ustring option \<Rightarrow> int option \<Rightarrow> int \<Rightarrow> ('w auth_world_scheme, auth_error, user list) m" where
  "search_user_rows E q after_id limit =
     bindM (query auth_of_db (\<lambda>w. search_rows E q after_id limit (users w))) (load_users E)"

text \<open>\<open>coalesce(nullif(btrim(display_name), ''), email)\<close>; \<open>btrim\<close> removes spaces only.\<close>

definition btrim :: "ustring \<Rightarrow> ustring" where
  "btrim s = rev (dropWhile (\<lambda>c. c = 32) (rev (dropWhile (\<lambda>c. c = 32) s)))"

definition user_label :: "user_row \<Rightarrow> ustring" where
  "user_label r =
     (case ur_display_name r of
        None \<Rightarrow> ur_email r
      | Some n \<Rightarrow> if btrim n = [] then ur_email r else btrim n)"

definition labels_for :: "int list \<Rightarrow> ('w auth_world_scheme, auth_error, (int \<times> ustring) list) m" where
  "labels_for ids =
     (if ids = [] then retM []
      else query auth_of_db (\<lambda>w. map (\<lambda>r. (ur_id r, user_label r)) (filter (\<lambda>r. ur_id r \<in> set ids) (users w))))"

section \<open>Searching for what was typed\<close>

lemma escape_like_chars:
  "escape_like q = concat (map (\<lambda>x. if x = 33 \<or> x = 37 \<or> x = 95 then [33, x] else [x]) q)"
  by (induction q) (auto simp: escape_like_def replace_char_def lit_def)

lemma like_match_escape:
  "like_match (escape_like q @ p) s \<longleftrightarrow> (\<exists>s'. s = q @ s' \<and> like_match p s')"
proof (induction q arbitrary: s)
  case Nil
  then show ?case by (simp add: escape_like_chars)
next
  case (Cons x q)
  have e: "escape_like (x # q) = (if x = 33 \<or> x = 37 \<or> x = 95 then [33, x] else [x]) @ escape_like q"
    by (simp add: escape_like_chars)
  show ?case using Cons by (cases s) (auto simp: e)
qed

lemma like_match_percent: "like_match (37 # p) s \<longleftrightarrow> (\<exists>a s'. s = a @ s' \<and> like_match p s')"
proof (induction s)
  case Nil
  then show ?case by simp
next
  case (Cons x s)
  have "like_match (37 # p) (x # s) \<longleftrightarrow> like_match p (x # s) \<or> like_match (37 # p) s" by simp
  also have "\<dots> \<longleftrightarrow> (\<exists>a s'. x # s = a @ s' \<and> like_match p s')"
    unfolding Cons by (metis append_Cons append_Nil append_eq_Cons_conv)
  finally show ?case .
qed

lemma like_match_all: "like_match [37] s"
  by (induction s) simp_all

lemma like_search_pattern: "like_match (search_pattern q) s \<longleftrightarrow> sublist q s"
proof -
  have "like_match (search_pattern q) s \<longleftrightarrow> (\<exists>a s'. s = a @ s' \<and> like_match (escape_like q @ [37]) s')"
    using like_match_percent[of "escape_like q @ [37]" s] by (simp add: search_pattern_def lit_def)
  also have "\<dots> \<longleftrightarrow> (\<exists>a s'. s = a @ s' \<and> (\<exists>b. s' = q @ b))"
    unfolding like_match_escape using like_match_all by blast
  also have "\<dots> \<longleftrightarrow> sublist q s" by (auto simp: sublist_def)
  finally show ?thesis .
qed

text \<open>A lower-casing that works character by character and leaves the metacharacters of
  \<open>LIKE\<close> to themselves.\<close>

definition charwise_lower :: "(ustring \<Rightarrow> ustring) \<Rightarrow> (uchar \<Rightarrow> uchar) \<Rightarrow> bool" where
  "charwise_lower lower f \<longleftrightarrow>
     (\<forall>s. lower s = map f s) \<and> (\<forall>c. f c \<in> {33, 37, 95} \<longleftrightarrow> c \<in> {33, 37, 95}) \<and> f 33 = 33 \<and> f 37 = 37 \<and> f 95 = 95"

lemma map_escape_like:
  assumes "charwise_lower lower f"
  shows "map f (escape_like q) = escape_like (map f q)"
proof (induction q)
  case Nil
  then show ?case by (simp add: escape_like_chars)
next
  case (Cons x q)
  have "f x = 33 \<or> f x = 37 \<or> f x = 95 \<longleftrightarrow> x = 33 \<or> x = 37 \<or> x = 95"
    using assms unfolding charwise_lower_def by blast
  with Cons assms show ?case by (auto simp: escape_like_chars charwise_lower_def)
qed

text \<open>The user search is literal: a name or address matches a query exactly when the
  query occurs in it, upper and lower case aside; percent signs, underscores and the
  escape character itself in what was typed stand for themselves.\<close>

lemma search_is_literal:
  assumes "charwise_lower (ax_pg_lower E) f"
  shows "ilike E s (search_pattern q) \<longleftrightarrow> sublist (map f q) (map f s)"
proof -
  have "map f (search_pattern q) = search_pattern (map f q)"
    using map_escape_like[OF assms, of q] assms by (simp add: search_pattern_def charwise_lower_def lit_def)
  then show ?thesis
    using assms like_search_pattern[of "map f q" "map f s"] by (simp add: ilike_def charwise_lower_def)
qed

lemma search_is_literal_witness:
  "\<exists>E. ilike E (lit ''a_b'') (search_pattern (lit ''_'')) \<and> \<not> ilike E (lit ''axb'') (search_pattern (lit ''_''))"
proof -
  let ?E = "\<lparr>ax_lower = \<lambda>s i. [s ! i], ax_pg_lower = id, ax_sha256 = id,
      ax_b64 = \<lparr>b64_encode = map unat, b64_decode = \<lambda>s. None\<rparr>, ax_hash = \<lambda>pw salt. None, ax_verify = \<lambda>pw h. None,
      ax_oauth = \<lambda>code. Inl ProviderFailed, ax_base_url = []\<rparr>"
  have "charwise_lower (ax_pg_lower ?E) id" by (simp add: charwise_lower_def)
  note s = search_is_literal[OF this]
  show ?thesis by (rule exI[of _ ?E]) (simp add: s lit_def sublist_Cons_right)
qed

section \<open>Every method keeps the account tables well formed\<close>

lemma keeps_roles_by_sql [pres]: "keeps (wf_auth E) (roles_by_sql i)"
  unfolding roles_by_sql_def by (intro pres)

lemma keeps_load [pres]:
  "keeps (wf_auth E) (load_user E' row)" "keeps (wf_auth E) (load_users E' rows)"
  "keeps (wf_auth E) (load_optional E' r)"
  unfolding load_user_def load_users_def load_optional_def by (intro pres)+

lemma keeps_finds [pres]:
  "keeps (wf_auth E) (find_by_email E' email)" "keeps (wf_auth E) (find_by_id E' i)"
  "keeps (wf_auth E) (find_identity p s)"
  unfolding find_by_email_def find_by_id_def find_identity_def by (intro pres)+

lemma keeps_insert_user [pres]: "keeps (wf_auth E) (insert_user E new)"
  unfolding insert_user_def
  by (rule keeps_sql[OF table_inv_wf_auth])
    (auto simp: wf_auth_def wf_users_def user_exists_def unique_emails_def Let_def)

lemma keeps_insert_identity [pres]: "keeps (wf_auth E) (insert_identity i p s h)"
  unfolding insert_identity_def
  by (rule keeps_sql[OF table_inv_wf_auth])
    (auto simp: wf_auth_def wf_users_def user_exists_def unique_identities_def Let_def)

lemma keeps_insert_role [pres]: "keeps (wf_auth E) (insert_role i code gb)"
  unfolding insert_role_def
  by (rule keeps_sql[OF table_inv_wf_auth])
    (auto simp: wf_auth_def wf_users_def user_exists_def Let_def)

lemma keeps_create_account [pres]: "keeps (wf_auth E) (create_account E new)"
  unfolding create_account_def by (intro pres)

lemma keeps_update_user:
  assumes id: "\<And>r. ur_id (f r) = ur_id r"
  shows "keeps (wf_auth E) (update_user E i f)"
  unfolding update_user_def
  by (rule keeps_sql[OF table_inv_wf_auth])
    (auto simp: wf_auth_def wf_users_def user_exists_def unique_emails_def Let_def bex_update_where
      ball_update_where distinct_update_where if_distrib[of ur_id] id cong: if_cong)

lemma keeps_user_updates [pres]:
  "keeps (wf_auth E) (set_state E i st)" "keeps (wf_auth E) (mark_email_verified E i t)"
  "keeps (wf_auth E) (set_locale_row E i l)"
  unfolding set_state_def mark_email_verified_def set_locale_row_def by (rule keeps_update_user; simp)+

lemma keeps_update_password_identity:
  assumes "\<And>r. ir_user (f r) = ir_user r"
  shows "keeps (wf_auth E) (update_password_identity i f)"
  unfolding update_password_identity_def
  by (rule keeps_sql[OF table_inv_wf_auth])
    (auto simp: wf_auth_def wf_users_def user_exists_def unique_identities_def Let_def ball_update_where assms)

lemma keeps_set_password [pres]: "keeps (wf_auth E) (set_password i h)"
  unfolding set_password_def by (rule keeps_update_password_identity) simp

lemma keeps_email_updates [pres]:
  "keeps (wf_auth E) (update_canonical_email E i email)" "keeps (wf_auth E) (confirm_email E i t email)"
  unfolding update_canonical_email_def confirm_email_def
  by (intro pres keeps_update_user keeps_update_password_identity; simp)+

lemma keeps_link_identity [pres]: "keeps (wf_auth E) (link_identity i p s h)"
  unfolding link_identity_def
  by (rule keeps_sql[OF table_inv_wf_auth])
    (auto simp: wf_auth_def wf_users_def user_exists_def Let_def split: if_splits)

lemma keeps_grant_role_row [pres]: "keeps (wf_auth E) (grant_role_row i r granted_by)"
  unfolding grant_role_row_def
  by (rule keeps_sql[OF table_inv_wf_auth])
    (auto simp: wf_auth_def wf_users_def user_exists_def Let_def split: if_splits)

lemma keeps_revoke_role_guarded [pres]: "keeps (wf_auth E) (revoke_role_guarded i r)"
  unfolding revoke_role_guarded_def
  by (intro pres keeps_sql[OF table_inv_wf_auth])
    (auto simp: wf_auth_def wf_users_def user_exists_def Let_def distinct_map_filter)

end
