(* ===== verification/Session_Store.thy ===== *)
theory Session_Store
  imports Account_Store
begin

text \<open>
  Server-side sessions (\<open>infrastructure/src/auth/session_store.rs\<close>) and single-use
  tokens (\<open>infrastructure/src/auth/token_store.rs\<close>).

  Consuming a token is one \<open>UPDATE ... WHERE used_at IS NULL AND expires_at > now
  RETURNING\<close>.  What the service relies on is the locale \<open>single_use\<close>: a consumption
  succeeds exactly on a valid token, invalidates it for ever and touches no other;
  that a token is honoured at most once in any sequence of attempts is proved there.
  Both token tables interpret it.
\<close>

section \<open>Sessions\<close>

definition inactive_idle :: int where "inactive_idle = days 30"
definition absolute_cap :: int where "absolute_cap = days 90"
definition last_seen_refresh :: int where "last_seen_refresh = minutes 5"

record session =
  s_user :: int
  s_csrf :: "byte list"
  s_created_at :: int
  s_last_seen_at :: int
  s_expires_at :: int
  s_revoked_at :: "int option"

definition session_create ::
  "auth_externals \<Rightarrow> int \<Rightarrow> byte list \<Rightarrow> byte list \<Rightarrow> int \<Rightarrow> ('w auth_world_scheme, auth_error, unit) m" where
  "session_create E i raw csrf t =
     sql auth_of_db (\<lambda>w.
       let row = \<lparr>sr_hash = sha256_hex E raw, sr_user = i, sr_csrf = b64_encode (ax_b64 E) csrf,
                  sr_created_at = now w, sr_last_seen_at = now w, sr_expires_at = t + absolute_cap,
                  sr_revoked_at = None\<rparr>;
           tbl = sessions w @ [row]
       in check_user ''sessions_user_id_fkey'' w i
            (check_unique ''sessions_pkey'' (distinct (map sr_hash tbl)) ((), w\<lparr>sessions := tbl\<rparr>)))"

text \<open>The rows whose \<open>last_seen_at\<close> the resolving statement moves forward.\<close>

definition slides :: "ustring \<Rightarrow> int \<Rightarrow> session_row \<Rightarrow> bool" where
  "slides h t r \<longleftrightarrow> sr_hash r = h \<and> sr_revoked_at r = None \<and> t \<le> sr_expires_at r
     \<and> t - inactive_idle < sr_last_seen_at r \<and> sr_last_seen_at r < t - last_seen_refresh"

text \<open>One statement reads the row as it was and slides it; the verdict is taken afterwards.\<close>

definition session_verdict :: "auth_externals \<Rightarrow> int \<Rightarrow> session_row option \<Rightarrow> auth_error + session option" where
  "session_verdict E t row =
     (case row of
        None \<Rightarrow> Inr None
      | Some r \<Rightarrow>
          if sr_revoked_at r \<noteq> None then Inr None
          else if sr_expires_at r < t then Inr None
          else if inactive_idle < t - sr_last_seen_at r then Inr None
          else (case token_from_base64url (ax_b64 E) (sr_csrf r) of
                  None \<Rightarrow> Inl AuthInternal
                | Some csrf \<Rightarrow>
                    Inr (Some \<lparr>s_user = sr_user r, s_csrf = csrf, s_created_at = sr_created_at r,
                               s_last_seen_at = sr_last_seen_at r, s_expires_at = sr_expires_at r,
                               s_revoked_at = sr_revoked_at r\<rparr>)))"

definition session_resolve ::
  "auth_externals \<Rightarrow> byte list \<Rightarrow> int \<Rightarrow> ('w auth_world_scheme, auth_error, session option) m" where
  "session_resolve E raw t =
     bindM (sql auth_of_db (\<lambda>w.
              let h = sha256_hex E raw in
              Inr (select_one (\<lambda>r. sr_hash r = h) (sessions w),
                   w\<lparr>sessions := update_where (slides h t) (\<lambda>r. r\<lparr>sr_last_seen_at := t\<rparr>) (sessions w)\<rparr>)))
           (\<lambda>row. liftR (session_verdict E t row))"

definition revoke_where :: "(session_row \<Rightarrow> bool) \<Rightarrow> ('w auth_world_scheme, auth_error, unit) m" where
  "revoke_where P =
     command auth_of_db (\<lambda>w. w\<lparr>sessions :=
       update_where (\<lambda>r. P r \<and> sr_revoked_at r = None) (\<lambda>r. r\<lparr>sr_revoked_at := Some (now w)\<rparr>) (sessions w)\<rparr>)"

definition session_revoke :: "auth_externals \<Rightarrow> byte list \<Rightarrow> ('w auth_world_scheme, auth_error, unit) m" where
  "session_revoke E raw = revoke_where (\<lambda>r. sr_hash r = sha256_hex E raw)"

definition revoke_all_for_user_except ::
  "auth_externals \<Rightarrow> int \<Rightarrow> byte list \<Rightarrow> ('w auth_world_scheme, auth_error, unit) m" where
  "revoke_all_for_user_except E i keep = revoke_where (\<lambda>r. sr_user r = i \<and> sr_hash r \<noteq> sha256_hex E keep)"

definition revoke_all_for_user :: "int \<Rightarrow> ('w auth_world_scheme, auth_error, unit) m" where
  "revoke_all_for_user i = revoke_where (\<lambda>r. sr_user r = i)"

section \<open>Tokens\<close>

definition verification_ttl :: int where "verification_ttl = hours 24"
definition reset_ttl :: int where "reset_ttl = hours 1"

definition issue_verification ::
  "auth_externals \<Rightarrow> int \<Rightarrow> ustring \<Rightarrow> byte list \<Rightarrow> int \<Rightarrow> ('w auth_world_scheme, auth_error, unit) m" where
  "issue_verification E i email raw t =
     sql auth_of_db (\<lambda>w.
       let tbl = verif_tokens w @ [\<lparr>vr_hash = sha256_hex E raw, vr_user = i, vr_email = email,
                                   vr_expires_at = t + verification_ttl, vr_used_at = None\<rparr>]
       in check_user ''email_verification_tokens_user_id_fkey'' w i
            (check_unique ''email_verification_tokens_pkey'' (distinct (map vr_hash tbl))
              ((), w\<lparr>verif_tokens := tbl\<rparr>)))"

definition verif_valid :: "verification_row list \<Rightarrow> ustring \<Rightarrow> int \<Rightarrow> bool" where
  "verif_valid tbl h t \<longleftrightarrow> (\<exists>r \<in> set tbl. vr_hash r = h \<and> vr_used_at r = None \<and> t < vr_expires_at r)"

definition consume_verif_table ::
  "ustring \<Rightarrow> int \<Rightarrow> verification_row list \<Rightarrow> (int \<times> ustring) option \<times> verification_row list" where
  "consume_verif_table h t tbl =
     (let P = (\<lambda>r. vr_hash r = h \<and> vr_used_at r = None \<and> t < vr_expires_at r)
      in (map_option (\<lambda>r. (vr_user r, vr_email r)) (select_one P tbl),
          update_where P (\<lambda>r. r\<lparr>vr_used_at := Some t\<rparr>) tbl))"

definition consume_verification ::
  "auth_externals \<Rightarrow> byte list \<Rightarrow> int \<Rightarrow> ('w auth_world_scheme, auth_error, (int \<times> ustring) option) m" where
  "consume_verification E raw t =
     sql auth_of_db (\<lambda>w.
       let (res, tbl) = consume_verif_table (sha256_hex E raw) t (verif_tokens w)
       in Inr (res, w\<lparr>verif_tokens := tbl\<rparr>))"

definition issue_reset :: "auth_externals \<Rightarrow> int \<Rightarrow> byte list \<Rightarrow> int \<Rightarrow> ('w auth_world_scheme, auth_error, unit) m" where
  "issue_reset E i raw t =
     sql auth_of_db (\<lambda>w.
       let tbl = reset_tokens w @ [\<lparr>rr_hash = sha256_hex E raw, rr_user = i,
                                   rr_expires_at = t + reset_ttl, rr_used_at = None\<rparr>]
       in check_user ''password_reset_tokens_user_id_fkey'' w i
            (check_unique ''password_reset_tokens_pkey'' (distinct (map rr_hash tbl))
              ((), w\<lparr>reset_tokens := tbl\<rparr>)))"

definition reset_valid :: "reset_row list \<Rightarrow> ustring \<Rightarrow> int \<Rightarrow> bool" where
  "reset_valid tbl h t \<longleftrightarrow> (\<exists>r \<in> set tbl. rr_hash r = h \<and> rr_used_at r = None \<and> t < rr_expires_at r)"

definition consume_reset_table :: "ustring \<Rightarrow> int \<Rightarrow> reset_row list \<Rightarrow> int option \<times> reset_row list" where
  "consume_reset_table h t tbl =
     (let P = (\<lambda>r. rr_hash r = h \<and> rr_used_at r = None \<and> t < rr_expires_at r)
      in (map_option rr_user (select_one P tbl), update_where P (\<lambda>r. r\<lparr>rr_used_at := Some t\<rparr>) tbl))"

definition consume_reset :: "auth_externals \<Rightarrow> byte list \<Rightarrow> int \<Rightarrow> ('w auth_world_scheme, auth_error, int option) m" where
  "consume_reset E raw t =
     sql auth_of_db (\<lambda>w.
       let (res, tbl) = consume_reset_table (sha256_hex E raw) t (reset_tokens w)
       in Inr (res, w\<lparr>reset_tokens := tbl\<rparr>))"

section \<open>The promise of a single-use store\<close>

fun consume_all :: "(ustring \<Rightarrow> int \<Rightarrow> 't \<Rightarrow> 'a option \<times> 't) \<Rightarrow> (ustring \<times> int) list \<Rightarrow> 't \<Rightarrow> 'a option list \<times> 't" where
  "consume_all c [] tbl = ([], tbl)"
| "consume_all c ((h, t) # reqs) tbl =
     (let (r, tbl1) = c h t tbl; (rs, tbl2) = consume_all c reqs tbl1 in (r # rs, tbl2))"

text \<open>The attempts on \<open>h\<close> that were honoured.\<close>

definition honoured :: "ustring \<Rightarrow> (ustring \<times> int) list \<Rightarrow> 'a option list \<Rightarrow> nat" where
  "honoured h reqs rs = length (filter (\<lambda>((h', t), r). h' = h \<and> r \<noteq> None) (zip reqs rs))"

locale single_use =
  fixes consume :: "ustring \<Rightarrow> int \<Rightarrow> 't \<Rightarrow> 'a option \<times> 't"
    and valid :: "'t \<Rightarrow> ustring \<Rightarrow> int \<Rightarrow> bool"
    and wf :: "'t \<Rightarrow> bool"
  assumes honours_valid: "fst (consume h t tbl) \<noteq> None \<longleftrightarrow> valid tbl h t"
    and keeps_wf: "wf tbl \<Longrightarrow> wf (snd (consume h t tbl))"
    and spends: "wf tbl \<Longrightarrow> fst (consume h t tbl) \<noteq> None \<Longrightarrow> \<not> valid (snd (consume h t tbl)) h t'"
    and no_revival: "valid (snd (consume h t tbl)) h' t' \<Longrightarrow> valid tbl h' t'"
    and keeps_others: "h' \<noteq> h \<Longrightarrow> valid (snd (consume h t tbl)) h' t' = valid tbl h' t'"
begin

lemma never_valid_again:
  assumes "\<And>t. \<not> valid tbl h t"
  shows "honoured h reqs (fst (consume_all consume reqs tbl)) = 0"
  using assms
proof (induction reqs arbitrary: tbl)
  case (Cons q reqs)
  obtain h' t where q: "q = (h', t)" by (cases q)
  have "\<not> valid (snd (consume h' t tbl)) h t'" for t' using no_revival Cons.prems by blast
  from Cons.IH[OF this] show ?case
    using honours_valid[of h' t tbl] Cons.prems q
    by (auto simp: honoured_def split_beta Let_def)
qed (simp add: honoured_def)

lemma at_most_once: "wf tbl \<Longrightarrow> honoured h reqs (fst (consume_all consume reqs tbl)) \<le> 1"
proof (induction reqs arbitrary: tbl)
  case (Cons q reqs)
  obtain h' t where q: "q = (h', t)" by (cases q)
  show ?case
  proof (cases "h' = h \<and> fst (consume h' t tbl) \<noteq> None")
    case True
    then have "\<not> valid (snd (consume h t tbl)) h t'" for t' using spends Cons.prems by blast
    from never_valid_again[OF this] True show ?thesis
      by (simp add: q honoured_def split_beta Let_def)
  next
    case False
    then show ?thesis using Cons.IH[OF keeps_wf[OF Cons.prems, of h' t]]
      by (auto simp: q honoured_def split_beta Let_def)
  qed
qed (simp add: honoured_def)

text \<open>An attempt by somebody else's token does not burn mine.\<close>

lemma others_do_not_spend:
  assumes "\<forall>(h', t') \<in> set reqs. h' \<noteq> h"
  shows "valid (snd (consume_all consume reqs tbl)) h t = valid tbl h t"
  using assms by (induction reqs arbitrary: tbl) (auto simp: split_beta Let_def keeps_others)

end

lemma unique_row:
  "distinct (map g tbl) \<Longrightarrow> r \<in> set tbl \<Longrightarrow> r' \<in> set tbl \<Longrightarrow> g r = g r' \<Longrightarrow> r = r'"
  by (meson distinct_map inj_onD)

interpretation verif: single_use consume_verif_table verif_valid "\<lambda>tbl. distinct (map vr_hash tbl)"
proof
  fix h h' t t' tbl
  show honours: "(fst (consume_verif_table h t tbl) \<noteq> None) = verif_valid tbl h t"
    by (auto simp: consume_verif_table_def verif_valid_def Let_def select_one_None_iff)
  show "distinct (map vr_hash tbl) \<Longrightarrow> distinct (map vr_hash (snd (consume_verif_table h t tbl)))"
    by (simp add: consume_verif_table_def Let_def distinct_update_where)
  show "verif_valid (snd (consume_verif_table h t tbl)) h' t' \<Longrightarrow> verif_valid tbl h' t'"
    unfolding consume_verif_table_def verif_valid_def Let_def snd_conv bex_update_where by (auto split: if_splits)
  show "h' \<noteq> h \<Longrightarrow> verif_valid (snd (consume_verif_table h t tbl)) h' t' = verif_valid tbl h' t'"
    unfolding consume_verif_table_def verif_valid_def Let_def snd_conv bex_update_where by (rule bex_cong) auto
  assume d: "distinct (map vr_hash tbl)" and "fst (consume_verif_table h t tbl) \<noteq> None"
  then obtain r where r: "r \<in> set tbl" "vr_hash r = h" "vr_used_at r = None" "t < vr_expires_at r"
    using honours by (auto simp: verif_valid_def)
  show "\<not> verif_valid (snd (consume_verif_table h t tbl)) h t'"
  proof
    assume "verif_valid (snd (consume_verif_table h t tbl)) h t'"
    then obtain q where q: "q \<in> set tbl" "vr_hash q = h"
      "vr_used_at (if vr_hash q = h \<and> vr_used_at q = None \<and> t < vr_expires_at q then q\<lparr>vr_used_at := Some t\<rparr> else q) = None"
      unfolding consume_verif_table_def verif_valid_def Let_def snd_conv bex_update_where by (auto split: if_splits)
    have "q = r" using unique_row[OF d q(1) r(1)] q(2) r(2) by simp
    with q(3) r show False by simp
  qed
qed

interpretation resets: single_use consume_reset_table reset_valid "\<lambda>tbl. distinct (map rr_hash tbl)"
proof
  fix h h' t t' tbl
  show honours: "(fst (consume_reset_table h t tbl) \<noteq> None) = reset_valid tbl h t"
    by (auto simp: consume_reset_table_def reset_valid_def Let_def select_one_None_iff)
  show "distinct (map rr_hash tbl) \<Longrightarrow> distinct (map rr_hash (snd (consume_reset_table h t tbl)))"
    by (simp add: consume_reset_table_def Let_def distinct_update_where)
  show "reset_valid (snd (consume_reset_table h t tbl)) h' t' \<Longrightarrow> reset_valid tbl h' t'"
    unfolding consume_reset_table_def reset_valid_def Let_def snd_conv bex_update_where by (auto split: if_splits)
  show "h' \<noteq> h \<Longrightarrow> reset_valid (snd (consume_reset_table h t tbl)) h' t' = reset_valid tbl h' t'"
    unfolding consume_reset_table_def reset_valid_def Let_def snd_conv bex_update_where by (rule bex_cong) auto
  assume d: "distinct (map rr_hash tbl)" and "fst (consume_reset_table h t tbl) \<noteq> None"
  then obtain r where r: "r \<in> set tbl" "rr_hash r = h" "rr_used_at r = None" "t < rr_expires_at r"
    using honours by (auto simp: reset_valid_def)
  show "\<not> reset_valid (snd (consume_reset_table h t tbl)) h t'"
  proof
    assume "reset_valid (snd (consume_reset_table h t tbl)) h t'"
    then obtain q where q: "q \<in> set tbl" "rr_hash q = h"
      "rr_used_at (if rr_hash q = h \<and> rr_used_at q = None \<and> t < rr_expires_at q then q\<lparr>rr_used_at := Some t\<rparr> else q) = None"
      unfolding consume_reset_table_def reset_valid_def Let_def snd_conv bex_update_where by (auto split: if_splits)
    have "q = r" using unique_row[OF d q(1) r(1)] q(2) r(2) by simp
    with q(3) r show False by simp
  qed
qed

section \<open>Every statement keeps the account tables well formed\<close>

text \<open>Each statement is judged by the tables it replaces.\<close>

lemmas wf_auth_simps = wf_auth_def wf_users_def user_exists_def

lemma keeps_session_create [pres]: "keeps (wf_auth E) (session_create E i raw csrf t)"
  unfolding session_create_def
  by (rule keeps_sql[OF table_inv_wf_auth]) (auto simp: wf_auth_simps Let_def)

lemma keeps_session_resolve [pres]: "keeps (wf_auth E) (session_resolve E raw t)"
  unfolding session_resolve_def
  by (intro pres keeps_sql[OF table_inv_wf_auth])
    (auto simp: wf_auth_simps Let_def distinct_update_where ball_update_where)

lemma keeps_revoke_where [pres]: "keeps (wf_auth E) (revoke_where P)"
  unfolding revoke_where_def
  by (rule keeps_command[OF table_inv_wf_auth])
    (auto simp: wf_auth_simps distinct_update_where ball_update_where)

lemma keeps_revokes [pres]:
  "keeps (wf_auth E) (session_revoke E' raw)" "keeps (wf_auth E) (revoke_all_for_user_except E' i keep)"
  "keeps (wf_auth E) (revoke_all_for_user i)"
  unfolding session_revoke_def revoke_all_for_user_except_def revoke_all_for_user_def by (intro pres)+

lemma keeps_issue [pres]:
  "keeps (wf_auth E) (issue_verification E' i email raw t)" "keeps (wf_auth E) (issue_reset E' i raw t)"
  unfolding issue_verification_def issue_reset_def
  by (rule keeps_sql[OF table_inv_wf_auth]; auto simp: wf_auth_simps Let_def)+

lemma keeps_consume_verification [pres]: "keeps (wf_auth E) (consume_verification E' raw t)"
  unfolding consume_verification_def
  by (rule keeps_sql[OF table_inv_wf_auth])
    (auto simp: wf_auth_simps Let_def consume_verif_table_def distinct_update_where ball_update_where)

lemma keeps_consume_reset [pres]: "keeps (wf_auth E) (consume_reset E' raw t)"
  unfolding consume_reset_def
  by (rule keeps_sql[OF table_inv_wf_auth])
    (auto simp: wf_auth_simps Let_def consume_reset_table_def distinct_update_where ball_update_where)

end
