(* ===== verification/Email_Queue.thy ===== *)
theory Email_Queue
  imports Session_Store Job_Worker
begin

text \<open>
  Transactional mail: the messages (\<open>application/src/email.rs\<close>), the durable queue that
  turns a message into one \<open>email.send\<close> job (\<open>infrastructure/src/email/queue.rs\<close>) and
  the job handler that decodes the payload and calls the provider
  (\<open>infrastructure/src/job/email.rs\<close>).  The provider is outside the repository.
\<close>

datatype email_kind =
    VerifyEmail ustring
  | ResetPassword ustring
  | ConfirmEmailChange ustring

definition email_kind_code :: "email_kind \<Rightarrow> ustring" where
  "email_kind_code k =
     (case k of VerifyEmail _ \<Rightarrow> lit ''verify'' | ResetPassword _ \<Rightarrow> lit ''reset''
      | ConfirmEmailChange _ \<Rightarrow> lit ''change'')"

definition email_link :: "email_kind \<Rightarrow> ustring" where
  "email_link k = (case k of VerifyEmail l \<Rightarrow> l | ResetPassword l \<Rightarrow> l | ConfirmEmailChange l \<Rightarrow> l)"

record email_message =
  em_to :: ustring
  em_locale :: locale_code
  em_kind :: email_kind

text \<open>\<open>rsplit_once('@')\<close>: what follows the last at-sign.\<close>

definition recipient_domain :: "email_message \<Rightarrow> ustring" where
  "recipient_domain m =
     (if 64 \<in> set (em_to m) then rev (takeWhile (\<lambda>c. c \<noteq> 64) (rev (em_to m))) else lit ''unknown'')"

section \<open>The payload\<close>

text \<open>The derived serialization: the tag \<open>kind\<close> in snake case and its link, flattened into
  the message's object.\<close>

definition email_tag :: "email_kind \<Rightarrow> ustring" where
  "email_tag k =
     (case k of VerifyEmail _ \<Rightarrow> lit ''verify_email'' | ResetPassword _ \<Rightarrow> lit ''reset_password''
      | ConfirmEmailChange _ \<Rightarrow> lit ''confirm_email_change'')"

definition email_to_json :: "email_message \<Rightarrow> json" where
  "email_to_json m =
     JObject [(lit ''to'', JString (em_to m)), (lit ''locale'', JString (locale_as_str (em_locale m))),
              (lit ''kind'', JString (email_tag (em_kind m))), (lit ''link'', JString (email_link (em_kind m)))]"

definition email_from_json :: "json \<Rightarrow> email_message option" where
  "email_from_json j =
     (case (Option.bind (jget (lit ''to'') j) as_str,
            Option.bind (Option.bind (jget (lit ''locale'') j) as_str) parse_locale,
            Option.bind (jget (lit ''kind'') j) as_str, Option.bind (jget (lit ''link'') j) as_str) of
        (Some to, Some loc, Some tag, Some link) \<Rightarrow>
          map_option (\<lambda>k. \<lparr>em_to = to, em_locale = loc, em_kind = k\<rparr>)
            (if tag = lit ''verify_email'' then Some (VerifyEmail link)
             else if tag = lit ''reset_password'' then Some (ResetPassword link)
             else if tag = lit ''confirm_email_change'' then Some (ConfirmEmailChange link)
             else None)
      | _ \<Rightarrow> None)"

section \<open>Queue and handler\<close>

text \<open>\<open>str::as_bytes\<close>: the UTF-8 encoding of each scalar value.\<close>

definition utf8_char :: "uchar \<Rightarrow> byte list" where
  "utf8_char c = map of_nat
     (if c < 128 then [c]
      else if c < 2048 then [192 + c div 64, 128 + c mod 64]
      else if c < 65536 then [224 + c div 4096, 128 + c div 64 mod 64, 128 + c mod 64]
      else [240 + c div 262144, 128 + c div 4096 mod 64, 128 + c div 64 mod 64, 128 + c mod 64])"

definition as_bytes :: "ustring \<Rightarrow> byte list" where
  "as_bytes s = concat (map utf8_char s)"

definition idempotency_key :: "auth_externals \<Rightarrow> email_message \<Rightarrow> ustring" where
  "idempotency_key E m =
     lit ''email:'' @ email_kind_code (em_kind m) @ lit '':'' @ sha256_hex E (as_bytes (email_link (em_kind m)))"

definition email_enqueue ::
  "auth_externals \<Rightarrow> int \<Rightarrow> email_message \<Rightarrow> ('w auth_world_scheme, email_error, unit) m" where
  "email_enqueue E max_attempts m =
     bindM (getM now) (\<lambda>t.
     bindM (mapErrM (\<lambda>_. EmailUnavailable)
              (enqueue job_email_send (email_to_json m) t (Some max_attempts) (Some (idempotency_key E m))))
       (\<lambda>_. retM ()))"

text \<open>\<open>SendEmailHandler\<close>: \<open>send\<close> is the provider, \<open>show_error\<close> the text of its error and
  \<open>decode_error\<close> serde's message for a payload it cannot read.  The dead letter is only logged.\<close>

definition send_email_handler ::
  "(email_message \<Rightarrow> ('w, email_error, unit) m) \<Rightarrow> (email_error \<Rightarrow> ustring) \<Rightarrow> (json \<Rightarrow> ustring) \<Rightarrow> 'w job_handler" where
  "send_email_handler send show_error decode_error =
     \<lparr>h_kind = job_email_send,
      h_run = (\<lambda>payload.
        case email_from_json payload of
          None \<Rightarrow> throwM (JobPermanent (lit ''unreadable email.send payload: '' @ decode_error payload))
        | Some m \<Rightarrow>
            mapErrM (\<lambda>e. JobFailed (lit ''sending '' @ email_kind_code (em_kind m) @ lit '' to ''
                                     @ recipient_domain m @ lit '' failed: '' @ show_error e)) (send m)),
      h_dead_letter = (\<lambda>_ _ w. w)\<rparr>"

lemma utf8_char_len [simp]: "length (utf8_char c) = utf8_len c"
  by (simp add: utf8_char_def utf8_len_def)

lemma as_bytes_len: "length (as_bytes s) = str_len s"
  by (induction s) (simp_all add: as_bytes_def)

lemma parse_locale_as_str [simp]: "parse_locale (locale_as_str l) = Some l"
  by (cases l) (simp_all add: parse_locale_def locale_as_str_def lit_def trim_def trim_start_def trim_end_def
      is_whitespace_def to_ascii_lowercase_def to_ascii_lower_char_def Let_def)

lemma email_json_roundtrip: "email_from_json (email_to_json m) = Some m"
  by (cases "em_kind m")
    (simp_all add: email_from_json_def email_to_json_def jget_def as_str_def email_tag_def email_link_def)

lemma keeps_enqueue_auth [pres]: "keeps (wf_auth E) (enqueue kind p t ma key)"
  unfolding enqueue_def
  by (rule keeps_sql[OF table_inv_wf_auth]) (auto simp: wf_auth_simps split: if_splits)

lemma keeps_email_enqueue [pres]: "keeps (wf_auth E) (email_enqueue E' ma m)"
  unfolding email_enqueue_def by (intro pres)

text \<open>A message is mailed once: what is queued decodes to the message that was sent, and
  queueing the same link again, as a double submission does, after the first attempt
  returned and whatever faults occur, succeeds or fails without adding a job.\<close>

lemma email_queued_once:
  assumes "email_enqueue E ma m w = (Inr (), w')"
  shows "email_from_json (email_to_json m) = Some m
    \<and> jobs (snd (email_enqueue E ma' m w')) = jobs w'
    \<and> (\<exists>r \<in> set (jobs w'). j_key r = Some (idempotency_key E m))"
proof -
  have k: "key_taken (Some (idempotency_key E m)) (jobs w')"
    using assms unfolding email_enqueue_def enqueue_def
    by (auto simp: key_taken_def new_job_row_def split: if_splits elim!: InrEs sql_InrE) blast
  have "jobs (snd (email_enqueue E ma' m w')) = jobs w'"
    using k unfolding email_enqueue_def enqueue_def
    by (auto simp: getM_exec bindM_exec mapErrM_exec retM_exec sql_def run_stmt_def split: list.split option.split)
  with k email_json_roundtrip show ?thesis by (auto simp: key_taken_def)
qed

end
