(* ===== verification/Auth_Service.thy ===== *)
theory Auth_Service
  imports Email_Queue
begin

text \<open>
  The authentication service (\<open>application/src/auth.rs\<close>), one definition per use case,
  composed from the repositories in the order of the code.  Every early return, every
  audited failure and every error of a port is a branch.  The limiter is the in-memory
  one and the mail queue the durable one, as the default configuration wires them.
\<close>

section \<open>Read models\<close>

record authenticated_user =
  au_id :: int
  au_email :: ustring
  au_display_name :: "ustring option"
  au_state :: account_state
  au_verified :: bool
  au_roles :: "role list"

definition from_user :: "user \<Rightarrow> authenticated_user" where
  "from_user u =
     \<lparr>au_id = u_id u, au_email = u_email u, au_display_name = u_display_name u, au_state = u_state u,
      au_verified = is_verified u, au_roles = u_roles u\<rparr>"

definition actor_has_role :: "authenticated_user \<Rightarrow> role \<Rightarrow> bool" where
  "actor_has_role a r \<longleftrightarrow> r \<in> set (au_roles a)"

record resolved_session =
  rs_user :: authenticated_user
  rs_csrf :: "byte list"

record login_outcome =
  lo_session :: "byte list"
  lo_csrf :: "byte list"
  lo_user :: authenticated_user

section \<open>Helpers of the service\<close>

definition dummy_hash :: ustring where
  "dummy_hash = lit ''$argon2id$v=19$m=19456,t=2,p=1$AAAAAAAAAAAAAAAAAAAAAA$AAAAAAAAAAAAAAAAAAAAAAAAAAAAAAAAAAAAAAAAAAA''"

definition register_ip_limit :: nat where "register_ip_limit = 3"
definition login_limit :: nat where "login_limit = 5"
definition login_ip_limit :: nat where "login_ip_limit = 10"
definition reset_ip_limit :: nat where "reset_ip_limit = 3"
definition reset_email_limit :: nat where "reset_email_limit = 3"
definition verify_resend_user_limit :: nat where "verify_resend_user_limit = 3"
definition verify_resend_ip_limit :: nat where "verify_resend_ip_limit = 5"

text \<open>Delivery attempts of a queued mail: the default of \<open>JobsConfig::max_attempts\<close>, which the
  wiring hands to the queue.\<close>

definition mail_max_attempts :: int where "mail_max_attempts = 5"

definition trim_end_slashes :: "ustring \<Rightarrow> ustring" where
  "trim_end_slashes s = rev (dropWhile (\<lambda>c. c = 47) (rev s))"

definition verification_link :: "auth_externals \<Rightarrow> byte list \<Rightarrow> ustring" where
  "verification_link E tok =
     trim_end_slashes (ax_base_url E) @ lit ''/verify-email?token='' @ b64_encode (ax_b64 E) tok"

definition reset_link :: "auth_externals \<Rightarrow> byte list \<Rightarrow> ustring" where
  "reset_link E tok =
     trim_end_slashes (ax_base_url E) @ lit ''/password-reset/new?token='' @ b64_encode (ax_b64 E) tok"

definition verification_email :: "auth_externals \<Rightarrow> ustring \<Rightarrow> locale_code \<Rightarrow> byte list \<Rightarrow> email_message" where
  "verification_email E to loc tok = \<lparr>em_to = to, em_locale = loc, em_kind = VerifyEmail (verification_link E tok)\<rparr>"

definition change_email_message :: "auth_externals \<Rightarrow> ustring \<Rightarrow> locale_code \<Rightarrow> byte list \<Rightarrow> email_message" where
  "change_email_message E to loc tok =
     \<lparr>em_to = to, em_locale = loc, em_kind = ConfirmEmailChange (verification_link E tok)\<rparr>"

definition reset_email :: "auth_externals \<Rightarrow> ustring \<Rightarrow> locale_code \<Rightarrow> byte list \<Rightarrow> email_message" where
  "reset_email E to loc tok = \<lparr>em_to = to, em_locale = loc, em_kind = ResetPassword (reset_link E tok)\<rparr>"

definition allowed :: "ustring \<Rightarrow> nat \<Rightarrow> int \<Rightarrow> ('w auth_world_scheme, auth_error, unit) m" where
  "allowed key limit window =
     bindM (\<lambda>w. let (b, l) = mem_check key limit window (now w) (limiter w) in (Inr b, w\<lparr>limiter := l\<rparr>))
       (\<lambda>b. requireM b RateLimited)"

definition hash_password :: "auth_externals \<Rightarrow> ustring \<Rightarrow> ('w auth_world_scheme, auth_error, ustring) m" where
  "hash_password E pw = bindM random_bytes (\<lambda>salt. okOrM AuthInternal (ax_hash E pw salt))"

definition verify_password :: "auth_externals \<Rightarrow> ustring \<Rightarrow> ustring \<Rightarrow> ('w auth_world_scheme, auth_error, bool) m" where
  "verify_password E pw hash = okOrM AuthInternal (ax_verify E pw hash)"

definition validate_policy :: "ustring \<Rightarrow> ('w auth_world_scheme, auth_error, unit) m" where
  "validate_policy pw = mapErrM auth_of_domain (liftR (validate_password pw))"

definition audit :: "audit_event \<Rightarrow> ('w auth_world_scheme, auth_error, unit) m" where
  "audit ev = mapErrM auth_of_audit (audit_record ev)"

definition send_mail :: "auth_externals \<Rightarrow> email_message \<Rightarrow> ('w auth_world_scheme, auth_error, unit) m" where
  "send_mail E m = mapErrM auth_of_email (email_enqueue E mail_max_attempts m)"

definition user_event :: "int option \<Rightarrow> string \<Rightarrow> int \<Rightarrow> audit_event" where
  "user_event actor action target = audit_success actor action ''user'' (show_int target)"

definition decode_token :: "auth_externals \<Rightarrow> ustring \<Rightarrow> byte list option" where
  "decode_token E raw = token_from_base64url (ax_b64 E) raw"

definition zero_session :: "byte list" where
  "zero_session = replicate 32 0"

section \<open>Register, verify, resend\<close>

definition register ::
  "auth_externals \<Rightarrow> ustring \<Rightarrow> ustring \<Rightarrow> ustring option \<Rightarrow> ustring \<Rightarrow> locale_code
    \<Rightarrow> ('w auth_world_scheme, auth_error, unit) m" where
  "register E ip raw_email display_name raw_password loc =
     thenM (allowed (lit ''register:ip:'' @ ip) register_ip_limit (hours 1)) (
     bindM (mapErrM (\<lambda>_. AuthInvalidEmail) (liftR (parse_email (ax_lower E) raw_email))) (\<lambda>email.
     thenM (validate_policy raw_password) (
     bindM (getM now) (\<lambda>t.
     bindM (find_by_email E email) (\<lambda>existing.
       case existing of
         Some _ \<Rightarrow> thenM (verify_password E raw_password dummy_hash) (retM ())
       | None \<Rightarrow>
           bindM (hash_password E raw_password) (\<lambda>hash.
           bindM (create_account E \<lparr>na_email = email, na_display_name = display_name, na_password_hash = hash,
                                   na_state = PendingEmailVerification, na_locale = loc\<rparr>) (\<lambda>i.
           bindM random_bytes (\<lambda>tok.
           thenM (issue_verification E i email tok t) (
           thenM (send_mail E (verification_email E email loc tok))
                 (audit (user_event (Some i) ''auth.register'' i)))))))))))"

definition verify_email :: "auth_externals \<Rightarrow> ustring \<Rightarrow> ('w auth_world_scheme, auth_error, unit) m" where
  "verify_email E raw_token =
     bindM (getM now) (\<lambda>t.
     bindM (okOrM TokenInvalid (decode_token E raw_token)) (\<lambda>tok.
     bindM (consume_verification E tok t) (\<lambda>consumed.
       case consumed of
         None \<Rightarrow> throwM TokenInvalid
       | Some (i, email) \<Rightarrow>
           bindM (find_by_id E i) (\<lambda>found.
             case found of
               None \<Rightarrow> throwM TokenInvalid
             | Some u \<Rightarrow>
                 let is_change_email = (u_email u \<noteq> email) in
                 bindM (mapErrM (\<lambda>_. AuthInvalidEmail) (liftR (parse_email (ax_lower E) email))) (\<lambda>new_email.
                 thenM (mapErrM (\<lambda>e. if e = AuthConflict then EmailTaken else e) (confirm_email E i t new_email)) (
                 thenM (whenM is_change_email (revoke_all_for_user_except E i zero_session))
                       (audit (user_event (Some i)
                          (if is_change_email then ''auth.email_changed'' else ''auth.email_verified'') i))))))))"

definition resend_verification :: "auth_externals \<Rightarrow> ustring \<Rightarrow> ustring \<Rightarrow> ('w auth_world_scheme, auth_error, unit) m" where
  "resend_verification E ip email =
     bindM (find_by_email E email) (\<lambda>found.
       case found of
         None \<Rightarrow> retM ()
       | Some u \<Rightarrow>
           thenM (allowed (lit ''verif:user:'' @ show_int (u_id u)) verify_resend_user_limit (hours 1)) (
           thenM (allowed (lit ''verif:ip:'' @ ip) verify_resend_ip_limit (hours 1)) (
           bindM random_bytes (\<lambda>tok.
           bindM (getM now) (\<lambda>t.
           thenM (issue_verification E (u_id u) email tok t)
                 (send_mail E (verification_email E email (u_locale u) tok)))))))"

section \<open>Login and logout\<close>

definition open_session :: "auth_externals \<Rightarrow> user \<Rightarrow> int \<Rightarrow> ('w auth_world_scheme, auth_error, login_outcome) m" where
  "open_session E u t =
     bindM random_bytes (\<lambda>sess.
     bindM random_bytes (\<lambda>csrf.
     thenM (session_create E (u_id u) sess csrf t) (
     thenM (audit (user_event (Some (u_id u)) ''auth.login'' (u_id u)))
           (retM \<lparr>lo_session = sess, lo_csrf = csrf, lo_user = from_user u\<rparr>))))"

definition refuse_login :: "ustring \<Rightarrow> ('w auth_world_scheme, auth_error, 'a) m" where
  "refuse_login key =
     thenM (audit (audit_failure None ''auth.login'' ''user'' key)) (throwM InvalidCredentials)"

definition login ::
  "auth_externals \<Rightarrow> ustring \<Rightarrow> ustring \<Rightarrow> ustring \<Rightarrow> ('w auth_world_scheme, auth_error, login_outcome) m" where
  "login E ip raw_email raw_password =
     bindM (mapErrM (\<lambda>_. InvalidCredentials) (liftR (parse_email (ax_lower E) raw_email))) (\<lambda>email.
     thenM (allowed (lit ''login:'' @ ip @ lit '':'' @ email) login_limit (minutes 15)) (
     thenM (allowed (lit ''login:ip:'' @ ip) login_ip_limit (minutes 15)) (
     bindM (getM now) (\<lambda>t.
     bindM (find_identity PasswordProvider email) (\<lambda>identity.
       case identity of
         None \<Rightarrow> thenM (ignoreM (verify_password E raw_password dummy_hash)) (refuse_login email)
       | Some idn \<Rightarrow>
           (case id_hash idn of
              None \<Rightarrow> refuse_login email
            | Some hash \<Rightarrow>
                bindM (verify_password E raw_password hash) (\<lambda>good.
                if \<not> good then refuse_login email
                else bindM (find_by_id E (id_user idn)) (\<lambda>found.
                  case found of
                    None \<Rightarrow> refuse_login email
                  | Some u \<Rightarrow>
                      if \<not> can_log_in (u_state u) then refuse_login email
                      else open_session E u t))))))))"

definition logout :: "auth_externals \<Rightarrow> byte list \<Rightarrow> ('w auth_world_scheme, auth_error, unit) m" where
  "logout E sess = session_revoke E sess"

section \<open>Password reset\<close>

definition request_password_reset :: "auth_externals \<Rightarrow> ustring \<Rightarrow> ustring \<Rightarrow> ('w auth_world_scheme, auth_error, unit) m" where
  "request_password_reset E ip email =
     thenM (allowed (lit ''reset:ip:'' @ ip) reset_ip_limit (hours 1)) (
     thenM (allowed (lit ''reset:email:'' @ email) reset_email_limit (hours 1)) (
     bindM (find_by_email E email) (\<lambda>found.
       case found of
         None \<Rightarrow> retM ()
       | Some u \<Rightarrow>
           bindM random_bytes (\<lambda>tok.
           bindM (getM now) (\<lambda>t.
           thenM (issue_reset E (u_id u) tok t)
                 (send_mail E (reset_email E email (u_locale u) tok)))))))"

definition reset_password :: "auth_externals \<Rightarrow> ustring \<Rightarrow> ustring \<Rightarrow> ('w auth_world_scheme, auth_error, unit) m" where
  "reset_password E raw_token raw_password =
     bindM (getM now) (\<lambda>t.
     bindM (okOrM TokenInvalid (decode_token E raw_token)) (\<lambda>tok.
     bindM (consume_reset E tok t) (\<lambda>consumed.
       case consumed of
         None \<Rightarrow> throwM TokenInvalid
       | Some i \<Rightarrow>
           thenM (validate_policy raw_password) (
           bindM (hash_password E raw_password) (\<lambda>hash.
           thenM (set_password i hash) (
           thenM (revoke_all_for_user_except E i zero_session)
                 (audit (user_event (Some i) ''auth.password_changed'' i))))))))"

section \<open>Authenticated settings\<close>

text \<open>The stored hash the current password is checked against.\<close>

definition current_credential :: "auth_externals \<Rightarrow> int \<Rightarrow> ustring \<Rightarrow> ('w auth_world_scheme, auth_error, user) m" where
  "current_credential E i current =
     bindM (find_by_id E i) (\<lambda>found.
       case found of
         None \<Rightarrow> throwM InvalidCredentials
       | Some u \<Rightarrow>
           bindM (find_identity PasswordProvider (u_email u)) (\<lambda>identity.
           bindM (okOrM InvalidCredentials identity) (\<lambda>idn.
           bindM (okOrM InvalidCredentials (id_hash idn)) (\<lambda>hash.
           bindM (verify_password E current hash) (\<lambda>good.
             if \<not> good then throwM InvalidCredentials else retM u)))))"

definition change_password ::
  "auth_externals \<Rightarrow> int \<Rightarrow> ustring \<Rightarrow> ustring \<Rightarrow> byte list \<Rightarrow> ('w auth_world_scheme, auth_error, unit) m" where
  "change_password E i current new current_session =
     thenM (current_credential E i current) (
     thenM (validate_policy new) (
     bindM (hash_password E new) (\<lambda>new_hash.
     thenM (set_password i new_hash) (
     thenM (revoke_all_for_user_except E i current_session)
           (audit (user_event (Some i) ''auth.password_changed'' i))))))"

definition change_email ::
  "auth_externals \<Rightarrow> int \<Rightarrow> ustring \<Rightarrow> ustring \<Rightarrow> ('w auth_world_scheme, auth_error, unit) m" where
  "change_email E i current_password new_email =
     bindM (current_credential E i current_password) (\<lambda>u.
     bindM (find_by_email E new_email) (\<lambda>taken.
     if taken \<noteq> None then throwM EmailTaken
     else bindM random_bytes (\<lambda>tok.
          bindM (getM now) (\<lambda>t.
          thenM (issue_verification E i new_email tok t) (
          thenM (send_mail E (change_email_message E new_email (u_locale u) tok))
                (audit (user_event (Some i) ''auth.email_change_requested'' i)))))))"

definition set_locale :: "auth_externals \<Rightarrow> int \<Rightarrow> locale_code \<Rightarrow> ('w auth_world_scheme, auth_error, unit) m" where
  "set_locale E i loc = set_locale_row E i loc"

section \<open>OAuth\<close>

definition sign_in :: "auth_externals \<Rightarrow> user \<Rightarrow> int \<Rightarrow> ('w auth_world_scheme, auth_error, login_outcome) m" where
  "sign_in E u t = (if \<not> can_log_in (u_state u) then throwM InvalidCredentials else open_session E u t)"

definition oauth_callback :: "auth_externals \<Rightarrow> ustring \<Rightarrow> ('w auth_world_scheme, auth_error, login_outcome) m" where
  "oauth_callback E code =
     bindM (liftR (ax_oauth E code)) (\<lambda>identity.
     bindM (getM now) (\<lambda>t.
     bindM (find_identity (pi_provider identity) (pi_subject identity)) (\<lambda>known.
       case known of
         Some idn \<Rightarrow>
           bindM (find_by_id E (id_user idn)) (\<lambda>found.
           bindM (okOrM ProviderFailed found) (\<lambda>u. sign_in E u t))
       | None \<Rightarrow>
           bindM (if pi_email_verified identity then find_by_email E (pi_email identity) else retM None) (\<lambda>existing.
             case existing of
               Some u \<Rightarrow>
                 thenM (link_identity (u_id u) (pi_provider identity) (pi_subject identity) None)
                       (sign_in E u t)
             | None \<Rightarrow>
                 bindM (create_account E
                          \<lparr>na_email = pi_email identity, na_display_name = None, na_password_hash = [],
                           na_state = (if pi_email_verified identity then Active else PendingEmailVerification),
                           na_locale = default_locale\<rparr>) (\<lambda>i.
                 thenM (link_identity i (pi_provider identity) (pi_subject identity) None) (
                 thenM (whenM (pi_email_verified identity) (mark_email_verified E i t)) (
                 bindM (find_by_id E i) (\<lambda>found.
                 bindM (okOrM ProviderFailed found) (\<lambda>u.
                 thenM (audit (user_event (Some i) ''auth.oauth_linked'' i))
                       (sign_in E u t))))))))))"

section \<open>Administration\<close>

definition grant_role :: "authenticated_user \<Rightarrow> int \<Rightarrow> role \<Rightarrow> ('w auth_world_scheme, auth_error, unit) m" where
  "grant_role actor target r =
     (if \<not> actor_has_role actor RAdmin then throwM Unauthorized
      else if r = RUser then throwM Unauthorized
      else thenM (grant_role_row target r (au_id actor))
                 (audit (user_event (Some (au_id actor)) ''role.granted'' target)))"

definition revoke_role :: "authenticated_user \<Rightarrow> int \<Rightarrow> role \<Rightarrow> ('w auth_world_scheme, auth_error, unit) m" where
  "revoke_role actor target r =
     (if \<not> actor_has_role actor RAdmin then throwM Unauthorized
      else if r = RUser then throwM Unauthorized
      else bindM (revoke_role_guarded target r) (\<lambda>removed.
           whenM removed (audit (user_event (Some (au_id actor)) ''role.revoked'' target))))"

definition suspend_user :: "auth_externals \<Rightarrow> authenticated_user \<Rightarrow> int \<Rightarrow> ('w auth_world_scheme, auth_error, unit) m" where
  "suspend_user E actor target =
     (if \<not> actor_has_role actor RAdmin then throwM Unauthorized
      else thenM (set_state E target Suspended) (
           thenM (revoke_all_for_user_except E target zero_session)
                 (audit (user_event (Some (au_id actor)) ''user.suspended'' target))))"

definition restore_user :: "auth_externals \<Rightarrow> authenticated_user \<Rightarrow> int \<Rightarrow> ('w auth_world_scheme, auth_error, unit) m" where
  "restore_user E actor target =
     (if \<not> actor_has_role actor RAdmin then throwM Unauthorized
      else thenM (set_state E target Active)
                 (audit (user_event (Some (au_id actor)) ''user.restored'' target)))"

definition list_users :: "auth_externals \<Rightarrow> ('w auth_world_scheme, auth_error, authenticated_user list) m" where
  "list_users E = bindM (list_user_rows E) (\<lambda>us. retM (map from_user us))"

definition search_users ::
  "auth_externals \<Rightarrow> ustring option \<Rightarrow> int option \<Rightarrow> int \<Rightarrow> ('w auth_world_scheme, auth_error, authenticated_user list) m" where
  "search_users E q after_id limit =
     bindM (search_user_rows E (trimmed_nonempty q) after_id limit) (\<lambda>us. retM (map from_user us))"

definition user_labels :: "int list \<Rightarrow> ('w auth_world_scheme, auth_error, (int \<times> ustring) list) m" where
  "user_labels ids = (if ids = [] then retM [] else labels_for ids)"

section \<open>Session resolution\<close>

definition resolve_session :: "auth_externals \<Rightarrow> byte list \<Rightarrow> ('w auth_world_scheme, auth_error, resolved_session option) m" where
  "resolve_session E raw =
     bindM (getM now) (\<lambda>t.
     bindM (session_resolve E raw t) (\<lambda>sess.
       case sess of
         None \<Rightarrow> retM None
       | Some s \<Rightarrow>
           bindM (find_by_id E (s_user s)) (\<lambda>found.
             case found of
               None \<Rightarrow> retM None
             | Some u \<Rightarrow>
                 if \<not> can_access_account (u_state u) then retM None
                 else retM (Some \<lparr>rs_user = from_user u, rs_csrf = s_csrf s\<rparr>))))"

end
