(* ===== verification/Auth_System.thy ===== *)
theory Auth_System
  imports Auth_Service
begin

text \<open>
  The authentication service as a system: any sequence of use cases, clock ticks and
  database faults.  An invariant of the system is stated once, as the locale
  \<open>auth_invariant\<close>: the laws it asks for are about the repositories' methods, and what it
  gives is preservation along every run.  The locale \<open>credential_law\<close> asks only for laws
  about the rows of the session and token tables, and is a sublocale of it.
\<close>

section \<open>Runs\<close>

datatype auth_action =
    Register ustring ustring "ustring option" ustring locale_code
  | VerifyEmailLink ustring
  | ResendVerification ustring ustring
  | Login ustring ustring ustring
  | Logout "byte list"
  | RequestReset ustring ustring
  | UseResetLink ustring ustring
  | ChangePassword int ustring ustring "byte list"
  | ChangeEmail int ustring ustring
  | SetLocale int locale_code
  | OAuthCallback ustring
  | GrantRole authenticated_user int role
  | RevokeRole authenticated_user int role
  | SuspendUser authenticated_user int
  | RestoreUser authenticated_user int
  | ResolveSession "byte list"
  | Tick int
  | Faults "db_failure option list"

fun auth_act :: "auth_externals \<Rightarrow> auth_action \<Rightarrow> ('w auth_world_scheme, auth_error, unit) m" where
  "auth_act E (Register ip e n p loc) = register E ip e n p loc"
| "auth_act E (VerifyEmailLink tok) = verify_email E tok"
| "auth_act E (ResendVerification ip e) = resend_verification E ip e"
| "auth_act E (Login ip e p) = ignoreM (login E ip e p)"
| "auth_act E (Logout sess) = logout E sess"
| "auth_act E (RequestReset ip e) = request_password_reset E ip e"
| "auth_act E (UseResetLink tok p) = reset_password E tok p"
| "auth_act E (ChangePassword i cur new sess) = change_password E i cur new sess"
| "auth_act E (ChangeEmail i cur e) = change_email E i cur e"
| "auth_act E (SetLocale i loc) = set_locale E i loc"
| "auth_act E (OAuthCallback code) = ignoreM (oauth_callback E code)"
| "auth_act E (GrantRole a i r) = grant_role a i r"
| "auth_act E (RevokeRole a i r) = revoke_role a i r"
| "auth_act E (SuspendUser a i) = suspend_user E a i"
| "auth_act E (RestoreUser a i) = restore_user E a i"
| "auth_act E (ResolveSession s) = ignoreM (resolve_session E s)"
| "auth_act E (Tick d) = modifyM (\<lambda>w. w\<lparr>now := now w + max 0 d\<rparr>)"
| "auth_act E (Faults fs) = modifyM (\<lambda>w. w\<lparr>faults := fs\<rparr>)"

fun auth_run :: "auth_externals \<Rightarrow> auth_action list \<Rightarrow> 'w auth_world_scheme \<Rightarrow> 'w auth_world_scheme" where
  "auth_run E [] w = w"
| "auth_run E (a # acts) w = auth_run E acts (snd (auth_act E a w))"

section \<open>Invariants of the system\<close>

locale auth_invariant =
  fixes E :: auth_externals and I :: "'w auth_world_scheme \<Rightarrow> bool"
  assumes tables: "table_inv I"
    and outside: "I (w\<lparr>limiter := l\<rparr>) = I w" "I (w\<lparr>now := t\<rparr>) = I w"
      "I (w\<lparr>jobs := j\<rparr>) = I w" "I (w\<lparr>next_job := n\<rparr>) = I w" "I (w\<lparr>audit_events := ae, next_audit := na\<rparr>) = I w"
    and creates: "keeps I (create_account E new)"
    and updates: "keeps I (set_state E i st)" "keeps I (mark_email_verified E i t)"
      "keeps I (set_locale_row E i loc)" "keeps I (confirm_email E i t e)" "keeps I (set_password i pw)"
    and links: "ax_oauth E code = Inr idn \<Longrightarrow> keeps I (link_identity i (pi_provider idn) (pi_subject idn) None)"
    and roles: "keeps I (grant_role_row i r g)" "keeps I (revoke_role_guarded i r)"
    and session_laws: "keeps I (session_create E i raw csrf t)" "keeps I (session_resolve E raw t)"
      "keeps I (revoke_where P)"
    and token_laws: "keeps I (issue_verification E i e raw t)" "keeps I (consume_verification E raw t)"
      "keeps I (issue_reset E i raw t)" "keeps I (consume_reset E raw t)"
begin

lemma keeps_reads:
  "keeps I random_bytes" "keeps I (query conv f)" "keeps I (find_by_email E e)" "keeps I (find_by_id E i)"
  "keeps I (find_identity p s)"
  unfolding find_by_email_def find_by_id_def find_identity_def load_optional_def load_user_def roles_by_sql_def
  by (intro pres tables)+

lemma inv_audit: "keeps I (audit ev)"
  unfolding audit_def audit_record_def
  by (intro pres keeps_sql[OF tables]) (auto simp: outside split: if_splits)

lemma inv_enqueue: "keeps I (enqueue kind p t ma key)"
  unfolding enqueue_def by (rule keeps_sql[OF tables]) (auto simp: outside split: if_splits)

lemma keeps_send_mail: "keeps I (send_mail E msg)"
  unfolding send_mail_def email_enqueue_def by (intro pres inv_enqueue)

lemma keeps_allowed: "keeps I (allowed key limit window)"
  unfolding allowed_def by (intro pres) (auto simp: keeps_def outside split: prod.split)

lemma keeps_passwords:
  "keeps I (hash_password E pw)" "keeps I (verify_password E pw h)" "keeps I (validate_policy pw)"
  unfolding hash_password_def verify_password_def validate_policy_def by (intro pres keeps_reads)+

lemma keeps_revocations: "keeps I (session_revoke E s)" "keeps I (revoke_all_for_user_except E i s)"
  unfolding session_revoke_def revoke_all_for_user_except_def by (intro session_laws)+

lemmas keeps_methods =
  keeps_reads inv_audit keeps_send_mail keeps_allowed keeps_passwords keeps_revocations
  creates updates roles session_laws token_laws

lemma keeps_helpers:
  "keeps I (open_session E u t)" "keeps I (refuse_login key)" "keeps I (sign_in E u t)"
  "keeps I (current_credential E i cur)"
  unfolding open_session_def refuse_login_def sign_in_def current_credential_def
  by (intro pres keeps_methods)+

lemma keeps_registration:
  "keeps I (register E ip e n p loc)" "keeps I (verify_email E tok)" "keeps I (resend_verification E ip e)"
  unfolding register_def verify_email_def resend_verification_def Let_def
  by (intro pres keeps_methods)+

lemma keeps_login: "keeps I (login E ip e p)" "keeps I (logout E s)" "keeps I (resolve_session E s)"
  unfolding login_def logout_def resolve_session_def
  by (intro pres keeps_methods keeps_helpers)+

lemma keeps_oauth_callback: "keeps I (oauth_callback E code)"
proof (cases "ax_oauth E code")
  case (Inl e)
  then show ?thesis by (simp add: oauth_callback_def keeps_def exec)
next
  case (Inr idn)
  have l: "liftR (Inr idn) = retM idn" by (rule ext) (simp add: exec)
  show ?thesis
    unfolding oauth_callback_def Inr l bindM_ret
    by (intro pres keeps_methods keeps_helpers links[OF Inr])
qed

lemma keeps_settings:
  "keeps I (request_password_reset E ip e)" "keeps I (reset_password E tok p)"
  "keeps I (change_password E i c n s)" "keeps I (change_email E i c e)" "keeps I (set_locale E i loc)"
  unfolding request_password_reset_def reset_password_def change_password_def change_email_def set_locale_def
  by (intro pres keeps_methods keeps_helpers)+

lemma keeps_administration:
  "keeps I (grant_role a i r)" "keeps I (revoke_role a i r)" "keeps I (suspend_user E a i)"
  "keeps I (restore_user E a i)"
  unfolding grant_role_def revoke_role_def suspend_user_def restore_user_def
  by (intro pres keeps_methods)+

lemma keeps_action: "keeps I (auth_act E a)"
  by (cases a)
    (simp_all add: keeps_registration keeps_login keeps_oauth_callback keeps_settings keeps_administration
      keeps_ignore keeps_modify outside table_inv_faults[OF tables])

lemma keeps_run: "I w \<Longrightarrow> I (auth_run E acts w)"
  using keeps_action by (induction acts arbitrary: w) (simp_all add: keeps_def)

end

section \<open>The account tables stay well formed\<close>

interpretation wf: auth_invariant E "wf_auth E" for E
  by unfold_locales (intro pres | simp add: wf_auth_simps)+

section \<open>Invariants of sessions and tokens\<close>

lemmas account_statements =
  create_account_def insert_user_def insert_identity_def insert_role_def set_state_def mark_email_verified_def
  set_locale_row_def confirm_email_def set_password_def update_user_def update_password_identity_def
  link_identity_def grant_role_row_def revoke_role_guarded_def

lemmas token_statements =
  issue_verification_def consume_verification_def issue_reset_def consume_reset_def

lemmas session_statements = session_create_def session_resolve_def revoke_where_def

text \<open>Sessions are inserted with a fresh hash, slid, and revoked while live; tokens are
  inserted with a fresh hash and spent while unspent.\<close>

locale credential_law =
  fixes J :: "session_row list \<Rightarrow> verification_row list \<Rightarrow> reset_row list \<Rightarrow> bool"
  assumes new_session: "J ss vs rs \<Longrightarrow> sr_hash s \<notin> sr_hash ` set ss \<Longrightarrow> J (ss @ [s]) vs rs"
    and slid: "J ss vs rs \<Longrightarrow> J (update_where (slides h t) (\<lambda>r. r\<lparr>sr_last_seen_at := t\<rparr>) ss) vs rs"
    and revoked: "J ss vs rs \<Longrightarrow>
      J (update_where (\<lambda>r. P r \<and> sr_revoked_at r = None) (\<lambda>r. r\<lparr>sr_revoked_at := Some t\<rparr>) ss) vs rs"
    and new_verif: "J ss vs rs \<Longrightarrow> vr_hash v \<notin> vr_hash ` set vs \<Longrightarrow> J ss (vs @ [v]) rs"
    and spent_verif: "J ss vs rs \<Longrightarrow> J ss (snd (consume_verif_table h t vs)) rs"
    and new_reset: "J ss vs rs \<Longrightarrow> rr_hash r \<notin> rr_hash ` set rs \<Longrightarrow> J ss vs (rs @ [r])"
    and spent_reset: "J ss vs rs \<Longrightarrow> J ss vs (snd (consume_reset_table h t rs))"

sublocale credential_law \<subseteq> cred: auth_invariant E "\<lambda>w. J (sessions w) (verif_tokens w) (reset_tokens w)" for E
proof unfold_locales
  let ?I = "\<lambda>w. J (sessions w) (verif_tokens w) (reset_tokens w)"
  show tables: "table_inv ?I" by (simp add: table_inv_def)
  note k = keeps_sql[OF tables] keeps_command[OF tables]
  fix new i st t loc e pw r g and idn :: provider_identity
  show "keeps ?I (create_account E new)" "keeps ?I (set_state E i st)" "keeps ?I (mark_email_verified E i t)"
    "keeps ?I (set_locale_row E i loc)" "keeps ?I (confirm_email E i t e)" "keeps ?I (set_password i pw)"
    "keeps ?I (link_identity i (pi_provider idn) (pi_subject idn) None)"
    "keeps ?I (grant_role_row i r g)" "keeps ?I (revoke_role_guarded i r)"
    unfolding account_statements by (intro pres k tables; auto simp: Let_def split: if_splits)+
  fix raw csrf P
  show "keeps ?I (session_create E i raw csrf t)" "keeps ?I (session_resolve E raw t)" "keeps ?I (revoke_where P)"
    unfolding session_statements
    by (intro pres k tables; auto simp: Let_def intro: new_session slid revoked)+
  show "keeps ?I (issue_verification E i e raw t)" "keeps ?I (issue_reset E i raw t)"
    unfolding token_statements
    by (intro pres k tables; auto simp: Let_def intro: new_verif new_reset)+
  show "keeps ?I (consume_verification E raw t)" "keeps ?I (consume_reset E raw t)"
    unfolding token_statements
    by (intro pres k tables; clarsimp simp: split_beta; rule spent_verif spent_reset; assumption)+
qed simp_all

text \<open>A row with hash \<open>h\<close> that stands and has a property its table's writes respect.\<close>

definition pinned :: "('r \<Rightarrow> ustring) \<Rightarrow> ustring \<Rightarrow> ('r \<Rightarrow> bool) \<Rightarrow> 'r list \<Rightarrow> bool" where
  "pinned key h P tbl \<longleftrightarrow> (\<exists>r \<in> set tbl. key r = h) \<and> (\<forall>r \<in> set tbl. key r = h \<longrightarrow> P r)"

lemma pinned_append: "pinned key h P tbl \<Longrightarrow> key r \<notin> key ` set tbl \<Longrightarrow> pinned key h P (tbl @ [r])"
  by (auto simp: pinned_def)

lemma pinned_update:
  assumes "pinned key h P tbl" "\<And>r. Q r \<Longrightarrow> key (f r) = key r" "\<And>r. Q r \<Longrightarrow> P r \<Longrightarrow> P (f r)"
  shows "pinned key h P (update_where Q f tbl)"
  using assms unfolding pinned_def bex_update_where ball_update_where by (auto split: if_splits)

lemma pinned_consume:
  "pinned vr_hash h P vs \<Longrightarrow> (\<And>r t. P r \<Longrightarrow> P (r\<lparr>vr_used_at := Some t\<rparr>)) \<Longrightarrow>
    pinned vr_hash h P (snd (consume_verif_table h' t vs))"
  "pinned rr_hash h Q rs \<Longrightarrow> (\<And>r t. Q r \<Longrightarrow> Q (r\<lparr>rr_used_at := Some t\<rparr>)) \<Longrightarrow>
    pinned rr_hash h Q (snd (consume_reset_table h' t rs))"
  unfolding consume_verif_table_def consume_reset_table_def Let_def snd_conv by (erule pinned_update; simp)+

interpretation dead_session: credential_law "\<lambda>ss _ _. pinned sr_hash h (\<lambda>r. sr_revoked_at r \<noteq> None) ss" for h
  by unfold_locales (assumption | (erule pinned_append pinned_update; simp))+

interpretation session_cap: credential_law "\<lambda>ss _ _. pinned sr_hash h (\<lambda>r. sr_expires_at r \<le> x) ss" for h x
  by unfold_locales (assumption | (erule pinned_append pinned_update; simp))+

interpretation spent_link: credential_law "\<lambda>_ vs _. pinned vr_hash h (\<lambda>r. vr_used_at r \<noteq> None) vs" for h
  by unfold_locales (assumption | (erule pinned_append pinned_consume; simp))+

interpretation spent_reset: credential_law "\<lambda>_ _ rs. pinned rr_hash h (\<lambda>r. rr_used_at r \<noteq> None) rs" for h
  by unfold_locales (assumption | (erule pinned_append pinned_consume; simp))+

end
