(* ===== verification/Auth_Invariants.thy ===== *)
theory Auth_Invariants
  imports Auth_System
begin

text \<open>
  Two invariants of the accounts that a single statement does not keep by itself: an
  administrator always remains, because revocation counts the ADMIN rows in the
  transaction that deletes; and the subject of a password identity is the email of its
  account, because both change in one transaction.
\<close>

section \<open>An administrator remains\<close>

definition has_admin :: "'w auth_world_scheme \<Rightarrow> bool" where
  "has_admin w \<longleftrightarrow> (\<exists>r \<in> set (user_roles w). rl_role r = lit ''ADMIN'')"

lemma table_inv_has_admin: "table_inv has_admin"
  by (simp add: table_inv_def has_admin_def)

lemma table_inv_admins: "table_inv (\<lambda>w. wf_auth E w \<and> has_admin w)"
  by (simp add: table_inv_def wf_auth_simps has_admin_def)

lemma admin_code: "role_code r = lit ''ADMIN'' \<longleftrightarrow> r = RAdmin"
  by (cases r) (simp_all add: role_code_def lit_def)

text \<open>Deleting one of two distinct ADMIN rows, or a row of another role, leaves one.\<close>

lemma admin_survives:
  assumes d: "distinct (map role_key tbl)" and a: "x \<in> set tbl" "rl_role x = lit ''ADMIN''"
    and guard: "\<not> (r = RAdmin \<and> length (filter (\<lambda>r. rl_role r = lit ''ADMIN'') tbl) \<le> 1
      \<and> i \<in> rl_user ` set (filter (\<lambda>r. rl_role r = lit ''ADMIN'') tbl))"
  shows "\<exists>y \<in> set tbl. rl_role y = lit ''ADMIN'' \<and> \<not> (rl_user y = i \<and> rl_role y = role_code r)"
proof (rule ccontr)
  let ?admins = "filter (\<lambda>r. rl_role r = lit ''ADMIN'') tbl"
  assume "\<not> ?thesis"
  then have all: "\<And>y. y \<in> set ?admins \<Longrightarrow> rl_user y = i \<and> role_code r = lit ''ADMIN''" by auto
  with a have r: "r = RAdmin" and i: "i \<in> rl_user ` set ?admins" by (force simp: admin_code)+
  have "set (map role_key ?admins) \<subseteq> {(i, lit ''ADMIN'')}" using all by (auto simp: role_key_def)
  moreover have dist: "distinct (map role_key ?admins)" using d by (simp add: distinct_map_filter)
  ultimately have "card (set (map role_key ?admins)) \<le> 1"
    by (metis card.empty card_insert_disjoint card_mono empty_iff finite.emptyI finite_insert One_nat_def)
  then have "length ?admins \<le> 1" using distinct_card[OF dist] by simp
  with guard r i show False by blast
qed

lemma keeps_admin_revoke: "keeps (\<lambda>w. wf_auth E w \<and> has_admin w) (revoke_role_guarded i r)"
  unfolding revoke_role_guarded_def
proof (rule keeps_transaction_Inr)
  show "table_inv (\<lambda>w. wf_auth E w \<and> has_admin w)" by (rule table_inv_admins)
  fix w a and w' :: "'a auth_world_scheme"
  assume I: "wf_auth E w \<and> has_admin w"
    and run: "bindM (query auth_of_db admin_ids) (\<lambda>admins.
        if r = RAdmin \<and> length admins \<le> 1 \<and> i \<in> set admins then throwM RefuseAdminSelfRevoke
        else sql auth_of_db (\<lambda>w.
          let gone = (\<lambda>x. rl_user x = i \<and> rl_role x = role_code r)
          in Inr (0 < length (filter gone (user_roles w)),
                  w\<lparr>user_roles := filter (\<lambda>x. \<not> gone x) (user_roles w)\<rparr>))) w = (Inr a, w')"
  let ?rest = "filter (\<lambda>x. \<not> (rl_user x = i \<and> rl_role x = role_code r)) (user_roles w)"
  obtain fs where q: "(if r = RAdmin \<and> length (admin_ids w) \<le> 1 \<and> i \<in> set (admin_ids w)
        then throwM RefuseAdminSelfRevoke
        else sql auth_of_db (\<lambda>w.
          let gone = (\<lambda>x. rl_user x = i \<and> rl_role x = role_code r)
          in Inr (0 < length (filter gone (user_roles w)),
                  w\<lparr>user_roles := filter (\<lambda>x. \<not> gone x) (user_roles w)\<rparr>))) (w\<lparr>faults := fs\<rparr>) = (Inr a, w')"
    using run by (elim bindM_InrE query_InrE) (simp add: admin_ids_def)
  then have guard: "\<not> (r = RAdmin \<and> length (admin_ids w) \<le> 1 \<and> i \<in> set (admin_ids w))"
    by (simp add: throwM_exec split: if_splits)
  then have w': "\<exists>fs. w' = w\<lparr>faults := fs, user_roles := ?rest\<rparr>"
    using q by (simp only: if_False) (erule sql_InrE, auto simp: Let_def)
  from w' obtain fs where v: "w' = w\<lparr>faults := fs, user_roles := ?rest\<rparr>" by blast
  have "has_admin w'"
    using admin_survives[of "user_roles w" _ r i] I guard
    by (fastforce simp: v has_admin_def wf_auth_def admin_ids_def)
  moreover have "wf_auth E w'"
    using I by (auto simp: v wf_auth_simps distinct_map_filter)
  ultimately show "wf_auth E w' \<and> has_admin w'" by simp
qed

lemma keeps_admin_other:
  "keeps has_admin (create_account E new)" "keeps has_admin (set_state E i st)"
  "keeps has_admin (mark_email_verified E i t)" "keeps has_admin (set_locale_row E i loc)"
  "keeps has_admin (confirm_email E i t e)" "keeps has_admin (set_password i pw)"
  "keeps has_admin (link_identity i p s h)" "keeps has_admin (grant_role_row i r g)"
  "keeps has_admin (session_create E i raw csrf t)" "keeps has_admin (session_resolve E raw t)"
  "keeps has_admin (revoke_where P)" "keeps has_admin (issue_verification E i e raw t)"
  "keeps has_admin (consume_verification E raw t)" "keeps has_admin (issue_reset E i raw t)"
  "keeps has_admin (consume_reset E raw t)"
  unfolding account_statements token_statements session_statements
  by (intro pres table_inv_has_admin keeps_sql[OF table_inv_has_admin] keeps_command[OF table_inv_has_admin];
      auto simp: has_admin_def Let_def split: prod.splits if_splits)+

interpretation admins: auth_invariant E "\<lambda>w. wf_auth E w \<and> has_admin w" for E
proof unfold_locales
  show "table_inv (\<lambda>w. wf_auth E w \<and> has_admin w)"
    by (rule table_inv_admins)
qed (intro keeps_admin_revoke keeps_conj keeps_admin_other pres wf.links | simp add: wf.outside has_admin_def)+

section \<open>The login key is the account's email\<close>

definition login_keys_agree :: "'w auth_world_scheme \<Rightarrow> bool" where
  "login_keys_agree w \<longleftrightarrow>
     (\<forall>x \<in> set (identities w). ir_provider x = lit ''password'' \<longrightarrow>
        (\<exists>u \<in> set (users w). ur_id u = ir_user x \<and> ur_email u = ir_subject x))"

lemma table_inv_login_keys: "table_inv login_keys_agree"
  by (simp add: table_inv_def login_keys_agree_def)

lemma keys_bex_update:
  assumes "\<exists>u \<in> set tbl. ur_id u = k \<and> ur_email u = s"
    and "\<And>r. ur_id (f r) = ur_id r" "\<And>r. ur_email (f r) = ur_email r"
  shows "\<exists>u \<in> set (update_where P f tbl). ur_id u = k \<and> ur_email u = s"
  unfolding bex_update_where using assms by auto

lemma keeps_keys_update_user:
  assumes "\<And>r. ur_id (f r) = ur_id r" "\<And>r. ur_email (f r) = ur_email r"
  shows "keeps login_keys_agree (update_user E i f)"
  unfolding update_user_def
  by (rule keeps_sql[OF table_inv_login_keys])
    (auto simp: login_keys_agree_def Let_def assms intro!: keys_bex_update)

lemma keeps_keys_create: "keeps login_keys_agree (create_account E new)"
  unfolding create_account_def
proof (rule keeps_transaction_Inr[OF table_inv_login_keys])
  fix w a and w' :: "'a auth_world_scheme"
  assume I: "login_keys_agree w"
    and run: "bindM (insert_user E new) (\<lambda>i.
        thenM (whenM (na_password_hash new \<noteq> [])
                 (insert_identity i (lit ''password'') (na_email new) (Some (na_password_hash new))))
       (thenM (insert_role i (lit ''USER'') None) (retM i))) w = (Inr a, w')"
  from run I show "login_keys_agree w'"
    unfolding insert_user_def insert_identity_def insert_role_def
    by (elim bindM_InrE thenM_InrE whenM_InrE retM_InrE sql_InrE)
      (auto simp: login_keys_agree_def Let_def)
qed

text \<open>The one transaction that moves both: after it, the rows of the account carry the new
  address on both sides.\<close>

lemma keeps_keys_confirm: "keeps login_keys_agree (confirm_email E i t e)"
  unfolding confirm_email_def
proof (rule keeps_transaction_Inr[OF table_inv_login_keys])
  fix w a and w' :: "'a auth_world_scheme"
  assume I: "login_keys_agree w"
    and run: "thenM (update_user E i (\<lambda>r. r\<lparr>ur_email := e, ur_verified_at := Some t, ur_state := lit ''ACTIVE''\<rparr>))
              (update_password_identity i (\<lambda>r. r\<lparr>ir_subject := e\<rparr>)) w = (Inr a, w')"
  from run have
    u: "users w' = update_where (\<lambda>r. ur_id r = i)
          (\<lambda>r. r\<lparr>ur_email := e, ur_verified_at := Some t, ur_state := lit ''ACTIVE'', ur_updated_at := now w\<rparr>) (users w)"
    and k: "identities w' = update_where (\<lambda>r. ir_user r = i \<and> ir_provider r = lit ''password'')
          (\<lambda>r. r\<lparr>ir_subject := e\<rparr>) (identities w)"
    unfolding update_user_def update_password_identity_def
    by (auto simp: Let_def elim!: thenM_InrE sql_InrE)
  show "login_keys_agree w'"
    unfolding login_keys_agree_def u k ball_update_where bex_update_where
    using I by (fastforce simp: login_keys_agree_def)
qed

lemma keeps_keys_set_password: "keeps login_keys_agree (set_password i pw)"
  unfolding set_password_def update_password_identity_def
  by (rule keeps_sql[OF table_inv_login_keys]) (auto simp: login_keys_agree_def Let_def ball_update_where)

lemma keeps_keys_link:
  "p \<noteq> PasswordProvider \<Longrightarrow> keeps login_keys_agree (link_identity i p s h)"
  unfolding link_identity_def
  by (rule keeps_sql[OF table_inv_login_keys], cases p)
    (auto simp: login_keys_agree_def Let_def provider_code_def lit_def split: if_splits)

text \<open>The port that exchanges an authorization code vouches for identities of its own
  provider, never for a password.\<close>

definition oauth_is_external :: "auth_externals \<Rightarrow> bool" where
  "oauth_is_external E \<longleftrightarrow> (\<forall>code idn. ax_oauth E code = Inr idn \<longrightarrow> pi_provider idn \<noteq> PasswordProvider)"

lemma login_keys_invariant:
  assumes "oauth_is_external E"
  shows "auth_invariant E login_keys_agree"
proof unfold_locales
  let ?I = "login_keys_agree :: 'a auth_world_scheme \<Rightarrow> bool"
  show "table_inv ?I" by (rule table_inv_login_keys)
  note k = keeps_sql[OF table_inv_login_keys] keeps_command[OF table_inv_login_keys]
  fix i st t loc r g raw csrf P e
  show "keeps ?I (set_state E i st)" "keeps ?I (mark_email_verified E i t)" "keeps ?I (set_locale_row E i loc)"
    unfolding set_state_def mark_email_verified_def set_locale_row_def by (rule keeps_keys_update_user; simp)+
  show "keeps ?I (grant_role_row i r g)" "keeps ?I (revoke_role_guarded i r)"
    "keeps ?I (session_create E i raw csrf t)" "keeps ?I (session_resolve E raw t)" "keeps ?I (revoke_where P)"
    "keeps ?I (issue_verification E i e raw t)" "keeps ?I (consume_verification E raw t)"
    "keeps ?I (issue_reset E i raw t)" "keeps ?I (consume_reset E raw t)"
    unfolding account_statements token_statements session_statements
    by (intro pres k table_inv_login_keys; auto simp: login_keys_agree_def Let_def split: prod.splits if_splits)+
qed (use assms in \<open>auto simp: oauth_is_external_def login_keys_agree_def
      intro!: keeps_keys_create keeps_keys_confirm keeps_keys_set_password keeps_keys_link\<close>)

end
