(* ===== verification/Auth_Guarantees.thy ===== *)
theory Auth_Guarantees
  imports Auth_Invariants
begin

text \<open>
  What the authentication service guarantees: what a login proves and what a refused one
  leaves behind, the life of a session, suspension, password reset, the single use of a
  mailed link, and the invariants of the system over every run.
\<close>

section \<open>Reading leaves the tables alone\<close>

text \<open>The tables: the world without the fault schedule, the random blocks drawn and the
  limiter's counters.\<close>

definition tables_of :: "'w auth_world_scheme \<Rightarrow> 'w auth_world_scheme" where
  "tables_of w = w\<lparr>faults := [], drawn := 0, limiter := \<lparr>bk_map = [], bk_since_sweep = 0\<rparr>\<rparr>"

definition quiet :: "'w auth_world_scheme \<Rightarrow> 'w auth_world_scheme \<Rightarrow> bool" where
  "quiet w w' \<longleftrightarrow> tables_of w' = tables_of w"

lemma tables_of_upd [simp]:
  "tables_of (w\<lparr>faults := fs\<rparr>) = tables_of w" "tables_of (w\<lparr>drawn := d\<rparr>) = tables_of w"
  "tables_of (w\<lparr>limiter := l\<rparr>) = tables_of w"
  by (simp_all add: tables_of_def)

lemma tables_of_sel [simp]:
  "now (tables_of w) = now w" "users (tables_of w) = users w" "identities (tables_of w) = identities w"
  "sessions (tables_of w) = sessions w" "verif_tokens (tables_of w) = verif_tokens w"
  "reset_tokens (tables_of w) = reset_tokens w" "user_roles (tables_of w) = user_roles w"
  "audit_events (tables_of w) = audit_events w" "next_audit (tables_of w) = next_audit w"
  "jobs (tables_of w) = jobs w" "entropy (tables_of w) = entropy w"
  by (simp_all add: tables_of_def)

lemma quiet_fields:
  assumes "quiet w w'"
  shows "now w' = now w" "users w' = users w" "identities w' = identities w" "sessions w' = sessions w"
    "verif_tokens w' = verif_tokens w" "reset_tokens w' = reset_tokens w" "user_roles w' = user_roles w"
    "audit_events w' = audit_events w" "next_audit w' = next_audit w" "jobs w' = jobs w" "entropy w' = entropy w"
  using assms unfolding quiet_def by (metis tables_of_sel)+

lemma quiet_refl: "quiet w w"
  by (simp add: quiet_def)

lemma table_inv_quiet: "table_inv (quiet w)"
  by (simp add: table_inv_def quiet_def)

lemma keeps_quiet:
  "keeps (quiet w) random_bytes" "keeps (quiet w) (query conv f)" "keeps (quiet w) (find_by_email E e)"
  "keeps (quiet w) (find_by_id E i)" "keeps (quiet w) (find_identity p s)"
  "keeps (quiet w) (hash_password E pw)" "keeps (quiet w) (verify_password E pw h)"
  "keeps (quiet w) (validate_policy pw)" "keeps (quiet w) (allowed key lm window)"
  unfolding find_by_email_def find_by_id_def find_identity_def load_optional_def load_user_def roles_by_sql_def
    hash_password_def verify_password_def validate_policy_def allowed_def
  by (intro pres table_inv_quiet; simp add: keeps_def quiet_def split: prod.split)+

lemma quietI: "keeps (quiet w) m \<Longrightarrow> m w = (r, w') \<Longrightarrow> quiet w w'"
  using keepsD[of "quiet w" m w r w'] by (simp add: quiet_def)

lemma quiet_reads:
  "find_by_email E e w = (r, w') \<Longrightarrow> quiet w w'" "find_by_id E i w = (r, w') \<Longrightarrow> quiet w w'"
  "find_identity p s w = (s', w') \<Longrightarrow> quiet w w'" "verify_password E pw h w = (b, w') \<Longrightarrow> quiet w w'"
  "allowed key lm window w = (u, w') \<Longrightarrow> quiet w w'" "random_bytes w = (by, w') \<Longrightarrow> quiet w w'"
  "hash_password E pw w = (x, w') \<Longrightarrow> quiet w w'" "validate_policy pw w = (u, w') \<Longrightarrow> quiet w w'"
  by (rule quietI, rule keeps_quiet, assumption)+

lemma quiet_trans [trans]: "quiet w w' \<Longrightarrow> quiet w' w'' \<Longrightarrow> quiet w w''"
  by (simp add: quiet_def)

text \<open>How many random blocks an operation draws: \<open>steady\<close> operations draw none.\<close>

definition steady :: "'w auth_world_scheme \<Rightarrow> nat \<Rightarrow> 'w auth_world_scheme \<Rightarrow> bool" where
  "steady w n v \<longleftrightarrow> entropy v = entropy w \<and> drawn v = drawn w + n"

lemma keeps_steady_sql:
  "(\<And>v a v'. f v = Inr (a, v') \<Longrightarrow> entropy v' = entropy v \<and> drawn v' = drawn v) \<Longrightarrow> keeps (steady w n) (sql conv f)"
  by (rule keepsI) (fastforce simp: steady_def sql_def run_stmt_def split: list.splits option.splits sum.splits prod.splits)

lemmas keeps_flow =
  keeps_ret keeps_throw keeps_get keeps_liftR keeps_require keeps_okOr keeps_bind keeps_then keeps_mapErr
  keeps_attempt keeps_ignore keeps_when keeps_if keeps_case_option keeps_case_sum keeps_let

lemma keeps_steady_query: "keeps (steady w n) (query conv f)"
  unfolding query_def by (rule keeps_steady_sql) simp

lemma keeps_steady_allowed: "keeps (steady w n) (allowed key lm window)"
  unfolding allowed_def by (rule keeps_bind) (auto simp: keeps_def steady_def exec split: prod.split)

lemma keeps_steady_audit: "keeps (steady w n) (audit ev)"
  unfolding audit_def audit_record_def by (intro keeps_flow keeps_steady_sql) (auto split: if_splits)

lemma keeps_steady_session_create: "keeps (steady w n) (session_create E i raw csrf t)"
  unfolding session_create_def check_user_def check_unique_def
  by (intro keeps_steady_sql) (auto simp: Let_def split: if_splits)

lemma keeps_steady:
  "keeps (steady w n) (find_identity p s)" "keeps (steady w n) (find_by_id E i)"
  "keeps (steady w n) (verify_password E pw h)" "keeps (steady w n) (refuse_login key)"
  unfolding find_identity_def find_by_id_def load_optional_def load_user_def roles_by_sql_def verify_password_def refuse_login_def
  by (intro keeps_flow keeps_steady_query keeps_steady_audit)+

lemma steady_reads:
  "find_identity p s w = (x, w') \<Longrightarrow> drawn w' = drawn w" "find_by_id E i w = (y, w') \<Longrightarrow> drawn w' = drawn w"
  using keepsD[of "steady w 0", OF keeps_steady(1), of w p s x w'] keepsD[of "steady w 0", OF keeps_steady(2), of w E i y w']
  by (simp_all add: steady_def)

text \<open>A login draws no block, or the two of the session that it opens or fails to insert.\<close>

definition login_draws :: "'w auth_world_scheme \<Rightarrow> 'w auth_world_scheme \<Rightarrow> bool" where
  "login_draws w v \<longleftrightarrow> steady w 0 v \<or> steady w 2 v"

lemma bind_draws:
  assumes "keeps (steady w 0) m" "\<And>a v. steady w 0 v \<Longrightarrow> login_draws w (snd (f a v))" "steady w 0 v"
  shows "login_draws w (snd (bindM m f v))"
  using assms(2,3) keepsD[OF assms(1,3)] unfolding bindM_def login_draws_def
  by (auto split: prod.splits sum.splits)

lemma then_draws:
  "keeps (steady w 0) m \<Longrightarrow> (\<And>v. steady w 0 v \<Longrightarrow> login_draws w (snd (n v))) \<Longrightarrow> steady w 0 v
    \<Longrightarrow> login_draws w (snd (thenM m n v))"
  unfolding thenM_def by (rule bind_draws)

lemma keeps_draws: "keeps (steady w 0) m \<Longrightarrow> steady w 0 v \<Longrightarrow> login_draws w (snd (m v))"
  by (simp add: keeps_def login_draws_def)

lemma open_session_draws:
  fixes w :: "'a auth_world_scheme"
  assumes "steady w 0 v"
  shows "login_draws w (snd (open_session E u t v))"
proof -
  have s: "steady w 2 (v\<lparr>drawn := Suc (Suc (drawn v))\<rparr>)" using assms by (simp add: steady_def)
  define rest :: "byte list \<Rightarrow> byte list \<Rightarrow> ('a auth_world_scheme, auth_error, login_outcome) m" where
    "rest = (\<lambda>a b. thenM (session_create E (u_id u) a b t) (
      thenM (audit (user_event (Some (u_id u)) ''auth.login'' (u_id u)))
        (retM \<lparr>lo_session = a, lo_csrf = b, lo_user = from_user u\<rparr>)))"
  have "keeps (steady w 2) (rest a b)" for a b
    unfolding rest_def by (intro keeps_flow keeps_steady_session_create keeps_steady_audit)
  moreover have "open_session E u t v =
      rest (entropy v (drawn v)) (entropy v (Suc (drawn v))) (v\<lparr>drawn := Suc (Suc (drawn v))\<rparr>)"
    by (simp add: open_session_def rest_def bindM_def random_bytes_def)
  ultimately show ?thesis using s by (simp add: keeps_def login_draws_def)
qed

lemma login_drawn:
  assumes "login E ip raw_email pw w = (res, v)"
  shows "entropy v = entropy w \<and> (drawn v = drawn w \<or> drawn v = drawn w + 2)"
proof -
  have "login_draws w (snd (login E ip raw_email pw w))"
    unfolding login_def
    by (intro bind_draws then_draws keeps_flow keeps_steady_allowed keeps_steady)
      (auto simp: steady_def[of w 0 w] split: option.split
        intro!: bind_draws then_draws keeps_draws[OF keeps_steady(4)] keeps_flow keeps_steady open_session_draws)
  then show ?thesis using assms by (auto simp: login_draws_def steady_def)
qed

text \<open>What was found is in the tables.\<close>

text \<open>The account that a row of the user table stands for.\<close>

definition account_of :: "auth_externals \<Rightarrow> 'w auth_world_scheme \<Rightarrow> user_row \<Rightarrow> user option" where
  "account_of E w r =
     (case (parse_email (ax_lower E) (ur_email r), account_state_from (ur_state r)) of
        (Inr e, Some st) \<Rightarrow>
          (let rs = List.map_filter role_from (sort (map rl_role (filter (\<lambda>x. rl_user x = ur_id r) (user_roles w)))) in
           Some \<lparr>u_id = ur_id r, u_email = e, u_display_name = ur_display_name r, u_state = st,
                 u_verified_at = ur_verified_at r, u_roles = (if RUser \<in> set rs then rs else rs @ [RUser]),
                 u_locale = (case parse_locale (ur_locale r) of Some l \<Rightarrow> l | None \<Rightarrow> default_locale)\<rparr>)
      | _ \<Rightarrow> None)"

lemma account_of_upd [simp]:
  "account_of E (w\<lparr>limiter := l\<rparr>) r = account_of E w r" "account_of E (w\<lparr>drawn := d\<rparr>) r = account_of E w r"
  "account_of E (w\<lparr>faults := fs\<rparr>) r = account_of E w r"
  by (simp_all add: account_of_def split: sum.split option.split)

lemma account_of_quiet: "quiet w v \<Longrightarrow> account_of E v r = account_of E w r"
  using quiet_fields[of w v] by (simp add: account_of_def split: sum.split option.split)

lemma account_of_parts:
  assumes "account_of E w r = Some u"
  shows "u_id u = ur_id r" "account_state_from (ur_state r) = Some (u_state u)"
    "parse_email (ax_lower E) (ur_email r) = Inr (u_email u)"
  using assms by (auto simp: account_of_def Let_def split: sum.splits option.splits)

lemma load_user_found: "load_user E r w = (Inr u, w') \<Longrightarrow> account_of E w r = Some u"
  unfolding load_user_def
  by (auto simp: account_of_def roles_by_sql_def throwM_exec Let_def split: sum.splits option.splits
      elim!: bindM_InrE query_InrE retM_InrE)

lemma find_by_id_found:
  assumes "find_by_id E i w = (Inr (Some u), w')"
  obtains r where "select_one (\<lambda>r. ur_id r = i) (users w) = Some r" "account_of E w r = Some u"
  using assms unfolding find_by_id_def load_optional_def
  by (elim bindM_InrE query_InrE) (auto split: option.splits elim!: bindM_InrE retM_InrE dest!: load_user_found)

lemma find_identity_found:
  assumes "find_identity p s w = (Inr (Some idn), w')"
  obtains r where "select_one (\<lambda>r. ir_provider r = provider_code p \<and> ir_subject r = s) (identities w) = Some r"
    "id_user idn = ir_user r" "id_hash idn = ir_hash r"
  using assms unfolding find_identity_def
  by (elim bindM_InrE query_InrE) (auto split: option.splits elim!: bindM_InrE retM_InrE okOrM_InrE)

section \<open>Login\<close>

text \<open>The session row that opening a session for \<open>i\<close> at time \<open>t\<close> inserts.\<close>

definition fresh_session :: "auth_externals \<Rightarrow> int \<Rightarrow> byte list \<Rightarrow> byte list \<Rightarrow> int \<Rightarrow> session_row" where
  "fresh_session E i sess csrf t =
     \<lparr>sr_hash = sha256_hex E sess, sr_user = i, sr_csrf = b64_encode (ax_b64 E) csrf, sr_created_at = t,
      sr_last_seen_at = t, sr_expires_at = t + absolute_cap, sr_revoked_at = None\<rparr>"

definition same_accounts :: "'w auth_world_scheme \<Rightarrow> 'w auth_world_scheme \<Rightarrow> bool" where
  "same_accounts w w' \<longleftrightarrow> users w' = users w \<and> identities w' = identities w \<and> user_roles w' = user_roles w
     \<and> verif_tokens w' = verif_tokens w \<and> reset_tokens w' = reset_tokens w \<and> jobs w' = jobs w \<and> now w' = now w"

lemma open_session_opens:
  assumes "open_session E u (now w) w = (Inr out, w')"
  shows "lo_session out = entropy w (drawn w) \<and> lo_csrf out = entropy w (Suc (drawn w)) \<and> drawn w' = drawn w + 2
    \<and> lo_user out = from_user u
    \<and> sessions w' = sessions w @ [fresh_session E (u_id u) (lo_session out) (lo_csrf out) (now w)]
    \<and> map ar_event (audit_events w') = map ar_event (audit_events w) @ [user_event (Some (u_id u)) ''auth.login'' (u_id u)]
    \<and> sha256_hex E (lo_session out) \<notin> sr_hash ` set (sessions w)
    \<and> same_accounts w w'"
  using assms unfolding open_session_def session_create_def audit_def audit_record_def
  by (elim bindM_InrE thenM_InrE random_bytes_InrE sql_InrE retM_InrE mapErrM_InrE)
    (auto simp: fresh_session_def same_accounts_def Let_def split: if_splits option.splits)

lemma allowed_InrE:
  assumes "allowed key lm window w = (Inr u, w')"
  shows "quiet w w' \<and> fst (mem_check key lm window (now w) (limiter w)) \<and> entropy w' = entropy w \<and> drawn w' = drawn w
    \<and> limiter w' = snd (mem_check key lm window (now w) (limiter w)) \<and> now w' = now w"
  using assms unfolding allowed_def
  by (elim bindM_InrE requireM_InrE) (auto simp: quiet_def split: prod.splits)

lemma verify_password_InrE:
  assumes "verify_password E pw h w = (Inr b, w')"
  obtains "ax_verify E pw h = Some b" "w' = w"
  using assms unfolding verify_password_def by (elim okOrM_InrE)

lemma verify_password_world [simp]: "snd (verify_password E pw h w) = w"
  by (simp add: verify_password_def exec split: option.split)

lemma refuse_login_InrE: "refuse_login key w = (Inr a, w') \<Longrightarrow> P"
  unfolding refuse_login_def by (elim thenM_InrE throwM_InrE)

lemma same_accounts_quiet: "quiet w v \<Longrightarrow> same_accounts v w' \<Longrightarrow> same_accounts w w'"
  using quiet_fields[of w v] by (simp add: same_accounts_def)

text \<open>What a login needs of the tables, besides the right password.\<close>

definition may_log_in :: "auth_externals \<Rightarrow> 'w auth_world_scheme \<Rightarrow> ustring \<Rightarrow> ustring \<Rightarrow> bool" where
  "may_log_in E w email pw \<longleftrightarrow>
     (\<exists>idn h r u.
        select_one (\<lambda>x. ir_provider x = provider_code PasswordProvider \<and> ir_subject x = email) (identities w) = Some idn
      \<and> ir_hash idn = Some h \<and> ax_verify E pw h = Some True
      \<and> select_one (\<lambda>x. ur_id x = ir_user idn) (users w) = Some r \<and> account_of E w r = Some u \<and> can_log_in (u_state u))"

text \<open>Both counters of a login admit the attempt, the second after the first was charged.\<close>

definition both_limits_admit :: "ustring \<Rightarrow> ustring \<Rightarrow> 'w auth_world_scheme \<Rightarrow> bool" where
  "both_limits_admit ip email w \<longleftrightarrow>
     (let (by_email, l) = mem_check (lit ''login:'' @ ip @ lit '':'' @ email) 5 (minutes 15) (now w) (limiter w);
          (by_ip, l') = mem_check (lit ''login:ip:'' @ ip) 10 (minutes 15) (now w) l
      in by_email \<and> by_ip)"

lemma login_needs:
  assumes "login E ip raw_email pw w = (Inr out, w')"
  obtains email u v where "parse_email (ax_lower E) raw_email = Inr email"
    "fst (mem_check (lit ''login:'' @ ip @ lit '':'' @ email) login_limit (minutes 15) (now w) (limiter w))"
    "may_log_in E w email pw" "quiet w v" "open_session E u (now v) v = (Inr out, w')"
    "\<exists>idn r h. select_one (\<lambda>x. ir_provider x = provider_code PasswordProvider \<and> ir_subject x = email) (identities w) = Some idn
      \<and> ir_hash idn = Some h \<and> ax_verify E pw h = Some True
      \<and> select_one (\<lambda>x. ur_id x = ir_user idn) (users w) = Some r \<and> account_of E w r = Some u \<and> can_log_in (u_state u)"
    "both_limits_admit ip email w" "drawn v = drawn w"
proof -
  from assms obtain email w1 w2 w3 found where
    email: "parse_email (ax_lower E) raw_email = Inr email"
    and w1: "allowed (lit ''login:'' @ ip @ lit '':'' @ email) login_limit (minutes 15) w = (Inr (), w1)"
    and w2: "allowed (lit ''login:ip:'' @ ip) login_ip_limit (minutes 15) w1 = (Inr (), w2)"
    and w3: "find_identity PasswordProvider email w2 = (Inr found, w3)"
    and rest: "(case found of
         None \<Rightarrow> thenM (ignoreM (verify_password E pw dummy_hash)) (refuse_login email)
       | Some idn \<Rightarrow>
           (case id_hash idn of
              None \<Rightarrow> refuse_login email
            | Some hash \<Rightarrow>
                bindM (verify_password E pw hash) (\<lambda>good.
                if \<not> good then refuse_login email
                else bindM (find_by_id E (id_user idn)) (\<lambda>found.
                  case found of
                    None \<Rightarrow> refuse_login email
                  | Some u \<Rightarrow>
                      if \<not> can_log_in (u_state u) then refuse_login email
                      else open_session E u (now w2))))) w3 = (Inr out, w')"
    unfolding login_def by (elim bindM_InrE thenM_InrE mapErrM_InrE liftR_InrE getM_InrE) auto
  from rest obtain idn h u w4 where
    idn: "found = Some idn" "id_hash idn = Some h" "ax_verify E pw h = Some True"
    and w4: "find_by_id E (id_user idn) w3 = (Inr (Some u), w4)" and st: "can_log_in (u_state u)"
    and opened: "open_session E u (now w2) w4 = (Inr out, w')"
    by (auto split: option.splits if_splits elim!: bindM_InrE thenM_InrE verify_password_InrE refuse_login_InrE)
  from w1 w2 w3 w4 have "quiet w w1" "quiet w1 w2" "quiet w2 w3" "quiet w3 w4" by (simp_all add: quiet_reads)
  then have q: "quiet w w2" "quiet w w3" "quiet w w4" by (simp_all add: quiet_def)
  from w3[unfolded idn] obtain r where r:
      "select_one (\<lambda>x. ir_provider x = provider_code PasswordProvider \<and> ir_subject x = email) (identities w) = Some r"
      "id_user idn = ir_user r" "ir_hash r = Some h"
    by (elim find_identity_found) (auto simp: quiet_fields[OF q(1)] idn)
  from w4 obtain x where x: "select_one (\<lambda>x. ur_id x = ir_user r) (users w) = Some x" "account_of E w x = Some u"
    by (elim find_by_id_found) (auto simp: quiet_fields[OF q(2)] r account_of_quiet[OF q(2)])
  have "now w2 = now w4" using quiet_fields(1)[OF q(1)] quiet_fields(1)[OF q(3)] by simp
  with opened have o: "open_session E u (now w4) w4 = (Inr out, w')" by simp
  have "may_log_in E w email pw" unfolding may_log_in_def using r x idn st by blast
  moreover have "both_limits_admit ip email w"
    using allowed_InrE[OF w1] allowed_InrE[OF w2]
    by (simp add: both_limits_admit_def login_limit_def login_ip_limit_def split_beta)
  moreover have "drawn w4 = drawn w"
    using allowed_InrE[OF w1] allowed_InrE[OF w2] steady_reads(1)[OF w3] steady_reads(2)[OF w4] by simp
  ultimately show ?thesis using that[OF email _ _ q(3) o] allowed_InrE[OF w1] r x idn st by blast
qed

text \<open>C1: a login proves the password: if it returns a session, the typed address is the
  subject of a password identity whose stored hash the typed password verifies, both
  rate limits (5 per address and account, 10 per address, in 15 minutes) admitted the
  attempt, and the account exists in a state that may log in.  Exactly one session, of
  that account and capped at 90 days, and exactly one audit record are added, and no
  other table moves, whatever database faults occur.  The cookie and the CSRF token are
  the next two random blocks, never used before, and the cookie's hash is new.\<close>

theorem login_sound:
  assumes "login E ip raw_email pw w = (Inr out, w')"
  shows "\<exists>email idn h u st.
      parse_email (ax_lower E) raw_email = Inr email
    \<and> both_limits_admit ip email w
    \<and> idn \<in> set (identities w) \<and> ir_provider idn = lit ''password'' \<and> ir_subject idn = email
    \<and> ir_hash idn = Some h \<and> ax_verify E pw h = Some True
    \<and> u \<in> set (users w) \<and> ur_id u = ir_user idn \<and> account_state_from (ur_state u) = Some st \<and> can_log_in st
    \<and> au_id (lo_user out) = ur_id u
    \<and> lo_session out = entropy w (drawn w) \<and> lo_csrf out = entropy w (Suc (drawn w)) \<and> drawn w' = drawn w + 2
    \<and> sha256_hex E (lo_session out) \<notin> sr_hash ` set (sessions w)
    \<and> sessions w' = sessions w @ [fresh_session E (ur_id u) (lo_session out) (lo_csrf out) (now w)]
    \<and> map ar_event (audit_events w') = map ar_event (audit_events w) @ [user_event (Some (ur_id u)) ''auth.login'' (ur_id u)]
    \<and> same_accounts w w'"
  using assms
proof (rule login_needs)
  fix email u v
  assume email: "parse_email (ax_lower E) raw_email = Inr email"
    and lims: "both_limits_admit ip email w" and d: "drawn v = drawn w"
    and q: "quiet w v" and o: "open_session E u (now v) v = (Inr out, w')"
    and rows: "\<exists>idn r h. select_one (\<lambda>x. ir_provider x = provider_code PasswordProvider \<and> ir_subject x = email) (identities w) = Some idn
      \<and> ir_hash idn = Some h \<and> ax_verify E pw h = Some True
      \<and> select_one (\<lambda>x. ur_id x = ir_user idn) (users w) = Some r \<and> account_of E w r = Some u \<and> can_log_in (u_state u)"
  from rows obtain idn r h where
    r: "select_one (\<lambda>x. ir_provider x = provider_code PasswordProvider \<and> ir_subject x = email) (identities w) = Some idn"
      "ir_hash idn = Some h" "ax_verify E pw h = Some True"
      "select_one (\<lambda>x. ur_id x = ir_user idn) (users w) = Some r" "account_of E w r = Some u" "can_log_in (u_state u)"
    by blast
  from open_session_opens[OF o] email lims select_one_SomeD[OF r(1)] select_one_SomeD[OF r(4)] r(2,3,6)
    account_of_parts[OF r(5)] same_accounts_quiet[OF q]
  show ?thesis
    by - (rule exI[of _ email], rule exI[of _ idn], rule exI[of _ h], rule exI[of _ r], rule exI[of _ "u_state u"],
      elim conjE, simp add: quiet_fields[OF q] from_user_def provider_code_def d)
qed

section \<open>Running without faults\<close>

definition keys_of :: "buckets \<Rightarrow> ustring set" where
  "keys_of bs = fst ` set (bk_map bs)"

lemma keys_of_prep: "keys_of (mem_prep key t bs) \<subseteq> keys_of bs"
  by (auto simp: keys_of_def mem_prep_def sweep_def Let_def)

lemma map_of_fresh: "key \<notin> keys_of bs \<Longrightarrow> map_of (bk_map bs) key = None"
  by (auto simp: keys_of_def map_of_eq_None_iff)

lemma mem_check_fresh:
  assumes "key \<notin> keys_of bs" "0 < lm"
  shows "fst (mem_check key lm window t bs)"
proof -
  have "key \<notin> keys_of (mem_prep key t bs)" using assms keys_of_prep by blast
  from map_of_fresh[OF this] show ?thesis using assms(2) by (simp add: mem_check_def Let_def)
qed

lemma keys_of_check: "keys_of (snd (mem_check key lm window t bs)) \<subseteq> insert key (keys_of bs)"
  using keys_of_prep[of key t bs]
  by (auto simp: mem_check_def Let_def keys_of_def dom_update split: if_splits)

lemma allowed_fresh:
  assumes "key \<notin> keys_of (limiter w)" "0 < lm"
  shows "\<exists>l. allowed key lm window w = (Inr (), w\<lparr>limiter := l\<rparr>) \<and> keys_of l \<subseteq> insert key (keys_of (limiter w))"
  using mem_check_fresh[OF assms, of window "now w"] keys_of_check[of key lm window "now w" "limiter w"]
  by (auto simp: allowed_def exec split: prod.split)

lemma find_identity_exec:
  assumes "faults w = []" "select_one (\<lambda>r. ir_provider r = provider_code p \<and> ir_subject r = s) (identities w) = Some r"
  shows "find_identity p s w = (Inr (Some \<lparr>id_id = ir_id r, id_user = ir_user r, id_provider = p, id_subject = s,
                         id_hash = ir_hash r\<rparr>), w)"
  using assms select_one_SomeD[OF assms(2)] by (simp add: find_identity_def exec provider.from_as)

lemma load_user_exec: "faults w = [] \<Longrightarrow> account_of E w r = Some u \<Longrightarrow> load_user E r w = (Inr u, w)"
  by (auto simp: load_user_def account_of_def roles_by_sql_def exec Let_def split: sum.splits option.splits)

lemma find_by_id_exec:
  assumes "faults w = []" "select_one (\<lambda>r. ur_id r = i) (users w) = Some r" "account_of E w r = Some u"
  shows "find_by_id E i w = (Inr (Some u), w)"
  using assms by (simp add: find_by_id_def load_optional_def exec load_user_exec)

lemma find_by_email_exec:
  assumes "faults w = []"
    "select_one (\<lambda>r. ax_pg_lower E (ur_email r) = to_lowercase (ax_lower E) e) (users w) = Some r"
    "account_of E w r = Some u"
  shows "find_by_email E e w = (Inr (Some u), w)"
  using assms by (simp add: find_by_email_def load_optional_def exec load_user_exec)

lemma find_by_email_none:
  assumes "faults w = []" "select_one (\<lambda>r. ax_pg_lower E (ur_email r) = to_lowercase (ax_lower E) e) (users w) = None"
  shows "find_by_email E e w = (Inr None, w)"
  using assms by (simp add: find_by_email_def load_optional_def exec)

lemma open_session_exec:
  assumes "faults w = []" "user_exists w (u_id u)" "distinct (map sr_hash (sessions w))"
    "sha256_hex E (entropy w (drawn w)) \<notin> sr_hash ` set (sessions w)"
  shows "\<exists>out w'. open_session E u t w = (Inr out, w')"
  using assms
  by (auto simp: open_session_def exec session_create_def check_user_def check_unique_def audit_def audit_record_def
      user_event_def audit_success_def Let_def)

text \<open>Nothing in the way: no fault, no earlier attempt in the window, a fresh session id.\<close>

definition unhindered :: "auth_externals \<Rightarrow> ustring \<Rightarrow> ustring \<Rightarrow> 'w auth_world_scheme \<Rightarrow> bool" where
  "unhindered E ip email w \<longleftrightarrow>
     faults w = [] \<and> lit ''login:'' @ ip @ lit '':'' @ email \<notin> keys_of (limiter w)
     \<and> lit ''login:ip:'' @ ip \<notin> insert (lit ''login:'' @ ip @ lit '':'' @ email) (keys_of (limiter w))
     \<and> distinct (map sr_hash (sessions w)) \<and> sha256_hex E (entropy w (drawn w)) \<notin> sr_hash ` set (sessions w)"

lemma login_opens:
  assumes email: "parse_email (ax_lower E) raw_email = Inr email"
    and un: "unhindered E ip email w" and may: "may_log_in E w email pw"
  shows "\<exists>out w'. login E ip raw_email pw w = (Inr out, w')"
proof -
  let ?k1 = "lit ''login:'' @ ip @ lit '':'' @ email" and ?k2 = "lit ''login:ip:'' @ ip"
  from may obtain idn h r u where
    m: "select_one (\<lambda>x. ir_provider x = provider_code PasswordProvider \<and> ir_subject x = email) (identities w) = Some idn"
      "ir_hash idn = Some h" "ax_verify E pw h = Some True"
      "select_one (\<lambda>x. ur_id x = ir_user idn) (users w) = Some r" "account_of E w r = Some u" "can_log_in (u_state u)"
    unfolding may_log_in_def by blast
  from un have f: "faults w = []" by (simp add: unhindered_def)
  obtain l1 where l1: "allowed ?k1 login_limit (minutes 15) w = (Inr (), w\<lparr>limiter := l1\<rparr>)"
      "keys_of l1 \<subseteq> insert ?k1 (keys_of (limiter w))"
    using allowed_fresh[of ?k1 w login_limit "minutes 15"] un by (auto simp: unhindered_def login_limit_def)
  have "?k2 \<notin> keys_of (limiter (w\<lparr>limiter := l1\<rparr>))" using l1(2) un by (auto simp: unhindered_def)
  from allowed_fresh[OF this, of login_ip_limit "minutes 15"] obtain l2 where
    l2: "allowed ?k2 login_ip_limit (minutes 15) (w\<lparr>limiter := l1\<rparr>) = (Inr (), w\<lparr>limiter := l2\<rparr>)"
    by (auto simp: login_ip_limit_def)
  let ?w = "w\<lparr>limiter := l2\<rparr>"
  have a: "account_of E ?w r = Some u" using m(5) by simp
  have u: "u_id u = ur_id r" using m(5) by (rule account_of_parts)
  have "user_exists ?w (u_id u)" using select_one_SomeD[OF m(4)] by (auto simp: user_exists_def u)
  then have o: "\<exists>out w'. open_session E u (now w) ?w = (Inr out, w')"
    using un by (intro open_session_exec) (auto simp: unhindered_def)
  show ?thesis
    using o m f
    by (simp add: login_def exec email l1 l2 find_identity_exec[where r = idn] verify_password_def
        find_by_id_exec[OF _ _ a])
qed

text \<open>The decision is complete: with nothing in the way, a login returns a session
  exactly when the address names a password identity whose hash verifies, of an account
  that decodes and may log in.\<close>

lemma login_decides:
  assumes "parse_email (ax_lower E) raw_email = Inr email" and "unhindered E ip email w"
  shows "(\<exists>out w'. login E ip raw_email pw w = (Inr out, w')) \<longleftrightarrow> may_log_in E w email pw"
  using assms login_opens by (fastforce elim: login_needs)

section \<open>Refusals\<close>

text \<open>The world with one more audit record.\<close>

definition logged :: "audit_event \<Rightarrow> 'w auth_world_scheme \<Rightarrow> 'w auth_world_scheme" where
  "logged ev w = w\<lparr>audit_events := audit_events w @ [\<lparr>ar_id = next_audit w, ar_event = ev, ar_created_at = now w\<rparr>],
                   next_audit := next_audit w + 1\<rparr>"

lemma audit_InrE:
  assumes "audit ev w = (Inr u, w')"
  shows "tables_of w' = logged ev (tables_of w)"
  using assms unfolding audit_def audit_record_def
  by (elim mapErrM_InrE sql_InrE) (auto simp: logged_def tables_of_def split: if_splits option.splits)

lemma auth_of_db_never: "auth_of_db f \<noteq> InvalidCredentials"
  by (cases f) (simp_all add: auth_of_db_def)

lemma never_invalid_query: "never InvalidCredentials (query auth_of_db f)"
  unfolding query_def by (rule never_sql) (rule auth_of_db_never)

lemma never_invalid_load: "never InvalidCredentials (load_user E r)"
  unfolding load_user_def roles_by_sql_def by (auto intro!: nevers never_invalid_query split: sum.split)

lemma never_invalid_audit: "never InvalidCredentials (audit ev)"
  unfolding audit_def by (rule never_mapErr) (simp add: auth_of_audit_def)

lemma never_invalid_allowed: "never InvalidCredentials (allowed key lm window)"
  unfolding allowed_def by (intro nevers) (auto simp: never_def split: prod.split)

lemma never_invalid_finds:
  "never InvalidCredentials (find_by_id E i)" "never InvalidCredentials (find_identity p s)"
  "never InvalidCredentials (verify_password E pw h)"
  unfolding find_by_id_def load_optional_def find_identity_def verify_password_def
  by (intro nevers never_invalid_query never_invalid_load; simp)+

lemma never_invalid_open: "never InvalidCredentials (open_session E u t)"
  unfolding open_session_def session_create_def
  by (intro nevers never_random never_sql auth_of_db_never never_invalid_audit)

lemmas never_invalid = never_invalid_query never_invalid_audit never_invalid_allowed never_invalid_finds never_invalid_open

lemma refuse_login_logs:
  assumes "refuse_login key w = (r, w')" "r = Inl InvalidCredentials"
  shows "tables_of w' = logged (audit_failure None ''auth.login'' ''user'' key) (tables_of w)"
  using assms unfolding refuse_login_def
  by (auto simp: throwM_exec elim!: thenM_InlE dest: audit_InrE neverD[OF never_invalid_audit])

lemma logged_quiet: "quiet w v \<Longrightarrow> tables_of v' = logged ev (tables_of v) \<Longrightarrow> tables_of v' = logged ev (tables_of w)"
  by (simp add: quiet_def)

text \<open>Every refusal looks the same: whether the address is unknown, has no password,
  the password is wrong, the account is gone, suspended or deleted, the caller sees
  \<open>InvalidCredentials\<close>, and the tables gained one failure record of the typed address and
  nothing else; an address that does not parse leaves no trace at all.\<close>

lemma login_refusal:
  assumes "login E ip raw_email pw w = (Inl InvalidCredentials, w')"
  shows "case parse_email (ax_lower E) raw_email of
      Inl _ \<Rightarrow> w' = w
    | Inr email \<Rightarrow> tables_of w' = logged (audit_failure None ''auth.login'' ''user'' email) (tables_of w)"
proof (cases "parse_email (ax_lower E) raw_email")
  case (Inl e)
  then show ?thesis using assms by (simp add: login_def exec)
next
  case (Inr email)
  have l: "mapErrM (\<lambda>_. InvalidCredentials) (liftR (Inr email)) = retM email"
    by (rule ext) (simp add: exec)
  note n = never_invalid[THEN neverD]
  obtain w1 w2 w3 found where
    w1: "allowed (lit ''login:'' @ ip @ lit '':'' @ email) login_limit (minutes 15) w = (Inr (), w1)"
    and w2: "allowed (lit ''login:ip:'' @ ip) login_ip_limit (minutes 15) w1 = (Inr (), w2)"
    and w3: "find_identity PasswordProvider email w2 = (Inr found, w3)"
    and rest: "(case found of
         None \<Rightarrow> thenM (ignoreM (verify_password E pw dummy_hash)) (refuse_login email)
       | Some idn \<Rightarrow>
           (case id_hash idn of
              None \<Rightarrow> refuse_login email
            | Some hash \<Rightarrow>
                bindM (verify_password E pw hash) (\<lambda>good.
                if \<not> good then refuse_login email
                else bindM (find_by_id E (id_user idn)) (\<lambda>found.
                  case found of
                    None \<Rightarrow> refuse_login email
                  | Some u \<Rightarrow>
                      if \<not> can_log_in (u_state u) then refuse_login email
                      else open_session E u (now w2))))) w3 = (Inl InvalidCredentials, w')"
    using assms unfolding login_def Inr l bindM_ret
    by (elim bindM_InlE thenM_InlE getM_InrE) (auto simp: getM_exec dest: n)
  from w1 w2 w3 have "quiet w w1" "quiet w1 w2" "quiet w2 w3" by (simp_all add: quiet_reads)
  then have q: "quiet w w3" by (simp add: quiet_def)
  have "\<exists>v. quiet w3 v \<and> refuse_login email v = (Inl InvalidCredentials :: auth_error + login_outcome, w')"
    using rest
    by (auto split: option.splits if_splits simp: ignoreM_exec elim!: bindM_InlE thenM_InlE verify_password_InrE
        elim!: n[elim_format] FalseE) (blast intro: quiet_refl quiet_reads(2))+
  then obtain v where v: "quiet w3 v" "refuse_login email v = (Inl InvalidCredentials :: auth_error + login_outcome, w')"
    by blast
  from refuse_login_logs[OF v(2)] logged_quiet[OF quiet_trans[OF q v(1)]] Inr show ?thesis by simp
qed

end
