(* ===== verification/Auth_Credentials.thy ===== *)
theory Auth_Credentials
  imports Auth_Guarantees
begin

text \<open>
  Sessions, mailed links and passwords over time: what resolving a cookie proves, that a
  logged-out or expired session never resolves again whatever happens in between, that
  suspension is immediate, what a verification and a reset link do, that each is used
  once, and the invariants of every run.
\<close>

section \<open>Resolving a session\<close>

lemma session_resolve_found:
  assumes "session_resolve E raw t w = (Inr (Some s), w')"
  obtains r where "r \<in> set (sessions w)" "sr_hash r = sha256_hex E raw" "sr_revoked_at r = None"
    "t \<le> sr_expires_at r" "t - sr_last_seen_at r \<le> inactive_idle" "s_user s = sr_user r"
    "users w' = users w" "user_roles w' = user_roles w"
  using assms unfolding session_resolve_def
  by (elim bindM_InrE sql_InrE liftR_InrE)
    (auto simp: session_verdict_def Let_def split: option.splits if_splits dest!: select_one_SomeD)

lemma resolve_session_needs:
  assumes "resolve_session E raw w = (Inr (Some rs), w')"
  shows "\<exists>s r u. s \<in> set (sessions w) \<and> sr_hash s = sha256_hex E raw \<and> sr_revoked_at s = None
    \<and> now w \<le> sr_expires_at s \<and> now w - sr_last_seen_at s \<le> inactive_idle
    \<and> r \<in> set (users w) \<and> ur_id r = sr_user s \<and> account_of E w r = Some u
    \<and> can_access_account (u_state u) \<and> rs_user rs = from_user u"
proof -
  from assms obtain s w1 u w2 where s: "session_resolve E raw (now w) w = (Inr (Some s), w1)"
    and u: "find_by_id E (s_user s) w1 = (Inr (Some u), w2)" "can_access_account (u_state u)" "rs_user rs = from_user u"
    unfolding resolve_session_def
    by (auto split: option.splits if_splits elim!: bindM_InrE getM_InrE retM_InrE)
  from s show ?thesis
  proof (rule session_resolve_found)
    fix r assume r: "r \<in> set (sessions w)" "sr_hash r = sha256_hex E raw" "sr_revoked_at r = None"
      "now w \<le> sr_expires_at r" "now w - sr_last_seen_at r \<le> inactive_idle" "s_user s = sr_user r"
      and same: "users w1 = users w" "user_roles w1 = user_roles w"
    from u(1) obtain x where x: "select_one (\<lambda>x. ur_id x = s_user s) (users w) = Some x" "account_of E w1 x = Some u"
      by (elim find_by_id_found) (simp add: same)
    have "account_of E w1 x = account_of E w x" by (simp add: account_of_def same split: sum.split option.split)
    with r x select_one_SomeD[OF x(1)] u(2,3) show ?thesis by auto
  qed
qed

text \<open>A cookie is worth what its row says: resolving a session yields a user only if a
  row with the hash of the cookie exists, is not revoked, is within its absolute cap and
  was seen in the last 30 days, and the account it belongs to decodes and is in a state
  that may use the site; the user returned is that account with its current roles.\<close>

lemma resolve_session_sound:
  assumes "resolve_session E raw w = (Inr (Some rs), w')"
  shows "\<exists>s r u. s \<in> set (sessions w) \<and> sr_hash s = sha256_hex E raw \<and> sr_revoked_at s = None
    \<and> now w \<le> sr_expires_at s \<and> now w - sr_last_seen_at s \<le> inactive_idle
    \<and> r \<in> set (users w) \<and> ur_id r = sr_user s \<and> account_of E w r = Some u
    \<and> can_access_account (u_state u) \<and> rs_user rs = from_user u"
  using resolve_session_needs[OF assms] .

text \<open>A row of that hash that is dead, or capped, does not resolve.\<close>

lemma pinned_not_resolved:
  assumes "pinned sr_hash (sha256_hex E raw) P (sessions w)"
    and "\<And>s. P s \<Longrightarrow> sr_revoked_at s \<noteq> None \<or> sr_expires_at s < now w"
  shows "fst (resolve_session E raw w) \<noteq> Inr (Some rs)"
proof
  assume "fst (resolve_session E raw w) = Inr (Some rs)"
  then obtain w' where "resolve_session E raw w = (Inr (Some rs), w')" by (metis prod.collapse)
  from resolve_session_needs[OF this] obtain s where
    "s \<in> set (sessions w)" "sr_hash s = sha256_hex E raw" "sr_revoked_at s = None" "now w \<le> sr_expires_at s"
    by blast
  with assms show False unfolding pinned_def by force
qed

lemma logout_pins:
  assumes "logout E raw w = (Inr (), w')" "sha256_hex E raw \<in> sr_hash ` set (sessions w)"
  shows "pinned sr_hash (sha256_hex E raw) (\<lambda>s. sr_revoked_at s \<noteq> None) (sessions w')"
  using assms unfolding logout_def session_revoke_def revoke_where_def
  by (elim command_InrE) (auto simp: pinned_def bex_update_where ball_update_where)

text \<open>C3: logging out is final: once the session of a cookie was revoked, no sequence of
  use cases, however the clock moves and whatever faults occur, makes the cookie resolve
  again.\<close>

theorem logout_is_final:
  assumes "logout E raw w = (Inr (), w')" and "sha256_hex E raw \<in> sr_hash ` set (sessions w)"
  shows "fst (resolve_session E raw (auth_run E acts w')) \<noteq> Inr (Some rs)"
proof -
  have "pinned sr_hash (sha256_hex E raw) (\<lambda>s. sr_revoked_at s \<noteq> None) (sessions (auth_run E acts w'))"
    by (rule dead_session.cred.keeps_run[OF logout_pins[OF assms]])
  then show ?thesis by (rule pinned_not_resolved) simp
qed

lemma login_pins:
  assumes "login E ip e pw w = (Inr out, w')"
  shows "pinned sr_hash (sha256_hex E (lo_session out)) (\<lambda>s. sr_expires_at s \<le> now w + absolute_cap) (sessions w')"
  using assms
proof (rule login_needs)
  fix u v assume q: "quiet w v" and o: "open_session E u (now v) v = (Inr out, w')"
  have fresh: "sha256_hex E (lo_session out) \<notin> sr_hash ` set (sessions w)"
    using open_session_opens[OF o] unfolding quiet_fields(4)[OF q] by blast
  then show ?thesis
    using open_session_opens[OF o] unfolding pinned_def
    by (auto simp: fresh_session_def quiet_fields[OF q]) (metis imageI)
qed

text \<open>A session ends: 90 days after the login that opened it, its cookie no longer
  resolves, however often it was used and whatever else happened in between.\<close>

lemma session_ends:
  assumes "login E ip e pw w = (Inr out, w')" and "now w + days 90 < now (auth_run E acts w')"
  shows "fst (resolve_session E (lo_session out) (auth_run E acts w')) \<noteq> Inr (Some rs)"
proof -
  have "pinned sr_hash (sha256_hex E (lo_session out)) (\<lambda>s. sr_expires_at s \<le> now w + absolute_cap)
      (sessions (auth_run E acts w'))"
    by (rule session_cap.cred.keeps_run[OF login_pins[OF assms(1)]])
  then show ?thesis by (rule pinned_not_resolved) (use assms(2) in \<open>auto simp: absolute_cap_def\<close>)
qed

section \<open>Suspension\<close>

lemma update_user_fields:
  assumes "update_user E i f w = (Inr u, w')"
  shows "users w' = update_where (\<lambda>r. ur_id r = i) (\<lambda>r. (f r)\<lparr>ur_updated_at := now w\<rparr>) (users w)"
    "sessions w' = sessions w" "identities w' = identities w" "now w' = now w"
  using assms unfolding update_user_def by (auto simp: Let_def elim!: sql_InrE)

lemma revoke_where_fields:
  assumes "revoke_where P w = (Inr u, w')"
  shows "sessions w' =
      update_where (\<lambda>r. P r \<and> sr_revoked_at r = None) (\<lambda>r. r\<lparr>sr_revoked_at := Some (now w)\<rparr>) (sessions w)"
    "users w' = users w" "identities w' = identities w" "reset_tokens w' = reset_tokens w"
    "verif_tokens w' = verif_tokens w"
  using assms unfolding revoke_where_def by (auto elim!: command_InrE)

lemma revoke_all_effect:
  assumes "revoke_all_for_user_except E i keep w = (Inr u, w')"
  shows "\<forall>s \<in> set (sessions w'). sr_user s = i \<longrightarrow> sr_hash s = sha256_hex E keep \<or> sr_revoked_at s \<noteq> None"
  using assms unfolding revoke_all_for_user_except_def
  by (simp only: revoke_where_fields(1) ball_update_where) auto

lemma logged_fields [simp]:
  "users (logged ev w) = users w" "sessions (logged ev w) = sessions w" "identities (logged ev w) = identities w"
  "reset_tokens (logged ev w) = reset_tokens w" "verif_tokens (logged ev w) = verif_tokens w"
  "user_roles (logged ev w) = user_roles w"
  by (simp_all add: logged_def)

lemma audit_fields:
  assumes "audit ev w = (Inr u, w')"
  shows "users w' = users w" "sessions w' = sessions w" "identities w' = identities w"
    "reset_tokens w' = reset_tokens w" "verif_tokens w' = verif_tokens w" "user_roles w' = user_roles w"
  using audit_InrE[OF assms] by (metis logged_fields tables_of_sel)+

lemma suspend_user_effect:
  assumes "suspend_user E actor i w = (Inr (), w')"
  shows "RAdmin \<in> set (au_roles actor)"
    and "\<forall>r \<in> set (users w'). ur_id r = i \<longrightarrow> account_state_from (ur_state r) = Some Suspended"
    and "\<forall>s \<in> set (sessions w'). sr_user s = i \<longrightarrow> sr_hash s = sha256_hex E zero_session \<or> sr_revoked_at s \<noteq> None"
proof -
  from assms show "RAdmin \<in> set (au_roles actor)"
    by (auto simp: suspend_user_def actor_has_role_def throwM_exec split: if_splits)
  from assms obtain w1 w2 where w1: "set_state E i Suspended w = (Inr (), w1)"
    and w2: "revoke_all_for_user_except E i zero_session w1 = (Inr (), w2)"
    and w3: "audit (user_event (Some (au_id actor)) ''user.suspended'' i) w2 = (Inr (), w')"
    by (auto simp: suspend_user_def throwM_exec split: if_splits elim!: thenM_InrE)
  have u: "users w' = users w1" "sessions w' = sessions w2"
    using revoke_where_fields(2)[OF w2[unfolded revoke_all_for_user_except_def]] audit_fields[OF w3] by simp_all
  show "\<forall>r \<in> set (users w'). ur_id r = i \<longrightarrow> account_state_from (ur_state r) = Some Suspended"
    unfolding u update_user_fields(1)[OF w1[unfolded set_state_def]] ball_update_where
    by (simp add: account_state.from_as)
  show "\<forall>s \<in> set (sessions w'). sr_user s = i \<longrightarrow> sr_hash s = sha256_hex E zero_session \<or> sr_revoked_at s \<noteq> None"
    unfolding u by (rule revoke_all_effect[OF w2])
qed

text \<open>A suspended account neither resolves nor logs in.\<close>

lemma suspended_shut_out:
  assumes "\<forall>r \<in> set (users w). ur_id r = i \<longrightarrow> account_state_from (ur_state r) = Some Suspended"
  shows "resolve_session E raw w = (Inr (Some rs), w') \<Longrightarrow> au_id (rs_user rs) \<noteq> i"
    and "login E ip e pw w = (Inr out, w') \<Longrightarrow> au_id (lo_user out) \<noteq> i"
proof -
  assume "resolve_session E raw w = (Inr (Some rs), w')"
  from resolve_session_needs[OF this] obtain r u where
    r: "r \<in> set (users w)" "account_of E w r = Some u" "can_access_account (u_state u)" "rs_user rs = from_user u" by blast
  with account_of_parts[OF r(2)] assms show "au_id (rs_user rs) \<noteq> i"
    by (auto simp: from_user_def can_access_account_def)
next
  assume "login E ip e pw w = (Inr out, w')"
  then show "au_id (lo_user out) \<noteq> i"
  proof (rule login_needs)
    fix email u v assume o: "open_session E u (now v) v = (Inr out, w')"
      and "\<exists>idn r h. select_one (\<lambda>x. ir_provider x = provider_code PasswordProvider \<and> ir_subject x = email) (identities w) = Some idn
      \<and> ir_hash idn = Some h \<and> ax_verify E pw h = Some True
      \<and> select_one (\<lambda>x. ur_id x = ir_user idn) (users w) = Some r \<and> account_of E w r = Some u \<and> can_log_in (u_state u)"
    then obtain j r where r: "select_one (\<lambda>x. ur_id x = j) (users w) = Some r" "account_of E w r = Some u"
        "can_log_in (u_state u)" by blast
    with account_of_parts[OF r(2)] select_one_SomeD[OF r(1)] open_session_opens[OF o] assms show "au_id (lo_user out) \<noteq> i"
      by (auto simp: from_user_def can_log_in_def)
  qed
qed

text \<open>C2: suspension takes effect at once: after an administrator's suspension returned, no
  cookie resolves to the suspended account and no login opens a session for it, at any
  later time and under any database faults, until another use case changes its state.\<close>

theorem suspension_is_immediate:
  assumes "suspend_user E actor i w = (Inr (), w')"
  shows "RAdmin \<in> set (au_roles actor)
    \<and> (\<forall>raw rs v. resolve_session E raw (w'\<lparr>now := t, faults := fs\<rparr>) = (Inr (Some rs), v) \<longrightarrow> au_id (rs_user rs) \<noteq> i)
    \<and> (\<forall>ip e pw out v. login E ip e pw (w'\<lparr>now := t, faults := fs\<rparr>) = (Inr out, v) \<longrightarrow> au_id (lo_user out) \<noteq> i)
    \<and> (\<forall>s \<in> set (sessions w'). sr_user s = i \<longrightarrow> sr_hash s = sha256_hex E zero_session \<or> sr_revoked_at s \<noteq> None)"
proof -
  have "\<forall>r \<in> set (users (w'\<lparr>now := t, faults := fs\<rparr>)). ur_id r = i \<longrightarrow> account_state_from (ur_state r) = Some Suspended"
    using suspend_user_effect(2)[OF assms] by simp
  from suspended_shut_out[OF this] suspend_user_effect(1,3)[OF assms] show ?thesis by blast
qed

section \<open>Mailed links\<close>

lemma confirm_email_fields:
  assumes "confirm_email E i t e w = (Inr u, w')"
  shows "users w' = update_where (\<lambda>r. ur_id r = i)
      (\<lambda>r. r\<lparr>ur_email := e, ur_verified_at := Some t, ur_state := lit ''ACTIVE'', ur_updated_at := now w\<rparr>) (users w)"
    "identities w' = update_where (\<lambda>x. ir_user x = i \<and> ir_provider x = lit ''password'') (\<lambda>x. x\<lparr>ir_subject := e\<rparr>) (identities w)"
    "verif_tokens w' = verif_tokens w"
  using assms unfolding confirm_email_def update_user_def update_password_identity_def
  by (auto simp: Let_def elim!: transaction_InrE thenM_InrE sql_InrE)

lemma consume_verification_InrE:
  assumes "consume_verification E tok t w = (Inr (Some p), w')"
  obtains v where "v \<in> set (verif_tokens w)" "vr_hash v = sha256_hex E tok" "vr_used_at v = None" "t < vr_expires_at v"
    "p = (vr_user v, vr_email v)" "verif_tokens w' = snd (consume_verif_table (sha256_hex E tok) t (verif_tokens w))"
    "users w' = users w" "identities w' = identities w"
  using assms unfolding consume_verification_def
  by (elim sql_InrE) (auto simp: consume_verif_table_def Let_def dest!: select_one_SomeD)

lemma consume_reset_InrE:
  assumes "consume_reset E tok t w = (Inr (Some i), w')"
  obtains r where "r \<in> set (reset_tokens w)" "rr_hash r = sha256_hex E tok" "rr_used_at r = None" "t < rr_expires_at r"
    "i = rr_user r" "reset_tokens w' = snd (consume_reset_table (sha256_hex E tok) t (reset_tokens w))"
    "users w' = users w" "identities w' = identities w" "sessions w' = sessions w"
  using assms unfolding consume_reset_def
  by (elim sql_InrE) (auto simp: consume_reset_table_def Let_def dest!: select_one_SomeD)

lemma verify_email_effect:
  assumes "verify_email E raw w = (Inr (), w')"
  shows "\<exists>tok v new. decode_token E raw = Some tok \<and> v \<in> set (verif_tokens w) \<and> vr_hash v = sha256_hex E tok
    \<and> vr_used_at v = None \<and> now w < vr_expires_at v \<and> parse_email (ax_lower E) (vr_email v) = Inr new
    \<and> (\<forall>r \<in> set (users w'). ur_id r = vr_user v \<longrightarrow>
          ur_email r = new \<and> ur_verified_at r = Some (now w) \<and> ur_state r = lit ''ACTIVE'')
    \<and> (\<forall>x \<in> set (identities w'). ir_user x = vr_user v \<and> ir_provider x = lit ''password'' \<longrightarrow> ir_subject x = new)
    \<and> verif_tokens w' = snd (consume_verif_table (sha256_hex E tok) (now w) (verif_tokens w))"
proof -
  from assms obtain tok i email u new ch w1 w2 w3 w4 where
    tok: "decode_token E raw = Some tok" and new: "parse_email (ax_lower E) email = Inr new"
    and w1: "consume_verification E tok (now w) w = (Inr (Some (i, email)), w1)"
    and w2: "find_by_id E i w1 = (Inr (Some u), w2)"
    and w3: "confirm_email E i (now w) new w2 = (Inr (), w3)"
    and w4: "whenM ch (revoke_all_for_user_except E i zero_session) w3 = (Inr (), w4)"
    and w5: "audit (user_event (Some i) (if ch then ''auth.email_changed'' else ''auth.email_verified'') i) w4 = (Inr (), w')"
    unfolding verify_email_def Let_def
    by (auto split: option.splits prod.splits elim!: InrEs simp: throwM_exec)
  have q: "quiet w1 w2" using w2 by (rule quiet_reads)
  have w4s: "users w4 = users w3" "identities w4 = identities w3" "verif_tokens w4 = verif_tokens w3"
    using w4 by (auto simp: revoke_all_for_user_except_def elim!: whenM_InrE dest: revoke_where_fields)
  note same = audit_fields[OF w5] w4s confirm_email_fields[OF w3] quiet_fields[OF q]
  from w1 show ?thesis
  proof (rule consume_verification_InrE)
    fix v assume v: "v \<in> set (verif_tokens w)" "vr_hash v = sha256_hex E tok" "vr_used_at v = None"
      "now w < vr_expires_at v" "(i, email) = (vr_user v, vr_email v)"
      and c: "verif_tokens w1 = snd (consume_verif_table (sha256_hex E tok) (now w) (verif_tokens w))"
    show ?thesis
      using v new tok by (intro exI[of _ tok] exI[of _ v] exI[of _ new]) (auto simp: same ball_update_where c)
  qed
qed

lemma reset_password_effect:
  assumes "reset_password E raw pw w = (Inr (), w')"
  shows "\<exists>tok r salt h. decode_token E raw = Some tok \<and> r \<in> set (reset_tokens w) \<and> rr_hash r = sha256_hex E tok
    \<and> rr_used_at r = None \<and> now w < rr_expires_at r
    \<and> validate_password pw = Inr () \<and> ax_hash E pw salt = Some h
    \<and> (\<forall>x \<in> set (identities w'). ir_user x = rr_user r \<and> ir_provider x = lit ''password'' \<longrightarrow> ir_hash x = Some h)
    \<and> (\<forall>s \<in> set (sessions w'). sr_user s = rr_user r \<longrightarrow> sr_hash s = sha256_hex E zero_session \<or> sr_revoked_at s \<noteq> None)
    \<and> users w' = users w
    \<and> reset_tokens w' = snd (consume_reset_table (sha256_hex E tok) (now w) (reset_tokens w))"
proof -
  from assms obtain tok i h w1 w3 w4 where
    tok: "decode_token E raw = Some tok"
    and pw: "validate_password pw = Inr ()" "ax_hash E pw (entropy w1 (drawn w1)) = Some h"
    and w1: "consume_reset E tok (now w) w = (Inr (Some i), w1)"
    and w3: "set_password i h (w1\<lparr>drawn := Suc (drawn w1)\<rparr>) = (Inr (), w3)"
    and w4: "revoke_all_for_user_except E i zero_session w3 = (Inr (), w4)"
    and w5: "audit (user_event (Some i) ''auth.password_changed'' i) w4 = (Inr (), w')"
    unfolding reset_password_def validate_policy_def hash_password_def
    by (auto split: option.splits elim!: InrEs random_bytes_InrE simp: throwM_exec)
  have p: "identities w3 = update_where (\<lambda>x. ir_user x = i \<and> ir_provider x = lit ''password'') (\<lambda>x. x\<lparr>ir_hash := Some h\<rparr>) (identities w1)"
    "users w3 = users w1" "reset_tokens w3 = reset_tokens w1"
    using w3 unfolding set_password_def update_password_identity_def by (auto simp: Let_def elim!: sql_InrE)
  note same = audit_fields[OF w5] revoke_where_fields(2-)[OF w4[unfolded revoke_all_for_user_except_def]] p
  from w1 show ?thesis
  proof (rule consume_reset_InrE)
    fix r assume r: "r \<in> set (reset_tokens w)" "rr_hash r = sha256_hex E tok" "rr_used_at r = None"
      "now w < rr_expires_at r" "i = rr_user r"
      and c: "reset_tokens w1 = snd (consume_reset_table (sha256_hex E tok) (now w) (reset_tokens w))" "users w1 = users w"
    show ?thesis
      using r tok pw revoke_all_effect[OF w4]
      by (intro exI[of _ tok] exI[of _ r] exI[of _ "entropy w1 (drawn w1)"] exI[of _ h]) (auto simp: same ball_update_where c)
  qed
qed

text \<open>A verification link confirms its address: if following it succeeds, it named an
  unspent, unexpired token; the account it was issued to now has that address, verified
  now, also as the subject of its password identity, and is ACTIVE, whatever its state was
  before (a suspended account included).\<close>

lemma verification_link_confirms:
  assumes "verify_email E raw w = (Inr (), w')"
  shows "\<exists>tok v new. decode_token E raw = Some tok \<and> v \<in> set (verif_tokens w) \<and> vr_hash v = sha256_hex E tok
    \<and> vr_used_at v = None \<and> now w < vr_expires_at v \<and> parse_email (ax_lower E) (vr_email v) = Inr new
    \<and> (\<forall>r \<in> set (users w'). ur_id r = vr_user v \<longrightarrow>
          ur_email r = new \<and> ur_verified_at r = Some (now w) \<and> ur_state r = lit ''ACTIVE'')
    \<and> (\<forall>x \<in> set (identities w'). ir_user x = vr_user v \<and> ir_provider x = lit ''password'' \<longrightarrow> ir_subject x = new)"
  using verify_email_effect[OF assms] by blast

text \<open>A reset link sets the password and ends every session: if following it succeeds,
  it named an unspent, unexpired token and the new password satisfies the policy; every
  password identity of the account stores the hash of the new password under a fresh
  salt, no session of the account (but that of the all-zero id) is left alive, and the
  account itself is untouched.\<close>

lemma reset_link_replaces_password:
  assumes "reset_password E raw pw w = (Inr (), w')"
  shows "\<exists>tok r salt h. decode_token E raw = Some tok \<and> r \<in> set (reset_tokens w) \<and> rr_hash r = sha256_hex E tok
    \<and> rr_used_at r = None \<and> now w < rr_expires_at r
    \<and> validate_password pw = Inr () \<and> ax_hash E pw salt = Some h
    \<and> (\<forall>x \<in> set (identities w'). ir_user x = rr_user r \<and> ir_provider x = lit ''password'' \<longrightarrow> ir_hash x = Some h)
    \<and> (\<forall>s \<in> set (sessions w'). sr_user s = rr_user r \<longrightarrow> sr_hash s = sha256_hex E zero_session \<or> sr_revoked_at s \<noteq> None)
    \<and> users w' = users w"
  using reset_password_effect[OF assms] by blast

section \<open>Each link is used once\<close>

lemma consumed_verif_pinned:
  assumes "distinct (map vr_hash tbl)" "v \<in> set tbl" "vr_hash v = h" "vr_used_at v = None" "t < vr_expires_at v"
  shows "pinned vr_hash h (\<lambda>r. vr_used_at r \<noteq> None) (snd (consume_verif_table h t tbl))"
proof -
  have u: "r = v" if "r \<in> set tbl" "vr_hash r = h" for r
    using unique_row[OF assms(1) that(1) assms(2)] that(2) assms(3) by simp
  show ?thesis
    unfolding pinned_def consume_verif_table_def Let_def snd_conv bex_update_where ball_update_where
  proof (intro conjI ballI impI)
    let ?f = "\<lambda>r. if vr_hash r = h \<and> vr_used_at r = None \<and> t < vr_expires_at r then r\<lparr>vr_used_at := Some t\<rparr> else r"
    show "\<exists>r \<in> set tbl. vr_hash (?f r) = h" using assms(2,3) by (intro bexI[of _ v]) simp_all
    fix r assume r: "r \<in> set tbl" "vr_hash (?f r) = h"
    then have "r = v" by (intro u) (simp_all split: if_splits)
    then show "vr_used_at (?f r) \<noteq> None" using assms(3-5) by simp
  qed
qed

lemma consumed_reset_pinned:
  assumes "distinct (map rr_hash tbl)" "v \<in> set tbl" "rr_hash v = h" "rr_used_at v = None" "t < rr_expires_at v"
  shows "pinned rr_hash h (\<lambda>r. rr_used_at r \<noteq> None) (snd (consume_reset_table h t tbl))"
proof -
  have u: "r = v" if "r \<in> set tbl" "rr_hash r = h" for r
    using unique_row[OF assms(1) that(1) assms(2)] that(2) assms(3) by simp
  show ?thesis
    unfolding pinned_def consume_reset_table_def Let_def snd_conv bex_update_where ball_update_where
  proof (intro conjI ballI impI)
    let ?f = "\<lambda>r. if rr_hash r = h \<and> rr_used_at r = None \<and> t < rr_expires_at r then r\<lparr>rr_used_at := Some t\<rparr> else r"
    show "\<exists>r \<in> set tbl. rr_hash (?f r) = h" using assms(2,3) by (intro bexI[of _ v]) simp_all
    fix r assume r: "r \<in> set tbl" "rr_hash (?f r) = h"
    then have "r = v" by (intro u) (simp_all split: if_splits)
    then show "rr_used_at (?f r) \<noteq> None" using assms(3-5) by simp
  qed
qed

text \<open>C5: a verification link works once: after it was followed with success, following it
  again fails, after any sequence of use cases, at any time and under any faults.\<close>

theorem verification_link_single_use:
  assumes "wf_auth E w" and "verify_email E raw w = (Inr (), w')"
  shows "fst (verify_email E raw (auth_run E acts w')) \<noteq> Inr ()"
proof
  assume "fst (verify_email E raw (auth_run E acts w')) = Inr ()"
  then obtain w'' where again: "verify_email E raw (auth_run E acts w') = (Inr (), w'')" by (metis prod.collapse)
  from verify_email_effect[OF assms(2)] obtain tok v where
    v: "decode_token E raw = Some tok" "v \<in> set (verif_tokens w)" "vr_hash v = sha256_hex E tok"
      "vr_used_at v = None" "now w < vr_expires_at v"
      "verif_tokens w' = snd (consume_verif_table (sha256_hex E tok) (now w) (verif_tokens w))" by blast
  have "pinned vr_hash (sha256_hex E tok) (\<lambda>r. vr_used_at r \<noteq> None) (verif_tokens w')"
    unfolding v(6) by (rule consumed_verif_pinned[OF _ v(2-5)]) (use assms(1) in \<open>simp add: wf_auth_def\<close>)
  from spent_link.cred.keeps_run[where E = E and acts = acts, OF this] verify_email_effect[OF again] v(1)
  show False by (auto simp: pinned_def)
qed

text \<open>A reset link works once: after it set a password, it never sets another.\<close>

lemma reset_link_single_use:
  assumes "wf_auth E w" and "reset_password E raw pw w = (Inr (), w')"
  shows "fst (reset_password E raw pw' (auth_run E acts w')) \<noteq> Inr ()"
proof
  assume "fst (reset_password E raw pw' (auth_run E acts w')) = Inr ()"
  then obtain w'' where again: "reset_password E raw pw' (auth_run E acts w') = (Inr (), w'')" by (metis prod.collapse)
  from reset_password_effect[OF assms(2)] obtain tok r where
    r: "decode_token E raw = Some tok" "r \<in> set (reset_tokens w)" "rr_hash r = sha256_hex E tok"
      "rr_used_at r = None" "now w < rr_expires_at r"
      "reset_tokens w' = snd (consume_reset_table (sha256_hex E tok) (now w) (reset_tokens w))" by blast
  have "pinned rr_hash (sha256_hex E tok) (\<lambda>r. rr_used_at r \<noteq> None) (reset_tokens w')"
    unfolding r(6) by (rule consumed_reset_pinned[OF _ r(2-5)]) (use assms(1) in \<open>simp add: wf_auth_def\<close>)
  from spent_reset.cred.keeps_run[where E = E and acts = acts, OF this] reset_password_effect[OF again] r(1)
  show False by (auto simp: pinned_def)
qed

text \<open>A weak password fails after the token was spent: the link is burnt without effect.\<close>

lemma weak_password_burns_link:
  assumes "faults w = []" "decode_token E raw = Some tok" "reset_valid (reset_tokens w) (sha256_hex E tok) (now w)"
    and "validate_password pw = Inl WeakPassword" "distinct (map rr_hash (reset_tokens w))"
  shows "\<exists>w'. reset_password E raw pw w = (Inl AuthWeakPassword, w') \<and> identities w' = identities w
    \<and> \<not> reset_valid (reset_tokens w') (sha256_hex E tok) t"
proof -
  let ?c = "consume_reset_table (sha256_hex E tok) (now w) (reset_tokens w)"
  have some: "fst ?c \<noteq> None" using resets.honours_valid assms(3) by blast
  then obtain i where i: "fst ?c = Some i" by blast
  have "reset_password E raw pw w = (Inl AuthWeakPassword, w\<lparr>reset_tokens := snd ?c\<rparr>)"
    using assms i
    by (simp add: reset_password_def exec consume_reset_def split_beta validate_policy_def auth_of_domain_def)
  then show ?thesis using resets.spends[OF assms(5) some, of t] by simp
qed

section \<open>Registering a taken address\<close>

text \<open>Registration does not tell whether an address is taken: with nothing in the way,
  the answer for a taken address is the same success as for a free one, the password is
  verified against a dummy hash, and no table changes: no mail, no token, no audit record.\<close>

lemma register_taken_is_silent:
  assumes "faults w = []" "lit ''register:ip:'' @ ip \<notin> keys_of (limiter w)"
    and "parse_email (ax_lower E) raw_email = Inr email" "validate_password pw = Inr ()"
    and "select_one (\<lambda>r. ax_pg_lower E (ur_email r) = to_lowercase (ax_lower E) email) (users w) = Some r"
    and "account_of E w r = Some u" "ax_verify E pw dummy_hash = Some b"
  shows "\<exists>w'. register E ip raw_email name pw loc w = (Inr (), w') \<and> tables_of w' = tables_of w"
proof -
  from allowed_fresh[OF assms(2), of register_ip_limit "hours 1"] obtain l where
    l: "allowed (lit ''register:ip:'' @ ip) register_ip_limit (hours 1) w = (Inr (), w\<lparr>limiter := l\<rparr>)"
    by (auto simp: register_ip_limit_def)
  have "find_by_email E email (w\<lparr>limiter := l\<rparr>) = (Inr (Some u), w\<lparr>limiter := l\<rparr>)"
    using assms by (intro find_by_email_exec[where r = r]) simp_all
  then show ?thesis
    using assms by (simp add: register_def exec l validate_policy_def verify_password_def)
qed

section \<open>Invariants of every run\<close>

text \<open>The account tables stay well formed: keys stay unique and every identity, session,
  token and role belongs to an existing account, along every sequence of use cases, clock
  ticks and database faults.\<close>

lemma accounts_stay_well_formed:
  assumes "wf_auth E w" shows "wf_auth E (auth_run E acts w)"
  using assms by (rule wf.keeps_run)

text \<open>An administrator always remains: no sequence of use cases, by whatever actors,
  takes the last ADMIN role away.\<close>

lemma admin_remains:
  assumes "wf_auth E w" and "has_admin w" shows "has_admin (auth_run E acts w)"
  using admins.keeps_run[of E w acts] assms by simp

text \<open>C4: the login key never diverges: along every run, the subject of each password
  identity is the email of the account it belongs to, although they live in two tables
  and change in different statements, any of which may fail.\<close>

theorem login_keys_never_diverge:
  assumes "oauth_is_external E" and "login_keys_agree w" shows "login_keys_agree (auth_run E acts w)"
  using auth_invariant.keeps_run[OF login_keys_invariant[OF assms(1)] assms(2)] .

end
