(* ===== verification/Auth_Demo.thy ===== *)
theory Auth_Demo
  imports Auth_Credentials
begin

text \<open>
  A small instance: an administrator (account 2), an active account (1) with a password, a
  session and a reset link, and a suspended account (3) with a verification link.  The
  functions outside the repository are instantiated by concrete ones with the properties
  the code relies on, and the guarantees are applied to it.
\<close>

section \<open>The instance\<close>

definition demo_E :: auth_externals where
  "demo_E =
     \<lparr>ax_lower = (\<lambda>s i. [s ! i]), ax_pg_lower = id, ax_sha256 = take 1,
      ax_b64 = \<lparr>b64_encode = map unat, b64_decode = (\<lambda>s. Some (map of_nat s))\<rparr>,
      ax_hash = (\<lambda>pw salt. Some (104 # pw)), ax_verify = (\<lambda>pw h. Some (h = 104 # pw)),
      ax_oauth = (\<lambda>code. Inr \<lparr>pi_provider = Google, pi_subject = code, pi_email = lit ''a@b.c'', pi_email_verified = True\<rparr>),
      ax_base_url = lit ''https://x''\<rparr>"

definition block_of :: "nat \<Rightarrow> byte list" where
  "block_of k = replicate 32 (of_nat k)"

definition demo_user :: "int \<Rightarrow> string \<Rightarrow> string \<Rightarrow> user_row" where
  "demo_user i e st =
     \<lparr>ur_id = i, ur_email = lit e, ur_display_name = None, ur_state = lit st, ur_verified_at = Some 0,
      ur_locale = lit ''en'', ur_updated_at = 0,
      ur_created_at = 0, ur_deleted_at = None\<rparr>"

definition demo_session :: session_row where
  "demo_session = fresh_session demo_E 1 (block_of 1) (block_of 2) 500000"

definition demo_identity :: identity_row where
  "demo_identity = \<lparr>ir_id = 1, ir_user = 1, ir_provider = lit ''password'', ir_subject = lit ''a@b.c'',
                    ir_hash = Some (104 # lit ''password12'')\<rparr>"

definition demo_verif :: verification_row where
  "demo_verif = \<lparr>vr_hash = sha256_hex demo_E (block_of 3), vr_user = 3, vr_email = lit ''s@b.c'',
                 vr_expires_at = 2000000, vr_used_at = None\<rparr>"

definition demo_reset :: reset_row where
  "demo_reset = \<lparr>rr_hash = sha256_hex demo_E (block_of 4), rr_user = 1, rr_expires_at = 2000000, rr_used_at = None\<rparr>"

definition demo_auth :: auth_world where
  "demo_auth =
     \<lparr>now = 1000000, faults = [], entropy = block_of, drawn = 9, jobs = [], next_job = 1,
      limiter = \<lparr>bk_map = [], bk_since_sweep = 0\<rparr>,
      users = [demo_user 1 ''a@b.c'' ''ACTIVE'', demo_user 2 ''m@b.c'' ''ACTIVE'', demo_user 3 ''s@b.c'' ''SUSPENDED''],
      next_user = 4, identities = [demo_identity], next_identity = 2, sessions = [demo_session],
      verif_tokens = [demo_verif], reset_tokens = [demo_reset],
      user_roles = [\<lparr>rl_user = 2, rl_role = lit ''ADMIN'', rl_granted_by = None, rl_granted_at = 0\<rparr>],
      audit_events = [], next_audit = 1\<rparr>"

definition demo_admin :: authenticated_user where
  "demo_admin = \<lparr>au_id = 2, au_email = lit ''m@b.c'', au_display_name = None, au_state = Active, au_verified = True,
                 au_roles = [RAdmin, RUser]\<rparr>"

lemma demo_fields [simp]:
  "now demo_auth = 1000000" "faults demo_auth = []" "entropy demo_auth = block_of" "drawn demo_auth = 9" "next_user demo_auth = 4"
  "sessions demo_auth = [demo_session]" "identities demo_auth = [demo_identity]"
  "verif_tokens demo_auth = [demo_verif]" "reset_tokens demo_auth = [demo_reset]" "keys_of (limiter demo_auth) = {}"
  "users demo_auth = [demo_user 1 ''a@b.c'' ''ACTIVE'', demo_user 2 ''m@b.c'' ''ACTIVE'', demo_user 3 ''s@b.c'' ''SUSPENDED'']"
  "user_roles demo_auth = [\<lparr>rl_user = 2, rl_role = lit ''ADMIN'', rl_granted_by = None, rl_granted_at = 0\<rparr>]"
  by (simp_all add: demo_auth_def keys_of_def)

lemma demo_rows [simp]:
  "ur_id (demo_user i e st) = i" "ur_email (demo_user i e st) = lit e" "ur_state (demo_user i e st) = lit st"
  "sr_hash demo_session = sha256_hex demo_E (block_of 1)" "sr_user demo_session = 1" "sr_revoked_at demo_session = None"
  "ir_user demo_identity = 1" "ir_provider demo_identity = lit ''password''" "ir_subject demo_identity = lit ''a@b.c''"
  "ir_hash demo_identity = Some (104 # lit ''password12'')"
  "vr_hash demo_verif = sha256_hex demo_E (block_of 3)" "vr_user demo_verif = 3" "vr_email demo_verif = lit ''s@b.c''"
  "vr_used_at demo_verif = None" "vr_expires_at demo_verif = 2000000"
  "rr_hash demo_reset = sha256_hex demo_E (block_of 4)" "rr_user demo_reset = 1" "rr_used_at demo_reset = None"
  "rr_expires_at demo_reset = 2000000"
  by (simp_all add: demo_user_def demo_session_def fresh_session_def demo_identity_def demo_verif_def demo_reset_def)

lemma demo_externals_simps [simp]:
  "ax_pg_lower demo_E = id" "ax_verify demo_E pw h = Some (h = 104 # pw)" "ax_hash demo_E pw salt = Some (104 # pw)"
  "decode_token demo_E (replicate 32 k) = Some (block_of k)"
  "sha256_hex demo_E (block_of k) = byte_to_hex (of_nat k)"
  by (simp_all add: demo_E_def decode_token_def token_from_base64url_def block_of_def sha256_hex_def bytes_to_hex_def)

lemma demo_parse [simp]:
  "parse_email (ax_lower demo_E) (lit '' A@b.c '') = Inr (lit ''a@b.c'')"
  "parse_email (ax_lower demo_E) (lit ''a@b.c'') = Inr (lit ''a@b.c'')"
  "parse_email (ax_lower demo_E) (lit ''m@b.c'') = Inr (lit ''m@b.c'')"
  "parse_email (ax_lower demo_E) (lit ''s@b.c'') = Inr (lit ''s@b.c'')"
  by (simp_all add: demo_E_def parse_email_def to_lowercase_def trim_def trim_start_def trim_end_def is_whitespace_def
      lit_def split_once_def is_ascii_def to_ascii_lower_char_def Let_def)

lemma demo_password [simp]: "validate_password (lit ''new-password'') = Inr ()"
  by (simp add: validate_password_def policy_min_len_def lit_def)

lemma demo_states [simp]:
  "account_state_from (lit ''ACTIVE'') = Some Active" "account_state_from (lit ''SUSPENDED'') = Some Suspended"
  by code_simp+

lemma demo_emails [simp]:
  "lit ''a@b.c'' \<noteq> lit ''m@b.c''" "lit ''a@b.c'' \<noteq> lit ''s@b.c''" "lit ''m@b.c'' \<noteq> lit ''s@b.c''"
  by code_simp+

lemma demo_wf_users: "wf_users demo_E demo_auth"
  by (simp add: wf_users_def)

lemma demo_auth_wf: "wf_auth demo_E demo_auth"
  using demo_wf_users by (simp add: wf_auth_def user_exists_def)

lemma demo_has_admin: "has_admin demo_auth"
  by (simp add: has_admin_def)

lemma demo_login_keys: "login_keys_agree demo_auth" "oauth_is_external demo_E"
  by (auto simp: login_keys_agree_def oauth_is_external_def demo_E_def)

lemma demo_logout: "fst (logout demo_E (block_of 1) demo_auth) = Inr ()"
  by (simp add: logout_def session_revoke_def revoke_where_def exec)

lemma demo_suspend: "fst (suspend_user demo_E demo_admin 1 demo_auth) = Inr ()"
  by (simp add: suspend_user_def demo_admin_def actor_has_role_def set_state_def update_user_def exec unique_emails_def
      check_unique_def lit_def revoke_all_for_user_except_def revoke_where_def audit_def audit_record_def
      user_event_def audit_success_def user_exists_def Let_def)

lemma demo_verify: "fst (verify_email demo_E (replicate 32 3) demo_auth) = Inr ()"
  by (simp add: verify_email_def exec consume_verification_def consume_verif_table_def select_one_def Let_def
      find_by_id_def load_optional_def load_user_def roles_by_sql_def sql_ok confirm_email_def update_user_def
      update_password_identity_def unique_emails_def unique_identities_def check_unique_def audit_def audit_record_def
      user_event_def audit_success_def user_exists_def identity_key_def)

lemma demo_reset: "fst (reset_password demo_E (replicate 32 4) (lit ''new-password'') demo_auth) = Inr ()"
  by (simp add: reset_password_def exec consume_reset_def consume_reset_table_def select_one_def Let_def
      validate_policy_def hash_password_def set_password_def update_password_identity_def unique_identities_def
      check_unique_def revoke_all_for_user_except_def revoke_where_def audit_def audit_record_def user_event_def
      audit_success_def user_exists_def)

lemma demo_account: "\<exists>u. account_of demo_E demo_auth (demo_user 1 ''a@b.c'' ''ACTIVE'') = Some u \<and> u_state u = Active"
  by (simp add: account_of_def Let_def)

lemma demo_may_log_in: "may_log_in demo_E demo_auth (lit ''a@b.c'') (lit ''password12'')"
  using demo_account
  by (auto simp: may_log_in_def select_one_def provider_code_def can_log_in_def)

lemma demo_unhindered: "unhindered demo_E (lit ''ip'') (lit ''a@b.c'') demo_auth"
  by (simp add: unhindered_def) (simp add: lit_def byte_to_hex_def hex_digit_def)

lemma demo_login:
  "\<exists>out w'. login demo_E (lit ''ip'') (lit '' A@b.c '') (lit ''password12'') demo_auth = (Inr out, w')"
  using login_opens demo_unhindered demo_may_log_in demo_parse(1) by blast

lemma demo_resolve: "\<exists>rs w'. resolve_session demo_E (block_of 1) demo_auth = (Inr (Some rs), w')"
proof -
  have c: "token_from_base64url (ax_b64 demo_E) (sr_csrf demo_session) = Some (block_of 2)"
    by (simp add: demo_session_def fresh_session_def demo_E_def token_from_base64url_def block_of_def)
  have t: "sr_expires_at demo_session = 500000 + absolute_cap" "sr_last_seen_at demo_session = 500000"
    by (simp_all add: demo_session_def fresh_session_def)
  have "\<exists>rs. fst (resolve_session demo_E (block_of 1) demo_auth) = Inr (Some rs)"
    by (simp add: resolve_session_def exec session_resolve_def session_verdict_def select_one_def Let_def c t
        slides_def absolute_cap_def inactive_idle_def last_seen_refresh_def time_units find_by_id_def load_optional_def
        load_user_def roles_by_sql_def can_access_account_def)
  then show ?thesis by (metis prod.collapse)
qed

section \<open>The guarantees on the instance\<close>

theorem login_sound_witness:
  "\<exists>out w'. login demo_E (lit ''ip'') (lit '' A@b.c '') (lit ''password12'') demo_auth = (Inr out, w')
    \<and> length (sessions w') = 2 \<and> users w' = users demo_auth"
proof -
  obtain out w' where r: "login demo_E (lit ''ip'') (lit '' A@b.c '') (lit ''password12'') demo_auth = (Inr out, w')"
    using demo_login by blast
  show ?thesis
    using login_sound[OF r] by (intro exI[of _ out] exI[of _ w'] conjI r) (auto simp: same_accounts_def)
qed

lemma demo_refused:
  "fst (login demo_E (lit ''ip'') (lit '' A@b.c '') (lit ''other'') demo_auth) = Inl InvalidCredentials"
proof -
  let ?k1 = "lit ''login:'' @ lit ''ip'' @ lit '':'' @ lit ''a@b.c''" and ?k2 = "lit ''login:ip:'' @ lit ''ip''"
  obtain l1 where l1: "allowed ?k1 login_limit (minutes 15) demo_auth = (Inr (), demo_auth\<lparr>limiter := l1\<rparr>)"
      "keys_of l1 \<subseteq> insert ?k1 {}"
    using allowed_fresh[of ?k1 demo_auth login_limit "minutes 15"] by (auto simp: login_limit_def)
  have "?k2 \<notin> keys_of (limiter (demo_auth\<lparr>limiter := l1\<rparr>))" using l1(2) demo_unhindered by (auto simp: unhindered_def)
  from allowed_fresh[OF this, of login_ip_limit "minutes 15"] obtain l2 where
    l2: "allowed ?k2 login_ip_limit (minutes 15) (demo_auth\<lparr>limiter := l1\<rparr>) = (Inr (), demo_auth\<lparr>limiter := l2\<rparr>)"
    by (auto simp: login_ip_limit_def)
  have n: "lit ''password12'' \<noteq> lit ''other''" by (simp add: lit_def)
  show ?thesis
    by (simp add: login_def exec l1 l2 find_identity_exec[where r = demo_identity] select_one_def provider_code_def n
        verify_password_def refuse_login_def audit_def audit_record_def audit_failure_def)
qed

theorem logout_is_final_witness:
  "\<forall>rs. fst (resolve_session demo_E (block_of 1)
     (auth_run demo_E [Tick 5, ResolveSession (block_of 1)] (snd (logout demo_E (block_of 1) demo_auth)))) \<noteq> Inr (Some rs)"
proof -
  have r: "logout demo_E (block_of 1) demo_auth = (Inr (), snd (logout demo_E (block_of 1) demo_auth))"
    using demo_logout by (metis prod.collapse)
  have "sha256_hex demo_E (block_of 1) \<in> sr_hash ` set (sessions demo_auth)" by simp
  from logout_is_final[OF r this] show ?thesis by blast
qed

theorem suspension_is_immediate_witness:
  "\<not> (\<exists>rs v. resolve_session demo_E (block_of 1) ((snd (suspend_user demo_E demo_admin 1 demo_auth))\<lparr>now := 2, faults := []\<rparr>)
     = (Inr (Some rs), v) \<and> au_id (rs_user rs) = 1)"
proof -
  have "suspend_user demo_E demo_admin 1 demo_auth = (Inr (), snd (suspend_user demo_E demo_admin 1 demo_auth))"
    using demo_suspend by (metis prod.collapse)
  from suspension_is_immediate[OF this] show ?thesis by blast
qed

text \<open>The link of the suspended account 3 makes it active again.\<close>

theorem verification_link_single_use_witness:
  "fst (verify_email demo_E (replicate 32 3)
     (auth_run demo_E [Tick 5, Logout (block_of 1)] (snd (verify_email demo_E (replicate 32 3) demo_auth)))) \<noteq> Inr ()"
proof -
  have "verify_email demo_E (replicate 32 3) demo_auth = (Inr (), snd (verify_email demo_E (replicate 32 3) demo_auth))"
    using demo_verify by (metis prod.collapse)
  from verification_link_single_use[OF demo_auth_wf this] show ?thesis .
qed

theorem login_keys_never_diverge_witness:
  "login_keys_agree (auth_run demo_E [ChangeEmail 1 (lit ''password12'') (lit ''z@b.c''), Faults [None, None, Some DbOther],
     VerifyEmailLink (replicate 32 3)] demo_auth)"
  by (rule login_keys_never_diverge[OF demo_login_keys(2,1)])

end
