(* ===== verification/Time_Zones.thy ===== *)
theory Time_Zones
  imports Dom_Parking
begin

text \<open>
  The offline time-zone resolver (\<open>infrastructure/src/timezone/offline.rs\<close>): two ordered
  tables of bounding boxes, the first box that contains the point decides.  A
  \<open>chrono_tz::Tz\<close> is represented by its IANA name.  A box is \<open>(lat_min, lat_max, lon_min,
  lon_max)\<close>; a comparison with a NaN coordinate is false.
\<close>

type_synonym bbox = "rat \<times> rat \<times> rat \<times> rat"

definition f64_ge :: "f64 \<Rightarrow> rat \<Rightarrow> bool" where
  "f64_ge x a = (case x of Fin q \<Rightarrow> a \<le> q | PosInf \<Rightarrow> True | _ \<Rightarrow> False)"

definition f64_le :: "f64 \<Rightarrow> rat \<Rightarrow> bool" where
  "f64_le x a = (case x of Fin q \<Rightarrow> q \<le> a | NegInf \<Rightarrow> True | _ \<Rightarrow> False)"

definition zones :: "(bbox \<times> ustring) list" where
  "zones =
     [((- 34, 5, - 74, - 34), lit ''America/Sao_Paulo''),
      ((24, 48, - 82, - 66), lit ''America/New_York''),
      ((25, 48, - 98, - 82), lit ''America/Chicago''),
      ((32, 49, - 125, - 98), lit ''America/Los_Angeles''),
      ((36, 58, - 12, 30), lit ''Europe/Paris''),
      ((50, 59, - 11, 2), lit ''Europe/London''),
      ((45, 56, 6, 24), lit ''Europe/Berlin''),
      ((44, 66, 28, 62), lit ''Europe/Moscow''),
      ((30, 46, 129, 146), lit ''Asia/Tokyo''),
      ((18, 50, 96, 135), lit ''Asia/Shanghai''),
      ((6, 35, 66, 92), lit ''Asia/Kolkata''),
      ((- 8, 23, 92, 122), lit ''Asia/Singapore''),
      ((- 44, - 10, 113, 154), lit ''Australia/Sydney''),
      ((14, 33, - 118, - 86), lit ''America/Mexico_City''),
      ((- 56, 2, - 81, - 58), lit ''America/Bogota'')]"

definition capitals :: "(bbox \<times> ustring) list" where
  "capitals =
     [((36, 42, - 10, - 6), lit ''Europe/Lisbon''),
      ((- 56, - 21, - 74, - 53), lit ''America/Argentina/Buenos_Aires''),
      ((- 56, - 17, - 76, - 66), lit ''America/Santiago''),
      ((60, 71, - 25, 30), lit ''Europe/Oslo''),
      ((24, 42, 26, 60), lit ''Asia/Dubai''),
      ((- 35, - 22, 16, 33), lit ''Africa/Johannesburg''),
      ((- 12, 36, 27, 52), lit ''Africa/Nairobi''),
      ((4, 19, 118, 126), lit ''Asia/Manila'')]"

definition default_zone :: ustring where
  "default_zone = lit ''Etc/UTC''"

definition in_box :: "geo_point \<Rightarrow> bbox \<Rightarrow> bool" where
  "in_box p b =
     (case b of (lat_min, lat_max, lon_min, lon_max) \<Rightarrow>
        f64_ge (gp_lat p) lat_min \<and> f64_le (gp_lat p) lat_max
        \<and> f64_ge (gp_lon p) lon_min \<and> f64_le (gp_lon p) lon_max)"

definition find_zone :: "geo_point \<Rightarrow> (bbox \<times> ustring) list \<Rightarrow> ustring option" where
  "find_zone p tbl = map_option snd (find (\<lambda>(b, _). in_box p b) tbl)"

definition resolve_zone :: "geo_point \<Rightarrow> ustring" where
  "resolve_zone p =
     (case find_zone p zones of
        Some z \<Rightarrow> z
      | None \<Rightarrow> (case find_zone p capitals of Some z \<Rightarrow> z | None \<Rightarrow> default_zone))"

section \<open>Which zones can be returned\<close>

definition box_within :: "bbox \<Rightarrow> bbox \<Rightarrow> bool" where
  "box_within a b =
     (case (a, b) of ((a1, a2, a3, a4), (b1, b2, b3, b4)) \<Rightarrow> b1 \<le> a1 \<and> a2 \<le> b2 \<and> b3 \<le> a3 \<and> a4 \<le> b4)"

lemma in_box_within: "box_within a b \<Longrightarrow> in_box p a \<Longrightarrow> in_box p b"
  by (cases a; cases b) (auto simp: box_within_def in_box_def f64_ge_def f64_le_def split: f64.splits)

text \<open>A box inside an earlier box of the table never decides.\<close>

lemma find_zone_None: "find_zone p tbl = None \<Longrightarrow> (b, z) \<in> set tbl \<Longrightarrow> \<not> in_box p b"
  unfolding find_zone_def find_None_iff map_option_is_None by (metis case_prod_conv)

fun shadowed :: "(bbox \<times> ustring) list \<Rightarrow> (bbox \<times> ustring) list \<Rightarrow> ustring \<Rightarrow> bool" where
  "shadowed seen [] z \<longleftrightarrow> True"
| "shadowed seen ((b, y) # rest) z \<longleftrightarrow>
     (y = z \<longrightarrow> list_ex (\<lambda>(c, _). box_within b c) seen) \<and> shadowed ((b, y) # seen) rest z"

lemma shadowed_not_found:
  assumes "shadowed seen tbl z" "\<And>c y. (c, y) \<in> set seen \<Longrightarrow> \<not> in_box p c"
  shows "find_zone p tbl \<noteq> Some z"
  using assms
proof (induction tbl arbitrary: seen)
  case Nil
  then show ?case by (simp add: find_zone_def)
next
  case (Cons e rest)
  obtain b y where e: "e = (b, y)" by (cases e)
  show ?case
  proof (cases "in_box p b")
    case True
    have "y \<noteq> z"
    proof
      assume "y = z"
      with Cons.prems(1) e obtain c x where "(c, x) \<in> set seen" "box_within b c"
        by (auto simp: list_ex_iff)
      with in_box_within[OF _ True] Cons.prems(2) show False by blast
    qed
    with True e show ?thesis by (simp add: find_zone_def)
  next
    case False
    have "find_zone p rest \<noteq> Some z"
      by (rule Cons.IH[of "(b, y) # seen"]) (use Cons.prems False e in auto)
    with False e show ?thesis by (simp add: find_zone_def)
  qed
qed

lemmas zone_tables = zones_def capitals_def default_zone_def

section \<open>Properties\<close>

text \<open>The resolver never answers Berlin or Lisbon: the Berlin box lies inside the
  earlier Paris box, and the Lisbon box, which is only tried for points outside every
  zone, lies inside it too.  Of London's box only the strip north of 58 degrees is left.\<close>

lemma shadowed_zones_unreachable:
  "resolve_zone p \<noteq> lit ''Europe/Berlin'' \<and> resolve_zone p \<noteq> lit ''Europe/Lisbon''
   \<and> \<not> (resolve_zone p = lit ''Europe/London'' \<and> f64_le (gp_lat p) 58)"
proof (intro conjI notI)
  assume "resolve_zone p = lit ''Europe/Berlin''"
  then show False
    using shadowed_not_found[of "[]" zones "lit ''Europe/Berlin''" p]
      shadowed_not_found[of "[]" capitals "lit ''Europe/Berlin''" p]
    by (auto simp: resolve_zone_def zone_tables box_within_def split: option.splits)
next
  have "find_zone p zones \<noteq> None \<or> find_zone p capitals \<noteq> Some (lit ''Europe/Lisbon'')"
  proof (rule ccontr)
    assume "\<not> ?thesis"
    then have n: "find_zone p zones = None" and s: "find_zone p capitals = Some (lit ''Europe/Lisbon'')" by auto
    from n have "\<not> in_box p (36, 58, - 12, 30)"
      by (rule find_zone_None[where z = "lit ''Europe/Paris''"]) (simp add: zones_def)
    moreover from s have "in_box p (36, 42, - 10, - 6)"
      by (auto simp: find_zone_def capitals_def split: if_splits)
    ultimately show False using in_box_within[of "(36, 42, - 10, - 6)" "(36, 58, - 12, 30)" p]
      by (simp add: box_within_def)
  qed
  moreover assume "resolve_zone p = lit ''Europe/Lisbon''"
  ultimately show False
    using shadowed_not_found[of "[]" zones "lit ''Europe/Lisbon''" p]
    by (auto simp: resolve_zone_def zone_tables box_within_def split: option.splits)
next
  assume "resolve_zone p = lit ''Europe/London'' \<and> f64_le (gp_lat p) 58"
  then have l: "resolve_zone p = lit ''Europe/London''" and le: "f64_le (gp_lat p) 58" by auto
  have "find_zone p capitals \<noteq> Some (lit ''Europe/London'')"
    by (rule shadowed_not_found[of "[]"]) (simp_all add: capitals_def)
  with l have "find_zone p zones = Some (lit ''Europe/London'')"
    by (auto simp: resolve_zone_def default_zone_def split: option.splits)
  then have "in_box p (50, 59, - 11, 2) \<and> \<not> in_box p (36, 58, - 12, 30)"
    by (auto simp: find_zone_def zones_def split: if_splits)
  with le show False
    by (auto simp: in_box_def f64_ge_def f64_le_def split: f64.splits)
qed

end
