(* ===== verification/Content_Tables.thy ===== *)
theory Content_Tables
  imports Auth_Service Dom_Parking Dom_Community Dom_Moderation Time_Zones
begin

text \<open>
  The tables of the community content (\<open>migrations/0002, 0003, 0007 to 0011, 0016, 0019\<close>)
  as an extension of the account world, the errors of the contribution, moderation and
  photo services with the mapping of database errors into them
  (\<open>infrastructure/src/db_error.rs\<close>), and the functions outside the repository that the
  content code calls.

  \<open>rating_avg\<close> is \<open>NUMERIC(3,2)\<close>, kept as hundredths; \<open>geography(Point)\<close> is its pair of
  generated columns \<open>lat\<close> and \<open>lon\<close>.  A failed transaction also restores the id
  sequences, which PostgreSQL does not: the model reuses ids that the database skips.
\<close>

section \<open>Errors\<close>

datatype contribution_error =
    CNotVerified | CRateLimited | VersionConflict | CNotFound | LocationNotActive
  | CInvalidField ustring | CUnauthorized | CTimezone | CConflict | CUnavailable | CInternal

datatype proposal_field = FieldLat | FieldLon | FieldTimezone | FieldExistence

datatype moderation_error =
    MNotAuthorized | SelfResolve | MNotFound | TargetNotFound | MInvalidState | AlreadyReported
  | StaleProposal | InvalidReason | MInvalidField ustring | InvalidProposalField proposal_field
  | MRateLimited | MConflict | MUnavailable | MInternal

datatype storage_error = StorageUnavailable | StorageNotFound | StorageUnexpected ustring

datatype photo_error =
    PNotVerified | PRateLimited | TooLarge | UnsupportedFormat | Undecodable | TooManyPixels
  | PNotFound | NotPending | PUnauthorized | PInvalidField ustring | PStorage storage_error | PConflict
  | PUnavailable | PInternal

text \<open>\<open>Display\<close> of a domain error.\<close>

definition domain_error_text :: "domain_error \<Rightarrow> ustring" where
  "domain_error_text e =
     (case e of EmptyEmail \<Rightarrow> lit ''email must not be empty''
      | InvalidEmail s \<Rightarrow> lit ''email is not valid: '' @ s
      | Invalid s \<Rightarrow> s
      | WeakPassword \<Rightarrow> lit ''password does not meet the policy''
      | InvalidRole s \<Rightarrow> lit ''unknown role code: '' @ s
      | InvalidState s \<Rightarrow> lit ''unknown account state code: '' @ s)"

definition contribution_of_db :: "db_failure \<Rightarrow> contribution_error" where
  "contribution_of_db f =
     (case f of DbConflict _ \<Rightarrow> CConflict | DbRetryable \<Rightarrow> CConflict
      | DbInvalid c \<Rightarrow> CInvalidField (invalid_hint c) | DbUnavailable \<Rightarrow> CUnavailable | DbOther \<Rightarrow> CInternal)"

definition moderation_of_db :: "db_failure \<Rightarrow> moderation_error" where
  "moderation_of_db f =
     (case f of DbConflict _ \<Rightarrow> MConflict | DbRetryable \<Rightarrow> MConflict
      | DbInvalid c \<Rightarrow> MInvalidField (invalid_hint c) | DbUnavailable \<Rightarrow> MUnavailable | DbOther \<Rightarrow> MInternal)"

definition photo_of_db :: "db_failure \<Rightarrow> photo_error" where
  "photo_of_db f =
     (case f of DbConflict _ \<Rightarrow> PConflict | DbRetryable \<Rightarrow> PConflict
      | DbInvalid c \<Rightarrow> PInvalidField (invalid_hint c) | DbUnavailable \<Rightarrow> PUnavailable | DbOther \<Rightarrow> PInternal)"

definition contribution_of_domain :: "domain_error \<Rightarrow> contribution_error" where
  "contribution_of_domain e = CInvalidField (domain_error_text e)"

definition moderation_of_domain :: "domain_error \<Rightarrow> moderation_error" where
  "moderation_of_domain e = MInvalidField (domain_error_text e)"

text \<open>What the locations' reader fails with, seen from the contribution repository.\<close>

definition contribution_of_reader :: "reader_error \<Rightarrow> contribution_error" where
  "contribution_of_reader e = (case e of ReaderUnavailable \<Rightarrow> CUnavailable | ReaderUnexpected _ \<Rightarrow> CInternal)"

section \<open>Functions outside the repository\<close>

text \<open>The names the time-zone crate knows, \<open>char::to_lowercase\<close> beyond ASCII, and PostGIS:
  the distance in metres of two points and the order of its nearest-neighbour operator.\<close>

record geo_externals =
  gx_tz_known :: "ustring \<Rightarrow> bool"
  gx_lower :: "uchar \<Rightarrow> ustring"
  gx_distance :: "geo_point \<Rightarrow> geo_point \<Rightarrow> rat"
  gx_knn :: "geo_point \<Rightarrow> geo_point \<Rightarrow> rat"

section \<open>Rows\<close>

record location_row =
  lr_id :: int
  lr_name :: ustring
  lr_address :: ustring
  lr_description :: "ustring option"
  lr_type :: ustring
  lr_cost_kind :: ustring
  lr_cents :: "int option"
  lr_currency :: "ustring option"
  lr_unit :: "ustring option"
  lr_lat :: f64
  lr_lon :: f64
  lr_timezone :: ustring
  lr_hours_unknown :: bool
  lr_rating_avg :: "int option"
  lr_rating_count :: int
  lr_state :: ustring
  lr_created_at :: int
  lr_updated_at :: int
  lr_meaningful_at :: "int option"
  lr_verified_at :: "int option"
  lr_version :: int
  lr_creator :: "int option"

record hours_row =
  hr_location :: int
  hr_day :: int
  hr_opens :: int
  hr_closes :: int
  hr_all_day :: bool

record security_row =
  se_location :: int
  se_code :: ustring
  se_state :: int

record revision_row =
  rv_id :: int
  rv_location :: int
  rv_version :: int
  rv_editor :: "int option"
  rv_kind :: ustring
  rv_summary :: "ustring option"
  rv_snapshot :: json
  rv_created_at :: int

record proposal_row =
  pr_id :: int
  pr_location :: int
  pr_proposer :: "int option"
  pr_base_version :: int
  pr_kind :: ustring
  pr_proposed :: json
  pr_status :: ustring
  pr_resolved_by :: "int option"
  pr_resolved_at :: "int option"
  pr_created_at :: int

record review_row =
  re_id :: int
  re_location :: int
  re_author :: "int option"
  re_rating :: "16 word"
  re_body :: ustring
  re_state :: ustring
  re_created_at :: int
  re_updated_at :: int

record review_revision_row =
  rw_id :: int
  rw_review :: int
  rw_rating :: "16 word"
  rw_body :: ustring
  rw_edited_at :: int

record signal_row =
  sg_id :: int
  sg_location :: int
  sg_user :: "int option"
  sg_kind :: ustring
  sg_result :: ustring
  sg_attribute :: "ustring option"
  sg_created_at :: int
  sg_expires_at :: "int option"

record favorite_row =
  fv_user :: int
  fv_location :: int
  fv_created_at :: int

text \<open>The columns both photo tables have; \<open>ph_parent\<close> is \<open>location_id\<close> or \<open>review_id\<close>.\<close>

record photo_row =
  ph_id :: int
  ph_parent :: int
  ph_uploader :: "int option"
  ph_key :: ustring
  ph_thumbnail :: "ustring option"
  ph_width :: "32 word option"
  ph_height :: "32 word option"
  ph_processed_at :: "int option"
  ph_state :: ustring
  ph_reason :: "ustring option"
  ph_reviewed_by :: "int option"
  ph_reviewed_at :: "int option"
  ph_position :: "32 word"
  ph_created_at :: int

record parking_photo_row = photo_row +
  ph_content_type :: ustring
  ph_alt :: "ustring option"

record report_row =
  rp_id :: int
  rp_reporter :: "int option"
  rp_target_type :: ustring
  rp_target_id :: int
  rp_reason :: ustring
  rp_description :: "ustring option"
  rp_state :: ustring
  rp_claimed_by :: "int option"
  rp_resolved_by :: "int option"
  rp_note :: "ustring option"
  rp_created_at :: int
  rp_updated_at :: int

record stored_object =
  ob_key :: ustring
  ob_bytes :: "byte list"
  ob_modified :: int

text \<open>\<open>objects\<close> is the object store behind its port, \<open>storage_faults\<close> the answers it still
  has to give: an entry \<open>Some e\<close> makes the next call fail with \<open>e\<close>.\<close>

record content_world = auth_world +
  locations :: "location_row list"
  next_location :: int
  hours_table :: "hours_row list"
  security_table :: "security_row list"
  revisions :: "revision_row list"
  next_revision :: int
  proposals :: "proposal_row list"
  next_proposal :: int
  reviews :: "review_row list"
  next_review :: int
  review_revisions :: "review_revision_row list"
  next_review_revision :: int
  signals :: "signal_row list"
  next_signal :: int
  favorites :: "favorite_row list"
  parking_photos :: "parking_photo_row list"
  next_parking_photo :: int
  review_photos :: "photo_row list"
  next_review_photo :: int
  reports :: "report_row list"
  next_report :: int
  objects :: "stored_object list"
  storage_faults :: "storage_error option list"

section \<open>Constraints and lookups\<close>

definition location_of :: "'w content_world_scheme \<Rightarrow> int \<Rightarrow> location_row option" where
  "location_of w i = select_one (\<lambda>l. lr_id l = i) (locations w)"

definition location_exists :: "'w content_world_scheme \<Rightarrow> int \<Rightarrow> bool" where
  "location_exists w i \<longleftrightarrow> (\<exists>l \<in> set (locations w). lr_id l = i)"

definition check_location :: "string \<Rightarrow> 'w content_world_scheme \<Rightarrow> int \<Rightarrow> db_failure + 'b \<Rightarrow> db_failure + 'b" where
  "check_location name w i r = (if location_exists w i then r else Inl (DbInvalid (Some (lit name))))"

definition check_that :: "string \<Rightarrow> bool \<Rightarrow> db_failure + 'b \<Rightarrow> db_failure + 'b" where
  "check_that name good r = (if good then r else Inl (DbInvalid (Some (lit name))))"

lemma check_location_Inr [simp]:
  "check_location name w i r = Inr r' \<longleftrightarrow> location_exists w i \<and> r = Inr r'"
  by (auto simp: check_location_def)

lemma check_that_Inr [simp]: "check_that name good r = Inr r' \<longleftrightarrow> good \<and> r = Inr r'"
  by (auto simp: check_that_def)

lemma location_of_Some: "location_of w i = Some l \<Longrightarrow> l \<in> set (locations w) \<and> lr_id l = i"
  unfolding location_of_def by (rule select_one_SomeD)

lemma location_of_None: "location_of w i = None \<longleftrightarrow> \<not> location_exists w i"
  by (auto simp: location_of_def select_one_None_iff location_exists_def)

lemma location_of_unique:
  "distinct (map lr_id (locations w)) \<Longrightarrow> l \<in> set (locations w) \<Longrightarrow> location_of w (lr_id l) = Some l"
  unfolding location_of_def by (rule select_one_unique[where g = lr_id]) auto

text \<open>Writing one location by its id.\<close>

lemma location_exists_update [simp]:
  "(\<And>l. P l \<Longrightarrow> lr_id (f l) = lr_id l) \<Longrightarrow>
    location_exists (w\<lparr>locations := update_where P f (locations w)\<rparr>) i = location_exists w i"
  by (auto simp: location_exists_def bex_update_where)

end
