(* ===== verification/Parking_Store.thy ===== *)
theory Parking_Store
  imports Content_Tables
begin

text \<open>
  Locations in the database: reading one back into the domain aggregate
  (\<open>infrastructure/src/parking/details.rs\<close>) and the writes of the contribution repository
  (\<open>infrastructure/src/community/contribution.rs\<close>): create, optimistic edit, proposals and
  the revision log with its JSON snapshots.
\<close>

section \<open>Reading a location\<close>

definition expectD :: "domain_error + 'a \<Rightarrow> ('s, reader_error, 'a) m" where
  "expectD r = mapErrM (\<lambda>e. ReaderUnexpected (domain_error_text e)) (liftR r)"

definition price_of :: "location_row \<Rightarrow> ('s, reader_error, money option) m" where
  "price_of l =
     (case (lr_cents l, lr_currency l, lr_unit l) of
        (Some c, Some cur, Some u) \<Rightarrow>
          bindM (expectD (parse_currency cur)) (\<lambda>code.
          bindM (expectD (pricing_unit_from u)) (\<lambda>pu.
            retM (Some \<lparr>cents = c, currency = code, unit_of = pu\<rparr>)))
      | _ \<Rightarrow> retM None)"

text \<open>\<open>h.day_of_week as u8\<close> keeps the low byte.\<close>

definition range_of_row :: "hours_row \<Rightarrow> nat \<times> time_range" where
  "range_of_row h =
     (nat (hr_day h mod 256), \<lparr>opens_at = hr_opens h, closes_at = hr_closes h, all_day = hr_all_day h\<rparr>)"

definition security_of_row :: "security_row \<Rightarrow> ('s, reader_error, security_feature) m" where
  "security_of_row s =
     bindM (expectD (security_state_from_smallint (se_state s))) (\<lambda>st.
       retM \<lparr>sf_code = se_code s, sf_state = st\<rparr>)"

definition rating_of_hundredths :: "int option \<Rightarrow> f64 option" where
  "rating_of_hundredths h = map_option (\<lambda>n. Fin (of_int n / 100)) h"

definition to_domain ::
  "geo_externals \<Rightarrow> location_row \<Rightarrow> hours_row list \<Rightarrow> security_row list \<Rightarrow> ('s, reader_error, parking_location) m" where
  "to_domain G l hs ss =
     thenM (requireM (gx_tz_known G (lr_timezone l)) (ReaderUnexpected (lit ''bad timezone '' @ lr_timezone l))) (
     bindM (price_of l) (\<lambda>price.
     bindM (expectD (cost_from_kind_and_price (lr_cost_kind l) price)) (\<lambda>c.
     bindM (mapM security_of_row ss) (\<lambda>sec.
     bindM (expectD (parking_type_from (lr_type l))) (\<lambda>ty.
     bindM (expectD (geo_point_new (lr_lat l) (lr_lon l))) (\<lambda>pt.
     bindM (expectD (moderation_state_from (lr_state l))) (\<lambda>st.
     bindM (expectD (rating_new (rating_of_hundredths (lr_rating_avg l)) (lr_rating_count l))) (\<lambda>rt.
       expectD (parking_location_new
         \<lparr>pl_id = lr_id l, pl_name = lr_name l, pl_address = lr_address l, pl_description = lr_description l,
          pl_type = ty, pl_cost = c, pl_point = pt, pl_timezone = lr_timezone l,
          pl_hours = (if lr_hours_unknown l then UnknownHours else Weekly (map range_of_row hs)),
          pl_security = sec, pl_moderation = st, pl_rating = rt,
          pl_created_at = lr_created_at l, pl_updated_at = lr_updated_at l,
          pl_meaningful_update_at = lr_meaningful_at l, pl_verified_at = lr_verified_at l,
          pl_version = lr_version l\<rparr>)))))))))"

definition hours_of :: "'w content_world_scheme \<Rightarrow> int \<Rightarrow> hours_row list" where
  "hours_of w i = sort_key hr_day (sort_key hr_opens (filter (\<lambda>h. hr_location h = i) (hours_table w)))"

definition security_of :: "'w content_world_scheme \<Rightarrow> int \<Rightarrow> security_row list" where
  "security_of w i = sort_key se_code (filter (\<lambda>s. se_location s = i) (security_table w))"

definition details :: "geo_externals \<Rightarrow> int \<Rightarrow> ('w content_world_scheme, reader_error, parking_location option) m" where
  "details G i =
     bindM (query reader_of_db (\<lambda>w. location_of w i)) (\<lambda>row.
       case row of
         None \<Rightarrow> retM None
       | Some l \<Rightarrow>
           bindM (query reader_of_db (\<lambda>w. hours_of w i)) (\<lambda>hs.
           bindM (query reader_of_db (\<lambda>w. security_of w i)) (\<lambda>ss.
           bindM (to_domain G l hs ss) (\<lambda>p. retM (Some p)))))"

definition get_for_edit :: "geo_externals \<Rightarrow> int \<Rightarrow> ('w content_world_scheme, contribution_error, parking_location option) m" where
  "get_for_edit G i = mapErrM contribution_of_reader (details G i)"

section \<open>Columns and snapshots\<close>

definition cost_parts :: "cost \<Rightarrow> ustring \<times> int option \<times> ustring option \<times> ustring option" where
  "cost_parts c =
     (case c of
        FreeCost \<Rightarrow> (lit ''free'', None, None, None)
      | UnknownCost \<Rightarrow> (lit ''unknown'', None, None, None)
      | PaidCost None \<Rightarrow> (lit ''paid'', None, None, None)
      | PaidCost (Some p) \<Rightarrow>
          (lit ''paid'', Some (cents p), Some (currency p), Some (pricing_unit_code (unit_of p))))"

definition state_smallint :: "security_state \<Rightarrow> int" where
  "state_smallint s = (case s of SecUnknown \<Rightarrow> 0 | SecYes \<Rightarrow> 1 | SecNo \<Rightarrow> 2)"

text \<open>\<open>Display\<close> of a wall-clock time: the fraction has three digits when it is whole
  milliseconds, otherwise six (the column keeps microseconds).\<close>

definition pad :: "nat \<Rightarrow> nat \<Rightarrow> ustring" where
  "pad k n = replicate (k - length (show_nat n)) 48 @ show_nat n"

definition show_time :: "int \<Rightarrow> ustring" where
  "show_time t =
     (let s = nat (t div seconds 1); us = nat (t mod seconds 1)
      in pad 2 (s div 3600) @ lit '':'' @ pad 2 (s div 60 mod 60) @ lit '':'' @ pad 2 (s mod 60)
         @ (if us = 0 then [] else if us mod 1000 = 0 then lit ''.'' @ pad 3 (us div 1000) else lit ''.'' @ pad 6 us))"

definition cost_snapshot :: "cost \<Rightarrow> json" where
  "cost_snapshot c =
     (case c of
        FreeCost \<Rightarrow> JObject [(lit ''kind'', JString (lit ''free''))]
      | UnknownCost \<Rightarrow> JObject [(lit ''kind'', JString (lit ''unknown''))]
      | PaidCost None \<Rightarrow> JObject [(lit ''kind'', JString (lit ''paid''))]
      | PaidCost (Some p) \<Rightarrow>
          JObject [(lit ''kind'', JString (lit ''paid'')), (lit ''cents'', JInt (cents p)),
                   (lit ''currency'', JString (currency p)),
                   (lit ''unit'', JString (pricing_unit_code (unit_of p)))])"

definition hours_snapshot :: "opening_hours \<Rightarrow> json" where
  "hours_snapshot h =
     (case h of
        UnknownHours \<Rightarrow> JObject [(lit ''unknown'', JBool True), (lit ''rows'', JArray [])]
      | Weekly rows \<Rightarrow>
          JObject [(lit ''unknown'', JBool False),
            (lit ''rows'', JArray (map (\<lambda>(day, r).
               JArray [JInt (int day), JString (show_time (opens_at r)), JString (show_time (closes_at r)),
                       JBool (all_day r)]) rows))])"

definition security_snapshot :: "security_feature list \<Rightarrow> json" where
  "security_snapshot fs =
     JArray (map (\<lambda>f. JArray [JString (sf_code f), JInt (state_smallint (sf_state f))]) fs)"

definition opt_string :: "ustring option \<Rightarrow> json" where
  "opt_string s = (case s of None \<Rightarrow> JNull | Some x \<Rightarrow> JString x)"

definition snapshot_of ::
  "ustring \<Rightarrow> ustring \<Rightarrow> ustring option \<Rightarrow> ustring \<Rightarrow> json \<Rightarrow> f64 \<Rightarrow> f64 \<Rightarrow> ustring \<Rightarrow> json \<Rightarrow> json \<Rightarrow> ustring \<Rightarrow> json" where
  "snapshot_of name address description ty c lat lon tz hs sec st =
     JObject [(lit ''name'', JString name), (lit ''address'', JString address),
              (lit ''description'', opt_string description), (lit ''type'', JString ty),
              (lit ''cost'', c),
              (lit ''point'', JObject [(lit ''lat'', json_of_f64 lat), (lit ''lon'', json_of_f64 lon)]),
              (lit ''timezone'', JString tz), (lit ''hours'', hs), (lit ''security'', sec),
              (lit ''moderation_state'', JString st)]"

section \<open>Statements\<close>

definition hours_key :: "hours_row \<Rightarrow> int \<times> int \<times> int \<times> int" where
  "hours_key r = (hr_location r, hr_day r, hr_opens r, hr_closes r)"

definition row_of_range :: "int \<Rightarrow> nat \<times> time_range \<Rightarrow> hours_row" where
  "row_of_range i d =
     (case d of (day, r) \<Rightarrow>
        \<lparr>hr_location = i, hr_day = int day,
         hr_opens = (if all_day r then opens_at range_all_day else opens_at r),
         hr_closes = (if all_day r then closes_at range_all_day else closes_at r),
         hr_all_day = all_day r\<rparr>)"

text \<open>One multi-row insert: the first row that breaks a constraint rejects the statement.\<close>

fun insert_hours :: "hours_row list \<Rightarrow> hours_row list \<Rightarrow> db_failure + hours_row list" where
  "insert_hours [] t = Inr t"
| "insert_hours (r # rs) t =
     (if \<not> (1 \<le> hr_day r \<and> hr_day r \<le> 7) then Inl (DbInvalid (Some (lit ''opening_hours_day_of_week_check'')))
      else if hours_key r \<in> hours_key ` set t then Inl (DbConflict (Some (lit ''opening_hours_pkey'')))
      else insert_hours rs (t @ [r]))"

definition write_hours :: "int \<Rightarrow> opening_hours \<Rightarrow> ('w content_world_scheme, contribution_error, unit) m" where
  "write_hours i h =
     thenM (command contribution_of_db (\<lambda>w. w\<lparr>hours_table := filter (\<lambda>r. hr_location r \<noteq> i) (hours_table w)\<rparr>))
       (case h of
          UnknownHours \<Rightarrow> retM ()
        | Weekly rows \<Rightarrow>
            if rows = [] then retM ()
            else sql contribution_of_db (\<lambda>w.
              case insert_hours (map (row_of_range i) rows) (hours_table w) of
                Inl e \<Rightarrow> Inl e
              | Inr t \<Rightarrow> check_location ''opening_hours_location_id_fkey'' w i (Inr ((), w\<lparr>hours_table := t\<rparr>))))"

definition upsert_security :: "int \<Rightarrow> ustring \<times> int \<Rightarrow> security_row list \<Rightarrow> security_row list" where
  "upsert_security i cs t =
     (if \<exists>r \<in> set t. se_location r = i \<and> se_code r = fst cs
      then update_where (\<lambda>r. se_location r = i \<and> se_code r = fst cs) (\<lambda>r. r\<lparr>se_state := snd cs\<rparr>) t
      else t @ [\<lparr>se_location = i, se_code = fst cs, se_state = snd cs\<rparr>])"

definition security_states :: "security_feature list \<Rightarrow> (ustring \<times> int) list" where
  "security_states fs =
     map (\<lambda>code. (code, state_smallint (case find (\<lambda>f. sf_code f = code) fs of
                                          Some f \<Rightarrow> sf_state f | None \<Rightarrow> SecUnknown)))
       security_feature_codes"

definition write_security :: "int \<Rightarrow> security_feature list \<Rightarrow> ('w content_world_scheme, contribution_error, unit) m" where
  "write_security i fs =
     sql contribution_of_db (\<lambda>w.
       check_location ''parking_security_location_id_fkey'' w i
         (Inr ((), w\<lparr>security_table := fold (upsert_security i) (security_states fs) (security_table w)\<rparr>)))"

text \<open>The insert into the revision log, with its unique key \<open>(location_id, version)\<close>.\<close>

definition revision_insert ::
  "int \<Rightarrow> int \<Rightarrow> int \<Rightarrow> ustring \<Rightarrow> string \<Rightarrow> json \<Rightarrow> 'w content_world_scheme
    \<Rightarrow> db_failure + unit \<times> 'w content_world_scheme" where
  "revision_insert i version editor kind summary snap w =
     (if \<exists>r \<in> set (revisions w). rv_location r = i \<and> rv_version r = version
      then Inl (DbConflict (Some (lit ''parking_revision_location_id_version_key'')))
      else check_location ''parking_revision_location_id_fkey'' w i
             (check_user ''parking_revision_editor_id_fkey'' w editor
               (Inr ((), w\<lparr>revisions := revisions w @
                   [\<lparr>rv_id = next_revision w, rv_location = i, rv_version = version, rv_editor = Some editor,
                     rv_kind = kind, rv_summary = Some (lit summary), rv_snapshot = snap, rv_created_at = now w\<rparr>],
                 next_revision := next_revision w + 1\<rparr>))))"

definition insert_revision ::
  "int \<Rightarrow> int \<Rightarrow> int \<Rightarrow> change_kind \<Rightarrow> string \<Rightarrow> json \<Rightarrow> ('w content_world_scheme, contribution_error, unit) m" where
  "insert_revision i version editor kind summary snap =
     sql contribution_of_db (revision_insert i version editor (change_kind_code kind) summary snap)"

section \<open>Create, edit, propose\<close>

record new_location =
  nl_name :: ustring
  nl_address :: ustring
  nl_description :: "ustring option"
  nl_type :: parking_type
  nl_cost :: cost
  nl_point :: geo_point
  nl_timezone :: "ustring option"
  nl_hours :: opening_hours
  nl_security :: "security_feature list"

record parking_edit =
  pe_name :: ustring
  pe_address :: ustring
  pe_description :: "ustring option"
  pe_type :: parking_type
  pe_cost :: cost
  pe_hours :: opening_hours
  pe_security :: "security_feature list"

definition new_row :: "new_location \<Rightarrow> ustring \<Rightarrow> int \<Rightarrow> int \<Rightarrow> int \<Rightarrow> location_row" where
  "new_row new tz creator t i =
     (case cost_parts (nl_cost new) of (kind, c, cur, u) \<Rightarrow>
        \<lparr>lr_id = i, lr_name = trim (nl_name new), lr_address = trim (nl_address new),
         lr_description = nl_description new, lr_type = parking_type_code (nl_type new),
         lr_cost_kind = kind, lr_cents = c, lr_currency = cur, lr_unit = u,
         lr_lat = gp_lat (nl_point new), lr_lon = gp_lon (nl_point new), lr_timezone = tz,
         lr_hours_unknown = is_unknown (nl_hours new), lr_rating_avg = None, lr_rating_count = 0,
         lr_state = lit ''ACTIVE'', lr_created_at = t, lr_updated_at = t, lr_meaningful_at = Some t,
         lr_verified_at = None, lr_version = 1, lr_creator = Some creator\<rparr>)"

definition insert_location :: "new_location \<Rightarrow> ustring \<Rightarrow> int \<Rightarrow> int \<Rightarrow> ('w content_world_scheme, contribution_error, int) m" where
  "insert_location new tz creator t =
     sql contribution_of_db (\<lambda>w.
       check_user ''parking_location_creator_id_fkey'' w creator
         (Inr (next_location w, w\<lparr>locations := locations w @ [new_row new tz creator t (next_location w)],
                                  next_location := next_location w + 1\<rparr>)))"

definition create_location :: "new_location \<Rightarrow> int \<Rightarrow> int \<Rightarrow> ('w content_world_scheme, contribution_error, int) m" where
  "create_location new creator t =
     bindM (okOrM (CInvalidField (lit ''timezone is required'')) (nl_timezone new)) (\<lambda>tz.
     transaction contribution_of_db
       (bindM (insert_location new tz creator t) (\<lambda>i.
        thenM (write_hours i (nl_hours new)) (
        thenM (write_security i (nl_security new)) (
        thenM (insert_revision i 1 creator CKCreate ''added''
                (snapshot_of (nl_name new) (nl_address new) (nl_description new) (parking_type_code (nl_type new))
                   (cost_snapshot (nl_cost new)) (gp_lat (nl_point new)) (gp_lon (nl_point new)) tz
                   (hours_snapshot (nl_hours new)) (security_snapshot (nl_security new)) (lit ''ACTIVE'')))
              (retM i))))))"

definition edited_row :: "parking_edit \<Rightarrow> int \<Rightarrow> location_row \<Rightarrow> location_row" where
  "edited_row e t l =
     (case cost_parts (pe_cost e) of (kind, c, cur, u) \<Rightarrow>
        l\<lparr>lr_name := trim (pe_name e), lr_address := trim (pe_address e), lr_description := pe_description e,
          lr_type := parking_type_code (pe_type e), lr_cost_kind := kind, lr_cents := c, lr_currency := cur,
          lr_unit := u, lr_hours_unknown := is_unknown (pe_hours e), lr_version := lr_version l + 1,
          lr_updated_at := t, lr_meaningful_at := Some t\<rparr>)"

text \<open>An \<open>UPDATE ... RETURNING\<close> of one location: the new row, when the condition held.\<close>

definition update_location ::
  "int \<Rightarrow> (location_row \<Rightarrow> bool) \<Rightarrow> (location_row \<Rightarrow> location_row) \<Rightarrow> 'w content_world_scheme
    \<Rightarrow> location_row option \<times> 'w content_world_scheme" where
  "update_location i P f w =
     (let Q = (\<lambda>l. lr_id l = i \<and> P l)
      in (map_option f (select_one Q (locations w)), w\<lparr>locations := update_where Q f (locations w)\<rparr>))"

definition apply_edit ::
  "geo_externals \<Rightarrow> int \<Rightarrow> int \<Rightarrow> parking_edit \<Rightarrow> int \<Rightarrow> int \<Rightarrow> ('w content_world_scheme, contribution_error, int) m" where
  "apply_edit G i expected_version e editor t =
     transaction contribution_of_db
       (bindM (query contribution_of_db (\<lambda>w. location_of w i)) (\<lambda>guard.
        bindM (okOrM CNotFound guard) (\<lambda>current.
        thenM (requireM (lr_state current = moderation_state_code MActive) LocationNotActive) (
        thenM (requireM (lr_version current = expected_version) VersionConflict) (
        bindM (sql contribution_of_db (\<lambda>w. Inr (update_location i
                 (\<lambda>l. lr_version l = expected_version \<and> lr_state l = lit ''ACTIVE'') (edited_row e t) w))) (\<lambda>updated.
        bindM (okOrM VersionConflict updated) (\<lambda>row.
        bindM (mapErrM contribution_of_domain (liftR (geo_point_new (lr_lat row) (lr_lon row)))) (\<lambda>pt.
        thenM (requireM (gx_tz_known G (lr_timezone row))
                 (CInvalidField (lit ''unknown timezone: '' @ lr_timezone row))) (
        thenM (write_hours i (pe_hours e)) (
        thenM (write_security i (pe_security e)) (
        thenM (insert_revision i (lr_version row) editor CKEdit ''edited''
                (snapshot_of (lr_name row) (lr_address row) (lr_description row) (lr_type row)
                   (cost_snapshot (pe_cost e)) (gp_lat pt) (gp_lon pt) (lr_timezone row)
                   (hours_snapshot (pe_hours e)) (security_snapshot (pe_security e)) (lr_state row)))
              (retM (lr_version row)))))))))))))"

record new_proposal =
  np_location :: int
  np_proposer :: int
  np_base_version :: int
  np_kind :: proposal_kind
  np_proposed :: json

definition create_proposal :: "new_proposal \<Rightarrow> ('w content_world_scheme, contribution_error, int) m" where
  "create_proposal p =
     sql contribution_of_db (\<lambda>w.
       check_location ''parking_proposal_location_id_fkey'' w (np_location p)
         (check_user ''parking_proposal_proposer_id_fkey'' w (np_proposer p)
           (Inr (next_proposal w, w\<lparr>proposals := proposals w @
              [\<lparr>pr_id = next_proposal w, pr_location = np_location p, pr_proposer = Some (np_proposer p),
                pr_base_version = np_base_version p, pr_kind = proposal_kind_code (np_kind p),
                pr_proposed = np_proposed p, pr_status = lit ''PENDING'', pr_resolved_by = None,
                pr_resolved_at = None, pr_created_at = now w\<rparr>],
              next_proposal := next_proposal w + 1\<rparr>))))"

record revision_summary =
  rs_version :: int
  rs_change_kind :: change_kind
  rs_summary :: "ustring option"
  rs_at :: int

definition revision_history :: "int \<Rightarrow> int \<Rightarrow> ('w content_world_scheme, contribution_error, revision_summary list) m" where
  "revision_history i limit =
     bindM (query contribution_of_db (\<lambda>w. take (nat (clamp 1 200 limit))
              (sort_key (\<lambda>r. - rv_version r) (filter (\<lambda>r. rv_location r = i) (revisions w)))))
       (mapM (\<lambda>r. bindM (mapErrM contribution_of_domain (liftR (change_kind_from (rv_kind r)))) (\<lambda>k.
          retM \<lparr>rs_version = rv_version r, rs_change_kind = k, rs_summary = rv_summary r, rs_at = rv_created_at r\<rparr>)))"

section \<open>Duplicate candidates\<close>

definition fold_case :: "geo_externals \<Rightarrow> ustring \<Rightarrow> ustring" where
  "fold_case G s = concat (map (\<lambda>c. if c < 128 then [to_ascii_lower_char c] else gx_lower G c) s)"

definition grams :: "ustring \<Rightarrow> ustring list" where
  "grams s = (if length s < 3 then [s] else remdups (map (\<lambda>i. take 3 (drop i s)) [0..<length s - 2]))"

text \<open>The ratio of two counts is exact here; the code's is the nearest double, which orders
  and compares the same way for counts below \<open>2^26\<close>.\<close>

definition trigram_similarity :: "geo_externals \<Rightarrow> ustring \<Rightarrow> ustring \<Rightarrow> rat" where
  "trigram_similarity G a b =
     (let a' = fold_case G a; b' = fold_case G b in
      if a' = [] \<or> b' = [] then 0
      else (let ga = grams a'; gb = grams b';
                inter = length (filter (\<lambda>g. g \<in> set gb) ga);
                uni = length (remdups (ga @ gb))
            in if uni = 0 then 0 else of_nat inter / of_nat uni))"

fun split_whitespace :: "ustring \<Rightarrow> ustring list" where
  "split_whitespace [] = []"
| "split_whitespace (c # s) =
     (if is_whitespace c then split_whitespace s
      else case s of
             [] \<Rightarrow> [[c]]
           | d # _ \<Rightarrow>
               if is_whitespace d then [c] # split_whitespace s
               else (case split_whitespace s of [] \<Rightarrow> [[c]] | t # ts \<Rightarrow> (c # t) # ts))"

fun contains_str :: "ustring \<Rightarrow> ustring \<Rightarrow> bool" where
  "contains_str [] p \<longleftrightarrow> p = []"
| "contains_str (c # s) p \<longleftrightarrow> starts_with (c # s) p \<or> contains_str s p"

definition token_overlap :: "geo_externals \<Rightarrow> ustring \<Rightarrow> ustring \<Rightarrow> rat" where
  "token_overlap G name address =
     (let tokens = split_whitespace (fold_case G name) in
      if tokens = [] then 0
      else of_nat (length (filter (contains_str (fold_case G address)) tokens)) / of_nat (length tokens))"

definition max_similarity :: "geo_externals \<Rightarrow> ustring \<Rightarrow> ustring \<Rightarrow> ustring \<Rightarrow> rat" where
  "max_similarity G submitted name address =
     max (trigram_similarity G submitted name) (token_overlap G submitted address)"

definition duplicate_radius_m :: rat where "duplicate_radius_m = 500"
definition duplicate_similarity :: rat where "duplicate_similarity = 55 / 100"

record duplicate_candidate =
  dc_id :: int
  dc_name :: ustring
  dc_address :: ustring
  dc_distance :: rat
  dc_similarity :: rat

definition row_point :: "location_row \<Rightarrow> geo_point" where
  "row_point l = \<lparr>gp_lat = lr_lat l, gp_lon = lr_lon l\<rparr>"

definition near_rows :: "geo_externals \<Rightarrow> geo_point \<Rightarrow> location_row list \<Rightarrow> location_row list" where
  "near_rows G p t =
     take 50 (sort_key (\<lambda>l. gx_knn G (row_point l) p)
       (filter (\<lambda>l. lr_state l = lit ''ACTIVE'' \<and> gx_distance G (row_point l) p \<le> duplicate_radius_m) t))"

definition duplicate_candidates ::
  "geo_externals \<Rightarrow> geo_point \<Rightarrow> ustring \<Rightarrow> ('w content_world_scheme, contribution_error, duplicate_candidate list) m" where
  "duplicate_candidates G p name =
     bindM (query contribution_of_db (\<lambda>w. near_rows G p (locations w))) (\<lambda>rows.
       retM (sort_key (\<lambda>c. - dc_similarity c)
         (filter (\<lambda>c. duplicate_similarity \<le> dc_similarity c)
           (map (\<lambda>l. \<lparr>dc_id = lr_id l, dc_name = lr_name l, dc_address = lr_address l,
                       dc_distance = gx_distance G (row_point l) p,
                       dc_similarity = max_similarity G name (lr_name l) (lr_address l)\<rparr>) rows))))"

end
