(* ===== verification/Community_Store.thy ===== *)
theory Community_Store
  imports Parking_Store "HOL-Library.Product_Lexorder"
begin

text \<open>
  Reviews with their rating aggregate, verification signals, favorites and the
  contribution feed (\<open>infrastructure/src/community/review.rs, verification.rs,
  favorite.rs, history.rs\<close>).  A page of a feed is cut by a keyset cursor:
  \<open>keyset_page\<close> is the part every listing shares.
\<close>

section \<open>Reviews\<close>

record review =
  rd_id :: int
  rd_location :: int
  rd_author :: "int option"
  rd_rating :: byte
  rd_body :: ustring
  rd_created_at :: int
  rd_updated_at :: int

definition review_from_row :: "review_row \<Rightarrow> ('s, contribution_error, review) m" where
  "review_from_row r =
     bindM (mapErrM contribution_of_domain (liftR (star_rating_from_smallint (re_rating r)))) (\<lambda>rating.
     bindM (mapErrM contribution_of_domain (liftR (review_body_new (re_body r)))) (\<lambda>body.
       retM \<lparr>rd_id = re_id r, rd_location = re_location r, rd_author = re_author r, rd_rating = rating,
             rd_body = body, rd_created_at = re_created_at r, rd_updated_at = re_updated_at r\<rparr>))"

definition active_reviews :: "review_row list \<Rightarrow> int \<Rightarrow> review_row list" where
  "active_reviews t i = filter (\<lambda>r. re_location r = i \<and> re_state r = lit ''ACTIVE'') t"

text \<open>\<open>AVG(rating)::numeric(3,2)\<close> in hundredths, rounded half away from zero; the average of
  no rows is NULL.\<close>

definition average_hundredths :: "int list \<Rightarrow> int option" where
  "average_hundredths xs =
     (if xs = [] then None
      else Some ((200 * sum_list xs + int (length xs)) div (2 * int (length xs))))"

definition aggregate :: "review_row list \<Rightarrow> int \<Rightarrow> int option \<times> int" where
  "aggregate t i =
     (let ratings = map (\<lambda>r. sint (re_rating r)) (active_reviews t i)
      in (average_hundredths ratings, int (length ratings)))"

definition has_review :: "int \<Rightarrow> int \<Rightarrow> review_row \<Rightarrow> bool" where
  "has_review i author r \<longleftrightarrow> re_location r = i \<and> re_author r = Some author"

definition upsert_review_row ::
  "int \<Rightarrow> int \<Rightarrow> byte \<Rightarrow> ustring \<Rightarrow> ('w content_world_scheme, contribution_error, int \<times> bool) m" where
  "upsert_review_row i author rating body =
     sql contribution_of_db (\<lambda>w.
       check_that ''review_rating_check'' (1 \<le> unat rating \<and> unat rating \<le> 5)
       (check_that ''review_body_check'' (1 \<le> length body \<and> length body \<le> 2000)
       (case select_one (has_review i author) (reviews w) of
          Some old \<Rightarrow>
            Inr ((re_id old, True),
              w\<lparr>reviews := update_where (has_review i author)
                   (\<lambda>r. r\<lparr>re_rating := star_rating_as_i16 rating, re_body := body, re_updated_at := now w\<rparr>) (reviews w),
                next_review := next_review w + 1\<rparr>)
        | None \<Rightarrow>
            check_location ''review_location_id_fkey'' w i
              (check_user ''review_author_id_fkey'' w author
                (Inr ((next_review w, False),
                  w\<lparr>reviews := reviews w @
                       [\<lparr>re_id = next_review w, re_location = i, re_author = Some author,
                         re_rating = star_rating_as_i16 rating, re_body = body, re_state = lit ''ACTIVE'',
                         re_created_at = now w, re_updated_at = now w\<rparr>],
                    next_review := next_review w + 1\<rparr>))))))"

definition insert_review_revision :: "int \<Rightarrow> byte \<Rightarrow> ustring \<Rightarrow> ('w content_world_scheme, contribution_error, unit) m" where
  "insert_review_revision review rating body =
     sql contribution_of_db (\<lambda>w.
       check_that ''review_revision_review_id_fkey'' (\<exists>r \<in> set (reviews w). re_id r = review)
         (Inr ((), w\<lparr>review_revisions := review_revisions w @
              [\<lparr>rw_id = next_review_revision w, rw_review = review, rw_rating = star_rating_as_i16 rating,
                rw_body = body, rw_edited_at = now w\<rparr>],
            next_review_revision := next_review_revision w + 1\<rparr>)))"

definition recompute_rating :: "int \<Rightarrow> ('w content_world_scheme, contribution_error, unit) m" where
  "recompute_rating i =
     command contribution_of_db (\<lambda>w.
       w\<lparr>locations := update_where (\<lambda>l. lr_id l = i)
          (\<lambda>l. l\<lparr>lr_rating_avg := fst (aggregate (reviews w) i), lr_rating_count := snd (aggregate (reviews w) i)\<rparr>)
          (locations w)\<rparr>)"

definition upsert_review ::
  "int \<Rightarrow> int \<Rightarrow> byte \<Rightarrow> ustring \<Rightarrow> ('w content_world_scheme, contribution_error, bool) m" where
  "upsert_review i author rating body =
     transaction contribution_of_db
       (bindM (upsert_review_row i author rating body) (\<lambda>(review, was_update).
        thenM (insert_review_revision review rating body) (
        thenM (recompute_rating i)
              (retM was_update))))"

definition find_own :: "int \<Rightarrow> int \<Rightarrow> ('w content_world_scheme, contribution_error, review option) m" where
  "find_own i author =
     bindM (query contribution_of_db (\<lambda>w. select_one (has_review i author) (reviews w))) (\<lambda>row.
       case row of None \<Rightarrow> retM None | Some r \<Rightarrow> bindM (review_from_row r) (\<lambda>x. retM (Some x)))"

definition list_active :: "int \<Rightarrow> int option \<Rightarrow> int \<Rightarrow> ('w content_world_scheme, contribution_error, review list) m" where
  "list_active i after limit =
     bindM (query contribution_of_db (\<lambda>w.
       take (nat (clamp 1 200 limit))
         (sort_key (\<lambda>r. (- re_created_at r, - re_id r))
           (filter (\<lambda>r. case after of None \<Rightarrow> True | Some a \<Rightarrow> re_id r < a) (active_reviews (reviews w) i)))))
       (mapM review_from_row)"

section \<open>Verification signals\<close>

datatype new_verification =
    ExistenceSignal int int existence_result
  | AttributeSignal int int ustring attribute_result
  | ParkedHere int int

definition signal_location :: "new_verification \<Rightarrow> int" where
  "signal_location s = (case s of ExistenceSignal i _ _ \<Rightarrow> i | AttributeSignal i _ _ _ \<Rightarrow> i | ParkedHere i _ \<Rightarrow> i)"

definition signal_user :: "new_verification \<Rightarrow> int" where
  "signal_user s = (case s of ExistenceSignal _ u _ \<Rightarrow> u | AttributeSignal _ u _ _ \<Rightarrow> u | ParkedHere _ u \<Rightarrow> u)"

definition is_parked_here :: "new_verification \<Rightarrow> bool" where
  "is_parked_here s = (case s of ParkedHere _ _ \<Rightarrow> True | _ \<Rightarrow> False)"

definition is_still_exists :: "new_verification \<Rightarrow> bool" where
  "is_still_exists s = (case s of ExistenceSignal _ _ r \<Rightarrow> r = StillExists | _ \<Rightarrow> False)"

definition signal_kind_code :: "new_verification \<Rightarrow> ustring" where
  "signal_kind_code s =
     (case s of ExistenceSignal _ _ _ \<Rightarrow> lit ''existence'' | AttributeSignal _ _ _ _ \<Rightarrow> lit ''attribute''
      | ParkedHere _ _ \<Rightarrow> lit ''parked_here'')"

definition parked_here_retention_days :: int where
  "parked_here_retention_days = 90"

definition signal_columns :: "new_verification \<Rightarrow> int \<Rightarrow> ustring \<times> ustring \<times> ustring option \<times> int option" where
  "signal_columns s t =
     (case s of
        ExistenceSignal _ _ r \<Rightarrow> (lit ''existence'', existence_result_code r, None, None)
      | AttributeSignal _ _ code r \<Rightarrow> (lit ''attribute'', attribute_result_code r, Some code, None)
      | ParkedHere _ _ \<Rightarrow> (lit ''parked_here'', lit ''parked_here'', None, Some (t + days parked_here_retention_days)))"

definition record_signal :: "new_verification \<Rightarrow> int \<Rightarrow> ('w content_world_scheme, contribution_error, unit) m" where
  "record_signal s t =
     sql contribution_of_db (\<lambda>w.
       case signal_columns s t of (kind, result, attribute, expires) \<Rightarrow>
         check_location ''verification_location_id_fkey'' w (signal_location s)
           (check_user ''verification_user_id_fkey'' w (signal_user s)
             (Inr ((), w\<lparr>signals := signals w @
                [\<lparr>sg_id = next_signal w, sg_location = signal_location s, sg_user = Some (signal_user s),
                  sg_kind = kind, sg_result = result, sg_attribute = attribute, sg_created_at = now w,
                  sg_expires_at = expires\<rparr>],
              next_signal := next_signal w + 1\<rparr>))))"

text \<open>\<open>DISTINCT ON (user_id) ... ORDER BY user_id, created_at DESC\<close>: the newest row of each
  user.\<close>

fun distinct_users :: "signal_row list \<Rightarrow> signal_row list" where
  "distinct_users [] = []"
| "distinct_users (s # ss) = s # distinct_users (filter (\<lambda>x. sg_user x \<noteq> sg_user s) ss)"

definition existence_rows :: "signal_row list \<Rightarrow> int \<Rightarrow> signal_row list" where
  "existence_rows t i =
     distinct_users (sort_key (\<lambda>s. (the (sg_user s), - sg_created_at s))
       (filter (\<lambda>s. sg_location s = i \<and> sg_kind s = lit ''existence'' \<and> sg_user s \<noteq> None) t))"

definition latest_existence_per_user :: "int \<Rightarrow> ('w content_world_scheme, contribution_error, existence_signal list) m" where
  "latest_existence_per_user i =
     bindM (query contribution_of_db (\<lambda>w. existence_rows (signals w) i)) (\<lambda>rows.
     bindM (mapM (\<lambda>r.
         case sg_user r of
           None \<Rightarrow> retM None
         | Some u \<Rightarrow>
             bindM (mapErrM contribution_of_domain (liftR (existence_result_from (sg_result r)))) (\<lambda>x.
               retM (Some \<lparr>es_user = u, es_result = x, es_at = sg_created_at r\<rparr>))) rows) (\<lambda>xs.
       retM (List.map_filter id xs)))"

record attribute_summary =
  at_code :: ustring
  at_correct :: int
  at_incorrect :: int

text \<open>A group whose attribute code is NULL is skipped by the code that folds the rows.\<close>

definition attribute_rows :: "signal_row list \<Rightarrow> int \<Rightarrow> attribute_summary list" where
  "attribute_rows t i =
     (let rows = filter (\<lambda>s. sg_location s = i \<and> sg_kind s = lit ''attribute'') t;
          count = (\<lambda>c r. int (length (filter (\<lambda>s. sg_attribute s = Some c \<and> sg_result s = r) rows)))
      in map (\<lambda>c. \<lparr>at_code = c, at_correct = count c (lit ''correct''), at_incorrect = count c (lit ''incorrect'')\<rparr>)
           (sort (remdups (List.map_filter sg_attribute rows))))"

definition parked_here_rows :: "signal_row list \<Rightarrow> int \<Rightarrow> int \<Rightarrow> signal_row list" where
  "parked_here_rows t i at_time =
     filter (\<lambda>s. sg_location s = i \<and> sg_kind s = lit ''parked_here''
                 \<and> (case sg_expires_at s of None \<Rightarrow> True | Some e \<Rightarrow> at_time < e)) t"

definition attribute_and_parked_summary ::
  "int \<Rightarrow> ('w content_world_scheme, contribution_error, attribute_summary list \<times> int) m" where
  "attribute_and_parked_summary i =
     query contribution_of_db (\<lambda>w.
       (attribute_rows (signals w) i, int (length (parked_here_rows (signals w) i (now w)))))"

definition mark_verified_at :: "int \<Rightarrow> int \<Rightarrow> ('w content_world_scheme, contribution_error, unit) m" where
  "mark_verified_at i t =
     command contribution_of_db (\<lambda>w.
       w\<lparr>locations := update_where (\<lambda>l. lr_id l = i) (\<lambda>l. l\<lparr>lr_verified_at := Some t\<rparr>) (locations w)\<rparr>)"

section \<open>Favorites\<close>

definition is_favorite :: "int \<Rightarrow> int \<Rightarrow> favorite_row \<Rightarrow> bool" where
  "is_favorite user i f \<longleftrightarrow> fv_user f = user \<and> fv_location f = i"

definition toggle :: "int \<Rightarrow> int \<Rightarrow> ('w content_world_scheme, contribution_error, bool) m" where
  "toggle user i =
     sql contribution_of_db (\<lambda>w.
       if \<exists>f \<in> set (favorites w). is_favorite user i f
       then Inr (False, w\<lparr>favorites := filter (\<lambda>f. \<not> is_favorite user i f) (favorites w)\<rparr>)
       else check_user ''favorite_user_id_fkey'' w user
              (check_location ''favorite_location_id_fkey'' w i
                (Inr (True, w\<lparr>favorites := favorites w @
                   [\<lparr>fv_user = user, fv_location = i, fv_created_at = now w\<rparr>]\<rparr>))))"

definition is_favorited :: "int \<Rightarrow> int \<Rightarrow> ('w content_world_scheme, contribution_error, bool) m" where
  "is_favorited user i = query contribution_of_db (\<lambda>w. \<exists>f \<in> set (favorites w). is_favorite user i f)"

text \<open>A keyset page: the rows strictly after the cursor in descending order of the key.\<close>

definition keyset_page :: "('r \<Rightarrow> int \<times> int) \<Rightarrow> (int \<times> int) option \<Rightarrow> int \<Rightarrow> 'r list \<Rightarrow> 'r list" where
  "keyset_page key after limit t =
     take (nat (clamp 1 200 limit))
       (sort_key (\<lambda>r. (- fst (key r), - snd (key r)))
         (filter (\<lambda>r. case after of None \<Rightarrow> True | Some c \<Rightarrow> key r < c) t))"

definition favorite_key :: "favorite_row \<Rightarrow> int \<times> int" where
  "favorite_key f = (fv_created_at f, fv_location f)"

definition list_favorite_rows :: "int \<Rightarrow> (int \<times> int) option \<Rightarrow> int \<Rightarrow> ('w content_world_scheme, contribution_error, favorite_row list) m" where
  "list_favorite_rows user after limit =
     query contribution_of_db (\<lambda>w.
       keyset_page favorite_key after limit (filter (\<lambda>f. fv_user f = user) (favorites w)))"

section \<open>The contribution feed\<close>

record contribution_item =
  ci_kind :: ustring
  ci_target :: ustring
  ci_state :: ustring
  ci_at :: int
  ci_id :: int

text \<open>One branch of the union: the rows joined with their location's name.\<close>

definition joined ::
  "location_row list \<Rightarrow> int option \<Rightarrow> ustring \<Rightarrow> ustring \<Rightarrow> int \<Rightarrow> int \<Rightarrow> contribution_item list" where
  "joined ls i kind st t ident =
     (case i of
        None \<Rightarrow> []
      | Some x \<Rightarrow> map (\<lambda>l. \<lparr>ci_kind = kind, ci_target = lr_name l, ci_state = st, ci_at = t, ci_id = ident\<rparr>)
                  (filter (\<lambda>l. lr_id l = x) ls))"

definition review_location :: "review_row list \<Rightarrow> int \<Rightarrow> int option" where
  "review_location t i = map_option re_location (select_one (\<lambda>r. re_id r = i) t)"

definition history_events :: "int \<Rightarrow> 'w content_world_scheme \<Rightarrow> contribution_item list" where
  "history_events u w =
     (let ls = locations w in
      concat (map (\<lambda>l. joined [l] (Some (lr_id l)) (lit ''added'') (lit ''active'') (lr_created_at l) (lr_id l * 10 + 1))
                (filter (\<lambda>l. lr_creator l = Some u) ls))
      @ concat (map (\<lambda>r. joined ls (Some (rv_location r)) (lit ''edited'') (lit ''history'') (rv_created_at r) (rv_id r * 10 + 2))
                (filter (\<lambda>r. rv_editor r = Some u \<and> rv_kind r = lit ''edit'') (revisions w)))
      @ concat (map (\<lambda>p. joined ls (Some (pr_location p)) (lit ''proposed'') (lit ''pending'') (pr_created_at p) (pr_id p * 10 + 3))
                (filter (\<lambda>p. pr_proposer p = Some u) (proposals w)))
      @ concat (map (\<lambda>r. joined ls (Some (re_location r)) (lit ''reviewed'') (lit ''active'') (re_created_at r) (re_id r * 10 + 4))
                (filter (\<lambda>r. re_author r = Some u) (reviews w)))
      @ concat (map (\<lambda>s. joined ls (Some (sg_location s))
                   (if sg_kind s = lit ''parked_here'' then lit ''parked_here'' else lit ''verified'')
                   (lit ''active'') (sg_created_at s) (sg_id s * 10 + 5))
                (filter (\<lambda>s. sg_user s = Some u) (signals w)))
      @ concat (map (\<lambda>f. joined ls (Some (fv_location f)) (lit ''favorited'') (lit ''active'') (fv_created_at f) (fv_location f * 10 + 6))
                (filter (\<lambda>f. fv_user f = u) (favorites w)))
      @ concat (map (\<lambda>p. joined ls (Some (ph_parent p)) (lit ''photo.pending'') (lit ''pending'') (ph_created_at p) (ph_id p * 10 + 7))
                (filter (\<lambda>p. ph_uploader p = Some u \<and> ph_state p = lit ''PENDING_REVIEW'') (parking_photos w)))
      @ concat (map (\<lambda>p. joined ls (review_location (reviews w) (ph_parent p)) (lit ''photo.pending'') (lit ''pending'')
                   (ph_created_at p) (ph_id p * 10 + 8))
                (filter (\<lambda>p. ph_uploader p = Some u \<and> ph_state p = lit ''PENDING_REVIEW'') (review_photos w))))"

definition item_key :: "contribution_item \<Rightarrow> int \<times> int" where
  "item_key c = (ci_at c, ci_id c)"

definition history :: "int \<Rightarrow> (int \<times> int) option \<Rightarrow> int \<Rightarrow> ('w content_world_scheme, contribution_error, contribution_item list) m" where
  "history u after limit =
     query contribution_of_db (\<lambda>w. keyset_page item_key after limit (history_events u w))"

end
