(* ===== verification/Community_Service.thy ===== *)
theory Community_Service
  imports Community_Store
begin

text \<open>
  The contribution use cases (\<open>application/src/community.rs\<close>): the verified-email gate, the
  rate limits, the check that a location is live, and the composition of the repositories
  with the audit log.  Reading a review's photos is
  \<open>infrastructure/src/photo/review_photos.rs\<close>.
\<close>

section \<open>Helpers\<close>

definition parking_create_user_limit :: nat where "parking_create_user_limit = 5"
definition parking_create_ip_limit :: nat where "parking_create_ip_limit = 10"
definition edit_user_limit :: nat where "edit_user_limit = 15"
definition proposal_user_limit :: nat where "proposal_user_limit = 5"
definition review_user_limit :: nat where "review_user_limit = 10"
definition verification_user_limit :: nat where "verification_user_limit = 30"
definition parked_here_user_limit :: nat where "parked_here_user_limit = 20"
definition details_review_limit :: int where "details_review_limit = 50"

definition require_verified :: "authenticated_user \<Rightarrow> ('s, contribution_error, unit) m" where
  "require_verified u = requireM (au_verified u) CNotVerified"

text \<open>One call of the shared in-memory limiter.\<close>

definition rate_check :: "ustring \<Rightarrow> nat \<Rightarrow> int \<Rightarrow> ('w auth_world_scheme, 'e, bool) m" where
  "rate_check key limit window =
     (\<lambda>w. let (b, l) = mem_check key limit window (now w) (limiter w) in (Inr b, w\<lparr>limiter := l\<rparr>))"

definition contribution_allowed :: "ustring \<Rightarrow> nat \<Rightarrow> int \<Rightarrow> ('w content_world_scheme, contribution_error, unit) m" where
  "contribution_allowed key limit window =
     bindM (rate_check key limit window) (\<lambda>b. requireM b CRateLimited)"

definition require_active :: "geo_externals \<Rightarrow> int \<Rightarrow> ('w content_world_scheme, contribution_error, parking_location) m" where
  "require_active G i =
     bindM (get_for_edit G i) (\<lambda>found.
     bindM (okOrM CNotFound found) (\<lambda>l.
     thenM (requireM (pl_moderation l = MActive) LocationNotActive)
           (retM l)))"

definition service_event :: "int \<Rightarrow> string \<Rightarrow> string \<Rightarrow> int \<Rightarrow> (ustring \<times> json) list \<Rightarrow> audit_event" where
  "service_event actor action target_type target metadata =
     \<lparr>ae_actor = Some actor, ae_action = lit action, ae_target_type = lit target_type,
      ae_target_id = show_int target, ae_result = lit ''success'', ae_metadata = JObject metadata\<rparr>"

definition contribution_audit :: "audit_event \<Rightarrow> ('w content_world_scheme, contribution_error, unit) m" where
  "contribution_audit ev = mapErrM (\<lambda>_. CInternal) (audit_record ev)"

definition validate_name_address :: "ustring \<Rightarrow> ustring \<Rightarrow> ('s, contribution_error, unit) m" where
  "validate_name_address name address =
     thenM (requireM (trim name \<noteq> []) (CInvalidField (lit ''name is required'')))
           (requireM (trim address \<noteq> []) (CInvalidField (lit ''address is required'')))"

section \<open>Add, edit, propose\<close>

record add_outcome =
  ao_id :: int
  ao_duplicates :: "duplicate_candidate list"

definition add_parking_location ::
  "geo_externals \<Rightarrow> authenticated_user \<Rightarrow> ustring \<Rightarrow> new_location \<Rightarrow> ('w content_world_scheme, contribution_error, add_outcome) m" where
  "add_parking_location G u ip input =
     thenM (require_verified u) (
     thenM (contribution_allowed (lit ''contribution:parking-create:user:'' @ show_int (au_id u))
              parking_create_user_limit (days 1)) (
     thenM (contribution_allowed (lit ''contribution:parking-create:ip:'' @ ip) parking_create_ip_limit (days 1)) (
     thenM (validate_name_address (nl_name input) (nl_address input)) (
       (let resolved = (case nl_timezone input of
                          None \<Rightarrow> input\<lparr>nl_timezone := Some (resolve_zone (nl_point input))\<rparr>
                        | Some _ \<Rightarrow> input) in
        bindM (duplicate_candidates G (nl_point resolved) (nl_name resolved)) (\<lambda>duplicates.
        bindM (getM now) (\<lambda>t.
        bindM (create_location resolved (au_id u) t) (\<lambda>i.
        thenM (contribution_audit (service_event (au_id u) ''parking.created'' ''parking_location'' i
                 [(lit ''name'', JString (nl_name resolved))]))
              (retM \<lparr>ao_id = i, ao_duplicates = duplicates\<rparr>)))))))))"

definition find_duplicates ::
  "geo_externals \<Rightarrow> authenticated_user \<Rightarrow> geo_point \<Rightarrow> ustring \<Rightarrow> ('w content_world_scheme, contribution_error, duplicate_candidate list) m" where
  "find_duplicates G u p name = thenM (require_verified u) (duplicate_candidates G p name)"

definition apply_parking_edit ::
  "geo_externals \<Rightarrow> authenticated_user \<Rightarrow> int \<Rightarrow> int \<Rightarrow> parking_edit \<Rightarrow> ('w content_world_scheme, contribution_error, int) m" where
  "apply_parking_edit G u i expected_version e =
     thenM (require_verified u) (
     thenM (contribution_allowed (lit ''contribution:edit:user:'' @ show_int (au_id u)) edit_user_limit (hours 1)) (
     thenM (validate_name_address (pe_name e) (pe_address e)) (
     thenM (require_active G i) (
     bindM (getM now) (\<lambda>t.
     bindM (apply_edit G i expected_version e (au_id u) t) (\<lambda>new_version.
     thenM (contribution_audit (service_event (au_id u) ''parking.edited'' ''parking_location'' i
              [(lit ''version'', JInt new_version)]))
           (retM new_version)))))))"

definition propose_location_change ::
  "geo_externals \<Rightarrow> authenticated_user \<Rightarrow> int \<Rightarrow> proposal_kind \<Rightarrow> json \<Rightarrow> ('w content_world_scheme, contribution_error, int) m" where
  "propose_location_change G u i kind proposed =
     thenM (require_verified u) (
     thenM (contribution_allowed (lit ''contribution:proposal:user:'' @ show_int (au_id u)) proposal_user_limit (hours 1)) (
     bindM (require_active G i) (\<lambda>current.
     bindM (create_proposal \<lparr>np_location = i, np_proposer = au_id u, np_base_version = pl_version current,
                             np_kind = kind, np_proposed = proposed\<rparr>) (\<lambda>p.
     thenM (contribution_audit (service_event (au_id u) ''parking.proposal_created'' ''parking_proposal'' p
              [(lit ''kind'', JString (proposal_kind_code kind))]))
           (retM p)))))"

section \<open>Reviews and verifications\<close>

definition submit_review ::
  "geo_externals \<Rightarrow> authenticated_user \<Rightarrow> int \<Rightarrow> byte \<Rightarrow> ustring \<Rightarrow> ('w content_world_scheme, contribution_error, unit) m" where
  "submit_review G u i rating body =
     thenM (require_verified u) (
     thenM (contribution_allowed (lit ''contribution:review:user:'' @ show_int (au_id u)) review_user_limit (hours 1)) (
     thenM (require_active G i) (
     bindM (upsert_review i (au_id u) rating body) (\<lambda>was_update.
       contribution_audit (service_event (au_id u) (if was_update then ''review.edited'' else ''review.created'')
         ''review'' i [(lit ''rating'', JInt (int (unat rating)))])))))"

definition record_verification ::
  "geo_externals \<Rightarrow> authenticated_user \<Rightarrow> new_verification \<Rightarrow> ('w content_world_scheme, contribution_error, unit) m" where
  "record_verification G u s =
     thenM (require_verified u) (
     thenM (if is_parked_here s
            then contribution_allowed (lit ''contribution:parked-here:user:'' @ show_int (au_id u))
                   parked_here_user_limit (hours 1)
            else contribution_allowed (lit ''contribution:verification:user:'' @ show_int (au_id u))
                   verification_user_limit (hours 1)) (
     thenM (require_active G (signal_location s)) (
     bindM (getM now) (\<lambda>t.
     thenM (record_signal s t) (
     thenM (whenM (is_still_exists s) (mark_verified_at (signal_location s) t))
           (contribution_audit (service_event (au_id u) ''verification.recorded'' ''parking_location''
              (signal_location s) [(lit ''kind'', JString (signal_kind_code s))])))))))"

section \<open>Favorites and history\<close>

definition toggle_favorite :: "int \<Rightarrow> int \<Rightarrow> ('w content_world_scheme, contribution_error, bool) m" where
  "toggle_favorite user i = toggle user i"

definition list_favorites :: "int \<Rightarrow> (int \<times> int) option \<Rightarrow> int \<Rightarrow> ('w content_world_scheme, contribution_error, favorite_row list) m" where
  "list_favorites user after limit = list_favorite_rows user after limit"

definition contribution_history :: "int \<Rightarrow> (int \<times> int) option \<Rightarrow> int \<Rightarrow> ('w content_world_scheme, contribution_error, contribution_item list) m" where
  "contribution_history user after limit = history user after limit"

section \<open>The community view of a location\<close>

record stored_photo =
  sp_key :: ustring
  sp_thumbnail :: "ustring option"
  sp_content_type :: ustring
  sp_alt :: "ustring option"

definition photos_for_reviews :: "int list \<Rightarrow> ('w content_world_scheme, reader_error, (int \<times> stored_photo list) list) m" where
  "photos_for_reviews ids =
     (if ids = [] then retM []
      else query reader_of_db (\<lambda>w.
        let rows = sort_key (\<lambda>p. sint (ph_position p)) (sort_key ph_id
                     (filter (\<lambda>p. ph_parent p \<in> set ids \<and> ph_state p = lit ''APPROVED'') (review_photos w)))
        in map (\<lambda>i. (i, map (\<lambda>p. \<lparr>sp_key = ph_key p, sp_thumbnail = ph_thumbnail p,
                                 sp_content_type = lit ''image/jpeg'', sp_alt = None\<rparr>)
                            (filter (\<lambda>p. ph_parent p = i) rows)))
             (remdups (map ph_parent rows))))"

datatype reason_factor = ReasonDistance | ReasonSecurity | ReasonRating | ReasonFreshness | ReasonVerification

definition reason_code :: "reason_factor \<Rightarrow> ustring" where
  "reason_code r =
     (case r of ReasonDistance \<Rightarrow> lit ''distance'' | ReasonSecurity \<Rightarrow> lit ''security''
      | ReasonRating \<Rightarrow> lit ''rating'' | ReasonFreshness \<Rightarrow> lit ''freshness''
      | ReasonVerification \<Rightarrow> lit ''verification'')"

text \<open>The factors of \<open>recommendation_reasons\<close> for a summary: its distance in metres when the
  request carries an origin, the radius, the number of confirmed security features, the
  average rating and the last verification.  The label key is \<open>reason.\<close> and the code; the
  detail text, formatted floats for the view, is left out.\<close>

definition default_radius_m :: nat where "default_radius_m = 1000"

definition recommendation_reasons ::
  "rat option \<Rightarrow> nat \<Rightarrow> nat \<Rightarrow> rat option \<Rightarrow> int option \<Rightarrow> int \<Rightarrow> freshness_thresholds \<Rightarrow> reason_factor list" where
  "recommendation_reasons distance radius security_yes avg verified_at t th =
     (case distance of
        None \<Rightarrow> []
      | Some d \<Rightarrow> if 4 / 10 \<le> 1 - max 0 (min 1 (d / of_nat radius)) then [ReasonDistance] else [])
     @ (if 0 < security_yes then [ReasonSecurity] else [])
     @ (case avg of Some a \<Rightarrow> if 35 / 10 \<le> a then [ReasonRating] else [] | None \<Rightarrow> [])
     @ (if categorize verified_at t th \<in> {Fresh, RecentlyVerified} then [ReasonFreshness] else [])
     @ (if verified_at \<noteq> None then [ReasonVerification] else [])"

text \<open>The average of the listed reviews, as \<open>summary_of\<close> computes it.\<close>

definition listed_average :: "review list \<Rightarrow> rat option" where
  "listed_average rs =
     (if rs = [] then None
      else Some (of_nat (sum_list (map (\<lambda>r. unat (rd_rating r)) rs)) / of_nat (length rs)))"

record community_details =
  cd_location :: parking_location
  cd_reviews :: "review list"
  cd_review_photos :: "(int \<times> stored_photo list) list"
  cd_confidence :: confidence_level
  cd_disputed :: bool
  cd_attributes :: "attribute_summary list"
  cd_parked_here :: int
  cd_favorited :: bool
  cd_own_review :: "review option"
  cd_own_verification :: "existence_signal option"
  cd_reasons :: "reason_factor list"

definition community_view ::
  "freshness_thresholds \<Rightarrow> parking_location \<Rightarrow> int option \<Rightarrow> ('w content_world_scheme, contribution_error, community_details) m" where
  "community_view th l viewer =
     bindM (getM now) (\<lambda>t.
     bindM (list_active (pl_id l) None details_review_limit) (\<lambda>rs.
     bindM (mapErrM (\<lambda>_. CInternal) (photos_for_reviews (map rd_id rs))) (\<lambda>photos.
     bindM (latest_existence_per_user (pl_id l)) (\<lambda>sigs.
     bindM (attribute_and_parked_summary (pl_id l)) (\<lambda>(attrs, parked).
     bindM (case viewer of Some v \<Rightarrow> find_own (pl_id l) v | None \<Rightarrow> retM None) (\<lambda>own.
     bindM (case viewer of Some v \<Rightarrow> is_favorited v (pl_id l) | None \<Rightarrow> retM False) (\<lambda>fav.
       retM \<lparr>cd_location = l, cd_reviews = rs, cd_review_photos = photos,
             cd_confidence = confidence sigs t th,
             cd_disputed = (list_ex (\<lambda>a. 0 < at_incorrect a) attrs \<or> list_ex (\<lambda>s. es_result s = InfoChanged) sigs),
             cd_attributes = attrs, cd_parked_here = parked, cd_favorited = fav, cd_own_review = own,
             cd_own_verification = (case viewer of Some v \<Rightarrow> find (\<lambda>s. es_user s = v) sigs | None \<Rightarrow> None),
             cd_reasons = recommendation_reasons None default_radius_m
               (length (filter (\<lambda>f. sf_state f = SecYes) (pl_security l))) (listed_average rs)
               (pl_verified_at l) t th\<rparr>)))))))"

end
