(* ===== verification/Photo_Service.thy ===== *)
theory Photo_Service
  imports Community_Service
begin

text \<open>
  Photos: the repository over both photo tables (\<open>infrastructure/src/photo/repository.rs\<close>)
  and the upload and moderation use cases (\<open>application/src/photo.rs\<close>).  The object store
  is its port's contract (\<open>application/src/storage.rs\<close>): \<open>put\<close> overwrites, \<open>delete\<close> of a
  missing object succeeds, and either can fail.  The pipeline of
  \<open>infrastructure/src/photo/processor.rs\<close> is modelled over the image crate's own operations,
  which are the fields of \<open>image_codec\<close>; its semaphore and its blocking thread are left out.
\<close>

section \<open>Kinds and targets\<close>

datatype photo_kind = ParkingPhotoKind | ReviewPhotoKind

definition photo_kind_code :: "photo_kind \<Rightarrow> ustring" where
  "photo_kind_code k = (case k of ParkingPhotoKind \<Rightarrow> lit ''parking'' | ReviewPhotoKind \<Rightarrow> lit ''review'')"

definition photo_kind_from :: "ustring \<Rightarrow> photo_kind option" where
  "photo_kind_from c =
     (if c = lit ''parking'' then Some ParkingPhotoKind
      else if c = lit ''review'' then Some ReviewPhotoKind else None)"

datatype photo_target = ParkingTarget int | ReviewTarget int

definition target_kind :: "photo_target \<Rightarrow> photo_kind" where
  "target_kind t = (case t of ParkingTarget _ \<Rightarrow> ParkingPhotoKind | ReviewTarget _ \<Rightarrow> ReviewPhotoKind)"

definition target_parent :: "photo_target \<Rightarrow> int" where
  "target_parent t = (case t of ParkingTarget i \<Rightarrow> i | ReviewTarget i \<Rightarrow> i)"

definition for_kind :: "photo_kind \<Rightarrow> int \<Rightarrow> photo_target" where
  "for_kind k i = (case k of ParkingPhotoKind \<Rightarrow> ParkingTarget i | ReviewPhotoKind \<Rightarrow> ReviewTarget i)"

lemmas photo_codes [codes] = photo_kind_code_def photo_kind_from_def

interpretation photo_kind: code_enum photo_kind_code photo_kind_from
  by unfold_locales (auto simp: codes split: photo_kind.splits if_splits)

text \<open>The columns both tables share, and an update of the rows of a kind.\<close>

definition photo_rows :: "photo_kind \<Rightarrow> 'w content_world_scheme \<Rightarrow> photo_row list" where
  "photo_rows k w =
     (case k of ParkingPhotoKind \<Rightarrow> map photo_row.truncate (parking_photos w) | ReviewPhotoKind \<Rightarrow> review_photos w)"

text \<open>The writes of a photo row are an upload's insert, a change of the moderation columns,
  and a delete.\<close>

record photo_verdict =
  pv_state :: ustring
  pv_reason :: "ustring option option"
  pv_position :: "32 word option"
  pv_reviewer :: int
  pv_at :: int

definition judge :: "photo_verdict \<Rightarrow> 'r photo_row_scheme \<Rightarrow> 'r photo_row_scheme" where
  "judge v p =
     p\<lparr>ph_state := pv_state v, ph_reviewed_by := Some (pv_reviewer v), ph_reviewed_at := Some (pv_at v),
       ph_reason := (case pv_reason v of None \<Rightarrow> ph_reason p | Some r \<Rightarrow> r),
       ph_position := (case pv_position v of None \<Rightarrow> ph_position p | Some x \<Rightarrow> x)\<rparr>"

definition in_state :: "int \<Rightarrow> string \<Rightarrow> 'r photo_row_scheme \<Rightarrow> bool" where
  "in_state i st p \<longleftrightarrow> ph_id p = i \<and> ph_state p = lit st"

text \<open>\<open>UPDATE ... WHERE id = $1 AND moderation_state = from RETURNING\<close>: the reviewer is a
  foreign key.\<close>

definition judge_photo ::
  "photo_kind \<Rightarrow> int \<Rightarrow> string \<Rightarrow> photo_verdict \<Rightarrow> 'w content_world_scheme
    \<Rightarrow> db_failure + photo_row option \<times> 'w content_world_scheme" where
  "judge_photo k i st v w =
     (case select_one (in_state i st) (photo_rows k w) of
        None \<Rightarrow> Inr (None, w)
      | Some p \<Rightarrow>
          check_user (case k of ParkingPhotoKind \<Rightarrow> ''parking_photo_reviewed_by_fkey''
                      | ReviewPhotoKind \<Rightarrow> ''review_photo_reviewed_by_fkey'') w (pv_reviewer v)
            (Inr (Some (judge v p),
               case k of
                 ParkingPhotoKind \<Rightarrow> w\<lparr>parking_photos := update_where (in_state i st) (judge v) (parking_photos w)\<rparr>
               | ReviewPhotoKind \<Rightarrow> w\<lparr>review_photos := update_where (in_state i st) (judge v) (review_photos w)\<rparr>)))"

section \<open>Repository\<close>

record new_photo =
  nh_target :: photo_target
  nh_uploader :: int
  nh_content_type :: ustring
  nh_alt :: "ustring option"
  nh_key :: ustring
  nh_thumbnail :: ustring
  nh_dimensions :: photo_dimensions
  nh_processed_at :: int

definition pending_row :: "new_photo \<Rightarrow> int \<Rightarrow> int \<Rightarrow> photo_row" where
  "pending_row p i t =
     \<lparr>ph_id = i, ph_parent = target_parent (nh_target p), ph_uploader = Some (nh_uploader p),
      ph_key = nh_key p, ph_thumbnail = Some (nh_thumbnail p),
      ph_width = Some (pd_width (nh_dimensions p)), ph_height = Some (pd_height (nh_dimensions p)),
      ph_processed_at = Some (nh_processed_at p), ph_state = lit ''PENDING_REVIEW'', ph_reason = None,
      ph_reviewed_by = None, ph_reviewed_at = None, ph_position = 0, ph_created_at = t\<rparr>"

definition insert_pending :: "new_photo \<Rightarrow> ('w content_world_scheme, photo_error, int) m" where
  "insert_pending p =
     sql photo_of_db (\<lambda>w.
       case nh_target p of
         ParkingTarget parent \<Rightarrow>
           check_that ''parking_photo_storage_key_nonempty'' (nh_key p \<noteq> [])
           (check_location ''parking_photo_location_id_fkey'' w parent
           (check_user ''parking_photo_uploader_id_fkey'' w (nh_uploader p)
             (Inr (next_parking_photo w,
               w\<lparr>parking_photos := parking_photos w @
                    [photo_row.extend (pending_row p (next_parking_photo w) (now w))
                       (parking_photo_row.fields (nh_content_type p) (nh_alt p))],
                 next_parking_photo := next_parking_photo w + 1\<rparr>))))
       | ReviewTarget parent \<Rightarrow>
           check_that ''review_photo_storage_key_nonempty'' (nh_key p \<noteq> [])
           (check_that ''review_photo_review_id_fkey'' (\<exists>r \<in> set (reviews w). re_id r = parent)
           (check_user ''review_photo_uploader_id_fkey'' w (nh_uploader p)
             (Inr (next_review_photo w,
               w\<lparr>review_photos := review_photos w @ [pending_row p (next_review_photo w) (now w)],
                 next_review_photo := next_review_photo w + 1\<rparr>)))))"

text \<open>\<open>COALESCE(MAX(position), 0)\<close> over the photos of a target.\<close>

definition max_position :: "photo_target \<Rightarrow> ('w content_world_scheme, photo_error, 32 word) m" where
  "max_position target =
     query photo_of_db (\<lambda>w.
       let ps = map ph_position (filter (\<lambda>p. ph_parent p = target_parent target) (photo_rows (target_kind target) w))
       in (case ps of [] \<Rightarrow> 0 | x # xs \<Rightarrow> fold (\<lambda>a b. if sint b < sint a then a else b) xs x))"

definition delete_photo :: "photo_kind \<Rightarrow> int \<Rightarrow> ('w content_world_scheme, photo_error, unit) m" where
  "delete_photo k i =
     command photo_of_db (\<lambda>w.
       case k of
         ParkingPhotoKind \<Rightarrow> w\<lparr>parking_photos := filter (\<lambda>p. ph_id p \<noteq> i) (parking_photos w)\<rparr>
       | ReviewPhotoKind \<Rightarrow> w\<lparr>review_photos := filter (\<lambda>p. ph_id p \<noteq> i) (review_photos w)\<rparr>)"

definition approve_row :: "photo_kind \<Rightarrow> int \<Rightarrow> int \<Rightarrow> 32 word \<Rightarrow> ('w content_world_scheme, photo_error, unit) m" where
  "approve_row k i moderator position =
     bindM (sql photo_of_db (\<lambda>w. judge_photo k i ''PENDING_REVIEW''
              \<lparr>pv_state = lit ''APPROVED'', pv_reason = None, pv_position = Some position,
               pv_reviewer = moderator, pv_at = now w\<rparr> w))
       (\<lambda>row. requireM (row \<noteq> None) NotPending)"

definition reject_row :: "photo_kind \<Rightarrow> int \<Rightarrow> int \<Rightarrow> ustring \<Rightarrow> ('w content_world_scheme, photo_error, photo_row) m" where
  "reject_row k i moderator reason =
     bindM (sql photo_of_db (\<lambda>w. judge_photo k i ''PENDING_REVIEW''
              \<lparr>pv_state = lit ''REJECTED'', pv_reason = Some (Some reason), pv_position = None,
               pv_reviewer = moderator, pv_at = now w\<rparr> w))
       (okOrM NotPending)"

record photo_for_moderation =
  pm_id :: int
  pm_kind :: photo_kind
  pm_parent :: int
  pm_state :: photo_state
  pm_key :: ustring
  pm_thumbnail :: "ustring option"

definition get_for_moderation :: "photo_kind \<Rightarrow> int \<Rightarrow> ('w content_world_scheme, photo_error, photo_for_moderation option) m" where
  "get_for_moderation k i =
     query photo_of_db (\<lambda>w.
       map_option (\<lambda>p. \<lparr>pm_id = ph_id p, pm_kind = k, pm_parent = ph_parent p,
                        pm_state = (case photo_state_from (ph_state p) of Inr st \<Rightarrow> st | Inl _ \<Rightarrow> PhotoPending),
                        pm_key = ph_key p, pm_thumbnail = ph_thumbnail p\<rparr>)
         (select_one (\<lambda>p. ph_id p = i) (photo_rows k w)))"

record pending_photo =
  pq_id :: int
  pq_kind :: photo_kind
  pq_parent :: int
  pq_name :: ustring
  pq_key :: ustring
  pq_thumbnail :: "ustring option"
  pq_alt :: "ustring option"
  pq_width :: "32 word option"
  pq_height :: "32 word option"
  pq_uploader :: "int option"
  pq_created_at :: int

definition pending_entry :: "photo_kind \<Rightarrow> location_row \<Rightarrow> ustring option \<Rightarrow> 'r photo_row_scheme \<Rightarrow> pending_photo" where
  "pending_entry k l alt p =
     \<lparr>pq_id = ph_id p, pq_kind = k, pq_parent = lr_id l, pq_name = lr_name l, pq_key = ph_key p,
      pq_thumbnail = ph_thumbnail p, pq_alt = alt, pq_width = ph_width p, pq_height = ph_height p,
      pq_uploader = ph_uploader p, pq_created_at = ph_created_at p\<rparr>"

definition pending_entries :: "'w content_world_scheme \<Rightarrow> pending_photo list" where
  "pending_entries w =
     concat (map (\<lambda>p. map (\<lambda>l. pending_entry ParkingPhotoKind l (ph_alt p) p)
                        (filter (\<lambda>l. lr_id l = ph_parent p) (locations w)))
              (filter (\<lambda>p. ph_state p = lit ''PENDING_REVIEW'') (parking_photos w)))
     @ concat (map (\<lambda>p. map (\<lambda>l. pending_entry ReviewPhotoKind l None p)
                        (filter (\<lambda>l. review_location (reviews w) (ph_parent p) = Some (lr_id l)) (locations w)))
              (filter (\<lambda>p. ph_state p = lit ''PENDING_REVIEW'') (review_photos w)))"

definition list_pending :: "(int \<times> int) option \<Rightarrow> int \<Rightarrow> ('w content_world_scheme, photo_error, pending_photo list) m" where
  "list_pending after limit =
     query photo_of_db (\<lambda>w.
       take (nat (clamp 1 200 limit))
         (sort_key (\<lambda>p. (pq_created_at p, pq_id p))
           (filter (\<lambda>p. case after of None \<Rightarrow> True | Some c \<Rightarrow> c < (pq_created_at p, pq_id p)) (pending_entries w))))"

section \<open>Object store\<close>

definition storage_call ::
  "('w content_world_scheme \<Rightarrow> 'a \<times> 'w content_world_scheme) \<Rightarrow> ('w content_world_scheme, storage_error, 'a) m" where
  "storage_call f = (\<lambda>w. case storage_faults w of
       Some e # fs \<Rightarrow> (Inl e, w\<lparr>storage_faults := fs\<rparr>)
     | None # fs \<Rightarrow> (case f (w\<lparr>storage_faults := fs\<rparr>) of (a, w') \<Rightarrow> (Inr a, w'))
     | [] \<Rightarrow> (case f w of (a, w') \<Rightarrow> (Inr a, w')))"

definition put_object :: "ustring \<Rightarrow> byte list \<Rightarrow> ('w content_world_scheme, storage_error, unit) m" where
  "put_object key bytes =
     storage_call (\<lambda>w. ((), w\<lparr>objects := filter (\<lambda>ob. ob_key ob \<noteq> key) (objects w)
                                @ [\<lparr>ob_key = key, ob_bytes = bytes, ob_modified = now w\<rparr>]\<rparr>))"

definition delete_object :: "ustring \<Rightarrow> ('w content_world_scheme, storage_error, unit) m" where
  "delete_object key = storage_call (\<lambda>w. ((), w\<lparr>objects := filter (\<lambda>ob. ob_key ob \<noteq> key) (objects w)\<rparr>))"

definition object_exists :: "ustring \<Rightarrow> ('w content_world_scheme, storage_error, bool) m" where
  "object_exists key = storage_call (\<lambda>w. (\<exists>ob \<in> set (objects w). ob_key ob = key, w))"

section \<open>Use cases\<close>

datatype orientation =
    NoTransforms | Rotate90 | Rotate180 | Rotate270 | FlipHorizontal | FlipVertical
  | Rotate90FlipH | Rotate270FlipH

record 'img image_codec =
  ic_format :: "byte list \<Rightarrow> ustring option option"
  ic_open :: "byte list \<Rightarrow> (photo_dimensions \<times> orientation option) option"
  ic_decode :: "byte list \<Rightarrow> 'img option"
  ic_rotate90 :: "'img \<Rightarrow> 'img"
  ic_rotate180 :: "'img \<Rightarrow> 'img"
  ic_rotate270 :: "'img \<Rightarrow> 'img"
  ic_flip_horizontal :: "'img \<Rightarrow> 'img"
  ic_flip_vertical :: "'img \<Rightarrow> 'img"
  ic_size :: "'img \<Rightarrow> photo_dimensions"
  ic_thumbnail :: "32 word \<Rightarrow> 'img \<Rightarrow> 'img"
  ic_encode :: "byte \<Rightarrow> 'img \<Rightarrow> byte list option"

definition apply_orientation :: "'img image_codec \<Rightarrow> 'img \<Rightarrow> orientation \<Rightarrow> 'img" where
  "apply_orientation K img o' =
     (case o' of
        NoTransforms \<Rightarrow> img
      | Rotate90 \<Rightarrow> ic_rotate90 K img
      | Rotate180 \<Rightarrow> ic_rotate180 K img
      | Rotate270 \<Rightarrow> ic_rotate270 K img
      | FlipHorizontal \<Rightarrow> ic_flip_horizontal K img
      | FlipVertical \<Rightarrow> ic_flip_vertical K img
      | Rotate90FlipH \<Rightarrow> ic_flip_horizontal K (ic_rotate90 K img)
      | Rotate270FlipH \<Rightarrow> ic_flip_horizontal K (ic_rotate270 K img))"

record processed_image =
  im_full :: "byte list"
  im_thumb :: "byte list"
  im_dimensions :: photo_dimensions
  im_content_type :: ustring

definition process_image :: "'img image_codec \<Rightarrow> photo_limits \<Rightarrow> byte list \<Rightarrow> ('s, photo_error, processed_image) m" where
  "process_image K lims bytes =
     bindM (okOrM Undecodable (ic_format K bytes)) (\<lambda>fmt.
     thenM (requireM (case fmt of None \<Rightarrow> True | Some f \<Rightarrow> format_allowed f) UnsupportedFormat) (
     bindM (okOrM Undecodable (ic_open K bytes)) (\<lambda>(dims, orient).
     thenM (requireM (within_limit dims (max_megapixels lims)) TooManyPixels) (
     bindM (okOrM Undecodable (ic_decode K bytes)) (\<lambda>rgb.
     (let oriented = apply_orientation K rgb (case orient of None \<Rightarrow> NoTransforms | Some o' \<Rightarrow> o') in
      bindM (okOrM Undecodable (ic_encode K (derivative_quality lims) oriented)) (\<lambda>full.
      bindM (okOrM Undecodable (ic_encode K (derivative_quality lims) (ic_thumbnail K (thumb_max_side lims) oriented))) (\<lambda>thumb.
        retM \<lparr>im_full = full, im_thumb = thumb, im_dimensions = ic_size K oriented,
              im_content_type = lit ''image/jpeg''\<rparr>))))))))"

definition photo_upload_user_limit :: nat where "photo_upload_user_limit = 10"
definition photo_upload_ip_limit :: nat where "photo_upload_ip_limit = 20"
definition max_alt_len :: nat where "max_alt_len = 500"

definition photo_require_verified :: "authenticated_user \<Rightarrow> ('s, photo_error, unit) m" where
  "photo_require_verified u = requireM (au_verified u) PNotVerified"

definition may_moderate :: "authenticated_user \<Rightarrow> bool" where
  "may_moderate u \<longleftrightarrow> actor_has_role u RModerator \<or> actor_has_role u RAdmin"

definition photo_require_moderator :: "authenticated_user \<Rightarrow> ('s, photo_error, unit) m" where
  "photo_require_moderator u = requireM (may_moderate u) PUnauthorized"

definition photo_allowed :: "ustring \<Rightarrow> nat \<Rightarrow> int \<Rightarrow> ('w content_world_scheme, photo_error, unit) m" where
  "photo_allowed key limit window = bindM (rate_check key limit window) (\<lambda>b. requireM b PRateLimited)"

definition photo_audit :: "audit_event \<Rightarrow> ('w content_world_scheme, photo_error, unit) m" where
  "photo_audit ev = mapErrM (\<lambda>_. PInternal) (audit_record ev)"

definition normalize_alt :: "ustring option \<Rightarrow> photo_error + ustring option" where
  "normalize_alt alt =
     (case alt of
        None \<Rightarrow> Inr None
      | Some raw \<Rightarrow>
          if trim raw = [] then Inr None
          else if max_alt_len < length (trim raw) then Inl (PInvalidField (lit ''caption too long''))
          else Inr (Some (trim raw)))"

definition mint_upload_id :: "('w content_world_scheme, 'e, ustring) m" where
  "mint_upload_id = bindM random_bytes (\<lambda>b. retM (bytes_to_hex (take 16 b)))"

definition full_key :: "ustring \<Rightarrow> ustring" where
  "full_key i = lit ''uploads/'' @ i @ lit ''/full.jpg''"

definition thumb_key :: "ustring \<Rightarrow> ustring" where
  "thumb_key i = lit ''uploads/'' @ i @ lit ''/thumb.jpg''"

definition target_type_code :: "photo_kind \<Rightarrow> string" where
  "target_type_code k = (case k of ParkingPhotoKind \<Rightarrow> ''parking_photo'' | ReviewPhotoKind \<Rightarrow> ''review_photo'')"

text \<open>Both derivatives are written before the row; a failure deletes what landed.\<close>

definition store_derivatives :: "ustring \<Rightarrow> processed_image \<Rightarrow> ('w content_world_scheme, photo_error, unit) m" where
  "store_derivatives upload img =
     thenM (mapErrM PStorage (put_object (full_key upload) (im_full img))) (
     bindM (attemptM (put_object (thumb_key upload) (im_thumb img))) (\<lambda>r.
       case r of
         Inr _ \<Rightarrow> retM ()
       | Inl e \<Rightarrow> thenM (ignoreM (delete_object (full_key upload))) (throwM (PStorage e))))"

definition insert_or_discard :: "new_photo \<Rightarrow> ('w content_world_scheme, photo_error, int) m" where
  "insert_or_discard new =
     bindM (attemptM (insert_pending new)) (\<lambda>r.
       case r of
         Inr i \<Rightarrow> retM i
       | Inl e \<Rightarrow>
           thenM (ignoreM (delete_object (nh_thumbnail new))) (
           thenM (ignoreM (delete_object (nh_key new))) (throwM e)))"

definition upload_photo ::
  "'img image_codec \<Rightarrow> photo_limits \<Rightarrow> authenticated_user \<Rightarrow> ustring \<Rightarrow> photo_target
    \<Rightarrow> byte list \<Rightarrow> ustring option \<Rightarrow> ('w content_world_scheme, photo_error, int \<times> photo_kind) m" where
  "upload_photo K lims u ip target bytes alt =
     thenM (photo_require_verified u) (
     thenM (photo_allowed (lit ''photo:upload:user:'' @ show_int (au_id u)) photo_upload_user_limit (days 1)) (
     thenM (photo_allowed (lit ''photo:upload:ip:'' @ ip) photo_upload_ip_limit (days 1)) (
     thenM (requireM (bytes_within_limit (length bytes) (max_bytes lims)) TooLarge) (
     bindM (liftR (normalize_alt alt)) (\<lambda>caption.
     bindM (process_image K lims bytes) (\<lambda>img.
     bindM mint_upload_id (\<lambda>upload.
     thenM (store_derivatives upload img) (
     bindM (getM now) (\<lambda>t.
     bindM (insert_or_discard
              \<lparr>nh_target = target, nh_uploader = au_id u, nh_content_type = im_content_type img, nh_alt = caption,
               nh_key = full_key upload, nh_thumbnail = thumb_key upload, nh_dimensions = im_dimensions img,
               nh_processed_at = t\<rparr>) (\<lambda>i.
     thenM (photo_audit (service_event (au_id u) ''photo.uploaded'' (target_type_code (target_kind target)) i
              [(lit ''parent_id'', JInt (target_parent target))]))
           (retM (i, target_kind target))))))))))))"

definition approve_photo :: "authenticated_user \<Rightarrow> photo_kind \<Rightarrow> int \<Rightarrow> ('w content_world_scheme, photo_error, unit) m" where
  "approve_photo mo k i =
     thenM (photo_require_moderator mo) (
     bindM (get_for_moderation k i) (\<lambda>found.
     bindM (okOrM PNotFound found) (\<lambda>p.
       case pm_state p of
         PhotoApproved \<Rightarrow> retM ()
       | PhotoRejected \<Rightarrow> throwM NotPending
       | PhotoHidden \<Rightarrow> throwM NotPending
       | PhotoPending \<Rightarrow>
           bindM (max_position (for_kind k (pm_parent p))) (\<lambda>top.
           thenM (approve_row k i (au_id mo) (top + 1))
                 (photo_audit (service_event (au_id mo) ''photo.approved'' (target_type_code k) i
                    [(lit ''position'', JInt (sint (top + 1)))]))))))"

definition reject_photo :: "authenticated_user \<Rightarrow> photo_kind \<Rightarrow> int \<Rightarrow> ustring \<Rightarrow> ('w content_world_scheme, photo_error, unit) m" where
  "reject_photo mo k i raw_reason =
     thenM (photo_require_moderator mo) (
     thenM (requireM (trim raw_reason \<noteq> []) (PInvalidField (lit ''reason is required''))) (
     bindM (get_for_moderation k i) (\<lambda>found.
     bindM (okOrM PNotFound found) (\<lambda>p.
       case pm_state p of
         PhotoRejected \<Rightarrow> retM ()
       | PhotoApproved \<Rightarrow> throwM NotPending
       | PhotoHidden \<Rightarrow> throwM NotPending
       | PhotoPending \<Rightarrow>
           bindM (reject_row k i (au_id mo) (trim raw_reason)) (\<lambda>gone.
           thenM (ignoreM (delete_object (ph_key gone))) (
           thenM (case ph_thumbnail gone of None \<Rightarrow> retM () | Some th \<Rightarrow> ignoreM (delete_object th))
                 (photo_audit (service_event (au_id mo) ''photo.rejected'' (target_type_code k) i
                    [(lit ''reason'', JString (trim raw_reason))]))))))))"

definition list_pending_photos ::
  "authenticated_user \<Rightarrow> (int \<times> int) option \<Rightarrow> int \<Rightarrow> ('w content_world_scheme, photo_error, pending_photo list) m" where
  "list_pending_photos mo after limit = thenM (photo_require_moderator mo) (list_pending after limit)"

end
