(* ===== verification/Moderation_Store.thy ===== *)
theory Moderation_Store
  imports Photo_Service
begin

text \<open>
  Reports and moderation in the database: the report repository
  (\<open>infrastructure/src/moderation/report.rs\<close>), the moderation repository
  (\<open>infrastructure/src/moderation/actions.rs\<close>), the audit reader
  (\<open>infrastructure/src/moderation/audit.rs\<close>), and the read models and the override-merge rule
  of \<open>application/src/moderation.rs\<close>.
\<close>

section \<open>Reports\<close>

record report =
  rt_id :: int
  rt_reporter :: "int option"
  rt_target_type :: report_target
  rt_target_id :: int
  rt_reason :: ustring
  rt_description :: "ustring option"
  rt_state :: report_state
  rt_claimed_by :: "int option"
  rt_resolved_by :: "int option"
  rt_note :: "ustring option"
  rt_created_at :: int
  rt_updated_at :: int

definition into_report :: "report_row \<Rightarrow> ('s, moderation_error, report) m" where
  "into_report r =
     bindM (mapErrM moderation_of_domain (liftR (report_target_from (rp_target_type r)))) (\<lambda>tt.
     bindM (mapErrM moderation_of_domain (liftR (report_state_from (rp_state r)))) (\<lambda>st.
       retM \<lparr>rt_id = rp_id r, rt_reporter = rp_reporter r, rt_target_type = tt, rt_target_id = rp_target_id r,
             rt_reason = rp_reason r, rt_description = rp_description r, rt_state = st,
             rt_claimed_by = rp_claimed_by r, rt_resolved_by = rp_resolved_by r, rt_note = rp_note r,
             rt_created_at = rp_created_at r, rt_updated_at = rp_updated_at r\<rparr>))"

record new_report =
  nr_reporter :: int
  nr_target_type :: report_target
  nr_target_id :: int
  nr_reason :: ustring
  nr_description :: ustring

definition is_live_report :: "report_row \<Rightarrow> bool" where
  "is_live_report r \<longleftrightarrow> rp_state r = lit ''OPEN'' \<or> rp_state r = lit ''UNDER_REVIEW''"

text \<open>The partial unique index \<open>report_dedupe_idx\<close>.\<close>

definition duplicates_report :: "new_report \<Rightarrow> report_row \<Rightarrow> bool" where
  "duplicates_report n r \<longleftrightarrow>
     is_live_report r \<and> rp_reporter r = Some (nr_reporter n)
     \<and> rp_target_type r = report_target_code (nr_target_type n) \<and> rp_target_id r = nr_target_id n"

definition create_report :: "new_report \<Rightarrow> ('w content_world_scheme, moderation_error, int) m" where
  "create_report n =
     sql moderation_of_db (\<lambda>w.
       if \<exists>r \<in> set (reports w). duplicates_report n r then Inl (DbConflict (Some (lit ''report_dedupe_idx'')))
       else check_user ''report_reporter_id_fkey'' w (nr_reporter n)
         (Inr (next_report w, w\<lparr>reports := reports w @
            [\<lparr>rp_id = next_report w, rp_reporter = Some (nr_reporter n),
              rp_target_type = report_target_code (nr_target_type n), rp_target_id = nr_target_id n,
              rp_reason = nr_reason n, rp_description = Some (nr_description n), rp_state = lit ''OPEN'',
              rp_claimed_by = None, rp_resolved_by = None, rp_note = None,
              rp_created_at = now w, rp_updated_at = now w\<rparr>],
            next_report := next_report w + 1\<rparr>)))"

definition list_report_rows ::
  "report_state option \<Rightarrow> int option \<Rightarrow> int \<Rightarrow> ('w content_world_scheme, moderation_error, report list) m" where
  "list_report_rows st after limit =
     bindM (query moderation_of_db (\<lambda>w.
       take (nat (clamp 1 200 limit))
         (sort_key rp_id (filter (\<lambda>r.
            (case st of None \<Rightarrow> True | Some s \<Rightarrow> rp_state r = report_state_code s)
            \<and> (case after of None \<Rightarrow> True | Some a \<Rightarrow> a < rp_id r)) (reports w)))))
       (mapM into_report)"

definition find_report :: "int \<Rightarrow> ('w content_world_scheme, moderation_error, report option) m" where
  "find_report i =
     bindM (query moderation_of_db (\<lambda>w. select_one (\<lambda>r. rp_id r = i) (reports w))) (\<lambda>row.
       case row of None \<Rightarrow> retM None | Some r \<Rightarrow> bindM (into_report r) (\<lambda>x. retM (Some x)))"

text \<open>An \<open>UPDATE report SET ... WHERE id = $1 AND state = from\<close>, and whether it touched the
  one row.\<close>

definition update_report ::
  "int \<Rightarrow> string \<Rightarrow> (int \<Rightarrow> report_row \<Rightarrow> report_row) \<Rightarrow> string \<Rightarrow> int \<Rightarrow> ('w content_world_scheme, moderation_error, bool) m" where
  "update_report i from f fkey moderator =
     sql moderation_of_db (\<lambda>w.
       let P = (\<lambda>r. rp_id r = i \<and> rp_state r = lit from) in
       if \<exists>r \<in> set (reports w). P r
       then check_user fkey w moderator (Inr (True, w\<lparr>reports := update_where P (f (now w)) (reports w)\<rparr>))
       else Inr (False, w))"

definition claim_report_row :: "int \<Rightarrow> int \<Rightarrow> ('w content_world_scheme, moderation_error, unit) m" where
  "claim_report_row i moderator =
     bindM (update_report i ''OPEN''
              (\<lambda>t r. r\<lparr>rp_state := lit ''UNDER_REVIEW'', rp_claimed_by := Some moderator, rp_updated_at := t\<rparr>)
              ''report_claimed_by_fkey'' moderator)
       (\<lambda>hit. requireM hit MInvalidState)"

definition resolve_row ::
  "int \<Rightarrow> int \<Rightarrow> ustring \<Rightarrow> report_outcome \<Rightarrow> ('w content_world_scheme, moderation_error, unit) m" where
  "resolve_row i moderator note outcome =
     bindM (update_report i ''UNDER_REVIEW''
              (\<lambda>t r. r\<lparr>rp_state := report_outcome_code outcome, rp_resolved_by := Some moderator,
                       rp_note := Some note, rp_updated_at := t\<rparr>)
              ''report_resolved_by_fkey'' moderator)
       (\<lambda>hit. requireM hit MInvalidState)"

section \<open>Content actions\<close>

definition target_exists :: "report_target \<Rightarrow> int \<Rightarrow> ('w content_world_scheme, moderation_error, bool) m" where
  "target_exists tt i =
     query moderation_of_db (\<lambda>w.
       case tt of
         TParking \<Rightarrow> location_exists w i
       | TParkingPhoto \<Rightarrow> \<exists>p \<in> set (parking_photos w). ph_id p = i
       | TReview \<Rightarrow> \<exists>r \<in> set (reviews w). re_id r = i
       | TReviewPhoto \<Rightarrow> \<exists>p \<in> set (review_photos w). ph_id p = i)"

definition flip_review :: "int \<Rightarrow> string \<Rightarrow> string \<Rightarrow> ('w content_world_scheme, moderation_error, unit) m" where
  "flip_review i from to =
     bindM (sql moderation_of_db (\<lambda>w.
       let P = (\<lambda>r. re_id r = i \<and> re_state r = lit from) in
       Inr (\<exists>r \<in> set (reviews w). P r,
            w\<lparr>reviews := update_where P (\<lambda>r. r\<lparr>re_state := lit to, re_updated_at := now w\<rparr>) (reviews w)\<rparr>)))
       (\<lambda>hit. requireM hit MInvalidState)"

definition hide_review_row :: "int \<Rightarrow> ('w content_world_scheme, moderation_error, unit) m" where
  "hide_review_row i = flip_review i ''ACTIVE'' ''HIDDEN''"

definition restore_review_row :: "int \<Rightarrow> ('w content_world_scheme, moderation_error, unit) m" where
  "restore_review_row i = flip_review i ''HIDDEN'' ''ACTIVE''"

definition hide_photo_row :: "photo_kind \<Rightarrow> int \<Rightarrow> int \<Rightarrow> ('w content_world_scheme, moderation_error, unit) m" where
  "hide_photo_row k i moderator =
     bindM (sql moderation_of_db (\<lambda>w. judge_photo k i ''APPROVED''
              \<lparr>pv_state = lit ''HIDDEN'', pv_reason = None, pv_position = None, pv_reviewer = moderator, pv_at = now w\<rparr> w))
       (\<lambda>row. requireM (row \<noteq> None) MInvalidState)"

definition restore_photo_row :: "photo_kind \<Rightarrow> int \<Rightarrow> int \<Rightarrow> ('w content_world_scheme, moderation_error, unit) m" where
  "restore_photo_row k i moderator =
     bindM (sql moderation_of_db (\<lambda>w. judge_photo k i ''HIDDEN''
              \<lparr>pv_state = lit ''APPROVED'', pv_reason = None, pv_position = None, pv_reviewer = moderator, pv_at = now w\<rparr> w))
       (\<lambda>row. requireM (row \<noteq> None) MInvalidState)"

section \<open>Snapshots of the moderated location\<close>

definition cost_json :: "ustring \<Rightarrow> int option \<Rightarrow> ustring option \<Rightarrow> ustring option \<Rightarrow> json" where
  "cost_json kind c cur u =
     (if kind = lit ''free'' then JObject [(lit ''kind'', JString (lit ''free''))]
      else if kind = lit ''unknown'' then JObject [(lit ''kind'', JString (lit ''unknown''))]
      else if kind = lit ''paid''
      then (case (c, cur, u) of
              (Some n, Some cu, Some un) \<Rightarrow>
                JObject [(lit ''kind'', JString (lit ''paid'')), (lit ''cents'', JInt n),
                         (lit ''currency'', JString cu), (lit ''unit'', JString un)]
            | _ \<Rightarrow> JObject [(lit ''kind'', JString (lit ''paid''))])
      else JObject [(lit ''kind'', JString (lit ''unknown''))])"

definition hours_json :: "bool \<Rightarrow> hours_row list \<Rightarrow> json" where
  "hours_json unk rows =
     JObject [(lit ''unknown'', JBool unk),
       (lit ''rows'', JArray (map (\<lambda>r. JArray [JInt (hr_day r), JString (show_time (hr_opens r)),
                                              JString (show_time (hr_closes r)), JBool (hr_all_day r)]) rows))]"

definition security_json :: "security_row list \<Rightarrow> json" where
  "security_json rows = JArray (map (\<lambda>r. JArray [JString (se_code r), JInt (se_state r)]) rows)"

definition snapshot_with :: "location_row \<Rightarrow> ('w content_world_scheme, moderation_error, json) m" where
  "snapshot_with l =
     bindM (query moderation_of_db (\<lambda>w. hours_of w (lr_id l))) (\<lambda>hs.
     bindM (query moderation_of_db (\<lambda>w. filter (\<lambda>s. se_location s = lr_id l) (security_table w))) (\<lambda>ss.
       retM (snapshot_of (lr_name l) (lr_address l) (lr_description l) (lr_type l)
               (cost_json (lr_cost_kind l) (lr_cents l) (lr_currency l) (lr_unit l))
               (lr_lat l) (lr_lon l) (lr_timezone l)
               (hours_json (lr_hours_unknown l) hs) (security_json ss) (lr_state l))))"

definition insert_moderation_revision ::
  "int \<Rightarrow> int \<Rightarrow> int \<Rightarrow> string \<Rightarrow> json \<Rightarrow> ('w content_world_scheme, moderation_error, unit) m" where
  "insert_moderation_revision i version editor summary snap =
     sql moderation_of_db (revision_insert i version editor (lit ''moderation'') summary snap)"

definition moderated_row :: "ustring \<Rightarrow> int \<Rightarrow> location_row \<Rightarrow> location_row" where
  "moderated_row st t l = l\<lparr>lr_state := st, lr_version := lr_version l + 1, lr_updated_at := t\<rparr>"

definition set_parking_state ::
  "int \<Rightarrow> moderation_state list \<Rightarrow> moderation_state \<Rightarrow> int \<Rightarrow> ('w content_world_scheme, moderation_error, unit) m" where
  "set_parking_state i from to moderator =
     transaction moderation_of_db
       (bindM (sql moderation_of_db (\<lambda>w. Inr (update_location i
                 (\<lambda>l. lr_state l \<in> set (map moderation_state_code from))
                 (moderated_row (moderation_state_code to) (now w)) w))) (\<lambda>updated.
        bindM (okOrM MInvalidState updated) (\<lambda>row.
        bindM (snapshot_with row) (\<lambda>snap.
          insert_moderation_revision (lr_id row) (lr_version row) moderator ''moderated'' snap))))"

section \<open>Proposals\<close>

record proposal =
  po_id :: int
  po_location :: int
  po_location_name :: ustring
  po_location_address :: ustring
  po_proposer :: "int option"
  po_base_version :: int
  po_location_version :: int
  po_kind :: proposal_kind
  po_change :: proposed_change
  po_reason :: "ustring option"
  po_lat :: f64
  po_lon :: f64
  po_timezone :: ustring
  po_state :: moderation_state
  po_status :: proposal_status
  po_created_at :: int

definition is_stale :: "proposal \<Rightarrow> bool" where
  "is_stale p \<longleftrightarrow> po_base_version p \<noteq> po_location_version p"

definition map_proposal :: "proposal_row \<times> location_row \<Rightarrow> ('s, moderation_error, proposal) m" where
  "map_proposal rl =
     (case rl of (r, l) \<Rightarrow>
        bindM (mapErrM moderation_of_domain (liftR (proposal_kind_from (pr_kind r)))) (\<lambda>k.
        (let payload = payload_from_json k (pr_proposed r) in
        bindM (mapErrM moderation_of_domain (liftR (moderation_state_from (lr_state l)))) (\<lambda>st.
        bindM (mapErrM moderation_of_domain (liftR (proposal_status_from (pr_status r)))) (\<lambda>status.
          retM \<lparr>po_id = pr_id r, po_location = pr_location r, po_location_name = lr_name l,
                po_location_address = lr_address l, po_proposer = pr_proposer r,
                po_base_version = pr_base_version r, po_location_version = lr_version l,
                po_kind = k, po_change = pp_change payload, po_reason = pp_reason payload,
                po_lat = lr_lat l, po_lon = lr_lon l, po_timezone = lr_timezone l,
                po_state = st, po_status = status, po_created_at = pr_created_at r\<rparr>)))))"

text \<open>\<open>FROM parking_proposal p JOIN parking_location l ON l.id = p.location_id\<close>.\<close>

definition joined_proposals :: "'w content_world_scheme \<Rightarrow> (proposal_row \<times> location_row) list" where
  "joined_proposals w =
     concat (map (\<lambda>p. map (\<lambda>l. (p, l)) (filter (\<lambda>l. lr_id l = pr_location p) (locations w))) (proposals w))"

definition list_pending_rows :: "int option \<Rightarrow> int \<Rightarrow> ('w content_world_scheme, moderation_error, proposal list) m" where
  "list_pending_rows after limit =
     bindM (query moderation_of_db (\<lambda>w.
       take (nat (clamp 1 200 limit))
         (sort_key (\<lambda>(p, l). pr_id p)
           (filter (\<lambda>(p, l). pr_status p = lit ''PENDING'' \<and> (case after of None \<Rightarrow> True | Some a \<Rightarrow> a < pr_id p))
             (joined_proposals w)))))
       (mapM map_proposal)"

definition find_proposal :: "int \<Rightarrow> ('w content_world_scheme, moderation_error, proposal option) m" where
  "find_proposal i =
     bindM (query moderation_of_db (\<lambda>w. select_one (\<lambda>(p, l). pr_id p = i) (joined_proposals w))) (\<lambda>row.
       case row of None \<Rightarrow> retM None | Some r \<Rightarrow> bindM (map_proposal r) (\<lambda>p. retM (Some p)))"

datatype proposal_application = ApplyMove f64 f64 ustring | ApplyExistence bool

record proposal_override =
  ov_lat :: "f64 option"
  ov_lon :: "f64 option"
  ov_timezone :: "ustring option"
  ov_exists :: "bool option"

definition or_else :: "'a option \<Rightarrow> 'a option \<Rightarrow> 'a option" where
  "or_else a b = (case a of None \<Rightarrow> b | Some x \<Rightarrow> Some x)"

text \<open>\<open>parse::<Tz>()\<close> accepts exactly the known names.\<close>

definition merged_move ::
  "geo_externals \<Rightarrow> f64 option \<Rightarrow> f64 option \<Rightarrow> ustring option \<Rightarrow> moderation_error + proposal_application" where
  "merged_move G lat lon tz =
     (case lat of None \<Rightarrow> Inl (InvalidProposalField FieldLat) | Some la \<Rightarrow>
      case lon of None \<Rightarrow> Inl (InvalidProposalField FieldLon) | Some lo \<Rightarrow>
      if \<not> (f64_finite la \<and> f64_within (- 90) 90 la) then Inl (InvalidProposalField FieldLat)
      else if \<not> (f64_finite lo \<and> f64_within (- 180) 180 lo) then Inl (InvalidProposalField FieldLon)
      else case trimmed_nonempty tz of
             None \<Rightarrow> Inl (InvalidProposalField FieldTimezone)
           | Some z \<Rightarrow> if gx_tz_known G z then Inr (ApplyMove la lo z) else Inl (InvalidProposalField FieldTimezone))"

definition merge_proposal ::
  "geo_externals \<Rightarrow> proposal_kind \<Rightarrow> proposed_change \<Rightarrow> proposal_override \<Rightarrow> moderation_error + proposal_application" where
  "merge_proposal G kind change over =
     (case (kind, change) of
        (MoveLocationKind, MoveLocation lat lon tz) \<Rightarrow>
          merged_move G (or_else (ov_lat over) (Some lat)) (or_else (ov_lon over) (Some lon))
            (or_else (ov_timezone over) tz)
      | (ChangeExistenceKind, ChangeExistence exists) \<Rightarrow>
          Inr (ApplyExistence (case ov_exists over of None \<Rightarrow> exists | Some b \<Rightarrow> b))
      | (MoveLocationKind, _) \<Rightarrow> merged_move G (ov_lat over) (ov_lon over) (ov_timezone over)
      | (ChangeExistenceKind, _) \<Rightarrow>
          (case ov_exists over of
             None \<Rightarrow> Inl (InvalidProposalField FieldExistence)
           | Some b \<Rightarrow> Inr (ApplyExistence b)))"

definition application_kind :: "proposal_application \<Rightarrow> proposal_kind" where
  "application_kind a = (case a of ApplyMove _ _ _ \<Rightarrow> MoveLocationKind | ApplyExistence _ \<Rightarrow> ChangeExistenceKind)"

definition applied_row :: "proposal_application \<Rightarrow> int \<Rightarrow> location_row \<Rightarrow> location_row" where
  "applied_row a t l =
     (case a of
        ApplyMove lat lon tz \<Rightarrow>
          l\<lparr>lr_lat := lat, lr_lon := lon, lr_timezone := tz, lr_version := lr_version l + 1, lr_updated_at := t\<rparr>
      | ApplyExistence exists \<Rightarrow>
          l\<lparr>lr_state := (if exists then lit ''ACTIVE'' else lit ''REMOVED''),
            lr_version := lr_version l + 1, lr_updated_at := t\<rparr>)"

definition application_summary :: "proposal_application \<Rightarrow> string" where
  "application_summary a =
     (case a of ApplyMove _ _ _ \<Rightarrow> ''proposal applied (move)''
      | ApplyExistence _ \<Rightarrow> ''proposal applied (existence)'')"

definition proposal_of :: "'w content_world_scheme \<Rightarrow> int \<Rightarrow> proposal_row option" where
  "proposal_of w i = select_one (\<lambda>p. pr_id p = i) (proposals w)"

definition settle_proposal :: "int \<Rightarrow> int \<Rightarrow> ('w content_world_scheme, moderation_error, unit) m" where
  "settle_proposal i moderator =
     sql moderation_of_db (\<lambda>w.
       check_user ''parking_proposal_resolved_by_fkey'' w moderator
         (Inr ((), w\<lparr>proposals := update_where (\<lambda>p. pr_id p = i)
            (\<lambda>p. p\<lparr>pr_status := lit ''APPROVED'', pr_resolved_by := Some moderator, pr_resolved_at := Some (now w)\<rparr>)
            (proposals w)\<rparr>)))"

definition supersede_siblings :: "int \<Rightarrow> int \<Rightarrow> ('w content_world_scheme, moderation_error, unit) m" where
  "supersede_siblings loc i =
     command moderation_of_db (\<lambda>w.
       w\<lparr>proposals := update_where (\<lambda>p. pr_location p = loc \<and> pr_status p = lit ''PENDING'' \<and> pr_id p \<noteq> i)
            (\<lambda>p. p\<lparr>pr_status := lit ''SUPERSEDED''\<rparr>) (proposals w)\<rparr>)"

definition approve_proposal_row :: "int \<Rightarrow> int \<Rightarrow> proposal_application \<Rightarrow> ('w content_world_scheme, moderation_error, unit) m" where
  "approve_proposal_row i moderator a =
     transaction moderation_of_db
       (bindM (query moderation_of_db (\<lambda>w. Option.bind (proposal_of w i) (\<lambda>p. location_of w (pr_location p)))) (\<lambda>locked.
        bindM (okOrM MNotFound locked) (\<lambda>l.
        bindM (query moderation_of_db (\<lambda>w. proposal_of w i)) (\<lambda>found.
        bindM (okOrM MNotFound found) (\<lambda>p.
        thenM (requireM (pr_status p = proposal_status_code PPending) MInvalidState) (
        thenM (requireM (pr_base_version p = lr_version l) StaleProposal) (
        bindM (sql moderation_of_db (\<lambda>w. Inr (update_location (lr_id l)
                 (\<lambda>x. lr_version x = pr_base_version p) (applied_row a (now w)) w))) (\<lambda>updated.
        bindM (okOrM StaleProposal updated) (\<lambda>row.
        bindM (snapshot_with row) (\<lambda>snap.
        thenM (insert_moderation_revision (lr_id l) (lr_version row) moderator (application_summary a) snap) (
        thenM (settle_proposal i moderator)
              (supersede_siblings (lr_id l) i))))))))))))"

definition reject_proposal_row :: "int \<Rightarrow> int \<Rightarrow> ('w content_world_scheme, moderation_error, unit) m" where
  "reject_proposal_row i moderator =
     bindM (sql moderation_of_db (\<lambda>w.
       let P = (\<lambda>p. pr_id p = i \<and> pr_status p = lit ''PENDING'') in
       if \<exists>p \<in> set (proposals w). P p
       then check_user ''parking_proposal_resolved_by_fkey'' w moderator
              (Inr (True, w\<lparr>proposals := update_where P
                 (\<lambda>p. p\<lparr>pr_status := lit ''REJECTED'', pr_resolved_by := Some moderator, pr_resolved_at := Some (now w)\<rparr>)
                 (proposals w)\<rparr>))
       else Inr (False, w)))
       (\<lambda>hit. requireM hit MInvalidState)"

section \<open>Queue counts and previews\<close>

record queue_counts =
  qc_photos :: nat
  qc_open :: nat
  qc_under_review :: nat
  qc_proposals :: nat

definition count_rows :: "('r \<Rightarrow> bool) \<Rightarrow> 'r list \<Rightarrow> nat" where
  "count_rows P t = length (filter P t)"

definition load_queue_counts :: "('w content_world_scheme, moderation_error, queue_counts) m" where
  "load_queue_counts =
     query moderation_of_db (\<lambda>w.
       \<lparr>qc_photos = count_rows (\<lambda>p. ph_state p = lit ''PENDING_REVIEW'') (parking_photos w)
                    + count_rows (\<lambda>p. ph_state p = lit ''PENDING_REVIEW'') (review_photos w),
        qc_open = count_rows (\<lambda>r. rp_state r = lit ''OPEN'') (reports w),
        qc_under_review = count_rows (\<lambda>r. rp_state r = lit ''UNDER_REVIEW'') (reports w),
        qc_proposals = count_rows (\<lambda>p. pr_status p = lit ''PENDING'') (proposals w)\<rparr>)"

record target_preview =
  tp_location :: "int option"
  tp_location_name :: "ustring option"
  tp_location_address :: "ustring option"
  tp_review :: "int option"
  tp_author :: "int option"
  tp_rating :: "16 word option"
  tp_excerpt :: "ustring option"
  tp_photo :: "int option"
  tp_photo_key :: "ustring option"
  tp_photo_thumbnail :: "ustring option"
  tp_state :: "ustring option"

definition review_excerpt_chars :: nat where
  "review_excerpt_chars = 160"

definition review_excerpt :: "ustring \<Rightarrow> ustring" where
  "review_excerpt body =
     (let b = trim body in
      if length b \<le> review_excerpt_chars then b else trim_end (take review_excerpt_chars b) @ [8230])"

text \<open>The columns of a preview row: the location, then the review and the photo when the
  target kind has one.  The query cuts the body to 400 characters.\<close>

definition preview_row ::
  "location_row \<Rightarrow> review_row option \<Rightarrow> 'r photo_row_scheme option \<Rightarrow> ustring \<Rightarrow> target_preview" where
  "preview_row l r p st =
     \<lparr>tp_location = Some (lr_id l), tp_location_name = Some (lr_name l), tp_location_address = Some (lr_address l),
      tp_review = map_option re_id r, tp_author = Option.bind r re_author, tp_rating = map_option re_rating r,
      tp_excerpt = map_option (\<lambda>x. review_excerpt (take 400 (re_body x))) r,
      tp_photo = map_option ph_id p, tp_photo_key = map_option ph_key p,
      tp_photo_thumbnail = Option.bind p ph_thumbnail, tp_state = Some st\<rparr>"

definition preview_rows :: "report_target \<Rightarrow> 'w content_world_scheme \<Rightarrow> (int \<times> target_preview) list" where
  "preview_rows tt w =
     (let at_location = (\<lambda>i. filter (\<lambda>l. lr_id l = i) (locations w)) in
      case tt of
        TParking \<Rightarrow> map (\<lambda>l. (lr_id l, preview_row l None (None :: photo_row option) (lr_state l))) (locations w)
      | TReview \<Rightarrow>
          concat (map (\<lambda>r. map (\<lambda>l. (re_id r, preview_row l (Some r) (None :: photo_row option) (re_state r)))
                             (at_location (re_location r))) (reviews w))
      | TParkingPhoto \<Rightarrow>
          concat (map (\<lambda>p. map (\<lambda>l. (ph_id p, preview_row l None (Some p) (ph_state p))) (at_location (ph_parent p)))
                    (parking_photos w))
      | TReviewPhoto \<Rightarrow>
          concat (map (\<lambda>p. concat (map (\<lambda>r. map (\<lambda>l. (ph_id p, preview_row l (Some r) (Some p) (ph_state p)))
                                               (at_location (re_location r)))
                                  (filter (\<lambda>r. re_id r = ph_parent p) (reviews w))))
                    (review_photos w)))"

text \<open>One statement per target type present; the result is the content of a hash map.\<close>

fun load_previews ::
  "(report_target \<times> int) list \<Rightarrow> report_target list
    \<Rightarrow> ('w content_world_scheme, moderation_error, ((report_target \<times> int) \<times> target_preview) list) m" where
  "load_previews targets [] = retM []"
| "load_previews targets (tt # tts) =
     (let ids = map snd (filter (\<lambda>(t, i). t = tt) targets) in
      if ids = [] then load_previews targets tts
      else bindM (query moderation_of_db (\<lambda>w. filter (\<lambda>(i, p). i \<in> set ids) (preview_rows tt w))) (\<lambda>rows.
           bindM (load_previews targets tts) (\<lambda>rest.
             retM (map (\<lambda>(i, p). ((tt, i), p)) rows @ rest))))"

section \<open>The audit viewer\<close>

record audit_filter =
  af_actor :: "int option"
  af_action :: "ustring option"
  af_target_type :: "ustring option"
  af_from :: "int option"
  af_to :: "int option"
  af_cursor :: "int option"
  af_limit :: int

definition absent_or :: "('a \<Rightarrow> bool) \<Rightarrow> 'a option \<Rightarrow> bool" where
  "absent_or P x = (case x of None \<Rightarrow> True | Some a \<Rightarrow> P a)"

definition audit_matches :: "audit_filter \<Rightarrow> audit_row \<Rightarrow> bool" where
  "audit_matches f r \<longleftrightarrow>
     absent_or (\<lambda>a. ae_actor (ar_event r) = Some a) (af_actor f)
     \<and> absent_or (\<lambda>a. ae_action (ar_event r) = a) (af_action f)
     \<and> absent_or (\<lambda>a. ae_target_type (ar_event r) = a) (af_target_type f)
     \<and> absent_or (\<lambda>t. t \<le> ar_created_at r) (af_from f)
     \<and> absent_or (\<lambda>t. ar_created_at r \<le> t) (af_to f)
     \<and> absent_or (\<lambda>c. ar_id r < c) (af_cursor f)"

record audit_page =
  ap_items :: "audit_row list"
  ap_next :: "int option"

definition audit_list :: "audit_filter \<Rightarrow> ('w auth_world_scheme, audit_error, audit_page) m" where
  "audit_list f =
     bindM (query audit_of_db (\<lambda>w.
       take (nat (clamp 1 100 (af_limit f)))
         (sort_key (\<lambda>r. - ar_id r) (filter (audit_matches f) (audit_events w))))) (\<lambda>items.
       retM \<lparr>ap_items = items, ap_next = (if items = [] then None else Some (ar_id (last items)))\<rparr>)"

end
