(* ===== verification/Moderation_Service.thy ===== *)
theory Moderation_Service
  imports Moderation_Store
begin

text \<open>
  The reporting and moderation use cases (\<open>application/src/moderation.rs\<close>): who may act, the
  report's rate limits and validation, the guard against resolving one's own report, and
  what a resolution does to the reported content.
\<close>

section \<open>Helpers\<close>

definition require_moderator :: "authenticated_user \<Rightarrow> ('s, moderation_error, unit) m" where
  "require_moderator u = requireM (may_moderate u) MNotAuthorized"

definition require_admin :: "authenticated_user \<Rightarrow> ('s, moderation_error, unit) m" where
  "require_admin u = requireM (actor_has_role u RAdmin) MNotAuthorized"

definition moderation_allowed :: "ustring \<Rightarrow> nat \<Rightarrow> int \<Rightarrow> ('w content_world_scheme, moderation_error, unit) m" where
  "moderation_allowed key limit window = bindM (rate_check key limit window) (\<lambda>b. requireM b MRateLimited)"

definition moderation_audit :: "audit_event \<Rightarrow> ('w content_world_scheme, moderation_error, unit) m" where
  "moderation_audit ev = mapErrM (\<lambda>_. MInternal) (audit_record ev)"

section \<open>Reports\<close>

definition report_text :: "moderation_limits \<Rightarrow> ustring option \<Rightarrow> ('s, moderation_error, ustring) m" where
  "report_text lims description =
     mapErrM moderation_of_domain (liftR (report_description_new_with_len
       (case description of
          Some raw \<Rightarrow> if trim raw \<noteq> [] then raw else []
        | None \<Rightarrow> []) (ml_description_max_len lims)))"

definition submit_report ::
  "moderation_limits \<Rightarrow> authenticated_user \<Rightarrow> ustring \<Rightarrow> report_target \<Rightarrow> int \<Rightarrow> ustring \<Rightarrow> ustring option
    \<Rightarrow> ('w content_world_scheme, moderation_error, int) m" where
  "submit_report lims u ip tt target reason description =
     thenM (moderation_allowed (lit ''report:create:user:'' @ show_int (au_id u)) (ml_create_user_limit lims) (days 1)) (
     thenM (moderation_allowed (lit ''report:create:ip:'' @ ip) (ml_create_ip_limit lims) (days 1)) (
     thenM (requireM (is_known_report_reason reason) InvalidReason) (
     thenM (requireM (reason_allowed_for tt reason) InvalidReason) (
     bindM (report_text lims description) (\<lambda>text.
     bindM (target_exists tt target) (\<lambda>exists.
     thenM (requireM exists TargetNotFound) (
     bindM (mapErrM (\<lambda>e. if e = MConflict then AlreadyReported else e)
              (create_report \<lparr>nr_reporter = au_id u, nr_target_type = tt, nr_target_id = target,
                              nr_reason = reason, nr_description = text\<rparr>)) (\<lambda>i.
     thenM (moderation_audit (service_event (au_id u) ''report.created'' ''report'' i
              [(lit ''target_type'', JString (report_target_code tt)), (lit ''target_id'', JInt target),
               (lit ''reason'', JString reason)]))
           (retM i)))))))))"

definition list_reports ::
  "authenticated_user \<Rightarrow> report_state option \<Rightarrow> int option \<Rightarrow> int \<Rightarrow> ('w content_world_scheme, moderation_error, report list) m" where
  "list_reports mo st after limit = thenM (require_moderator mo) (list_report_rows st after limit)"

definition queue_totals :: "authenticated_user \<Rightarrow> ('w content_world_scheme, moderation_error, queue_counts) m" where
  "queue_totals mo = thenM (require_moderator mo) load_queue_counts"

definition get_report :: "authenticated_user \<Rightarrow> int \<Rightarrow> ('w content_world_scheme, moderation_error, report option) m" where
  "get_report mo i = thenM (require_moderator mo) (find_report i)"

text \<open>\<open>sort_by_key\<close> and \<open>dedup\<close> of the targets: equal neighbours are removed.\<close>

definition report_previews ::
  "authenticated_user \<Rightarrow> report list
    \<Rightarrow> ('w content_world_scheme, moderation_error, ((report_target \<times> int) \<times> target_preview) list) m" where
  "report_previews mo rs =
     thenM (require_moderator mo)
       (if rs = [] then retM []
        else load_previews
               (remdups_adj (sort_key (\<lambda>(t, i). (report_target_code t, i))
                  (map (\<lambda>r. (rt_target_type r, rt_target_id r)) rs)))
               [TParking, TParkingPhoto, TReview, TReviewPhoto])"

definition claim_report :: "authenticated_user \<Rightarrow> int \<Rightarrow> ('w content_world_scheme, moderation_error, unit) m" where
  "claim_report mo i =
     thenM (require_moderator mo) (
     thenM (claim_report_row i (au_id mo))
           (moderation_audit (service_event (au_id mo) ''report.claimed'' ''report'' i [])))"

text \<open>A target that is already hidden, or gone, does not fail the resolution.\<close>

definition tolerate :: "('s, moderation_error, unit) m \<Rightarrow> ('s, moderation_error, unit) m" where
  "tolerate act =
     bindM (attemptM act) (\<lambda>r.
       case r of
         Inr _ \<Rightarrow> retM ()
       | Inl e \<Rightarrow> if e = MInvalidState \<or> e = MNotFound then retM () else throwM e)"

definition hide_resolved_target :: "report \<Rightarrow> int \<Rightarrow> ('w content_world_scheme, moderation_error, unit) m" where
  "hide_resolved_target r moderator =
     tolerate
       (case rt_target_type r of
          TReview \<Rightarrow> hide_review_row (rt_target_id r)
        | TParkingPhoto \<Rightarrow> hide_photo_row ParkingPhotoKind (rt_target_id r) moderator
        | TReviewPhoto \<Rightarrow> hide_photo_row ReviewPhotoKind (rt_target_id r) moderator
        | TParking \<Rightarrow> set_parking_state (rt_target_id r) [MActive] MInvalid moderator)"

definition resolve_report ::
  "authenticated_user \<Rightarrow> int \<Rightarrow> report_outcome \<Rightarrow> ustring \<Rightarrow> ('w content_world_scheme, moderation_error, unit) m" where
  "resolve_report mo i outcome note =
     thenM (require_moderator mo) (
     bindM (find_report i) (\<lambda>found.
     bindM (okOrM MNotFound found) (\<lambda>r.
     thenM (requireM (rt_reporter r \<noteq> Some (au_id mo)) SelfResolve) (
     thenM (resolve_row i (au_id mo) note outcome) (
     thenM (whenM (outcome = OutcomeResolved) (hide_resolved_target r (au_id mo)))
           (moderation_audit (service_event (au_id mo)
              (case outcome of OutcomeResolved \<Rightarrow> ''report.resolved'' | OutcomeDismissed \<Rightarrow> ''report.dismissed'')
              ''report'' i
              [(lit ''target_type'', JString (report_target_code (rt_target_type r))),
               (lit ''target_id'', JInt (rt_target_id r))])))))))"

section \<open>Content\<close>

text \<open>Every content action is a guarded statement followed by its audit record.\<close>

definition audited_action ::
  "authenticated_user \<Rightarrow> ('w content_world_scheme, moderation_error, unit) m \<Rightarrow> audit_event
    \<Rightarrow> ('w content_world_scheme, moderation_error, unit) m" where
  "audited_action mo act ev = thenM (require_moderator mo) (thenM act (moderation_audit ev))"

definition hide_review :: "authenticated_user \<Rightarrow> int \<Rightarrow> ('w content_world_scheme, moderation_error, unit) m" where
  "hide_review mo i =
     audited_action mo (hide_review_row i) (service_event (au_id mo) ''review.hidden'' ''review'' i [])"

definition restore_review :: "authenticated_user \<Rightarrow> int \<Rightarrow> ('w content_world_scheme, moderation_error, unit) m" where
  "restore_review mo i =
     audited_action mo (restore_review_row i) (service_event (au_id mo) ''review.restored'' ''review'' i [])"

text \<open>A photo's audit record names its kind's code, not its table, as the target type.\<close>

definition photo_event :: "authenticated_user \<Rightarrow> string \<Rightarrow> photo_kind \<Rightarrow> int \<Rightarrow> audit_event" where
  "photo_event mo action k i =
     service_event (au_id mo) action (case k of ParkingPhotoKind \<Rightarrow> ''parking'' | ReviewPhotoKind \<Rightarrow> ''review'') i []"

definition hide_photo :: "authenticated_user \<Rightarrow> photo_kind \<Rightarrow> int \<Rightarrow> ('w content_world_scheme, moderation_error, unit) m" where
  "hide_photo mo k i = audited_action mo (hide_photo_row k i (au_id mo)) (photo_event mo ''photo.hidden'' k i)"

definition restore_photo :: "authenticated_user \<Rightarrow> photo_kind \<Rightarrow> int \<Rightarrow> ('w content_world_scheme, moderation_error, unit) m" where
  "restore_photo mo k i = audited_action mo (restore_photo_row k i (au_id mo)) (photo_event mo ''photo.restored'' k i)"

definition invalidate_parking :: "authenticated_user \<Rightarrow> int \<Rightarrow> ('w content_world_scheme, moderation_error, unit) m" where
  "invalidate_parking mo i =
     audited_action mo (set_parking_state i [MActive] MInvalid (au_id mo))
       (service_event (au_id mo) ''parking.invalidated'' ''parking_location'' i [])"

definition restore_parking :: "authenticated_user \<Rightarrow> int \<Rightarrow> ('w content_world_scheme, moderation_error, unit) m" where
  "restore_parking mo i =
     audited_action mo (set_parking_state i [MInvalid, MRemoved] MActive (au_id mo))
       (service_event (au_id mo) ''parking.restored'' ''parking_location'' i [])"

section \<open>Proposals, audit, inspection\<close>

definition list_pending_proposals ::
  "authenticated_user \<Rightarrow> int option \<Rightarrow> int \<Rightarrow> ('w content_world_scheme, moderation_error, proposal list) m" where
  "list_pending_proposals mo after limit = thenM (require_moderator mo) (list_pending_rows after limit)"

definition get_proposal :: "authenticated_user \<Rightarrow> int \<Rightarrow> ('w content_world_scheme, moderation_error, proposal option) m" where
  "get_proposal mo i = thenM (require_moderator mo) (find_proposal i)"

definition approve_proposal ::
  "geo_externals \<Rightarrow> authenticated_user \<Rightarrow> int \<Rightarrow> proposal_override \<Rightarrow> ('w content_world_scheme, moderation_error, unit) m" where
  "approve_proposal G mo i over =
     thenM (require_moderator mo) (
     bindM (find_proposal i) (\<lambda>found.
     bindM (okOrM MNotFound found) (\<lambda>p.
     bindM (liftR (merge_proposal G (po_kind p) (po_change p) over)) (\<lambda>a.
     thenM (approve_proposal_row i (au_id mo) a)
           (moderation_audit (service_event (au_id mo) ''proposal.approved'' ''parking_proposal'' i
              [(lit ''kind'', JString (proposal_kind_code (application_kind a)))]))))))"

definition reject_proposal :: "authenticated_user \<Rightarrow> int \<Rightarrow> ustring \<Rightarrow> ('w content_world_scheme, moderation_error, unit) m" where
  "reject_proposal mo i reason =
     audited_action mo (reject_proposal_row i (au_id mo))
       (service_event (au_id mo) ''proposal.rejected'' ''parking_proposal'' i [(lit ''reason'', JString reason)])"

definition list_audit_events :: "authenticated_user \<Rightarrow> audit_filter \<Rightarrow> ('w content_world_scheme, moderation_error, audit_page) m" where
  "list_audit_events admin f = thenM (require_admin admin) (mapErrM (\<lambda>_. MInternal) (audit_list f))"

definition user_contribution_history ::
  "authenticated_user \<Rightarrow> int \<Rightarrow> (int \<times> int) option \<Rightarrow> int \<Rightarrow> ('w content_world_scheme, moderation_error, contribution_item list) m" where
  "user_contribution_history mo target after limit =
     thenM (require_moderator mo) (mapErrM (\<lambda>_. MInternal) (history target after limit))"

end
