(* ===== verification/Content_System.thy ===== *)
theory Content_System
  imports Auth_System Moderation_Service
begin

text \<open>
  The whole service as a system: any sequence of account actions, contributions, photo
  uploads, moderation, clock ticks and failures of the database or of the object store.
  An invariant of the content tables is stated once, as the locale \<open>content_invariant\<close>,
  which is put together from the contracts of the three services' repositories; its
  sublocales ask only for laws about the tables an invariant looks at.
\<close>

section \<open>Runs\<close>

record 'img content_env =
  en_auth :: auth_externals
  en_geo :: geo_externals
  en_codec :: "'img image_codec"
  en_photo :: photo_limits
  en_moderation :: moderation_limits

datatype community_action =
    AddParking authenticated_user ustring new_location
  | EditParking authenticated_user int int parking_edit
  | ProposeChange authenticated_user int proposal_kind json
  | SubmitReview authenticated_user int byte ustring
  | RecordVerification authenticated_user new_verification
  | ToggleFavorite authenticated_user int

datatype photo_action =
    UploadPhoto authenticated_user ustring photo_target "byte list" "ustring option"
  | ApprovePhoto authenticated_user photo_kind int
  | RejectPhoto authenticated_user photo_kind int ustring

datatype moderation_action =
    SubmitReport authenticated_user ustring report_target int ustring "ustring option"
  | ClaimReport authenticated_user int
  | ResolveReport authenticated_user int report_outcome ustring
  | HideReview authenticated_user int
  | RestoreReview authenticated_user int
  | HidePhoto authenticated_user photo_kind int
  | RestorePhoto authenticated_user photo_kind int
  | InvalidateParking authenticated_user int
  | RestoreParking authenticated_user int
  | ApproveProposal authenticated_user int proposal_override
  | RejectProposal authenticated_user int ustring

datatype content_action =
    Account auth_action
  | Community community_action
  | Photo photo_action
  | Moderation moderation_action
  | StorageFaults "storage_error option list"

fun community_act :: "'img content_env \<Rightarrow> community_action \<Rightarrow> ('w content_world_scheme, unit, unit) m" where
  "community_act V (AddParking u ip new) = ignoreM (add_parking_location (en_geo V) u ip new)"
| "community_act V (EditParking u i v e) = ignoreM (apply_parking_edit (en_geo V) u i v e)"
| "community_act V (ProposeChange u i k p) = ignoreM (propose_location_change (en_geo V) u i k p)"
| "community_act V (SubmitReview u i r b) = ignoreM (submit_review (en_geo V) u i r b)"
| "community_act V (RecordVerification u s) = ignoreM (record_verification (en_geo V) u s)"
| "community_act V (ToggleFavorite u i) = ignoreM (toggle_favorite (au_id u) i)"

fun photo_act :: "'img content_env \<Rightarrow> photo_action \<Rightarrow> ('w content_world_scheme, unit, unit) m" where
  "photo_act V (UploadPhoto u ip t b alt) = ignoreM (upload_photo (en_codec V) (en_photo V) u ip t b alt)"
| "photo_act V (ApprovePhoto u k i) = ignoreM (approve_photo u k i)"
| "photo_act V (RejectPhoto u k i r) = ignoreM (reject_photo u k i r)"

fun moderation_act :: "'img content_env \<Rightarrow> moderation_action \<Rightarrow> ('w content_world_scheme, unit, unit) m" where
  "moderation_act V (SubmitReport u ip tt i r d) = ignoreM (submit_report (en_moderation V) u ip tt i r d)"
| "moderation_act V (ClaimReport u i) = ignoreM (claim_report u i)"
| "moderation_act V (ResolveReport u i out n) = ignoreM (resolve_report u i out n)"
| "moderation_act V (HideReview u i) = ignoreM (hide_review u i)"
| "moderation_act V (RestoreReview u i) = ignoreM (restore_review u i)"
| "moderation_act V (HidePhoto u k i) = ignoreM (hide_photo u k i)"
| "moderation_act V (RestorePhoto u k i) = ignoreM (restore_photo u k i)"
| "moderation_act V (InvalidateParking u i) = ignoreM (invalidate_parking u i)"
| "moderation_act V (RestoreParking u i) = ignoreM (restore_parking u i)"
| "moderation_act V (ApproveProposal u i ov) = ignoreM (approve_proposal (en_geo V) u i ov)"
| "moderation_act V (RejectProposal u i r) = ignoreM (reject_proposal u i r)"

fun content_act :: "'img content_env \<Rightarrow> content_action \<Rightarrow> ('w content_world_scheme, unit, unit) m" where
  "content_act V (Account a) = ignoreM (auth_act (en_auth V) a)"
| "content_act V (Community a) = community_act V a"
| "content_act V (Photo a) = photo_act V a"
| "content_act V (Moderation a) = moderation_act V a"
| "content_act V (StorageFaults fs) = modifyM (\<lambda>w. w\<lparr>storage_faults := fs\<rparr>)"

fun content_run :: "'img content_env \<Rightarrow> content_action list \<Rightarrow> 'w content_world_scheme \<Rightarrow> 'w content_world_scheme" where
  "content_run V [] w = w"
| "content_run V (a # acts) w = content_run V acts (snd (content_act V a w))"

text \<open>What a run may be asked to store (values the domain's constructors let through), and
  whether it may hide and restore reviews, directly or by upholding a report.\<close>

fun action_ok :: "(new_location \<Rightarrow> bool) \<Rightarrow> (parking_edit \<Rightarrow> bool) \<Rightarrow> bool \<Rightarrow> content_action \<Rightarrow> bool" where
  "action_ok N D F (Community (AddParking u ip new)) = N new"
| "action_ok N D F (Community (EditParking u i v e)) = D e"
| "action_ok N D F (Moderation (HideReview u i)) = F"
| "action_ok N D F (Moderation (RestoreReview u i)) = F"
| "action_ok N D F (Moderation (ResolveReport u i out n)) = (F \<or> out = OutcomeDismissed)"
| "action_ok N D F a = True"

lemma action_ok_any [simp]: "action_ok (\<lambda>_. True) (\<lambda>_. True) True a"
  by (cases "(\<lambda>_ :: new_location. True, \<lambda>_ :: parking_edit. True, True, a)" rule: action_ok.cases) simp_all

section \<open>Account actions leave the content alone\<close>

lemma table_inv_content: "table_inv (\<lambda>w :: 'w content_world_scheme. auth_world.more w = c)"
  by (simp add: table_inv_def)

lemmas account_frame =
  keeps_sql[OF table_inv_content] keeps_command[OF table_inv_content] table_inv_content

interpretation frame: auth_invariant E "\<lambda>w :: 'w content_world_scheme. auth_world.more w = c" for E c
proof (unfold_locales)
  let ?I = "\<lambda>w :: 'w content_world_scheme. auth_world.more w = c"
  fix new i st t loc e pw r g code and idn :: provider_identity
  show "table_inv ?I" by (rule table_inv_content)
  show "keeps ?I (create_account E new)" "keeps ?I (set_state E i st)" "keeps ?I (mark_email_verified E i t)"
    "keeps ?I (set_locale_row E i loc)" "keeps ?I (confirm_email E i t e)" "keeps ?I (set_password i pw)"
    "keeps ?I (link_identity i (pi_provider idn) (pi_subject idn) None)"
    "keeps ?I (grant_role_row i r g)" "keeps ?I (revoke_role_guarded i r)"
    unfolding account_statements by (intro pres account_frame; auto simp: Let_def split: if_splits)+
  fix raw csrf P
  show "keeps ?I (session_create E i raw csrf t)" "keeps ?I (session_resolve E raw t)" "keeps ?I (revoke_where P)"
    unfolding session_statements by (intro pres account_frame; auto simp: Let_def)+
  show "keeps ?I (issue_verification E i e raw t)" "keeps ?I (issue_reset E i raw t)"
    "keeps ?I (consume_verification E raw t)" "keeps ?I (consume_reset E raw t)"
    unfolding token_statements by (intro pres account_frame; auto simp: Let_def split: prod.splits)+
qed simp_all

lemma keeps_of_frame:
  assumes "\<And>c. keeps (\<lambda>w. f w = c) m" and "\<And>v w. f v = f w \<Longrightarrow> I v \<Longrightarrow> I w"
  shows "keeps I m"
proof (rule keepsI)
  fix w assume "I w"
  moreover have "f (snd (m w)) = f w" using assms(1)[of "f w"] by (simp add: keeps_def)
  ultimately show "I (snd (m w))" using assms(2)[of w "snd (m w)"] by simp
qed

lemma keeps_bind_Inr:
  assumes "keeps I m" "\<And>w a w'. I w \<Longrightarrow> m w = (Inr a, w') \<Longrightarrow> I (snd (f a w'))"
  shows "keeps I (bindM m f)"
proof (rule keepsI)
  fix w assume I: "I w"
  obtain r w' where r: "m w = (r, w')" by fastforce
  with I keepsD[OF assms(1) I r] assms(2)[OF I] show "I (snd (bindM m f w))"
    by (cases r) (simp_all add: bindM_exec)
qed

lemma keeps_case_photo_state:
  "keeps I a \<Longrightarrow> keeps I b \<Longrightarrow> keeps I c \<Longrightarrow> keeps I d \<Longrightarrow>
    keeps I (case st of PhotoPending \<Rightarrow> a | PhotoApproved \<Rightarrow> b | PhotoRejected \<Rightarrow> c | PhotoHidden \<Rightarrow> d)"
  by (cases st) simp_all

lemma thenM_ret: "thenM (retM a) n = n" and thenM_throw: "thenM (throwM e) n = throwM e"
  by (simp_all add: thenM_def)

lemma keeps_thenD:
  assumes "I (snd (m w))" "keeps I n" shows "I (snd (thenM m n w))"
proof -
  obtain r w' where r: "m w = (r, w')" by fastforce
  with assms show ?thesis by (cases r) (simp_all add: thenM_exec keeps_def)
qed

lemma keeps_validated:
  assumes "trim n \<noteq> [] \<Longrightarrow> trim a \<noteq> [] \<Longrightarrow> keeps I m"
  shows "keeps I (thenM (validate_name_address n a) m)"
  using assms by (auto simp: keeps_def validate_name_address_def exec)

section \<open>Invariants of the content\<close>

text \<open>An invariant that looks at the content only is out of the reach of the accounts.\<close>

lemma outside_laws:
  fixes I :: "'w content_world_scheme \<Rightarrow> bool"
  assumes out: "\<And>v w. auth_world.more v = auth_world.more w \<Longrightarrow> I v \<Longrightarrow> I w"
  shows "table_inv I" "keeps I (audit_record ev)" "I w \<Longrightarrow> I (w\<lparr>limiter := l\<rparr>)" "keeps I (auth_act E a)"
proof -
  have cong: "auth_world.more v = auth_world.more w \<Longrightarrow> I v = I w" for v w by (metis out)
  show "table_inv I" unfolding table_inv_def by (intro allI cong) simp
  have frame: "keeps I m" if "\<And>c. keeps (\<lambda>w. auth_world.more w = c) m" for m :: "('w content_world_scheme, 'e, 'a) m"
    by (rule keeps_of_frame[where f = auth_world.more, OF that]) (auto elim: out)
  show "keeps I (audit_record ev)"
    unfolding audit_record_def
    by (rule keeps_of_frame[where f = auth_world.more], rule account_frame) (auto elim: out split: if_splits)
  show "I w \<Longrightarrow> I (w\<lparr>limiter := l\<rparr>)" by (erule out[rotated]) simp
  show "keeps I (auth_act E a)"
    by (rule keeps_of_frame[where f = auth_world.more], rule frame.keeps_action) (auto elim: out)
qed

locale content_base =
  fixes V :: "'img content_env" and I :: "'w content_world_scheme \<Rightarrow> bool"
  assumes tables: "table_inv I"
    and audit_law: "keeps I (audit_record ev)"
    and limiter_law: "I w \<Longrightarrow> I (w\<lparr>limiter := l\<rparr>)"
    and accounts_law: "keeps I (auth_act (en_auth V) a)"
    and object_store: "I w \<Longrightarrow> I (w\<lparr>objects := obs, storage_faults := fs\<rparr>)"
begin

lemma keeps_shared:
  "keeps I random_bytes" "keeps I (query conv f)" "keeps I (audit_record ev)" "keeps I (rate_check key cap window)"
proof -
  show "keeps I random_bytes" "keeps I (query conv f)" by (intro pres tables)+
  show "keeps I (audit_record ev)" by (rule audit_law)
  show "keeps I (rate_check key cap window)"
    by (auto simp: keeps_def rate_check_def limiter_law split: prod.split)
qed

lemma keeps_details: "keeps I (details G i)" "keeps I (get_for_edit G i)"
  unfolding get_for_edit_def details_def to_domain_def price_of_def security_of_row_def expectD_def
  by (intro pres tables keeps_shared | simp split: option.split)+

lemma keeps_storage:
  "keeps I (put_object key bytes)" "keeps I (delete_object key)"
proof -
  have s: "I (w\<lparr>storage_faults := fs\<rparr>)" if "I w" for w fs
    using object_store[OF that, where obs = "objects w" and fs = fs] by simp
  have o: "I (w\<lparr>objects := obs\<rparr>)" if "I w" for w obs
    using object_store[OF that, where obs = obs and fs = "storage_faults w"] by simp
  show "keeps I (put_object key bytes)" "keeps I (delete_object key)"
    unfolding put_object_def delete_object_def storage_call_def keeps_def
    by (auto simp: s o split: list.split option.split)
qed

lemma keeps_rates:
  "keeps I (contribution_allowed key cap window)" "keeps I (photo_allowed key cap window)"
  "keeps I (moderation_allowed key cap window)"
  unfolding contribution_allowed_def photo_allowed_def moderation_allowed_def by (intro pres keeps_shared)+

lemma keeps_audits:
  "keeps I (contribution_audit ev)" "keeps I (photo_audit ev)" "keeps I (moderation_audit ev)"
  unfolding contribution_audit_def photo_audit_def moderation_audit_def by (intro pres keeps_shared)+

lemma keeps_gates:
  "keeps I (require_verified u)" "keeps I (require_active G i)" "keeps I (validate_name_address n a)"
  "keeps I (duplicate_candidates G p nm)" "keeps I (require_moderator u)" "keeps I (photo_require_moderator u)"
  "keeps I (photo_require_verified u)"
  unfolding require_verified_def require_active_def validate_name_address_def duplicate_candidates_def
    require_moderator_def photo_require_moderator_def photo_require_verified_def
  by (intro pres keeps_shared keeps_details)+

lemmas keeps_base = keeps_shared keeps_details keeps_storage keeps_rates keeps_audits keeps_gates

end

text \<open>The contribution repositories: \<open>N\<close> and \<open>D\<close> say which inputs are considered.\<close>

locale community_invariant = content_base V I
  for V :: "'img content_env" and I :: "'w content_world_scheme \<Rightarrow> bool" +
  fixes N :: "new_location \<Rightarrow> bool" and D :: "parking_edit \<Rightarrow> bool"
  assumes resolved: "N new \<Longrightarrow> nl_timezone new = None \<Longrightarrow> N (new\<lparr>nl_timezone := Some (resolve_zone (nl_point new))\<rparr>)"
    and locations_law:
      "N new \<Longrightarrow> trim (nl_name new) \<noteq> [] \<Longrightarrow> trim (nl_address new) \<noteq> [] \<Longrightarrow> keeps I (create_location new u t)"
      "D e \<Longrightarrow> trim (pe_name e) \<noteq> [] \<Longrightarrow> trim (pe_address e) \<noteq> [] \<Longrightarrow> keeps I (apply_edit (en_geo V) i v e u t)"
      "keeps I (mark_verified_at i t)"
    and proposals_law: "keeps I (create_proposal p)"
    and reviews_law: "keeps I (upsert_review i u r b)"
    and signals_law: "keeps I (record_signal s t)"
    and favorites_law: "keeps I (toggle u i)"
begin

lemma keeps_contributions:
  "N new \<Longrightarrow> keeps I (add_parking_location G u ip new)"
  "D e \<Longrightarrow> keeps I (apply_parking_edit (en_geo V) u i v e)"
  "keeps I (propose_location_change G u i k p)" "keeps I (submit_review G u i r b)"
  "keeps I (record_verification G u s)" "keeps I (toggle_favorite i j)"
  unfolding add_parking_location_def apply_parking_edit_def propose_location_change_def submit_review_def
    record_verification_def toggle_favorite_def Let_def
  by (assumption | rule keeps_validated | rule pres keeps_base locations_law proposals_law reviews_law
      signals_law favorites_law | simp add: resolved split: option.split)+

lemma keeps_community: "action_ok N D F (Community a) \<Longrightarrow> keeps I (community_act V a)"
  by (cases a) (auto intro!: keeps_ignore keeps_contributions)

end

text \<open>The photo repository.\<close>

locale photo_invariant = content_base V I
  for V :: "'img content_env" and I :: "'w content_world_scheme \<Rightarrow> bool" +
  assumes uploads_law: "keeps I (insert_pending new)"
    and verdicts_law: "keeps I (approve_row k i u pos)" "keeps I (reject_row k i u reason)"
begin

lemma keeps_upload: "keeps I (upload_photo K lims u ip target bytes alt)"
  unfolding upload_photo_def photo_require_verified_def process_image_def mint_upload_id_def store_derivatives_def
    insert_or_discard_def Let_def
  by (intro pres keeps_base uploads_law)+

lemma keeps_photo: "keeps I (photo_act V a)"
proof (cases a)
  case (UploadPhoto u ip target bytes alt)
  then show ?thesis by (simp add: keeps_ignore keeps_upload)
next
  case (ApprovePhoto u k i)
  have "keeps I (approve_photo u k i)"
    unfolding approve_photo_def photo_require_moderator_def get_for_moderation_def max_position_def
    by (intro pres tables keeps_base keeps_case_photo_state verdicts_law)+
  with ApprovePhoto show ?thesis by (simp add: keeps_ignore)
next
  case (RejectPhoto u k i r)
  have "keeps I (reject_photo u k i r)"
    unfolding reject_photo_def photo_require_moderator_def get_for_moderation_def
    by (intro pres tables keeps_base keeps_case_photo_state verdicts_law)+
  with RejectPhoto show ?thesis by (simp add: keeps_ignore)
qed

end

text \<open>The moderation repositories.  A report is resolved only by someone who did not file it.\<close>

locale moderation_invariant = content_base V I
  for V :: "'img content_env" and I :: "'w content_world_scheme \<Rightarrow> bool" +
  fixes F :: bool
  assumes reports_law: "keeps I (create_report n)" "keeps I (claim_report_row i u)"
    and resolve_law: "I w \<Longrightarrow> select_one (\<lambda>r. rp_id r = i) (reports w) = Some r \<Longrightarrow> rp_reporter r \<noteq> Some u
      \<Longrightarrow> I (snd (resolve_row i u note out w))"
    and flip_law: "F \<Longrightarrow> keeps I (flip_review i from to)"
    and hide_law: "keeps I (hide_photo_row k i u)" "keeps I (restore_photo_row k i u)"
    and states_law: "keeps I (set_parking_state i froms st u)"
    and settle_law: "merge_proposal (en_geo V) kind change over = Inr a \<Longrightarrow> keeps I (approve_proposal_row i u a)"
      "keeps I (reject_proposal_row i u)"
begin

lemma keeps_review_flips: "F \<Longrightarrow> keeps I (hide_review_row i)" "F \<Longrightarrow> keeps I (restore_review_row i)"
  unfolding hide_review_row_def restore_review_row_def by (rule flip_law, assumption)+

lemma keeps_report_reads: "keeps I (find_report i)" "keeps I (find_proposal i)"
  unfolding find_report_def into_report_def find_proposal_def map_proposal_def Let_def
  by (intro pres keeps_base)+

lemma keeps_hide_target: "F \<Longrightarrow> keeps I (hide_resolved_target r u)"
proof -
  assume F
  have t: "keeps I (tolerate act)" if "keeps I act" for act
    unfolding tolerate_def by (intro pres that)
  show ?thesis
    unfolding hide_resolved_target_def
    using \<open>F\<close> by (intro t) (simp add: keeps_review_flips hide_law states_law split: report_target.split)
qed

lemma keeps_resolve:
  assumes "F \<or> out = OutcomeDismissed" shows "keeps I (resolve_report u i out note)"
  unfolding resolve_report_def require_moderator_def
proof (intro keeps_then keeps_require keeps_bind_Inr keeps_report_reads)
  fix w found w'
  assume I: "I w" and f: "find_report i w = (Inr found, w')"
  let ?rest = "\<lambda>r. thenM (whenM (out = OutcomeResolved) (hide_resolved_target r (au_id u)))
        (moderation_audit (service_event (au_id u)
           (case out of OutcomeResolved \<Rightarrow> ''report.resolved'' | OutcomeDismissed \<Rightarrow> ''report.dismissed'') ''report'' i
           [(lit ''target_type'', JString (report_target_code (rt_target_type r))),
            (lit ''target_id'', JInt (rt_target_id r))])) :: ('w content_world_scheme, moderation_error, unit) m"
  have I': "I w'" using keepsD[OF keeps_report_reads(1) I f] .
  have "keeps I (whenM (out = OutcomeResolved) (hide_resolved_target r (au_id u)))" for r
    using assms keeps_hide_target by (cases out) (auto intro: keeps_when simp: whenM_def keeps_def exec)
  then have rest: "keeps I (?rest r)" for r by (rule keeps_then) (intro keeps_audits)
  show "I (snd (bindM (okOrM MNotFound found) (\<lambda>r.
      thenM (requireM (rt_reporter r \<noteq> Some (au_id u)) SelfResolve) (thenM (resolve_row i (au_id u) note out) (?rest r))) w'))"
  proof (cases found)
    case None
    with I' show ?thesis by (simp add: exec)
  next
    case (Some r)
    from f[unfolded find_report_def Some] obtain row where
      row: "select_one (\<lambda>r. rp_id r = i) (reports w') = Some row" and rep: "rp_reporter row = rt_reporter r"
      by (elim bindM_InrE query_InrE) (auto simp: into_report_def throwM_exec retM_exec elim!: InrEs split: option.splits)
    have "I (snd (thenM (resolve_row i (au_id u) note out) (?rest r) w'))" if "rt_reporter r \<noteq> Some (au_id u)"
      by (rule keeps_thenD[where I = I, OF _ rest]) (rule resolve_law[OF I' row], use that rep in simp)
    then show ?thesis
      by (cases "rt_reporter r = Some (au_id u)")
        (simp_all add: Some okOrM_def requireM_def thenM_throw thenM_ret throwM_exec I')
  qed
qed

lemma keeps_reporting:
  "keeps I (submit_report lims u ip tt i r d)" "keeps I (claim_report u i)"
  unfolding submit_report_def report_text_def target_exists_def claim_report_def require_moderator_def
  by (intro pres keeps_base reports_law)+

lemma keeps_actions:
  "F \<Longrightarrow> keeps I (hide_review u i)" "F \<Longrightarrow> keeps I (restore_review u i)"
  "keeps I (hide_photo u k i)" "keeps I (restore_photo u k i)" "keeps I (invalidate_parking u i)" "keeps I (restore_parking u i)" "keeps I (reject_proposal u i reason)"
  unfolding hide_review_def restore_review_def hide_photo_def restore_photo_def invalidate_parking_def
    restore_parking_def reject_proposal_def audited_action_def require_moderator_def
  by (assumption | rule pres keeps_base keeps_review_flips hide_law states_law settle_law)+

lemma keeps_approve: "keeps I (approve_proposal (en_geo V) u i ov)"
  unfolding approve_proposal_def require_moderator_def
proof (rule keeps_then[OF keeps_require], rule keeps_bind[OF keeps_report_reads(2)], rule keeps_bind[OF keeps_okOr])
  fix p :: proposal
  show "keeps I (bindM (liftR (merge_proposal (en_geo V) (po_kind p) (po_change p) ov)) (\<lambda>a.
      thenM (approve_proposal_row i (au_id u) a)
        (moderation_audit (service_event (au_id u) ''proposal.approved'' ''parking_proposal'' i
           [(lit ''kind'', JString (proposal_kind_code (application_kind a)))]))))"
  proof (cases "merge_proposal (en_geo V) (po_kind p) (po_change p) ov")
    case (Inl e)
    then show ?thesis by (simp add: keeps_def exec)
  next
    case (Inr a)
    then have "keeps I (approve_proposal_row i (au_id u) a)" by (rule settle_law)
    then have "keeps I (thenM (approve_proposal_row i (au_id u) a)
        (moderation_audit (service_event (au_id u) ''proposal.approved'' ''parking_proposal'' i
           [(lit ''kind'', JString (proposal_kind_code (application_kind a)))])))"
      by (intro pres keeps_audits)
    then show ?thesis by (simp add: Inr keeps_def bindM_exec liftR_exec)
  qed
qed

lemma keeps_moderation: "action_ok N D F (Moderation a) \<Longrightarrow> keeps I (moderation_act V a)"
  by (cases a) (simp_all add: keeps_ignore keeps_reporting keeps_resolve keeps_actions keeps_approve)

end

text \<open>All of them together.\<close>

locale content_invariant =
  community_invariant V I N D + photo_invariant V I + moderation_invariant V I F
  for V :: "'img content_env" and I :: "'w content_world_scheme \<Rightarrow> bool" and N D F
begin

lemma keeps_content: "action_ok N D F a \<Longrightarrow> keeps I (content_act V a)"
proof (cases a)
  case (StorageFaults fs)
  have "I (w\<lparr>storage_faults := fs\<rparr>)" if "I w" for w
    using object_store[OF that, where obs = "objects w" and fs = fs] by simp
  with StorageFaults show ?thesis by (simp add: keeps_modify)
qed (simp_all add: keeps_ignore accounts_law keeps_community keeps_photo keeps_moderation)

lemma keeps_content_run: "list_all (action_ok N D F) acts \<Longrightarrow> I w \<Longrightarrow> I (content_run V acts w)"
  using keeps_content by (induction acts arbitrary: w) (simp_all add: keeps_def)

end

end
