(* ===== verification/Content_Frames.thy ===== *)
theory Content_Frames
  imports Content_System
begin

text \<open>
  Which tables a repository's method can touch.  An invariant of the locations and reviews,
  of the photos, or of the reports has to be checked only against the methods that write
  those tables: the locales \<open>location_invariant\<close>, \<open>photo_row_invariant\<close> and
  \<open>report_invariant\<close> ask for those laws and are sublocales of \<open>content_invariant\<close>.
\<close>

section \<open>Parts of the world\<close>

definition location_part :: "'w content_world_scheme \<Rightarrow>
    location_row list \<times> int \<times> revision_row list \<times> hours_row list \<times> security_row list \<times> review_row list \<times> int" where
  "location_part w = (locations w, next_location w, revisions w, hours_table w, security_table w, reviews w, next_review w)"

definition photo_part :: "'w content_world_scheme \<Rightarrow> parking_photo_row list \<times> photo_row list \<times> int \<times> int" where
  "photo_part w = (parking_photos w, review_photos w, next_parking_photo w, next_review_photo w)"

definition report_part :: "'w content_world_scheme \<Rightarrow> report_row list \<times> int" where
  "report_part w = (reports w, next_report w)"

lemma part_tables:
  "table_inv (\<lambda>w. location_part w = c)" "table_inv (\<lambda>w. photo_part w = d)" "table_inv (\<lambda>w. report_part w = r)"
  by (simp_all add: table_inv_def location_part_def photo_part_def report_part_def)

lemmas part_rules =
  part_tables keeps_sql[OF part_tables(1)] keeps_sql[OF part_tables(2)] keeps_sql[OF part_tables(3)]
  keeps_command[OF part_tables(1)] keeps_command[OF part_tables(2)] keeps_command[OF part_tables(3)]

lemmas part_defs = location_part_def photo_part_def report_part_def

section \<open>Statements by the tables they write\<close>

lemmas location_statements =
  create_location_def insert_location_def write_hours_def write_security_def insert_revision_def revision_insert_def
  apply_edit_def update_location_def mark_verified_at_def upsert_review_def upsert_review_row_def
  insert_review_revision_def recompute_rating_def flip_review_def set_parking_state_def snapshot_with_def
  insert_moderation_revision_def

lemmas proposal_statements =
  approve_proposal_row_def update_location_def snapshot_with_def insert_moderation_revision_def revision_insert_def
  settle_proposal_def supersede_siblings_def

lemmas side_statements = create_proposal_def record_signal_def toggle_def reject_proposal_row_def

lemmas photo_statements =
  insert_pending_def approve_row_def reject_row_def hide_photo_row_def restore_photo_row_def judge_photo_def

lemmas report_statements = create_report_def claim_report_row_def resolve_row_def update_report_def

lemma keeps_case_hours:
  "keeps I a \<Longrightarrow> (\<And>rs. keeps I (f rs)) \<Longrightarrow> keeps I (case h of UnknownHours \<Rightarrow> a | Weekly rs \<Rightarrow> f rs)"
  by (cases h) simp_all

lemma side_frame:
  "keeps (\<lambda>w. location_part w = c) (create_proposal p)" "keeps (\<lambda>w. location_part w = c) (record_signal s t)"
  "keeps (\<lambda>w. location_part w = c) (toggle u i)" "keeps (\<lambda>w. location_part w = c) (reject_proposal_row i u)"
  "keeps (\<lambda>w. photo_part w = d) (create_proposal p)" "keeps (\<lambda>w. photo_part w = d) (record_signal s t)"
  "keeps (\<lambda>w. photo_part w = d) (toggle u i)" "keeps (\<lambda>w. photo_part w = d) (reject_proposal_row i u)"
  "keeps (\<lambda>w. report_part w = r) (create_proposal p)" "keeps (\<lambda>w. report_part w = r) (record_signal s t)"
  "keeps (\<lambda>w. report_part w = r) (toggle u i)" "keeps (\<lambda>w. report_part w = r) (reject_proposal_row i u)"
  unfolding side_statements
  by (intro pres part_rules; auto simp: Let_def part_defs split: prod.splits if_splits)+

lemma location_frame:
  "keeps (\<lambda>w. photo_part w = d) (create_location new u t)" "keeps (\<lambda>w. photo_part w = d) (apply_edit G i v e u t)"
  "keeps (\<lambda>w. photo_part w = d) (mark_verified_at i t)" "keeps (\<lambda>w. photo_part w = d) (upsert_review i u x b)"
  "keeps (\<lambda>w. photo_part w = d) (flip_review i from to)" "keeps (\<lambda>w. photo_part w = d) (set_parking_state i froms st u)"
  "keeps (\<lambda>w. report_part w = r) (create_location new u t)" "keeps (\<lambda>w. report_part w = r) (apply_edit G i v e u t)"
  "keeps (\<lambda>w. report_part w = r) (mark_verified_at i t)" "keeps (\<lambda>w. report_part w = r) (upsert_review i u x b)"
  "keeps (\<lambda>w. report_part w = r) (flip_review i from to)" "keeps (\<lambda>w. report_part w = r) (set_parking_state i froms st u)"
  unfolding location_statements
  by (intro pres part_rules keeps_case_hours;
      auto simp: Let_def part_defs check_user_def check_location_def check_that_def split: sum.splits option.splits if_splits)+

lemma approval_frame:
  "keeps (\<lambda>w. photo_part w = d) (approve_proposal_row i u a)"
  "keeps (\<lambda>w. report_part w = r) (approve_proposal_row i u a)"
  unfolding proposal_statements
  by (intro pres part_rules; auto simp: Let_def part_defs split: if_splits)+

lemma photo_frame:
  "keeps (\<lambda>w. location_part w = c) (insert_pending new)" "keeps (\<lambda>w. location_part w = c) (approve_row k i u pos)"
  "keeps (\<lambda>w. location_part w = c) (reject_row k i u reason)" "keeps (\<lambda>w. location_part w = c) (hide_photo_row k i u)"
  "keeps (\<lambda>w. location_part w = c) (restore_photo_row k i u)"
  "keeps (\<lambda>w. report_part w = r) (insert_pending new)" "keeps (\<lambda>w. report_part w = r) (approve_row k i u pos)"
  "keeps (\<lambda>w. report_part w = r) (reject_row k i u reason)" "keeps (\<lambda>w. report_part w = r) (hide_photo_row k i u)"
  "keeps (\<lambda>w. report_part w = r) (restore_photo_row k i u)"
  unfolding photo_statements
  by (intro pres part_rules;
      auto simp: Let_def part_defs split: if_splits option.splits photo_target.splits photo_kind.splits)+

lemma report_frame:
  "keeps (\<lambda>w. location_part w = c) (create_report n)" "keeps (\<lambda>w. location_part w = c) (claim_report_row i u)"
  "keeps (\<lambda>w. location_part w = c) (resolve_row i u msg out)"
  "keeps (\<lambda>w. photo_part w = d) (create_report n)" "keeps (\<lambda>w. photo_part w = d) (claim_report_row i u)"
  "keeps (\<lambda>w. photo_part w = d) (resolve_row i u msg out)"
  unfolding report_statements
  by (intro pres part_rules; auto simp: Let_def part_defs split: if_splits)+

section \<open>Invariants by the tables they look at\<close>

lemma parts_outside:
  assumes "auth_world.more v = auth_world.more w"
  shows "location_part v = location_part w" "photo_part v = photo_part w" "report_part v = report_part w"
  using assms by (cases v, cases w, simp add: part_defs)+

lemma parts_objects [simp]:
  "location_part (w\<lparr>objects := obs, storage_faults := fs\<rparr>) = location_part w"
  "photo_part (w\<lparr>objects := obs, storage_faults := fs\<rparr>) = photo_part w"
  "report_part (w\<lparr>objects := obs, storage_faults := fs\<rparr>) = report_part w"
  by (simp_all add: part_defs)

text \<open>Every content table but the object store.\<close>

definition content_tables where
  "content_tables w =
     (location_part w, photo_part w, report_part w, proposals w, next_proposal w, signals w, next_signal w, favorites w)"

lemma content_tables_outside: "auth_world.more v = auth_world.more w \<Longrightarrow> content_tables v = content_tables w"
  by (cases v, cases w, simp add: content_tables_def part_defs)

interpretation still: content_base V "\<lambda>w. content_tables w = c" for V c
proof unfold_locales
  have out: "content_tables v = c \<Longrightarrow> content_tables w = c" if "auth_world.more v = auth_world.more w" for v w
    using content_tables_outside[OF that] by simp
  show "table_inv (\<lambda>w. content_tables w = c)" "keeps (\<lambda>w. content_tables w = c) (audit_record ev)"
    "keeps (\<lambda>w. content_tables w = c) (auth_act (en_auth V) a)" for ev a
    by (rule outside_laws, erule (1) out)+
qed (simp_all add: content_tables_def part_defs)

lemma stillD:
  assumes "\<And>c. keeps (\<lambda>w. f w = c) m" and "m w = (r, w')" shows "f w' = f w"
  using keepsD[OF assms(1)[of "f w"] refl assms(2)] .

locale location_invariant =
  fixes V :: "'img content_env" and I :: "'w content_world_scheme \<Rightarrow> bool"
    and N :: "new_location \<Rightarrow> bool" and D :: "parking_edit \<Rightarrow> bool" and F :: bool
  assumes local: "location_part v = location_part w \<Longrightarrow> I v \<Longrightarrow> I w"
    and resolved_input: "N new \<Longrightarrow> nl_timezone new = None \<Longrightarrow>
      N (new\<lparr>nl_timezone := Some (resolve_zone (nl_point new))\<rparr>)"
    and writes:
      "N new \<Longrightarrow> trim (nl_name new) \<noteq> [] \<Longrightarrow> trim (nl_address new) \<noteq> [] \<Longrightarrow> keeps I (create_location new u t)"
      "D e \<Longrightarrow> trim (pe_name e) \<noteq> [] \<Longrightarrow> trim (pe_address e) \<noteq> [] \<Longrightarrow> keeps I (apply_edit (en_geo V) i ver e u t)"
      "keeps I (mark_verified_at i t)" "keeps I (upsert_review i u x b)" "F \<Longrightarrow> keeps I (flip_review i from to)"
      "keeps I (set_parking_state i froms st u)"
    and approves: "merge_proposal (en_geo V) kind change over = Inr a \<Longrightarrow> keeps I (approve_proposal_row i u a)"

context location_invariant
begin

lemma keeps_local: "(\<And>c. keeps (\<lambda>w. location_part w = c) m) \<Longrightarrow> keeps I m"
  by (rule keeps_of_frame[where f = location_part]) (auto elim: local)

end

sublocale location_invariant \<subseteq> content_invariant V I N D F
proof unfold_locales
  have out: "I w" if "auth_world.more v = auth_world.more w" "I v" for v w
    using local parts_outside(1)[OF that(1)] that(2) by blast
  show "table_inv I" "keeps I (audit_record ev)" "keeps I (auth_act (en_auth V) b)" for ev b
    by (rule outside_laws, erule (1) out)+
  show "I (w\<lparr>limiter := l\<rparr>)" if "I w" for w l using outside_laws(3)[of I, OF out that] .
  show "I (w\<lparr>objects := obs, storage_faults := fs\<rparr>)" if "I w" for w obs fs
    using local[of w] that by simp
  show "I (snd (resolve_row i u msg out w))" if "I w" for i u msg out w
    using keeps_local[OF report_frame(3)] that by (simp add: keeps_def)
  fix p s t i j u new kk pos reason n
  show "keeps I (create_proposal p)" "keeps I (record_signal s t)" "keeps I (toggle i j)" "keeps I (reject_proposal_row i u)"
    "keeps I (insert_pending new)" "keeps I (approve_row kk i u pos)" "keeps I (reject_row kk i u reason)"
    "keeps I (hide_photo_row kk i u)" "keeps I (restore_photo_row kk i u)"
    "keeps I (create_report n)" "keeps I (claim_report_row i u)"
    by (rule keeps_local, rule side_frame photo_frame report_frame)+
qed (fact resolved_input writes approves)+

locale photo_row_invariant =
  fixes V :: "'img content_env" and I :: "'w content_world_scheme \<Rightarrow> bool"
  assumes local: "photo_part v = photo_part w \<Longrightarrow> I v \<Longrightarrow> I w"
    and writes: "keeps I (insert_pending new)" "keeps I (approve_row k i u pos)" "keeps I (reject_row k i u reason)"
      "keeps I (hide_photo_row k i u)" "keeps I (restore_photo_row k i u)"

context photo_row_invariant
begin

lemma keeps_local: "(\<And>c. keeps (\<lambda>w. photo_part w = c) m) \<Longrightarrow> keeps I m"
  by (rule keeps_of_frame[where f = photo_part]) (auto elim: local)

end

sublocale photo_row_invariant \<subseteq> content_invariant V I "\<lambda>_. True" "\<lambda>_. True" True
proof unfold_locales
  have out: "I w" if "auth_world.more v = auth_world.more w" "I v" for v w
    using local parts_outside(2)[OF that(1)] that(2) by blast
  show "table_inv I" "keeps I (audit_record ev)" "keeps I (auth_act (en_auth V) b)" for ev b
    by (rule outside_laws, erule (1) out)+
  show "I (w\<lparr>limiter := l\<rparr>)" if "I w" for w l using outside_laws(3)[of I, OF out that] .
  show "I (w\<lparr>objects := obs, storage_faults := fs\<rparr>)" if "I w" for w obs fs
    using local[of w] that by simp
  show "I (snd (resolve_row i u msg out w))" if "I w" for i u msg out w
    using keeps_local[OF report_frame(6)] that by (simp add: keeps_def)
  fix p s t i j u n new e ver x b st1 st2 froms st a
  show "keeps I (create_proposal p)" "keeps I (record_signal s t)" "keeps I (toggle i j)" "keeps I (reject_proposal_row i u)"
    "keeps I (create_location new u t)" "keeps I (apply_edit (en_geo V) i ver e u t)" "keeps I (mark_verified_at i t)"
    "keeps I (upsert_review i u x b)" "keeps I (flip_review i st1 st2)" "keeps I (set_parking_state i froms st u)"
    "keeps I (approve_proposal_row i u a)" "keeps I (create_report n)" "keeps I (claim_report_row i u)"
    by (rule keeps_local, rule side_frame location_frame approval_frame report_frame)+
qed (simp_all add: writes)

locale report_invariant =
  fixes V :: "'img content_env" and I :: "'w content_world_scheme \<Rightarrow> bool"
  assumes local: "report_part v = report_part w \<Longrightarrow> I v \<Longrightarrow> I w"
    and writes: "keeps I (create_report n)" "keeps I (claim_report_row i u)"
    and resolves: "I w \<Longrightarrow> select_one (\<lambda>r. rp_id r = i) (reports w) = Some r \<Longrightarrow> rp_reporter r \<noteq> Some u
      \<Longrightarrow> I (snd (resolve_row i u msg out w))"

context report_invariant
begin

lemma keeps_local: "(\<And>c. keeps (\<lambda>w. report_part w = c) m) \<Longrightarrow> keeps I m"
  by (rule keeps_of_frame[where f = report_part]) (auto elim: local)

end

sublocale report_invariant \<subseteq> content_invariant V I "\<lambda>_. True" "\<lambda>_. True" True
proof unfold_locales
  have out: "I w" if "auth_world.more v = auth_world.more w" "I v" for v w
    using local parts_outside(3)[OF that(1)] that(2) by blast
  show "table_inv I" "keeps I (audit_record ev)" "keeps I (auth_act (en_auth V) b)" for ev b
    by (rule outside_laws, erule (1) out)+
  show "I (w\<lparr>limiter := l\<rparr>)" if "I w" for w l using outside_laws(3)[of I, OF out that] .
  show "I (w\<lparr>objects := obs, storage_faults := fs\<rparr>)" if "I w" for w obs fs
    using local[of w] that by simp
  fix p s t i j u new e ver x b st1 st2 froms st a ph kk pos reason
  show "keeps I (create_proposal p)" "keeps I (record_signal s t)" "keeps I (toggle i j)" "keeps I (reject_proposal_row i u)"
    "keeps I (create_location new u t)" "keeps I (apply_edit (en_geo V) i ver e u t)" "keeps I (mark_verified_at i t)"
    "keeps I (upsert_review i u x b)" "keeps I (flip_review i st1 st2)" "keeps I (set_parking_state i froms st u)"
    "keeps I (approve_proposal_row i u a)" "keeps I (insert_pending ph)" "keeps I (approve_row kk i u pos)"
    "keeps I (reject_row kk i u reason)" "keeps I (hide_photo_row kk i u)" "keeps I (restore_photo_row kk i u)"
    by (rule keeps_local, rule side_frame location_frame approval_frame photo_frame)+
qed (simp_all add: writes resolves)

end
