(* ===== verification/Content_Effects.thy ===== *)
theory Content_Effects
  imports Content_Frames
begin

text \<open>
  What a repository method that returned has done to the tables of the locations and
  reviews, whatever the schedule of faults was: one elimination rule per method, on which
  the invariants and the guarantees of the next theories rest.
\<close>

section \<open>Single statements\<close>

lemma insert_hours_Inr:
  "insert_hours rs t = Inr t' \<Longrightarrow> t' = t @ rs \<and> (\<forall>r \<in> set rs. 1 \<le> hr_day r \<and> hr_day r \<le> 7)"
proof (induction rs arbitrary: t)
  case (Cons r rs)
  from Cons.prems Cons.IH[of "t @ [r]"] show ?case by (auto split: if_splits)
qed simp

definition hours_rows :: "int \<Rightarrow> opening_hours \<Rightarrow> hours_row list" where
  "hours_rows i h = (case h of UnknownHours \<Rightarrow> [] | Weekly rows \<Rightarrow> map (row_of_range i) rows)"

lemma write_hours_InrE:
  assumes "write_hours i h w = (Inr x, w')"
  obtains fs where "w' = w\<lparr>faults := fs, hours_table := filter (\<lambda>r. hr_location r \<noteq> i) (hours_table w) @ hours_rows i h\<rparr>"
    "\<forall>r \<in> set (hours_rows i h). 1 \<le> hr_day r \<and> hr_day r \<le> 7"
proof -
  let ?kept = "filter (\<lambda>r. hr_location r \<noteq> i) (hours_table w)"
  have "\<exists>fs. w' = w\<lparr>faults := fs, hours_table := ?kept @ hours_rows i h\<rparr> \<and> (\<forall>r \<in> set (hours_rows i h). 1 \<le> hr_day r \<and> hr_day r \<le> 7)"
  proof (cases "\<exists>rows. h = Weekly rows \<and> rows \<noteq> []")
    case False
    then have "hours_rows i h = []" by (auto simp: hours_rows_def split: opening_hours.split)
    moreover have "\<exists>fs. w' = w\<lparr>faults := fs, hours_table := ?kept\<rparr>"
      using assms False unfolding write_hours_def
      by (auto simp: retM_exec elim!: thenM_InrE command_InrE split: opening_hours.splits if_splits)
    ultimately show ?thesis by auto
  next
    case True
    then obtain rows where h: "h = Weekly rows" "rows \<noteq> []" by blast
    with assms obtain fs fs' t where t: "insert_hours (map (row_of_range i) rows) ?kept = Inr t"
        "w' = w\<lparr>faults := fs, hours_table := ?kept\<rparr>\<lparr>faults := fs', hours_table := t\<rparr>"
      unfolding write_hours_def
      by (auto elim!: thenM_InrE command_InrE sql_InrE split: sum.splits)
    with insert_hours_Inr[OF t(1)] h show ?thesis by (auto simp: hours_rows_def intro!: exI[of _ fs'])
  qed
  then show ?thesis using that by blast
qed

lemma write_security_InrE:
  assumes "write_security i fs w = (Inr x, w')"
  obtains gs where "w' = w\<lparr>faults := gs, security_table := fold (upsert_security i) (security_states fs) (security_table w)\<rparr>"
  using assms unfolding write_security_def by (auto elim!: sql_InrE intro: that)

definition revision_of :: "int \<Rightarrow> int \<Rightarrow> int \<Rightarrow> ustring \<Rightarrow> string \<Rightarrow> json \<Rightarrow> int \<Rightarrow> int \<Rightarrow> revision_row" where
  "revision_of i version editor kind summary snap n t =
     \<lparr>rv_id = n, rv_location = i, rv_version = version, rv_editor = Some editor, rv_kind = kind,
      rv_summary = Some (lit summary), rv_snapshot = snap, rv_created_at = t\<rparr>"

lemma revision_insert_Inr:
  assumes "revision_insert i version editor kind summary snap w = Inr (x, w')"
  shows "w' = w\<lparr>revisions := revisions w @ [revision_of i version editor kind summary snap (next_revision w) (now w)],
      next_revision := next_revision w + 1\<rparr>"
    and "\<not> (\<exists>r \<in> set (revisions w). rv_location r = i \<and> rv_version r = version)" "location_exists w i"
  using assms by (auto simp: revision_insert_def revision_of_def split: if_splits)

lemma insert_revision_InrE:
  assumes "insert_revision i version editor kind summary snap w = (Inr x, w')"
  obtains fs where "w' = w\<lparr>faults := fs,
      revisions := revisions w @ [revision_of i version editor (change_kind_code kind) summary snap (next_revision w) (now w)],
      next_revision := next_revision w + 1\<rparr>"
proof -
  from assms[unfolded insert_revision_def] obtain fs where
    "revision_insert i version editor (change_kind_code kind) summary snap (w\<lparr>faults := fs\<rparr>) = Inr (x, w')"
    by (rule sql_InrE)
  from revision_insert_Inr(1)[OF this] show ?thesis by (intro that[of fs]) simp
qed

lemma insert_moderation_revision_InrE:
  assumes "insert_moderation_revision i version editor summary snap w = (Inr x, w')"
  obtains fs where "w' = w\<lparr>faults := fs,
      revisions := revisions w @ [revision_of i version editor (lit ''moderation'') summary snap (next_revision w) (now w)],
      next_revision := next_revision w + 1\<rparr>"
proof -
  from assms[unfolded insert_moderation_revision_def] obtain fs where
    "revision_insert i version editor (lit ''moderation'') summary snap (w\<lparr>faults := fs\<rparr>) = Inr (x, w')"
    by (rule sql_InrE)
  from revision_insert_Inr(1)[OF this] show ?thesis by (intro that[of fs]) simp
qed

lemma select_one_conj: "select_one P t = Some r \<Longrightarrow> Q r \<Longrightarrow> select_one (\<lambda>x. P x \<and> Q x) t = Some r"
  unfolding select_one_def by (induction t) (auto split: if_splits)

text \<open>The same, table by table.\<close>

lemma write_hours_fields:
  assumes "write_hours i h w = (Inr x, w')"
  shows "hours_table w' = filter (\<lambda>r. hr_location r \<noteq> i) (hours_table w) @ hours_rows i h"
    "\<forall>r \<in> set (hours_rows i h). 1 \<le> hr_day r \<and> hr_day r \<le> 7"
    "locations w' = locations w" "next_location w' = next_location w" "revisions w' = revisions w"
    "next_revision w' = next_revision w" "security_table w' = security_table w" "reviews w' = reviews w"
    "next_review w' = next_review w" "proposals w' = proposals w" "now w' = now w"
  using assms by (elim write_hours_InrE, simp)+

lemma write_security_fields:
  assumes "write_security i fs w = (Inr x, w')"
  shows "security_table w' = fold (upsert_security i) (security_states fs) (security_table w)"
    "locations w' = locations w" "next_location w' = next_location w" "revisions w' = revisions w"
    "next_revision w' = next_revision w" "hours_table w' = hours_table w" "reviews w' = reviews w"
    "next_review w' = next_review w" "proposals w' = proposals w" "now w' = now w"
  using assms by (elim write_security_InrE, simp)+

lemma insert_revision_fields:
  assumes "insert_revision i version editor kind summary snap w = (Inr x, w')"
  shows "revisions w' = revisions w @ [revision_of i version editor (change_kind_code kind) summary snap (next_revision w) (now w)]"
    "next_revision w' = next_revision w + 1"
    "locations w' = locations w" "next_location w' = next_location w" "security_table w' = security_table w"
    "hours_table w' = hours_table w" "reviews w' = reviews w" "next_review w' = next_review w"
    "proposals w' = proposals w" "now w' = now w"
  using assms by (elim insert_revision_InrE, simp)+

lemma insert_moderation_revision_fields:
  assumes "insert_moderation_revision i version editor summary snap w = (Inr x, w')"
  shows "revisions w' = revisions w @ [revision_of i version editor (lit ''moderation'') summary snap (next_revision w) (now w)]"
    "next_revision w' = next_revision w + 1"
    "locations w' = locations w" "next_location w' = next_location w" "security_table w' = security_table w"
    "hours_table w' = hours_table w" "reviews w' = reviews w" "next_review w' = next_review w"
    "proposals w' = proposals w" "now w' = now w"
  using assms by (elim insert_moderation_revision_InrE, simp)+

lemma insert_location_fields:
  assumes "insert_location new tz u t w = (Inr i, w')"
  shows "i = next_location w" "locations w' = locations w @ [new_row new tz u t i]" "next_location w' = next_location w + 1"
    "revisions w' = revisions w" "next_revision w' = next_revision w" "security_table w' = security_table w"
    "hours_table w' = hours_table w" "reviews w' = reviews w" "next_review w' = next_review w"
    "proposals w' = proposals w" "now w' = now w"
  using assms unfolding insert_location_def by (elim sql_InrE, auto)+

lemmas write_fields =
  write_hours_fields write_security_fields insert_revision_fields insert_moderation_revision_fields insert_location_fields

section \<open>Creating and editing a location\<close>

lemma create_location_effect:
  assumes "create_location new u t w = (Inr i, w')"
  obtains tz snap n where "nl_timezone new = Some tz" "i = next_location w"
    "locations w' = locations w @ [new_row new tz u t i]" "next_location w' = i + 1"
    "revisions w' = revisions w @ [revision_of i 1 u (change_kind_code CKCreate) ''added'' snap n (now w)]"
    "hours_table w' = filter (\<lambda>r. hr_location r \<noteq> i) (hours_table w) @ hours_rows i (nl_hours new)"
    "\<forall>r \<in> set (hours_rows i (nl_hours new)). 1 \<le> hr_day r \<and> hr_day r \<le> 7"
    "security_table w' = fold (upsert_security i) (security_states (nl_security new)) (security_table w)"
    "reviews w' = reviews w" "next_review w' = next_review w" "proposals w' = proposals w"
proof -
  show ?thesis
    using assms unfolding create_location_def
    apply (elim bindM_InrE okOrM_InrE transaction_InrE thenM_InrE retM_InrE)
    subgoal premises p for tz w1 fs v fs' i' w2 x1 w3 x2 w4 x3 w5
      using p(1-3,8,9) insert_location_fields[OF p(4)] write_hours_fields[OF p(5)] write_security_fields[OF p(6)]
        insert_revision_fields[OF p(7)]
      by (intro that[of tz]) simp_all
    done
qed

lemma edited_row_simps [simp]:
  "lr_id (edited_row e t l) = lr_id l" "lr_version (edited_row e t l) = lr_version l + 1"
  "lr_state (edited_row e t l) = lr_state l" "lr_lat (edited_row e t l) = lr_lat l" "lr_lon (edited_row e t l) = lr_lon l"
  "lr_timezone (edited_row e t l) = lr_timezone l" "lr_rating_avg (edited_row e t l) = lr_rating_avg l"
  "lr_rating_count (edited_row e t l) = lr_rating_count l"
  by (simp_all add: edited_row_def split: prod.split)

lemma update_location_InrE:
  assumes "sql conv (\<lambda>w. Inr (update_location i P f w)) w = (Inr upd, w')"
  obtains fs where "upd = map_option f (select_one (\<lambda>l. lr_id l = i \<and> P l) (locations w))"
    "w' = w\<lparr>faults := fs, locations := update_where (\<lambda>l. lr_id l = i \<and> P l) f (locations w)\<rparr>"
  using assms by (elim sql_InrE) (auto simp: update_location_def Let_def intro: that)

lemma apply_edit_effect:
  assumes "apply_edit G i ver e u t w = (Inr n, w')"
  obtains l snap m where "location_of w i = Some l" "lr_state l = lit ''ACTIVE''" "lr_version l = ver" "n = ver + 1"
    "locations w' = update_where (\<lambda>x. lr_id x = i \<and> lr_version x = ver \<and> lr_state x = lit ''ACTIVE'') (edited_row e t) (locations w)"
    "next_location w' = next_location w"
    "revisions w' = revisions w @ [revision_of i n u (change_kind_code CKEdit) ''edited'' snap m (now w)]"
    "hours_table w' = filter (\<lambda>r. hr_location r \<noteq> i) (hours_table w) @ hours_rows i (pe_hours e)"
    "\<forall>r \<in> set (hours_rows i (pe_hours e)). 1 \<le> hr_day r \<and> hr_day r \<le> 7"
    "security_table w' = fold (upsert_security i) (security_states (pe_security e)) (security_table w)"
    "reviews w' = reviews w" "next_review w' = next_review w" "proposals w' = proposals w"
proof -
  show ?thesis
    using assms unfolding apply_edit_def
    apply (elim bindM_InrE okOrM_InrE transaction_InrE thenM_InrE requireM_InrE retM_InrE query_InrE update_location_InrE
      mapErrM_InrE liftR_InrE)
    subgoal premises p for _ v _ _ w1 l _ _ _ _ w2 _ w3 row _ pt _ _ w4 _ _ _ w5 _
    proof -
      have w1: "locations w1 = locations w" "next_location w1 = next_location w" "revisions w1 = revisions w"
          "hours_table w1 = hours_table w" "security_table w1 = security_table w" "reviews w1 = reviews w"
          "next_review w1 = next_review w" "proposals w1 = proposals w" "now w1 = now w"
        using p(17) by simp_all
      have w21: "w2 = w1" using p(3,10,12) by simp
      have w4: "locations w4 = update_where (\<lambda>x. lr_id x = i \<and> lr_version x = ver \<and> lr_state x = lit ''ACTIVE'') (edited_row e t) (locations w)"
          "next_location w4 = next_location w" "revisions w4 = revisions w"
          "hours_table w4 = hours_table w" "security_table w4 = security_table w" "reviews w4 = reviews w"
          "next_review w4 = next_review w" "proposals w4 = proposals w" "now w4 = now w"
        using p(5,14,20,22) w21 w1 by simp_all
      have l: "location_of w i = Some l" "lr_state l = lit ''ACTIVE''" "lr_version l = ver"
        using p(2,9,11,18) w1 by (simp_all add: location_of_def moderation_state_code_def)
      have "select_one (\<lambda>l. lr_id l = i \<and> lr_version l = ver \<and> lr_state l = lit ''ACTIVE'') (locations w) = Some l"
        by (rule select_one_conj) (use l in \<open>simp_all add: location_of_def\<close>)
      then have row: "row = edited_row e t l" using p(4,19) w21 w1 by simp
      show ?thesis
        using w4 p(1,15,16) row write_hours_fields[OF p(6)] write_security_fields[OF p(7)] insert_revision_fields[OF p(8)]
        by (intro that[OF l]) (simp_all add: l)
    qed
    done
qed

section \<open>Moderating a location\<close>

lemma moderated_row_simps [simp]:
  "lr_id (moderated_row st t l) = lr_id l" "lr_version (moderated_row st t l) = lr_version l + 1"
  "lr_state (moderated_row st t l) = st"
  by (simp_all add: moderated_row_def)

lemma applied_row_simps [simp]:
  "lr_id (applied_row a t l) = lr_id l" "lr_version (applied_row a t l) = lr_version l + 1"
  by (simp_all add: applied_row_def split: proposal_application.split)

lemma snapshot_with_InrE:
  assumes "snapshot_with l w = (Inr snap, w')"
  obtains fs where "w' = w\<lparr>faults := fs\<rparr>"
  using assms unfolding snapshot_with_def by (elim bindM_InrE query_InrE retM_InrE) (auto intro: that)

lemma set_parking_state_effect:
  assumes "set_parking_state i froms st u w = (Inr x, w')"
  obtains l snap m where "location_of w i \<noteq> None" "select_one (\<lambda>l. lr_id l = i \<and> lr_state l \<in> moderation_state_code ` set froms) (locations w) = Some l"
    "locations w' = update_where (\<lambda>l. lr_id l = i \<and> lr_state l \<in> moderation_state_code ` set froms)
       (moderated_row (moderation_state_code st) (now w)) (locations w)"
    "next_location w' = next_location w"
    "revisions w' = revisions w @ [revision_of i (lr_version l + 1) u (lit ''moderation'') ''moderated'' snap m (now w)]"
    "hours_table w' = hours_table w" "security_table w' = security_table w"
    "reviews w' = reviews w" "next_review w' = next_review w" "proposals w' = proposals w"
proof -
  let ?Q = "\<lambda>l. lr_id l = i \<and> lr_state l \<in> moderation_state_code ` set froms"
  let ?f = "moderated_row (moderation_state_code st) (now w)"
  from assms show ?thesis
    unfolding set_parking_state_def
  proof (elim transaction_InrE bindM_InrE okOrM_InrE)
    fix fs v fs' upd w1 row w2 snap w3
    assume u: "sql moderation_of_db (\<lambda>w. Inr (update_location i (\<lambda>l. lr_state l \<in> set (map moderation_state_code froms))
          (moderated_row (moderation_state_code st) (now w)) w)) (w\<lparr>faults := fs\<rparr>) = (Inr upd, w1)"
      and e: "upd = Some row" "w2 = w1" "w' = v\<lparr>faults := fs'\<rparr>"
      and s: "snapshot_with row w2 = (Inr snap, w3)"
      and r: "insert_moderation_revision (lr_id row) (lr_version row) u ''moderated'' snap w3 = (Inr x, v)"
    from u obtain gs where g: "upd = map_option ?f (select_one ?Q (locations w))"
        "w1 = w\<lparr>faults := gs, locations := update_where ?Q ?f (locations w)\<rparr>"
      by (elim sql_InrE) (auto simp: update_location_def Let_def)
    then obtain l where l: "select_one ?Q (locations w) = Some l" "row = ?f l"
      using e(1) by (cases "select_one ?Q (locations w)") auto
    have i: "lr_id l = i" "location_of w i \<noteq> None"
      using select_one_SomeD[OF l(1)] by (auto simp: location_of_def select_one_None_iff)
    from s obtain hs where "w3 = w2\<lparr>faults := hs\<rparr>" by (rule snapshot_with_InrE)
    with g e have w3: "locations w3 = update_where ?Q ?f (locations w)" "next_location w3 = next_location w"
        "revisions w3 = revisions w" "hours_table w3 = hours_table w" "security_table w3 = security_table w"
        "reviews w3 = reviews w" "next_review w3 = next_review w" "proposals w3 = proposals w" "now w3 = now w"
      by simp_all
    show ?thesis
      using w3 e(3) insert_moderation_revision_fields[OF r] l i by (intro that[OF i(2) l(1)]) simp_all
  qed
qed

text \<open>What an approved proposal leaves: the status of every proposal, and one bumped location.\<close>

definition settled :: "int \<Rightarrow> int \<Rightarrow> int \<Rightarrow> int \<Rightarrow> proposal_row \<Rightarrow> proposal_row" where
  "settled loc i u t p =
     (if pr_id p = i then p\<lparr>pr_status := lit ''APPROVED'', pr_resolved_by := Some u, pr_resolved_at := Some t\<rparr>
      else if pr_location p = loc \<and> pr_status p = lit ''PENDING'' then p\<lparr>pr_status := lit ''SUPERSEDED''\<rparr> else p)"

lemma settled_map:
  "update_where (\<lambda>p. pr_location p = loc \<and> pr_status p = lit ''PENDING'' \<and> pr_id p \<noteq> i) (\<lambda>p. p\<lparr>pr_status := lit ''SUPERSEDED''\<rparr>)
     (update_where (\<lambda>p. pr_id p = i)
        (\<lambda>p. p\<lparr>pr_status := lit ''APPROVED'', pr_resolved_by := Some u, pr_resolved_at := Some t\<rparr>) ps)
   = map (settled loc i u t) ps"
  by (induction ps) (auto simp: settled_def)

text \<open>An approved proposal writes the location, one revision and the proposals, nothing else.\<close>

lemma approve_proposal_row_world:
  assumes "approve_proposal_row i u a w = (Inr x, w')"
  obtains p l snap fs where "proposal_of w i = Some p" "location_of w (pr_location p) = Some l"
    "pr_status p = lit ''PENDING''" "pr_base_version p = lr_version l"
    "w' = w\<lparr>faults := fs,
       locations := update_where (\<lambda>x. lr_id x = lr_id l \<and> lr_version x = lr_version l) (applied_row a (now w)) (locations w),
       revisions := revisions w @ [revision_of (lr_id l) (lr_version l + 1) u (lit ''moderation'') (application_summary a) snap
         (next_revision w) (now w)], next_revision := next_revision w + 1,
       proposals := map (settled (lr_id l) i u (now w)) (proposals w)\<rparr>"
proof -
  from assms show ?thesis
    unfolding approve_proposal_row_def
  proof (elim transaction_InrE bindM_InrE thenM_InrE okOrM_InrE requireM_InrE query_InrE)
    fix fs v fs' locked w0 l w1 found w2 p w3 x1 w4 x2 w5 upd w6 row w7 snap w8 x3 w9 x4 w10 gs hs
    assume q: "w0 = w\<lparr>faults := fs, faults := gs\<rparr>" "locked = Option.bind (proposal_of w0 i) (\<lambda>p. location_of w0 (pr_location p))"
        "locked = Some l" "w1 = w0" "w2 = w1\<lparr>faults := hs\<rparr>" "found = proposal_of w2 i" "found = Some p" "w3 = w2"
      and c: "pr_status p = proposal_status_code PPending" "w4 = w3" "pr_base_version p = lr_version l" "w5 = w4"
      and u: "sql moderation_of_db (\<lambda>w. Inr (update_location (lr_id l) (\<lambda>x. lr_version x = pr_base_version p) (applied_row a (now w)) w)) w5
          = (Inr upd, w6)" "upd = Some row" "w7 = w6"
      and s: "snapshot_with row w7 = (Inr snap, w8)"
      and r: "insert_moderation_revision (lr_id l) (lr_version row) u (application_summary a) snap w8 = (Inr x3, w9)"
      and se: "settle_proposal i u w9 = (Inr x4, w10)" "supersede_siblings (lr_id l) i w10 = (Inr x, v)"
      and e: "w' = v\<lparr>faults := fs'\<rparr>"
    have w5: "w5 = w\<lparr>faults := hs\<rparr>" using q c by simp
    have p: "proposal_of w i = Some p" using q by (simp add: proposal_of_def)
    have "locked = location_of w (pr_location p)" using q(1,2) p by (simp add: proposal_of_def location_of_def)
    with q(3) have l: "location_of w (pr_location p) = Some l" by simp
    have st: "pr_status p = lit ''PENDING''" using c(1) by (simp add: proposal_status_code_def)
    let ?P = "\<lambda>x. lr_id x = lr_id l \<and> lr_version x = lr_version l"
    from u(1) obtain ms where g: "upd = map_option (applied_row a (now w)) (select_one ?P (locations w))"
        "w6 = w\<lparr>faults := ms, locations := update_where ?P (applied_row a (now w)) (locations w)\<rparr>"
      by (elim sql_InrE) (auto simp: update_location_def Let_def w5 c(3))
    have row: "lr_version row = lr_version l + 1" using g(1) u(2)
      by (cases "select_one ?P (locations w)") (auto dest!: select_one_SomeD)
    from s obtain js where w8: "w8 = w7\<lparr>faults := js\<rparr>" by (rule snapshot_with_InrE)
    from r obtain ns where w9: "w9 = w8\<lparr>faults := ns,
        revisions := revisions w8 @ [revision_of (lr_id l) (lr_version row) u (lit ''moderation'') (application_summary a) snap
          (next_revision w8) (now w8)], next_revision := next_revision w8 + 1\<rparr>"
      by (rule insert_moderation_revision_InrE)
    obtain ks where v: "v = w9\<lparr>faults := ks, proposals := map (settled (lr_id l) i u (now w9)) (proposals w9)\<rparr>"
      using se unfolding settle_proposal_def supersede_siblings_def
      by (elim sql_InrE command_InrE) (auto simp: settled_map)
    show ?thesis
      by (rule that[OF p l st c(3), where fs = fs' and snap = snap]) (simp add: e v w9 w8 u(3) g(2) row)
  qed
qed

lemma approve_proposal_row_effect:
  assumes "approve_proposal_row i u a w = (Inr x, w')"
  obtains p l snap m where "proposal_of w i = Some p" "location_of w (pr_location p) = Some l"
    "pr_status p = lit ''PENDING''" "pr_base_version p = lr_version l"
    "locations w' = update_where (\<lambda>x. lr_id x = lr_id l \<and> lr_version x = lr_version l) (applied_row a (now w)) (locations w)"
    "next_location w' = next_location w"
    "revisions w' = revisions w @ [revision_of (lr_id l) (lr_version l + 1) u (lit ''moderation'') (application_summary a) snap m (now w)]"
    "proposals w' = map (settled (lr_id l) i u (now w)) (proposals w)"
    "hours_table w' = hours_table w" "security_table w' = security_table w"
    "reviews w' = reviews w" "next_review w' = next_review w"
proof (rule approve_proposal_row_world[OF assms])
  fix p l snap fs
  assume e: "proposal_of w i = Some p" "location_of w (pr_location p) = Some l"
    "pr_status p = lit ''PENDING''" "pr_base_version p = lr_version l"
    "w' = w\<lparr>faults := fs,
       locations := update_where (\<lambda>x. lr_id x = lr_id l \<and> lr_version x = lr_version l) (applied_row a (now w)) (locations w),
       revisions := revisions w @ [revision_of (lr_id l) (lr_version l + 1) u (lit ''moderation'') (application_summary a) snap
         (next_revision w) (now w)], next_revision := next_revision w + 1,
       proposals := map (settled (lr_id l) i u (now w)) (proposals w)\<rparr>"
  show thesis by (rule that[OF e(1-4), where snap = snap and m = "next_revision w"]) (simp_all add: e(5))
qed

section \<open>Reviews and verification\<close>

lemma upsert_review_effect:
  assumes "upsert_review i u x b w = (Inr upd, w')"
  obtains rs where "reviews w' = rs" "upd \<or> location_exists w i" "1 \<le> unat x \<and> unat x \<le> 5"
    "upd \<longleftrightarrow> select_one (has_review i u) (reviews w) \<noteq> None"
    "rs = (if upd then update_where (has_review i u)
               (\<lambda>r. r\<lparr>re_rating := star_rating_as_i16 x, re_body := b, re_updated_at := now w\<rparr>) (reviews w)
           else reviews w @ [\<lparr>re_id = next_review w, re_location = i, re_author = Some u,
               re_rating = star_rating_as_i16 x, re_body = b, re_state = lit ''ACTIVE'',
               re_created_at = now w, re_updated_at = now w\<rparr>])"
    "next_review w' = next_review w + 1"
    "locations w' = update_where (\<lambda>l. lr_id l = i)
       (\<lambda>l. l\<lparr>lr_rating_avg := fst (aggregate rs i), lr_rating_count := snd (aggregate rs i)\<rparr>) (locations w)"
    "next_location w' = next_location w" "revisions w' = revisions w" "hours_table w' = hours_table w"
    "security_table w' = security_table w" "proposals w' = proposals w"
proof -
  from assms show ?thesis
    unfolding upsert_review_def
  proof (elim transaction_InrE bindM_InrE)
    fix fs v fs' r w1
    assume ups: "upsert_review_row i u x b (w\<lparr>faults := fs\<rparr>) = (Inr r, w1)" and e: "w' = v\<lparr>faults := fs'\<rparr>"
      and rest: "(case r of (review, was_update) \<Rightarrow> thenM (insert_review_revision review x b)
          (thenM (recompute_rating i) (retM was_update))) w1 = (Inr upd, v)"
    let ?new = "\<lparr>re_id = next_review w, re_location = i, re_author = Some u, re_rating = star_rating_as_i16 x, re_body = b,
        re_state = lit ''ACTIVE'', re_created_at = now w, re_updated_at = now w\<rparr>"
    let ?upd = "update_where (has_review i u)
        (\<lambda>r. r\<lparr>re_rating := star_rating_as_i16 x, re_body := b, re_updated_at := now w\<rparr>) (reviews w)"
    let ?rs = "if snd r then ?upd else reviews w @ [?new]"
    from ups have w1: "reviews w1 = ?rs" "next_review w1 = next_review w + 1" "locations w1 = locations w"
        "next_location w1 = next_location w" "revisions w1 = revisions w" "hours_table w1 = hours_table w"
        "security_table w1 = security_table w" "proposals w1 = proposals w" "1 \<le> unat x \<and> unat x \<le> 5"
        "snd r \<longleftrightarrow> select_one (has_review i u) (reviews w) \<noteq> None" "snd r \<or> location_exists w i"
      unfolding upsert_review_row_def by (elim sql_InrE, auto simp: location_exists_def split: option.splits)+
    from rest have "upd = snd r" "reviews v = reviews w1" "next_review v = next_review w1" "next_location v = next_location w1"
        "revisions v = revisions w1" "hours_table v = hours_table w1" "security_table v = security_table w1"
        "proposals v = proposals w1" "locations v = update_where (\<lambda>l. lr_id l = i)
          (\<lambda>l. l\<lparr>lr_rating_avg := fst (aggregate (reviews w1) i), lr_rating_count := snd (aggregate (reviews w1) i)\<rparr>) (locations w1)"
      unfolding insert_review_revision_def recompute_rating_def
      by (cases r, auto elim!: thenM_InrE sql_InrE command_InrE retM_InrE)+
    with w1 e show ?thesis by (intro that[of ?rs]) simp_all
  qed
qed

end
