(* ===== verification/Content_Versions.thy ===== *)
theory Content_Versions
  imports Content_Effects
begin

text \<open>
  Versions: every write of a location raises its version by one and appends the revision of
  that version in the same transaction.  The locale \<open>versioned\<close> asks what an invariant of
  locations and revisions needs of these writes; its instances are the completeness of the
  log and a lower bound on a version, from which optimistic editing follows.
\<close>

section \<open>Writes that happen entirely or not at all\<close>

definition atomicM :: "('w world_scheme, 'e, 'a) m \<Rightarrow> bool" where
  "atomicM m \<longleftrightarrow> (\<forall>w e w'. m w = (Inl e, w') \<longrightarrow> (\<exists>v. w' = w \<or> w' = rollback w v))"

lemma atomic_transaction: "atomicM (transaction conv body)"
  by (auto simp: atomicM_def dest: transaction_Inl)

lemma atomic_create: "atomicM (create_location new u t)"
  unfolding create_location_def atomicM_def
  by (auto simp: okOrM_def throwM_exec split: option.splits dest: transaction_Inl)

lemma keeps_atomic:
  assumes "table_inv I" "atomicM m" "\<And>w a w'. I w \<Longrightarrow> m w = (Inr a, w') \<Longrightarrow> I w'"
  shows "keeps I m"
proof (rule keepsI)
  fix w assume w: "I w"
  obtain r w' where r: "m w = (r, w')" by fastforce
  show "I (snd (m w))"
  proof (cases r)
    case (Inl e)
    with assms(2) r obtain v where "w' = w \<or> w' = rollback w v" unfolding atomicM_def by blast
    with r w show ?thesis by (auto simp: table_inv_rollback[OF assms(1)])
  qed (use r w assms(3) in simp)
qed

section \<open>Invariants of versions\<close>

locale versioned =
  fixes J :: "location_row list \<Rightarrow> int \<Rightarrow> revision_row list \<Rightarrow> bool"
  assumes added: "J ls n rs \<Longrightarrow> lr_id l = n \<Longrightarrow> lr_version l = 1 \<Longrightarrow> rv_location r = n \<Longrightarrow> rv_version r = 1
      \<Longrightarrow> J (ls @ [l]) (n + 1) (rs @ [r])"
    and bumped: "J ls n rs \<Longrightarrow> select_one P ls = Some l \<Longrightarrow> (\<And>x. P x \<Longrightarrow> lr_id x = lr_id l)
      \<Longrightarrow> (\<And>x. lr_id (f x) = lr_id x \<and> lr_version (f x) = lr_version x + 1)
      \<Longrightarrow> rv_location r = lr_id l \<Longrightarrow> rv_version r = lr_version l + 1
      \<Longrightarrow> J (update_where P f ls) n (rs @ [r])"
    and rewritten: "J ls n rs \<Longrightarrow> (\<And>x. lr_id (f x) = lr_id x \<and> lr_version (f x) = lr_version x)
      \<Longrightarrow> J (update_where P f ls) n rs"

lemma new_row_simps [simp]:
  "lr_id (new_row new tz u t i) = i" "lr_version (new_row new tz u t i) = 1"
  "lr_state (new_row new tz u t i) = lit ''ACTIVE''"
  "lr_rating_avg (new_row new tz u t i) = None" "lr_rating_count (new_row new tz u t i) = 0"
  by (simp_all add: new_row_def split: prod.split)

lemma revision_of_simps [simp]:
  "rv_location (revision_of i ver u k s snap n t) = i" "rv_version (revision_of i ver u k s snap n t) = ver"
  by (simp_all add: revision_of_def)

sublocale versioned \<subseteq> ver: location_invariant V "\<lambda>w. J (locations w) (next_location w) (revisions w)"
  "\<lambda>_. True" "\<lambda>_. True" True for V
proof unfold_locales
  let ?I = "\<lambda>w. J (locations w) (next_location w) (revisions w)"
  have t: "table_inv ?I" by (simp add: table_inv_def)
  fix new u t' e i ver x b st1 st2 froms st kind change over a
  show "keeps ?I (create_location new u t')"
    by (rule keeps_atomic[OF t atomic_create]) (elim create_location_effect, simp add: added)
  show "keeps ?I (apply_edit (en_geo V) i ver e u t')"
    unfolding apply_edit_def
  proof (rule keeps_atomic[OF t atomic_transaction], fold apply_edit_def)
    fix w n w' assume J: "?I w" and run: "apply_edit (en_geo V) i ver e u t' w = (Inr n, w')"
    from run show "?I w'"
    proof (rule apply_edit_effect)
      fix l snap m
      let ?P = "\<lambda>x. lr_id x = i \<and> lr_version x = ver \<and> lr_state x = lit ''ACTIVE''"
      assume l: "location_of w i = Some l" "lr_state l = lit ''ACTIVE''" "lr_version l = ver"
        and f: "n = ver + 1" "locations w' = update_where ?P (edited_row e t') (locations w)" "next_location w' = next_location w"
          "revisions w' = revisions w @ [revision_of i n u (change_kind_code CKEdit) ''edited'' snap m (now w)]"
      have "select_one ?P (locations w) = Some l" "lr_id l = i"
        using l location_of_Some[OF l(1)] by (auto intro!: select_one_conj simp: location_of_def)
      with f l J show ?thesis by (auto intro!: bumped)
    qed
  qed
  show "keeps ?I (mark_verified_at i t')"
    unfolding mark_verified_at_def by (rule keeps_command[OF t]) (simp add: rewritten)
  show "keeps ?I (upsert_review i u x b)"
    unfolding upsert_review_def
    by (rule keeps_atomic[OF t atomic_transaction], fold upsert_review_def)
      (elim upsert_review_effect, simp add: rewritten)
  show "keeps ?I (flip_review i st1 st2)"
    unfolding flip_review_def by (intro pres keeps_sql[OF t]) (auto simp: Let_def)
  show "keeps ?I (set_parking_state i froms st u)"
    unfolding set_parking_state_def
  proof (rule keeps_atomic[OF t atomic_transaction], fold set_parking_state_def)
    fix w r w' assume J: "?I w" and run: "set_parking_state i froms st u w = (Inr r, w')"
    from run J show "?I w'"
      by (elim set_parking_state_effect) (auto intro!: bumped dest: select_one_SomeD)
  qed
  show "keeps ?I (approve_proposal_row i u a)"
    unfolding approve_proposal_row_def
  proof (rule keeps_atomic[OF t atomic_transaction], fold approve_proposal_row_def)
    fix w r w' assume J: "?I w" and run: "approve_proposal_row i u a w = (Inr r, w')"
    from run show "?I w'"
    proof (rule approve_proposal_row_effect)
      fix p l snap m
      assume l: "location_of w (pr_location p) = Some l" and f:
        "locations w' = update_where (\<lambda>x. lr_id x = lr_id l \<and> lr_version x = lr_version l) (applied_row a (now w)) (locations w)"
        "next_location w' = next_location w"
        "revisions w' = revisions w @ [revision_of (lr_id l) (lr_version l + 1) u (lit ''moderation'') (application_summary a) snap m (now w)]"
      have "select_one (\<lambda>x. lr_id x = lr_id l \<and> lr_version x = lr_version l) (locations w) = Some l"
        using l location_of_Some[OF l] by (auto intro!: select_one_conj simp: location_of_def)
      with f J show ?thesis by (auto intro!: bumped)
    qed
  qed
qed (simp_all add: location_part_def)

section \<open>The revision log is complete\<close>

definition versions_of :: "revision_row list \<Rightarrow> int \<Rightarrow> int set" where
  "versions_of rs i = rv_version ` {r \<in> set rs. rv_location r = i}"

definition revision_key :: "revision_row \<Rightarrow> int \<times> int" where
  "revision_key r = (rv_location r, rv_version r)"

definition log_complete :: "location_row list \<Rightarrow> int \<Rightarrow> revision_row list \<Rightarrow> bool" where
  "log_complete ls n rs \<longleftrightarrow>
     distinct (map lr_id ls) \<and> (\<forall>l \<in> set ls. lr_id l < n \<and> 1 \<le> lr_version l)
     \<and> (\<forall>r \<in> set rs. rv_location r < n) \<and> distinct (map revision_key rs)
     \<and> (\<forall>l \<in> set ls. versions_of rs (lr_id l) = {1..lr_version l})"

lemma versions_of_append:
  "versions_of (rs @ [r]) i = (if rv_location r = i then insert (rv_version r) (versions_of rs i) else versions_of rs i)"
  by (auto simp: versions_of_def)

lemma revision_key_fresh: "rv_version r \<notin> versions_of rs (rv_location r) \<Longrightarrow> revision_key r \<notin> revision_key ` set rs"
  by (auto simp: revision_key_def versions_of_def)

interpretation revision_log: versioned log_complete
proof
  fix ls n rs and l :: location_row and r :: revision_row
  assume J: "log_complete ls n rs" and new: "lr_id l = n" "lr_version l = 1" "rv_location r = n" "rv_version r = 1"
  from J have none: "versions_of rs n = {}" "n \<notin> lr_id ` set ls" "\<forall>x \<in> set ls. n \<noteq> lr_id x"
    by (auto simp: log_complete_def versions_of_def)
  have key: "revision_key r \<notin> revision_key ` set rs" using new none by (intro revision_key_fresh) simp
  have vs: "versions_of (rs @ [r]) (lr_id x) = {1..lr_version x}" if "x \<in> set (ls @ [l])" for x
  proof (cases "x = l")
    case True
    then show ?thesis using new none(1) by (simp add: versions_of_append)
  next
    case False
    with that J none(3) show ?thesis unfolding versions_of_append log_complete_def by (simp add: new)
  qed
  show "log_complete (ls @ [l]) (n + 1) (rs @ [r])"
    unfolding log_complete_def
  proof (intro conjI ballI vs)
    show "distinct (map lr_id (ls @ [l]))" using J none(2) new(1) by (simp add: log_complete_def)
    show "distinct (map revision_key (rs @ [r]))" using J key by (simp add: log_complete_def)
    show "rv_location x < n + 1" if "x \<in> set (rs @ [r])" for x
      using that J new(3) by (fastforce simp: log_complete_def)
    show "lr_id x < n + 1" "1 \<le> lr_version x" if "x \<in> set (ls @ [l])" for x
      using that J new(1,2) by (fastforce simp: log_complete_def)+
  qed
next
  fix ls n rs P and f :: "location_row \<Rightarrow> location_row" and l :: location_row and r :: revision_row
  assume J: "log_complete ls n rs" and sel: "select_one P ls = Some l" and P: "\<And>x. P x \<Longrightarrow> lr_id x = lr_id l"
    and f: "\<And>x. lr_id (f x) = lr_id x \<and> lr_version (f x) = lr_version x + 1"
    and r: "rv_location r = lr_id l" "rv_version r = lr_version l + 1"
  from select_one_SomeD[OF sel] have l: "l \<in> set ls" "P l" by auto
  have inj: "inj_on lr_id (set ls)" using J by (simp add: log_complete_def distinct_map)
  have same: "P x \<longleftrightarrow> x = l" "lr_id x = lr_id l \<longleftrightarrow> x = l" if "x \<in> set ls" for x
    using inj_onD[OF inj, of x l] that l P[of x] by auto
  have vs: "versions_of rs (lr_id l) = {1..lr_version l}" "1 \<le> lr_version l" using J l by (auto simp: log_complete_def)
  then have key: "revision_key r \<notin> revision_key ` set rs" using r by (intro revision_key_fresh) auto
  have grown: "versions_of (rs @ [r]) (lr_id x) = {1..lr_version (if P x then f x else x)}" if x: "x \<in> set ls" for x
  proof (cases "x = l")
    case True
    have "insert (lr_version l + 1) {1..lr_version l} = {1..lr_version l + 1}" using vs(2) by auto
    with True vs(1) r l f show ?thesis by (simp add: versions_of_append)
  next
    case False
    with x same[OF x] J r show ?thesis unfolding versions_of_append log_complete_def by simp
  qed
  have ids: "map lr_id (update_where P f ls) = map lr_id ls" using f by (simp add: map_update_where)
  show "log_complete (update_where P f ls) n (rs @ [r])"
    unfolding log_complete_def ball_update_where ids
  proof (intro conjI ballI)
    show "distinct (map lr_id ls)" using J by (simp add: log_complete_def)
    show "distinct (map revision_key (rs @ [r]))" using J key by (simp add: log_complete_def)
    show "rv_location x < n" if "x \<in> set (rs @ [r])" for x
      using that J r(1) l(1) by (auto simp: log_complete_def)
    fix x assume x: "x \<in> set ls"
    with J f[of x] show "lr_id (if P x then f x else x) < n" "1 \<le> lr_version (if P x then f x else x)"
      by (auto simp: log_complete_def)
    show "versions_of (rs @ [r]) (lr_id (if P x then f x else x)) = {1..lr_version (if P x then f x else x)}"
      using grown[OF x] f[of x] by simp
  qed
next
  fix ls n rs P and f :: "location_row \<Rightarrow> location_row"
  assume "log_complete ls n rs" "\<And>x. lr_id (f x) = lr_id x \<and> lr_version (f x) = lr_version x"
  then show "log_complete (update_where P f ls) n rs"
    unfolding log_complete_def ball_update_where by (auto simp: map_update_where)
qed

section \<open>Versions only grow\<close>

definition version_floor :: "int \<Rightarrow> int \<Rightarrow> location_row list \<Rightarrow> int \<Rightarrow> revision_row list \<Rightarrow> bool" where
  "version_floor i k ls n rs \<longleftrightarrow> i < n \<and> (\<forall>l \<in> set ls. lr_id l = i \<longrightarrow> k \<le> lr_version l)"

interpretation floor: versioned "version_floor i k" for i k
proof (unfold_locales, goal_cases)
  case (2 ls n rs P l f r)
  then show ?case
    unfolding version_floor_def ball_update_where by (smt (verit))
qed (auto simp: version_floor_def ball_update_where)

text \<open>An edit or an approval returns only at the version it names.\<close>

lemma edit_runs:
  fixes w w' :: "'w content_world_scheme"
  assumes "apply_parking_edit G u i ver e w = (Inr n, w')"
  obtains v v' :: "'w content_world_scheme" where "content_tables v = content_tables w" "apply_edit G i ver e (au_id u) (now v) v = (Inr n, v')"
    "content_tables w' = content_tables v'"
  using assms unfolding apply_parking_edit_def
  apply (elim thenM_InrE bindM_InrE getM_InrE retM_InrE)
  subgoal premises p for _ w1 _ w2 _ w3 _ v t _ _ v'
  proof -
    have "content_tables v = content_tables w"
      using p(10) stillD[OF still.keeps_gates(1) p(2)] stillD[OF still.keeps_rates(1) p(3)]
        stillD[OF still.keeps_gates(3) p(4)] stillD[OF still.keeps_gates(2) p(5)] by simp
    moreover have "content_tables w' = content_tables v'"
      using stillD[OF still.keeps_audits(1) p(7)] p(11) by simp
    ultimately show ?thesis using p by (intro that[of v v']) simp_all
  qed
  done

end
