(* ===== verification/Content_Guarantees.thy ===== *)
theory Content_Guarantees
  imports Content_Versions
begin

text \<open>
  Guarantees about the directory's entries, along every run of the whole service and under
  every schedule of faults: the revision log has no gap, an edit made against an old version
  is refused for good, an approved proposal applies the merged change to the version it was
  written for, and a location's rating is the average of its active reviews as long as no
  review is hidden.
\<close>

section \<open>Versions\<close>

definition log_ok :: "'w content_world_scheme \<Rightarrow> bool" where
  "log_ok w \<longleftrightarrow> log_complete (locations w) (next_location w) (revisions w)"

lemma log_ok_run: "log_ok w \<Longrightarrow> log_ok (content_run V acts w)"
  unfolding log_ok_def by (rule revision_log.ver.keeps_content_run) (simp_all add: list_all_iff)

lemma log_ok_act: "log_ok w \<Longrightarrow> log_ok (snd (content_act V a w))"
  using log_ok_run[of w V "[a]"] by simp

text \<open>C27: the revision log is complete along every run: a location of version \<open>n\<close> has
  exactly the revisions \<open>1\<close> to \<open>n\<close>, each once, whatever fails in between.\<close>

theorem revision_log_complete:
  assumes "log_ok w" shows "log_ok (content_run V acts w)"
  using assms by (rule log_ok_run)

lemma floor_run:
  "version_floor i k (locations w) (next_location w) (revisions w) \<Longrightarrow> l \<in> set (locations (content_run V acts w)) \<Longrightarrow>
    lr_id l = i \<Longrightarrow> k \<le> lr_version l"
  using floor.ver.keeps_content_run[of acts i k w V] by (simp add: list_all_iff version_floor_def)

lemma logged_floor:
  assumes "log_complete ls n rs" "r \<in> set rs" "rv_location r = i" "rv_version r = k"
  shows "version_floor i k ls n rs"
proof -
  have "k \<in> versions_of rs i" using assms(2-4) by (auto simp: versions_of_def)
  with assms show ?thesis by (auto simp: version_floor_def log_complete_def)
qed

lemma edit_floor:
  fixes V :: "'img content_env" and w w' :: "'w content_world_scheme"
  assumes "log_ok w" and run: "apply_parking_edit (en_geo V) u i ver e w = (Inr n, w')"
  shows "n = ver + 1" "version_floor i n (locations w') (next_location w') (revisions w')"
    "\<exists>l \<in> set (locations w). lr_id l = i \<and> lr_version l = ver"
proof -
  from run obtain v v' :: "'w content_world_scheme" where v: "content_tables v = content_tables w"
      "apply_edit (en_geo V) i ver e (au_id u) (now v) v = (Inr n, v')" "content_tables w' = content_tables v'"
    by (rule edit_runs)
  from v(2) obtain l r where "location_of v i = Some l" "lr_version l = ver" "n = ver + 1"
      and r: "r \<in> set (revisions v')" "rv_location r = i" "rv_version r = n"
    by (rule apply_edit_effect) fastforce
  moreover have t: "locations v = locations w" "revisions w' = revisions v'"
    using v(1,3) by (simp_all add: content_tables_def location_part_def)
  ultimately show "n = ver + 1" "\<exists>l \<in> set (locations w). lr_id l = i \<and> lr_version l = ver"
    by (auto dest!: location_of_Some)
  have "log_ok w'" using log_ok_act[OF assms(1), of V "Community (EditParking u i ver e)"] run by (simp add: exec)
  then show "version_floor i n (locations w') (next_location w') (revisions w')"
    using logged_floor[of _ _ "revisions w'" r i n] r t by (simp add: log_ok_def)
qed

text \<open>C26: no update is lost: once an edit of a location returned, no edit that was made
  against the version it replaced, or an older one, is ever accepted again, whatever
  happens in between.\<close>

theorem stale_edit_refused:
  assumes "log_ok w" and "apply_parking_edit (en_geo V) u i ver e w = (Inr n, w')" and "old \<le> ver"
  shows "fst (apply_parking_edit (en_geo V) u2 i old e2 (content_run V acts w')) \<noteq> Inr m"
proof
  let ?w = "content_run V acts w'"
  assume "fst (apply_parking_edit (en_geo V) u2 i old e2 ?w) = Inr m"
  then obtain v where run: "apply_parking_edit (en_geo V) u2 i old e2 ?w = (Inr m, v)" by (metis prod.collapse)
  have "log_ok w'" using log_ok_act[OF assms(1), of V "Community (EditParking u i ver e)"] assms(2) by (simp add: exec)
  then have "log_ok ?w" by (rule log_ok_run)
  from edit_floor(3)[OF this run] obtain l where l: "l \<in> set (locations ?w)" "lr_id l = i" "lr_version l = old" by blast
  have "n \<le> lr_version l" using floor_run[OF edit_floor(2)[OF assms(1,2)] l(1,2)] .
  with l(3) assms(3) edit_floor(1)[OF assms(1,2)] show False by simp
qed

section \<open>Proposals\<close>

lemma find_join:
  fixes g :: "'a \<Rightarrow> 'b list"
  shows "List.find P ps = Some p \<Longrightarrow> g p = l # ls \<Longrightarrow>
    List.find (\<lambda>(p, l). P p) (concat (map (\<lambda>p. map (\<lambda>l. (p, l)) (g p)) ps)) = Some (p, l)"
proof (induction ps)
  case (Cons q ps)
  have skip: "List.find (\<lambda>(p, l). P p) (map (\<lambda>l. (q, l)) xs @ ys) = List.find (\<lambda>(p, l). P p) ys" if "\<not> P q" for xs :: "'b list" and ys
    using that by (induction xs) simp_all
  show ?case using Cons skip by (cases "P q") simp_all
qed simp

lemma filter_find: "List.find P xs = Some x \<Longrightarrow> \<exists>ys. filter P xs = x # ys"
  by (induction xs) (auto split: if_splits)

lemma joined_proposal:
  assumes "proposal_of w i = Some p" "location_of w (pr_location p) = Some l"
  shows "select_one (\<lambda>(p, l). pr_id p = i) (joined_proposals w) = Some (p, l)"
  using assms filter_find[of "\<lambda>l. lr_id l = pr_location p" "locations w" l]
  unfolding joined_proposals_def select_one_def proposal_of_def location_of_def
  by (auto intro!: find_join)

lemma find_proposal_InrE:
  assumes "find_proposal i w = (Inr (Some q), w')"
  obtains fs p l where "w' = w\<lparr>faults := fs\<rparr>" "select_one (\<lambda>(p, l). pr_id p = i) (joined_proposals w) = Some (p, l)"
    "proposal_kind_from (pr_kind p) = Inr (po_kind q)"
    "po_change q = pp_change (payload_from_json (po_kind q) (pr_proposed p))"
proof -
  from assms[unfolded find_proposal_def] obtain row w1 where
    q: "query moderation_of_db (\<lambda>w. select_one (\<lambda>(p, l). pr_id p = i) (joined_proposals w)) w = (Inr row, w1)" and
    r: "(case row of None \<Rightarrow> retM None | Some r \<Rightarrow> bindM (map_proposal r) (\<lambda>p. retM (Some p))) w1 = (Inr (Some q), w')"
    by (rule bindM_InrE)
  from r obtain p l where row: "row = Some (p, l)" by (cases row) (auto simp: retM_exec)
  from r[unfolded row option.case] have "map_proposal (p, l) w1 = (Inr q, w')"
    by (elim bindM_InrE retM_InrE) simp
  then have "proposal_kind_from (pr_kind p) = Inr (po_kind q)" "w' = w1"
      "po_change q = pp_change (payload_from_json (po_kind q) (pr_proposed p))"
    unfolding map_proposal_def prod.case Let_def
    by (auto elim!: bindM_InrE mapErrM_InrE liftR_InrE retM_InrE)
  moreover from q obtain fs where "w1 = w\<lparr>faults := fs\<rparr>" "row = select_one (\<lambda>(p, l). pr_id p = i) (joined_proposals w1)"
    by (rule query_InrE)
  ultimately show ?thesis using row by (intro that[of fs p l]) (simp_all add: joined_proposals_def)
qed

text \<open>What a moderator's decision makes of a location row: each coordinate and the time zone is
  the moderator's where given and else the proposer's, in range and known; or the location is
  declared to exist or not.  All other columns stay, one version up.\<close>

definition decided ::
  "geo_externals \<Rightarrow> proposal_kind \<Rightarrow> proposed_change \<Rightarrow> proposal_override \<Rightarrow> int \<Rightarrow> location_row \<Rightarrow> location_row \<Rightarrow> bool" where
  "decided G k change ov t y y' \<longleftrightarrow>
     (case k of
        MoveLocationKind \<Rightarrow>
          (\<exists>lat lon tz.
             (ov_lat ov = Some lat \<or> ov_lat ov = None \<and> (\<exists>b z. change = MoveLocation lat b z))
           \<and> (ov_lon ov = Some lon \<or> ov_lon ov = None \<and> (\<exists>a z. change = MoveLocation a lon z))
           \<and> (ov_timezone ov = Some tz \<or> ov_timezone ov = None \<and> (\<exists>a b. change = MoveLocation a b (Some tz)))
           \<and> f64_finite lat \<and> f64_within (- 90) 90 lat \<and> f64_finite lon \<and> f64_within (- 180) 180 lon
           \<and> trim tz \<noteq> [] \<and> gx_tz_known G (trim tz)
           \<and> y' = y\<lparr>lr_lat := lat, lr_lon := lon, lr_timezone := trim tz, lr_version := lr_version y + 1, lr_updated_at := t\<rparr>)
      | ChangeExistenceKind \<Rightarrow>
          (\<exists>b. (ov_exists ov = Some b \<or> ov_exists ov = None \<and> change = ChangeExistence b)
           \<and> y' = y\<lparr>lr_state := (if b then lit ''ACTIVE'' else lit ''REMOVED''), lr_version := lr_version y + 1,
                lr_updated_at := t\<rparr>))"

lemma merged_move_Inr:
  assumes "merged_move G lat lon tz = Inr a"
  obtains la lo z where "lat = Some la" "lon = Some lo" "tz = Some z" "a = ApplyMove la lo (trim z)" "trim z \<noteq> []"
    "gx_tz_known G (trim z)" "f64_finite la" "f64_within (- 90) 90 la" "f64_finite lo" "f64_within (- 180) 180 lo"
  using assms by (auto simp: merged_move_def trimmed_nonempty_def split: option.splits if_splits)

lemma or_else_None: "or_else a None = a"
  by (cases a) (simp_all add: or_else_def)

lemma or_else_Some: "or_else a b = Some x \<Longrightarrow> a = Some x \<or> a = None \<and> b = Some x"
  by (cases a) (simp_all add: or_else_def)

lemma merged_decided:
  assumes "merge_proposal G k change ov = Inr a"
  shows "decided G k change ov t y (applied_row a t y) \<and> application_kind a = k"
proof (cases k)
  case ChangeExistenceKind
  have b: "\<exists>b. a = ApplyExistence b \<and> (ov_exists ov = Some b \<or> ov_exists ov = None \<and> change = ChangeExistence b)"
    using assms unfolding ChangeExistenceKind merge_proposal_def
    by (cases change; cases "ov_exists ov") simp_all
  then show ?thesis
  proof (elim exE conjE)
    fix b assume b: "a = ApplyExistence b" "ov_exists ov = Some b \<or> ov_exists ov = None \<and> change = ChangeExistence b"
    show ?thesis
      unfolding decided_def ChangeExistenceKind proposal_kind.case
      by (intro conjI exI[of _ b] b(2)) (simp_all add: b(1) applied_row_def application_kind_def)
  qed
next
  case MoveLocationKind
  obtain lat lon tz where m: "merged_move G (or_else (ov_lat ov) lat) (or_else (ov_lon ov) lon) (or_else (ov_timezone ov) tz) = Inr a"
    and c: "\<And>x. lat = Some x \<Longrightarrow> \<exists>b z. change = MoveLocation x b z" "\<And>x. lon = Some x \<Longrightarrow> \<exists>a z. change = MoveLocation a x z"
      "\<And>x. tz = Some x \<Longrightarrow> \<exists>a b. change = MoveLocation a b (Some x)"
  proof (cases change)
    case (MoveLocation a b z)
    with assms MoveLocationKind that[of "Some a" "Some b" z] show thesis by (simp add: merge_proposal_def)
  next
    case (ChangeExistence b)
    with assms MoveLocationKind that[of None None None] show thesis by (simp add: merge_proposal_def or_else_None)
  next
    case UnknownChange
    with assms MoveLocationKind that[of None None None] show thesis by (simp add: merge_proposal_def or_else_None)
  qed
  from m show ?thesis
  proof (rule merged_move_Inr)
    fix la lo z
    assume h: "or_else (ov_lat ov) lat = Some la" "or_else (ov_lon ov) lon = Some lo" "or_else (ov_timezone ov) tz = Some z"
      and a: "a = ApplyMove la lo (trim z)" and ok: "trim z \<noteq> []" "gx_tz_known G (trim z)" "f64_finite la"
        "f64_within (- 90) 90 la" "f64_finite lo" "f64_within (- 180) 180 lo"
    have "ov_lat ov = Some la \<or> ov_lat ov = None \<and> (\<exists>b z. change = MoveLocation la b z)"
      "ov_lon ov = Some lo \<or> ov_lon ov = None \<and> (\<exists>a z. change = MoveLocation a lo z)"
      "ov_timezone ov = Some z \<or> ov_timezone ov = None \<and> (\<exists>a b. change = MoveLocation a b (Some z))"
      using or_else_Some[OF h(1)] or_else_Some[OF h(2)] or_else_Some[OF h(3)] c by blast+
    then show ?thesis
      unfolding decided_def MoveLocationKind proposal_kind.case
      using ok by (intro conjI exI[of _ la] exI[of _ lo] exI[of _ z]) (simp_all add: a applied_row_def application_kind_def)
  qed
qed

lemma update_where_pairs: "list_all2 (\<lambda>y y'. y' = (if P y then f y else y)) t (update_where P f t)"
  by (induction t) simp_all

text \<open>C31: an approval that returned was made by a moderator, on a pending proposal written
  for the location's current version, and changed exactly this: the location's row became what
  the proposal and the moderator's overrides decide, one version up; one revision of that
  version and one audit event were added; the proposal is approved and every other pending
  proposal of the location superseded.  No other table, row or column is touched.\<close>

theorem proposal_applied:
  assumes "approve_proposal G mo i ov w = (Inr x, w')"
  shows "\<exists>p l k locs rev ev fs.
      proposal_of w i = Some p \<and> location_of w (pr_location p) = Some l \<and> may_moderate mo
    \<and> pr_status p = lit ''PENDING'' \<and> pr_base_version p = lr_version l
    \<and> proposal_kind_from (pr_kind p) = Inr k
    \<and> list_all2 (\<lambda>y y'. if lr_id y = lr_id l \<and> lr_version y = lr_version l
          then decided G k (pp_change (payload_from_json k (pr_proposed p))) ov (now w) y y' else y' = y) (locations w) locs
    \<and> rv_location rev = lr_id l \<and> rv_version rev = lr_version l + 1 \<and> rv_editor rev = Some (au_id mo)
    \<and> rv_kind rev = lit ''moderation'' \<and> rv_created_at rev = now w
    \<and> ar_event ev = service_event (au_id mo) ''proposal.approved'' ''parking_proposal'' i
        [(lit ''kind'', JString (proposal_kind_code k))]
    \<and> w' = w\<lparr>faults := fs, locations := locs, proposals := map (settled (lr_id l) i (au_id mo) (now w)) (proposals w),
        revisions := revisions w @ [rev], next_revision := next_revision w + 1,
        audit_events := audit_events w @ [ev], next_audit := next_audit w + 1\<rparr>"
proof -
  from assms show ?thesis
    unfolding approve_proposal_def require_moderator_def
  proof (elim thenM_InrE bindM_InrE okOrM_InrE requireM_InrE liftR_InrE)
    fix u0 w0 found w1 q w2 a w3 x1 v
    assume m: "may_moderate mo" "w0 = w" and f: "find_proposal i w0 = (Inr found, w1)" "found = Some q" "w2 = w1"
      and a: "merge_proposal G (po_kind q) (po_change q) ov = Inr a" "w3 = w2"
      and run: "approve_proposal_row i (au_id mo) a w3 = (Inr x1, v)"
      and au: "moderation_audit (service_event (au_id mo) ''proposal.approved'' ''parking_proposal'' i
          [(lit ''kind'', JString (proposal_kind_code (application_kind a)))]) v = (Inr x, w')"
    obtain fs p0 l0 where q: "w1 = w\<lparr>faults := fs\<rparr>" "select_one (\<lambda>(p, l). pr_id p = i) (joined_proposals w) = Some (p0, l0)"
        "proposal_kind_from (pr_kind p0) = Inr (po_kind q)" "po_change q = pp_change (payload_from_json (po_kind q) (pr_proposed p0))"
      using f m(2) by (auto elim: find_proposal_InrE)
    have w3: "w3 = w\<lparr>faults := fs\<rparr>" using q(1) f(3) a(2) by simp
    let ?k = "po_kind q"
    note dec = merged_decided[OF a(1)]
    from au obtain gs ev where w': "w' = v\<lparr>faults := gs, audit_events := audit_events v @ [ev], next_audit := next_audit v + 1\<rparr>"
      and ev: "ar_event ev = service_event (au_id mo) ''proposal.approved'' ''parking_proposal'' i
          [(lit ''kind'', JString (proposal_kind_code ?k))]"
      unfolding moderation_audit_def audit_record_def using dec
      by (elim mapErrM_InrE sql_InrE) (auto split: if_splits)
    from run show ?thesis
    proof (rule approve_proposal_row_world)
      fix p :: proposal_row and l :: location_row and snap hs
      let ?P = "\<lambda>x. lr_id x = lr_id l \<and> lr_version x = lr_version l"
      let ?rev = "revision_of (lr_id l) (lr_version l + 1) (au_id mo) (lit ''moderation'') (application_summary a) snap (next_revision w) (now w)"
      assume e: "proposal_of w3 i = Some p" "location_of w3 (pr_location p) = Some l" "pr_status p = lit ''PENDING''"
        "pr_base_version p = lr_version l"
        "v = w3\<lparr>faults := hs, locations := update_where ?P (applied_row a (now w3)) (locations w3),
           revisions := revisions w3 @ [revision_of (lr_id l) (lr_version l + 1) (au_id mo) (lit ''moderation'')
             (application_summary a) snap (next_revision w3) (now w3)], next_revision := next_revision w3 + 1,
           proposals := map (settled (lr_id l) i (au_id mo) (now w3)) (proposals w3)\<rparr>"
      have p: "proposal_of w i = Some p" "location_of w (pr_location p) = Some l"
        using e(1,2) w3 by (simp_all add: proposal_of_def location_of_def)
      then have p0: "p0 = p" using joined_proposal[OF p] q(2) by simp
      have locs: "list_all2 (\<lambda>y y'. if ?P y then decided G ?k (pp_change (payload_from_json ?k (pr_proposed p))) ov (now w) y y' else y' = y)
          (locations w) (update_where ?P (applied_row a (now w)) (locations w))"
        using dec[of "now w"] q(4) p0 by (intro list_all2_mono[OF update_where_pairs]) (auto split: if_splits)
      show ?thesis
        by (rule exI[of _ p], rule exI[of _ l], rule exI[of _ ?k], rule exI[of _ "update_where ?P (applied_row a (now w)) (locations w)"],
            rule exI[of _ ?rev], rule exI[of _ ev], rule exI[of _ gs], intro conjI p e(3,4) m(1) locs ev)
          (use q(3) p0 in \<open>simp_all add: revision_of_def w' e(5) w3\<close>)
    qed
  qed
qed

section \<open>Ratings\<close>

text \<open>The mean of the active reviews in hundredths, to the nearest one (a tie goes up), and
  their number; there is no mean of no reviews.\<close>

definition rating_of :: "review_row list \<Rightarrow> int \<Rightarrow> int option \<Rightarrow> int \<Rightarrow> bool" where
  "rating_of t i avg n \<longleftrightarrow>
     (let stars = map (\<lambda>r. sint (re_rating r)) (filter (\<lambda>r. re_location r = i \<and> re_state r = lit ''ACTIVE'') t) in
      n = int (length stars)
      \<and> (case avg of
           None \<Rightarrow> stars = []
         | Some a \<Rightarrow> stars \<noteq> [] \<and> 200 * sum_list stars - n < 2 * n * a \<and> 2 * n * a \<le> 200 * sum_list stars + n))"

definition ratings_current :: "'w content_world_scheme \<Rightarrow> bool" where
  "ratings_current w \<longleftrightarrow>
     (\<forall>l \<in> set (locations w). lr_id l < next_location w \<and> rating_of (reviews w) (lr_id l) (lr_rating_avg l) (lr_rating_count l))
     \<and> (\<forall>r \<in> set (reviews w). re_location r < next_location w)"

lemma nearest_div:
  fixes a n s :: int
  assumes "0 < n"
  shows "a = (s + n) div (2 * n) \<longleftrightarrow> s - n < 2 * n * a \<and> 2 * n * a \<le> s + n"
proof -
  let ?q = "(s + n) div (2 * n)"
  have "2 * n * ?q + (s + n) mod (2 * n) = s + n" by (rule mult_div_mod_eq)
  moreover have "0 \<le> (s + n) mod (2 * n)" "(s + n) mod (2 * n) < 2 * n" using assms by simp_all
  moreover have "2 * n * (?q + 1) = 2 * n * ?q + 2 * n" by (simp add: distrib_left)
  ultimately have q: "2 * n * ?q \<le> s + n" "s + n < 2 * n * (?q + 1)" by linarith+
  show ?thesis
  proof
    assume "a = ?q"
    with q show "s - n < 2 * n * a \<and> 2 * n * a \<le> s + n" by (simp add: algebra_simps)
  next
    assume a: "s - n < 2 * n * a \<and> 2 * n * a \<le> s + n"
    then have "2 * n * ?q < 2 * n * (a + 1)" "2 * n * a < 2 * n * (?q + 1)" using q by (simp_all add: algebra_simps)
    then have "?q < a + 1" "a < ?q + 1" using assms by (simp_all add: mult_less_cancel_left_pos)
    then show "a = ?q" by simp
  qed
qed

text \<open>The aggregate of the code is that rating.\<close>

lemma rating_of_aggregate: "rating_of t i avg n \<longleftrightarrow> (avg, n) = aggregate t i"
proof -
  let ?stars = "map (\<lambda>r. sint (re_rating r)) (filter (\<lambda>r. re_location r = i \<and> re_state r = lit ''ACTIVE'') t)"
  show ?thesis
  proof (cases "?stars = []")
    case True
    then show ?thesis
      by (cases avg) (auto simp: rating_of_def aggregate_def active_reviews_def average_hundredths_def Let_def)
  next
    case False
    then have "0 < int (length ?stars)" unfolding of_nat_0_less_iff length_greater_0_conv .
    from nearest_div[OF this, of _ "200 * sum_list ?stars"] False show ?thesis
      by (cases avg) (auto simp: rating_of_def aggregate_def active_reviews_def average_hundredths_def Let_def
          simp del: length_map)
  qed
qed

lemma ratings_aggregated:
  "ratings_current w \<longleftrightarrow>
     (\<forall>l \<in> set (locations w). lr_id l < next_location w
        \<and> (lr_rating_avg l, lr_rating_count l) = aggregate (reviews w) (lr_id l))
     \<and> (\<forall>r \<in> set (reviews w). re_location r < next_location w)"
  by (simp add: ratings_current_def rating_of_aggregate)

lemma aggregate_append: "re_location r \<noteq> j \<Longrightarrow> aggregate (t @ [r]) j = aggregate t j"
  by (simp add: aggregate_def active_reviews_def Let_def)

lemma aggregate_none: "\<forall>r \<in> set t. re_location r \<noteq> j \<Longrightarrow> aggregate t j = (None, 0)"
  by (simp add: aggregate_def active_reviews_def average_hundredths_def Let_def filter_empty_conv)

lemma active_update:
  assumes "\<And>r. P r \<Longrightarrow> re_location r = i \<and> re_location (f r) = i" "j \<noteq> i"
  shows "active_reviews (update_where P f t) j = active_reviews t j"
  using assms by (induction t) (auto simp: active_reviews_def)

lemma aggregate_update:
  assumes "\<And>r. P r \<Longrightarrow> re_location r = i \<and> re_location (f r) = i" "j \<noteq> i"
  shows "aggregate (update_where P f t) j = aggregate t j"
  by (simp add: aggregate_def active_update[of P i f j t] assms)

lemma rating_columns [simp]:
  "lr_rating_avg (moderated_row st t l) = lr_rating_avg l" "lr_rating_count (moderated_row st t l) = lr_rating_count l"
  "lr_rating_avg (applied_row a t l) = lr_rating_avg l" "lr_rating_count (applied_row a t l) = lr_rating_count l"
  by (simp_all add: moderated_row_def applied_row_def split: proposal_application.split)

lemma ratings_rewrite:
  assumes "ratings_current w" "locations w' = update_where P f (locations w)" "next_location w' = next_location w"
    "reviews w' = reviews w"
    "\<And>l. lr_id (f l) = lr_id l \<and> lr_rating_avg (f l) = lr_rating_avg l \<and> lr_rating_count (f l) = lr_rating_count l"
  shows "ratings_current w'"
  using assms unfolding ratings_aggregated by (simp add: ball_update_where)

lemma ratings_upsert:
  assumes "ratings_current w" and "upsert_review i u x b w = (Inr upd, w')"
  shows "ratings_current w'"
  using assms(2)
proof (rule upsert_review_effect)
  fix rs
  assume w': "reviews w' = rs" "upd \<or> location_exists w i" "next_location w' = next_location w"
    "locations w' = update_where (\<lambda>l. lr_id l = i)
       (\<lambda>l. l\<lparr>lr_rating_avg := fst (aggregate rs i), lr_rating_count := snd (aggregate rs i)\<rparr>) (locations w)"
    and rs: "rs = (if upd then update_where (has_review i u)
               (\<lambda>r. r\<lparr>re_rating := star_rating_as_i16 x, re_body := b, re_updated_at := now w\<rparr>) (reviews w)
           else reviews w @ [\<lparr>re_id = next_review w, re_location = i, re_author = Some u,
               re_rating = star_rating_as_i16 x, re_body = b, re_state = lit ''ACTIVE'',
               re_created_at = now w, re_updated_at = now w\<rparr>])"
  have other: "aggregate rs j = aggregate (reviews w) j" if "j \<noteq> i" for j
    using that unfolding rs by (auto simp: aggregate_append intro!: aggregate_update[where i = i] simp: has_review_def)
  have "i < next_location w" if "\<not> upd"
    using that w'(2) assms(1) by (auto simp: location_exists_def ratings_aggregated)
  then have "\<forall>r \<in> set rs. re_location r < next_location w"
    using assms(1) unfolding rs ratings_aggregated by (simp add: ball_update_where)
  then show ?thesis
    using assms(1) w' other unfolding ratings_aggregated by (auto simp: ball_update_where)
qed

lemma ratings_create:
  assumes "ratings_current w" and "create_location new u t w = (Inr n, w')"
  shows "ratings_current w'"
  using assms(2)
proof (rule create_location_effect)
  fix tz
  assume w': "n = next_location w" "locations w' = locations w @ [new_row new tz u t n]" "next_location w' = n + 1"
    "reviews w' = reviews w"
  have "aggregate (reviews w) n = (None, 0)"
    using assms(1) w'(1) by (intro aggregate_none) (auto simp: ratings_aggregated)
  moreover have "\<forall>l \<in> set (locations w). lr_id l < n + 1" "\<forall>r \<in> set (reviews w). re_location r < n + 1"
    using assms(1) w'(1) by (fastforce simp: ratings_aggregated)+
  ultimately show ?thesis using assms(1) w' by (simp add: ratings_aggregated)
qed

interpretation ratings: location_invariant V ratings_current "\<lambda>_. True" "\<lambda>_. True" False for V
proof
  have t: "table_inv ratings_current" by (simp add: table_inv_def ratings_aggregated)
  fix new u t' e i ver x b froms st kind change over a
  show "keeps ratings_current (create_location new u t')"
    by (rule keeps_atomic[OF t atomic_create]) (rule ratings_create)
  show "keeps ratings_current (apply_edit (en_geo V) i ver e u t')"
    unfolding apply_edit_def
    by (rule keeps_atomic[OF t atomic_transaction], fold apply_edit_def)
      (elim apply_edit_effect, rule ratings_rewrite, (assumption | simp)+)
  show "keeps ratings_current (mark_verified_at i t')"
    unfolding mark_verified_at_def by (rule keeps_command[OF t]) (auto simp: ratings_aggregated ball_update_where)
  show "keeps ratings_current (upsert_review i u x b)"
    unfolding upsert_review_def
    by (rule keeps_atomic[OF t atomic_transaction], fold upsert_review_def) (rule ratings_upsert)
  show "keeps ratings_current (set_parking_state i froms st u)"
    unfolding set_parking_state_def
    by (rule keeps_atomic[OF t atomic_transaction], fold set_parking_state_def)
      (elim set_parking_state_effect, rule ratings_rewrite, (assumption | simp)+)
  show "keeps ratings_current (approve_proposal_row i u a)"
    unfolding approve_proposal_row_def
    by (rule keeps_atomic[OF t atomic_transaction], fold approve_proposal_row_def)
      (elim approve_proposal_row_effect, rule ratings_rewrite, (assumption | simp)+)
qed (simp_all add: location_part_def ratings_aggregated)

text \<open>C34: the rating of every location is the mean, to the nearest hundredth, and the number
  of its active reviews, along every run in which no review is hidden or restored and no
  report upheld (upholding one hides its target; dismissing one is allowed).\<close>

theorem ratings_stay_current:
  assumes "ratings_current w" and "list_all (action_ok (\<lambda>_. True) (\<lambda>_. True) False) acts"
  shows "ratings_current (content_run V acts w)"
  using assms by (intro ratings.keeps_content_run)

text \<open>Hiding a review does not recompute the rating.\<close>

lemma length_filter_update:
  assumes "distinct (map g t)" "r \<in> set t" "P r" "Q r" "\<And>x. P x \<Longrightarrow> g x = g r" "\<And>x. P x \<Longrightarrow> \<not> Q (f x)"
  shows "length (filter Q t) = Suc (length (filter Q (update_where P f t)))"
  using assms
proof (induction t)
  case (Cons a t)
  show ?case
  proof (cases "a = r")
    case True
    then have "g r \<notin> g ` set t" using Cons.prems(1) by simp
    then have "\<not> P x" if "x \<in> set t" for x using Cons.prems(5)[of x] that by (metis imageI)
    then have "update_where P f t = t" by (intro update_where_none)
    with True Cons.prems(3,4,6) show ?thesis by simp
  next
    case False
    with Cons.prems(2) have r: "r \<in> set t" by simp
    with Cons.prems(1) have "g a \<noteq> g r" by (auto simp: image_iff)
    then have "\<not> P a" using Cons.prems(5)[of a] by blast
    moreover have "length (filter Q t) = Suc (length (filter Q (update_where P f t)))"
      using Cons.prems(1) r by (intro Cons.IH Cons.prems(3-6)) simp_all
    ultimately show ?thesis by simp
  qed
qed simp

lemma flip_review_returned:
  assumes "flip_review i st1 st2 w = (Inr x, w')"
  shows "\<exists>r \<in> set (reviews w). re_id r = i \<and> re_state r = lit st1" and "locations w' = locations w"
    and "reviews w' = update_where (\<lambda>r. re_id r = i \<and> re_state r = lit st1)
           (\<lambda>r. r\<lparr>re_state := lit st2, re_updated_at := now w\<rparr>) (reviews w)"
  using assms unfolding flip_review_def Let_def by (elim bindM_InrE sql_InrE requireM_InrE, simp)+

text \<open>The exception is real: hiding an active review leaves its location's rating as it
  was, so from then on the rating counts a review nobody can read.\<close>

lemma hidden_review_still_counts:
  assumes "ratings_current w" and "distinct (map re_id (reviews w))"
    and "hide_review mo i w = (Inr x, w')"
    and "r \<in> set (reviews w)" "re_id r = i" and "l \<in> set (locations w)" "lr_id l = re_location r"
  shows "l \<in> set (locations w') \<and> lr_rating_count l = snd (aggregate (reviews w') (lr_id l)) + 1"
proof
  let ?P = "\<lambda>r. re_id r = i \<and> re_state r = lit ''ACTIVE''" and ?f = "\<lambda>t r. r\<lparr>re_state := lit ''HIDDEN'', re_updated_at := t\<rparr>"
  from assms(3) obtain v x1 where m: "flip_review i ''ACTIVE'' ''HIDDEN'' w = (Inr x1, v)"
      and au: "moderation_audit (service_event (au_id mo) ''review.hidden'' ''review'' i []) v = (Inr x, w')"
    unfolding hide_review_def audited_action_def require_moderator_def hide_review_row_def
    by (elim thenM_InrE requireM_InrE) simp
  note hit = flip_review_returned(1)[OF m] and v = flip_review_returned(2,3)[OF m]
  have "content_tables w' = content_tables v" using stillD[OF still.keeps_audits(3) au] .
  then have w': "locations w' = locations w" "reviews w' = update_where ?P (?f (now w)) (reviews w)"
    using v by (simp_all add: content_tables_def location_part_def)
  then show "l \<in> set (locations w')" using assms(6) by simp
  have r: "?P r" using hit inj_onD[OF distinct_map[THEN iffD1, THEN conjunct2, OF assms(2)]] assms(4,5) by metis
  let ?Q = "\<lambda>y. re_location y = lr_id l \<and> re_state y = lit ''ACTIVE''"
  have "length (filter ?Q (reviews w)) = Suc (length (filter ?Q (reviews w')))"
    unfolding w'(2)
    by (rule length_filter_update[where g = re_id and r = r]) (use assms r in \<open>simp_all add: lit_def\<close>)
  moreover have "lr_rating_count l = snd (aggregate (reviews w) (lr_id l))"
    using assms(1,6) by (simp add: ratings_aggregated prod_eq_iff)
  ultimately show "lr_rating_count l = snd (aggregate (reviews w') (lr_id l)) + 1"
    by (simp add: aggregate_def active_reviews_def Let_def)
qed

end
