(* ===== verification/Content_Decoding.thy ===== *)
theory Content_Decoding
  imports Content_Versions
begin

text \<open>
  Reading back what was written.  The location's row holds codes, columns and numbers that
  \<open>to_domain\<close> decodes again, any of which could fail to; that no run of the service ever
  stores a row it cannot read is the type soundness of the store.  Its premises are what
  the domain's constructors give for the inputs: a point in range, a currency code, a known
  time zone.
\<close>

section \<open>Values that decode\<close>

definition storable_cost :: "cost \<Rightarrow> bool" where
  "storable_cost c \<longleftrightarrow> (case c of PaidCost (Some m) \<Rightarrow> wf_currency (currency m) | _ \<Rightarrow> True)"

definition storable_location :: "geo_externals \<Rightarrow> new_location \<Rightarrow> bool" where
  "storable_location G new \<longleftrightarrow>
     wf_geo_point (nl_point new) \<and> storable_cost (nl_cost new)
     \<and> (case nl_timezone new of None \<Rightarrow> True | Some z \<Rightarrow> gx_tz_known G z)"

definition storable_edit :: "parking_edit \<Rightarrow> bool" where
  "storable_edit e \<longleftrightarrow> storable_cost (pe_cost e)"

definition row_decodes :: "geo_externals \<Rightarrow> location_row \<Rightarrow> bool" where
  "row_decodes G l \<longleftrightarrow>
     gx_tz_known G (lr_timezone l) \<and> trim (lr_name l) \<noteq> [] \<and> trim (lr_address l) \<noteq> []
     \<and> (\<exists>c. storable_cost c \<and> cost_parts c = (lr_cost_kind l, lr_cents l, lr_currency l, lr_unit l))
     \<and> (\<exists>ty. lr_type l = parking_type_code ty) \<and> wf_geo_point (row_point l)
     \<and> (\<exists>st. lr_state l = moderation_state_code st) \<and> 0 \<le> lr_rating_count l
     \<and> (case lr_rating_avg l of None \<Rightarrow> True | Some n \<Rightarrow> 0 \<le> n \<and> n \<le> 500)"

definition decodable :: "geo_externals \<Rightarrow> 'w content_world_scheme \<Rightarrow> bool" where
  "decodable G w \<longleftrightarrow>
     (\<forall>l \<in> set (locations w). row_decodes G l) \<and> (\<forall>s \<in> set (security_table w). se_state s \<in> {0, 1, 2})
     \<and> (\<forall>r \<in> set (reviews w). 1 \<le> sint (re_rating r) \<and> sint (re_rating r) \<le> 5)"

section \<open>They decode\<close>

lemma expectD_Inr: "expectD (Inr a) = retM a"
  by (rule ext) (simp add: expectD_def exec)

lemma retM_inject [simp]: "(retM a :: ('s, 'e, 'a) m) = retM b \<longleftrightarrow> a = b"
  by (metis Pair_inject retM_exec sum.inject(2))

lemma code_decodes:
  "parking_type_from (parking_type_code ty) = Inr ty" "pricing_unit_from (pricing_unit_code u) = Inr u"
  "moderation_state_from (moderation_state_code st) = Inr st"
  using parking_type.from_as[of ty] pricing_unit.from_as[of u] moderation_state.from_as[of st]
  by (simp_all add: ok_eq_Some)

lemma price_decodes:
  assumes "storable_cost c" "cost_parts c = (lr_cost_kind l, lr_cents l, lr_currency l, lr_unit l)"
  shows "price_of l = retM (cost_price c)" "cost_from_kind_and_price (lr_cost_kind l) (cost_price c) = Inr c"
proof -
  show "price_of l = retM (cost_price c)"
  proof (cases "\<exists>m. c = PaidCost (Some m)")
    case True
    then obtain n cur u where c: "c = PaidCost (Some \<lparr>cents = n, currency = cur, unit_of = u\<rparr>)" by (metis money.cases)
    with assms have "lr_cents l = Some n" "lr_currency l = Some cur" "lr_unit l = Some (pricing_unit_code u)" "wf_currency cur"
      by (simp_all add: cost_parts_def storable_cost_def)
    with c show ?thesis by (simp add: price_of_def cost_price_def parse_currency_fixpoint code_decodes expectD_Inr)
  next
    case False
    with assms(2) show ?thesis
      by (auto simp: price_of_def cost_parts_def cost_price_def split: cost.splits option.splits)
  qed
  have "lr_cost_kind l = cost_kind_code c"
    using assms(2) by (auto simp: cost_parts_def cost_kind_code_def split: cost.splits option.splits)
  then show "cost_from_kind_and_price (lr_cost_kind l) (cost_price c) = Inr c" by (simp add: cost_roundtrip)
qed

lemma security_row_decodes:
  "se_state s \<in> {0, 1, 2} \<Longrightarrow> \<exists>f. security_of_row s = (retM f :: ('s, reader_error, security_feature) m)"
  by (auto simp: security_of_row_def security_state_from_smallint_def expectD_Inr)

lemma security_decodes:
  "\<forall>s \<in> set ss. se_state s \<in> {0, 1, 2} \<Longrightarrow>
    \<exists>fs. mapM security_of_row ss = (retM fs :: ('s, reader_error, security_feature list) m)"
proof (induction ss)
  case (Cons s ss)
  then have "\<exists>fs. mapM security_of_row ss = (retM fs :: ('s, reader_error, security_feature list) m)" by auto
  moreover have "\<exists>f. security_of_row s = (retM f :: ('s, reader_error, security_feature) m)"
    using Cons.prems by (intro security_row_decodes) simp
  ultimately show ?case by auto
qed auto

lemma point_decodes: "wf_geo_point (row_point l) \<Longrightarrow> geo_point_new (lr_lat l) (lr_lon l) = Inr (row_point l)"
  by (auto simp: wf_geo_point_def row_point_def geo_point_new_def f64_within_def abs_le_iff)

lemma rating_decodes:
  assumes "0 \<le> lr_rating_count l" "case lr_rating_avg l of None \<Rightarrow> True | Some n \<Rightarrow> 0 \<le> n \<and> n \<le> 500"
  shows "\<exists>r. rating_new (rating_of_hundredths (lr_rating_avg l)) (lr_rating_count l) = Inr r"
  using assms by (auto simp: rating_new_def rating_of_hundredths_def f64_within_def split: option.splits)

lemma to_domain_decodes:
  assumes "row_decodes G l" "\<forall>s \<in> set ss. se_state s \<in> {0, 1, 2}"
  shows "\<exists>p. to_domain G l hs ss = (retM p :: ('s, reader_error, parking_location) m) \<and> pl_id p = lr_id l"
proof -
  from assms(1) obtain c ty st where c: "storable_cost c" "cost_parts c = (lr_cost_kind l, lr_cents l, lr_currency l, lr_unit l)"
      "lr_type l = parking_type_code ty" "lr_state l = moderation_state_code st"
    and l: "gx_tz_known G (lr_timezone l)" "trim (lr_name l) \<noteq> []" "trim (lr_address l) \<noteq> []"
      "wf_geo_point (row_point l)" "0 \<le> lr_rating_count l"
      "case lr_rating_avg l of None \<Rightarrow> True | Some n \<Rightarrow> 0 \<le> n \<and> n \<le> 500"
    by (auto simp: row_decodes_def)
  obtain fs where "mapM security_of_row ss = (retM fs :: ('s, reader_error, security_feature list) m)"
    using security_decodes[OF assms(2)] by blast
  moreover obtain r where "rating_new (rating_of_hundredths (lr_rating_avg l)) (lr_rating_count l) = Inr r"
    using rating_decodes[OF l(5,6)] by blast
  ultimately show ?thesis
    using l
    by (cases "lr_hours_unknown l") (simp_all add: price_decodes[OF c(1,2)] to_domain_def requireM_def thenM_def expectD_Inr code_decodes c(3,4) point_decodes parking_location_new_def)
qed

lemma details_decodes:
  fixes w :: "'w content_world_scheme"
  assumes "decodable G w" "location_exists w i" "faults w = []"
  shows "\<exists>p. details G i w = (Inr (Some p), w) \<and> pl_id p = i"
proof -
  from assms(2) obtain l where l: "location_of w i = Some l" using location_of_None[of w i] by auto
  then have "row_decodes G l" "lr_id l = i" using assms(1) location_of_Some[OF l] by (auto simp: decodable_def)
  moreover have "\<forall>s \<in> set (security_of w i). se_state s \<in> {0, 1, 2}"
    using assms(1) by (auto simp: security_of_def decodable_def)
  ultimately obtain p where
    "to_domain G l (hours_of w i) (security_of w i) = (retM p :: ('w content_world_scheme, reader_error, parking_location) m)"
    "pl_id p = i"
    using to_domain_decodes[of G l "security_of w i" "hours_of w i"] by auto
  then show ?thesis using l assms(3) by (simp add: details_def exec)
qed

section \<open>Every write stores values that decode\<close>

lemma state_smallint_range: "state_smallint s \<in> {0, 1, 2}"
  by (cases s) (simp_all add: state_smallint_def)

lemma upsert_security_states:
  assumes "\<forall>s \<in> set t. se_state s \<in> {0, 1, 2}" "\<forall>cs \<in> set css. snd cs \<in> {0, 1, 2}"
  shows "\<forall>s \<in> set (fold (upsert_security i) css t). se_state s \<in> {0, 1, 2}"
  using assms
proof (induction css arbitrary: t)
  case (Cons cs css)
  have "\<forall>s \<in> set (upsert_security i cs t). se_state s \<in> {0, 1, 2}"
    using Cons.prems unfolding upsert_security_def by (auto simp: ball_update_where)
  from Cons.IH[OF this] Cons.prems(2) show ?case by simp
qed simp

lemma security_states_range: "\<forall>cs \<in> set (security_states fs). snd cs \<in> {0, 1, 2}"
  using state_smallint_range by (simp add: security_states_def)

lemma average_range:
  assumes "\<forall>x \<in> set xs. 1 \<le> x \<and> x \<le> 5"
  shows "case average_hundredths xs of None \<Rightarrow> True | Some n \<Rightarrow> 0 \<le> n \<and> n \<le> 500"
proof (cases "xs = []")
  case False
  let ?k = "int (length xs)"
  have k: "0 < ?k" using False by simp
  have s: "0 \<le> sum_list xs \<and> sum_list xs \<le> 5 * ?k"
    using assms by (induction xs) auto
  have "(200 * sum_list xs + ?k) div (2 * ?k) \<le> (1001 * ?k) div (2 * ?k)"
    using s k by (intro zdiv_mono1) auto
  also have "\<dots> = 500" using k by simp
  finally have "(200 * sum_list xs + ?k) div (2 * ?k) \<le> 500" .
  moreover have "0 \<le> (200 * sum_list xs + ?k) div (2 * ?k)"
    using s k by (intro pos_imp_zdiv_nonneg_iff[THEN iffD2]) auto
  ultimately show ?thesis using False by (simp add: average_hundredths_def)
qed (simp add: average_hundredths_def)

lemma aggregate_range:
  assumes "\<forall>r \<in> set t. 1 \<le> sint (re_rating r) \<and> sint (re_rating r) \<le> 5"
  shows "case fst (aggregate t i) of None \<Rightarrow> True | Some n \<Rightarrow> 0 \<le> n \<and> n \<le> 500" "0 \<le> snd (aggregate t i)"
  using assms average_range[of "map (\<lambda>r. sint (re_rating r)) (active_reviews t i)"]
  by (simp_all add: aggregate_def active_reviews_def Let_def)

lemma star_rating_range: "1 \<le> unat x \<and> unat x \<le> 5 \<Longrightarrow> 1 \<le> sint (star_rating_as_i16 x) \<and> sint (star_rating_as_i16 x) \<le> 5"
proof -
  assume h: "1 \<le> unat x \<and> unat x \<le> 5"
  have "uint x = int (unat x)" by simp
  then have u: "1 \<le> uint x" "uint x \<le> 5" using h by linarith+
  have "sint (ucast x :: 16 word) = uint x"
    using u by (simp add: sint_uint unsigned_ucast_eq signed_take_bit_eq_take_bit_shift take_bit_eq_mod)
  then show ?thesis using u by (simp add: star_rating_as_i16_def)
qed

lemma decodable_rows:
  assumes "decodable G w" "locations w' = update_where P f (locations w)" "security_table w' = security_table w"
    "reviews w' = reviews w" "\<And>l. row_decodes G l \<Longrightarrow> P l \<Longrightarrow> row_decodes G (f l)"
  shows "decodable G w'"
  using assms unfolding decodable_def by (auto simp: ball_update_where)

lemma new_row_decodes:
  assumes "storable_location G new" "trim (nl_name new) \<noteq> []" "trim (nl_address new) \<noteq> []" "nl_timezone new = Some tz"
  shows "row_decodes G (new_row new tz u t i)"
proof -
  obtain k c cur un where p: "cost_parts (nl_cost new) = (k, c, cur, un)" by (metis prod_cases4)
  have st: "\<exists>st. lit ''ACTIVE'' = moderation_state_code st" by (intro exI[of _ MActive]) (simp add: moderation_state_code_def)
  have c: "\<exists>co. storable_cost co \<and> cost_parts co = (k, c, cur, un)" using p assms(1) by (auto simp: storable_location_def)
  have pt: "\<lparr>gp_lat = gp_lat (nl_point new), gp_lon = gp_lon (nl_point new)\<rparr> = nl_point new" by simp
  show ?thesis
    using assms c st by (auto simp: row_decodes_def new_row_def p storable_location_def row_point_def trim_idem pt)
qed

lemma edited_row_decodes:
  assumes "row_decodes G l" "storable_edit e" "trim (pe_name e) \<noteq> []" "trim (pe_address e) \<noteq> []"
  shows "row_decodes G (edited_row e t l)"
proof -
  obtain k c cur un where p: "cost_parts (pe_cost e) = (k, c, cur, un)" by (metis prod_cases4)
  have c: "\<exists>co. storable_cost co \<and> cost_parts co = (k, c, cur, un)" using p assms(2) by (auto simp: storable_edit_def)
  show ?thesis
    using assms c by (auto simp: row_decodes_def edited_row_def p row_point_def trim_idem)
qed

lemma moderated_row_decodes: "row_decodes G l \<Longrightarrow> row_decodes G (moderated_row (moderation_state_code st) t l)"
  by (auto simp: row_decodes_def moderated_row_def row_point_def)

lemma merged_application:
  assumes "merge_proposal G kind change over = Inr (ApplyMove la lo z)"
  shows "wf_geo_point \<lparr>gp_lat = la, gp_lon = lo\<rparr>" "gx_tz_known G z"
proof -
  have "merged_move G x y tz = Inr (ApplyMove la lo z) \<Longrightarrow> wf_geo_point \<lparr>gp_lat = la, gp_lon = lo\<rparr> \<and> gx_tz_known G z" for x y tz
    by (auto simp: merged_move_def wf_geo_point_def abs_le_iff split: option.splits if_splits elim!: f64_withinE)
  with assms show "wf_geo_point \<lparr>gp_lat = la, gp_lon = lo\<rparr>" "gx_tz_known G z"
    by (auto simp: merge_proposal_def split: proposal_kind.splits proposed_change.splits option.splits)
qed

lemma applied_row_decodes:
  assumes "row_decodes G l" "merge_proposal G kind change over = Inr a"
  shows "row_decodes G (applied_row a t l)"
proof (cases a)
  case (ApplyMove la lo z)
  with assms merged_application[of G kind change over la lo z] show ?thesis
    by (auto simp: row_decodes_def applied_row_def row_point_def)
next
  case (ApplyExistence b)
  have "\<exists>st. (if b then lit ''ACTIVE'' else lit ''REMOVED'') = moderation_state_code st"
    by (intro exI[of _ "if b then MActive else MRemoved"]) (simp add: moderation_state_code_def)
  with ApplyExistence assms(1) show ?thesis by (auto simp: row_decodes_def applied_row_def row_point_def)
qed

lemma decodable_upsert:
  assumes "decodable G w" and "upsert_review i u x b w = (Inr upd, w')"
  shows "decodable G w'"
  using assms(2)
proof (rule upsert_review_effect)
  fix rs
  assume w': "reviews w' = rs" "1 \<le> unat x \<and> unat x \<le> 5" "security_table w' = security_table w"
    "locations w' = update_where (\<lambda>l. lr_id l = i)
       (\<lambda>l. l\<lparr>lr_rating_avg := fst (aggregate rs i), lr_rating_count := snd (aggregate rs i)\<rparr>) (locations w)"
    and rs: "rs = (if upd then update_where (has_review i u)
               (\<lambda>r. r\<lparr>re_rating := star_rating_as_i16 x, re_body := b, re_updated_at := now w\<rparr>) (reviews w)
           else reviews w @ [\<lparr>re_id = next_review w, re_location = i, re_author = Some u,
               re_rating = star_rating_as_i16 x, re_body = b, re_state = lit ''ACTIVE'',
               re_created_at = now w, re_updated_at = now w\<rparr>])"
  have r: "\<forall>r \<in> set rs. 1 \<le> sint (re_rating r) \<and> sint (re_rating r) \<le> 5"
    using assms(1) star_rating_range[OF w'(2)] unfolding rs decodable_def by (auto simp: ball_update_where)
  from aggregate_range[OF this] w' r assms(1) show ?thesis
    unfolding decodable_def by (auto simp: ball_update_where row_decodes_def row_point_def)
qed

lemma decodable_create:
  assumes "decodable G w" "create_location new u t w = (Inr n, w')"
    "storable_location G new" "trim (nl_name new) \<noteq> []" "trim (nl_address new) \<noteq> []"
  shows "decodable G w'"
  using assms(2)
proof (rule create_location_effect)
  fix tz assume w': "nl_timezone new = Some tz" "locations w' = locations w @ [new_row new tz u t n]" "reviews w' = reviews w"
    "security_table w' = fold (upsert_security n) (security_states (nl_security new)) (security_table w)"
  have "\<forall>s \<in> set (security_table w'). se_state s \<in> {0, 1, 2}"
    unfolding w'(4) by (rule upsert_security_states) (use assms(1) security_states_range in \<open>auto simp: decodable_def\<close>)
  with new_row_decodes[OF assms(3-5) w'(1), of u t n] assms(1) w' show ?thesis
    by (simp add: decodable_def)
qed

lemma decodable_edit:
  assumes "decodable G w" "apply_edit G i ver e u t w = (Inr n, w')"
    "storable_edit e" "trim (pe_name e) \<noteq> []" "trim (pe_address e) \<noteq> []"
  shows "decodable G w'"
  using assms(2)
proof (rule apply_edit_effect)
  let ?P = "\<lambda>x. lr_id x = i \<and> lr_version x = ver \<and> lr_state x = lit ''ACTIVE''"
  assume w': "locations w' = update_where ?P (edited_row e t) (locations w)" "reviews w' = reviews w"
    "security_table w' = fold (upsert_security i) (security_states (pe_security e)) (security_table w)"
  have "\<forall>s \<in> set (security_table w'). se_state s \<in> {0, 1, 2}"
    unfolding w'(3) by (rule upsert_security_states) (use assms(1) security_states_range in \<open>auto simp: decodable_def\<close>)
  then show ?thesis
    using assms(1) edited_row_decodes[OF _ assms(3-5)] w' unfolding decodable_def by (auto simp: ball_update_where)
qed

text \<open>What the code relies on of the time-zone crate: it knows the names its own constants
  have, so a resolved zone decodes.\<close>

definition zones_known :: "geo_externals \<Rightarrow> bool" where
  "zones_known G \<longleftrightarrow> list_all (\<lambda>z. gx_tz_known G (snd z)) (zones @ capitals) \<and> gx_tz_known G default_zone"

lemma resolved_known:
  assumes "zones_known G" shows "gx_tz_known G (resolve_zone p)"
proof -
  have known: "gx_tz_known G z" if "find_zone p t = Some z" "list_all (\<lambda>z. gx_tz_known G (snd z)) t" for t z
    using that by (auto simp: find_zone_def list_all_iff dest!: select_one_SomeD[unfolded select_one_def])
  show ?thesis
    using assms known[of zones] known[of capitals]
    by (simp add: zones_known_def resolve_zone_def split: option.split)
qed

interpretation decoding: location_invariant V "decodable (en_geo V)"
  "\<lambda>new. zones_known (en_geo V) \<and> storable_location (en_geo V) new" storable_edit True for V
proof
  let ?G = "en_geo V"
  have t: "table_inv (decodable ?G)" by (simp add: table_inv_def decodable_def)
  fix new :: new_location
  show "zones_known ?G \<and> storable_location ?G (new\<lparr>nl_timezone := Some (resolve_zone (nl_point new))\<rparr>)"
    if "zones_known ?G \<and> storable_location ?G new"
    using that resolved_known[of ?G] by (simp add: storable_location_def)
  fix u t' e i ver x b st1 st2 froms st kind change over a
  show "keeps (decodable ?G) (create_location new u t')"
    if "zones_known ?G \<and> storable_location ?G new" "trim (nl_name new) \<noteq> []" "trim (nl_address new) \<noteq> []"
    by (rule keeps_atomic[OF t atomic_create]) (rule decodable_create[OF _ _ conjunct2[OF that(1)] that(2,3)])
  show "keeps (decodable ?G) (apply_edit ?G i ver e u t')"
    if "storable_edit e" "trim (pe_name e) \<noteq> []" "trim (pe_address e) \<noteq> []"
    unfolding apply_edit_def
    by (rule keeps_atomic[OF t atomic_transaction], fold apply_edit_def) (rule decodable_edit[OF _ _ that])
  show "keeps (decodable ?G) (mark_verified_at i t')"
    unfolding mark_verified_at_def
    by (rule keeps_command[OF t]) (auto simp: decodable_def ball_update_where row_decodes_def row_point_def)
  show "keeps (decodable ?G) (upsert_review i u x b)"
    unfolding upsert_review_def
    by (rule keeps_atomic[OF t atomic_transaction], fold upsert_review_def) (rule decodable_upsert)
  show "keeps (decodable ?G) (flip_review i st1 st2)"
    unfolding flip_review_def
    by (intro pres keeps_sql[OF t]) (auto simp: Let_def decodable_def ball_update_where)
  show "keeps (decodable ?G) (set_parking_state i froms st u)"
    unfolding set_parking_state_def
    by (rule keeps_atomic[OF t atomic_transaction], fold set_parking_state_def)
      (elim set_parking_state_effect, rule decodable_rows, (assumption | simp add: moderated_row_decodes)+)
  show "keeps (decodable ?G) (approve_proposal_row i u a)"
    if "merge_proposal ?G kind change over = Inr a"
    unfolding approve_proposal_row_def
    by (rule keeps_atomic[OF t atomic_transaction], fold approve_proposal_row_def)
      (elim approve_proposal_row_effect, rule decodable_rows, (assumption | use that in \<open>simp add: applied_row_decodes\<close>)+)
qed (simp_all add: location_part_def decodable_def)

text \<open>C28: what the service stores it can read: along every run over inputs that the
  domain's constructors let through, with every failure in between, each stored location
  decodes into the domain aggregate again; the reader's failures are database failures only.\<close>

theorem stored_locations_decode:
  assumes "zones_known (en_geo V)" and "decodable (en_geo V) w"
    and "list_all (action_ok (storable_location (en_geo V)) storable_edit True) acts"
    and "location_exists (content_run V acts w) i"
  shows "\<exists>p. fst (details (en_geo V) i ((content_run V acts w)\<lparr>faults := []\<rparr>)) = Inr (Some p) \<and> pl_id p = i"
proof -
  let ?w = "content_run V acts w"
  have "decodable (en_geo V) ?w"
    using assms(1-3) by (intro decoding.keeps_content_run) simp_all
  then have "decodable (en_geo V) (?w\<lparr>faults := []\<rparr>)" by (simp add: decodable_def)
  from details_decodes[OF this, of i] assms(4) show ?thesis by (force simp: location_exists_def)
qed

end
