(* ===== verification/Content_Moderation.thy ===== *)
theory Content_Moderation
  imports Content_Versions
begin

text \<open>
  Guarantees of moderation: the life of a report, and who may cause a change at all.
\<close>

section \<open>Reports\<close>

definition report_key :: "report_row \<Rightarrow> int option \<times> ustring \<times> int" where
  "report_key r = (rp_reporter r, rp_target_type r, rp_target_id r)"

definition report_closed :: "report_row \<Rightarrow> bool" where
  "report_closed r \<longleftrightarrow> rp_state r = lit ''RESOLVED'' \<or> rp_state r = lit ''DISMISSED''"

definition report_ok :: "report_row \<Rightarrow> bool" where
  "report_ok r \<longleftrightarrow>
     (rp_state r = lit ''OPEN'' \<and> rp_claimed_by r = None \<and> rp_resolved_by r = None)
     \<or> (rp_state r = lit ''UNDER_REVIEW'' \<and> rp_claimed_by r \<noteq> None \<and> rp_resolved_by r = None)
     \<or> (report_closed r \<and> rp_claimed_by r \<noteq> None
        \<and> (\<exists>m. rp_resolved_by r = Some m \<and> rp_reporter r \<noteq> Some m))"

definition reports_sound :: "'w content_world_scheme \<Rightarrow> bool" where
  "reports_sound w \<longleftrightarrow>
     distinct (map rp_id (reports w)) \<and> (\<forall>r \<in> set (reports w). rp_id r < next_report w \<and> report_ok r)
     \<and> distinct (map report_key (filter is_live_report (reports w)))"

lemma update_report_Inr:
  assumes "update_report i st f fkey u w = (Inr hit, w')"
  shows "next_report w' = next_report w"
    "reports w' = update_where (\<lambda>r. rp_id r = i \<and> rp_state r = lit st) (f (now w)) (reports w)"
  using assms unfolding update_report_def
  by (elim sql_InrE; auto simp: Let_def check_user_def check_that_def update_where_none split: if_splits)+

lemma keeps_update_report:
  assumes "table_inv I" and "\<And>w hit w'. I w \<Longrightarrow> update_report i st f fkey u w = (Inr hit, w') \<Longrightarrow> I w'"
  shows "keeps I (update_report i st f fkey u)"
  using assms unfolding update_report_def by (rule keeps_sql_Inr)

lemma filter_update_same:
  assumes "\<And>r. P r \<Longrightarrow> Q (f r) = Q r \<and> g (f r) = g r"
  shows "map g (filter Q (update_where P f t)) = map g (filter Q t)"
  using assms by (induction t) auto

lemma filter_update_subset:
  assumes "\<And>r. P r \<Longrightarrow> \<not> Q (f r)"
  shows "set (filter Q (update_where P f t)) \<subseteq> set (filter Q t)"
  using assms by (auto simp: update_where_def split: if_splits)

lemma filter_update_drop:
  assumes "\<And>r. P r \<Longrightarrow> \<not> Q (f r)" "distinct (map g (filter Q t))"
  shows "distinct (map g (filter Q (update_where P f t)))"
  using assms(2)
proof (induction t)
  case (Cons r t)
  have "set (map g (filter Q (update_where P f t))) \<subseteq> set (map g (filter Q t))"
    using filter_update_subset[of P Q f t, OF assms(1)] by auto
  with Cons assms(1) show ?case by (auto split: if_splits)
qed simp

lemma table_reports_sound: "table_inv reports_sound"
  by (simp add: table_inv_def reports_sound_def)

lemma reports_sound_update:
  fixes w w' :: "'w content_world_scheme"
  assumes "reports_sound w" "next_report w' = next_report w" "reports w' = update_where P f (reports w)"
    and "\<And>r. rp_id (f r) = rp_id r"
    and ok: "\<And>r. r \<in> set (reports w) \<Longrightarrow> P r \<Longrightarrow> report_ok r \<Longrightarrow> report_ok (f r)"
    and live: "(\<forall>r. P r \<longrightarrow> \<not> is_live_report (f r))
      \<or> (\<forall>r. P r \<longrightarrow> is_live_report (f r) = is_live_report r \<and> report_key (f r) = report_key r)"
  shows "reports_sound w'"
proof -
  have "distinct (map report_key (filter is_live_report (reports w')))"
    using live assms(1)
    by (auto simp: assms(3) reports_sound_def filter_update_same filter_update_drop)
  moreover have "map rp_id (reports w') = map rp_id (reports w)"
    using assms(3,4) by (simp add: map_update_where)
  ultimately show ?thesis
    using assms(1) ok assms(2,4) unfolding reports_sound_def
    by (auto simp: assms(3) ball_update_where)
qed

lemma keeps_bindD:
  assumes "I (snd (m w))" "\<And>a. keeps I (f a)" shows "I (snd (bindM m f w))"
proof -
  obtain r w' where r: "m w = (r, w')" by fastforce
  with assms show ?thesis by (cases r) (simp_all add: bindM_exec keeps_def)
qed

lemma reports_sound_resolve:
  fixes w w' :: "'w content_world_scheme"
  assumes I: "reports_sound w" and r: "select_one (\<lambda>r. rp_id r = i) (reports w) = Some r" "rp_reporter r \<noteq> Some u"
    and run: "update_report i ''UNDER_REVIEW''
      (\<lambda>t r. r\<lparr>rp_state := report_outcome_code out, rp_resolved_by := Some u, rp_note := Some msg, rp_updated_at := t\<rparr>)
      ''report_resolved_by_fkey'' u w = (Inr hit, w')"
  shows "reports_sound w'"
  using I
proof (rule reports_sound_update[OF _ update_report_Inr[OF run]])
  fix x assume x: "x \<in> set (reports w)" "rp_id x = i \<and> rp_state x = lit ''UNDER_REVIEW''" "report_ok x"
  have "x = r"
    using x(1,2) r(1) I by (auto simp: reports_sound_def distinct_map inj_on_def dest!: select_one_SomeD)
  then show "report_ok (x\<lparr>rp_state := report_outcome_code out, rp_resolved_by := Some u, rp_note := Some msg,
      rp_updated_at := now w\<rparr>)"
    using x r(2) by (auto simp: report_ok_def report_closed_def report_outcome_code_def lit_def split: report_outcome.split)
qed (auto simp: is_live_report_def report_outcome_code_def lit_def split: report_outcome.split)

lemma reports_sound_create:
  fixes w w' :: "'w content_world_scheme"
  assumes "reports_sound w" and "create_report n w = (Inr i, w')"
  shows "reports_sound w'"
proof -
  have "next_report w' = next_report w + 1 \<and> \<not> (\<exists>r \<in> set (reports w). duplicates_report n r)
    \<and> (\<exists>r. reports w' = reports w @ [r] \<and> rp_id r = next_report w \<and> report_ok r \<and>
         report_key r = (Some (nr_reporter n), report_target_code (nr_target_type n), nr_target_id n))"
    using assms(2) unfolding create_report_def
    by (elim sql_InrE)
      (auto simp: check_user_def check_that_def report_ok_def report_key_def split: if_splits)
  then show ?thesis using assms(1)
    by (fastforce simp: reports_sound_def report_key_def duplicates_report_def)
qed

interpretation reports_sound: report_invariant V reports_sound for V
proof
  fix v w :: "'w content_world_scheme" and i u msg out r
  show "reports_sound w" if "report_part v = report_part w" "reports_sound v"
    using that by (simp add: report_part_def reports_sound_def)
  assume I: "reports_sound w" and r: "select_one (\<lambda>r. rp_id r = i) (reports w) = Some r" "rp_reporter r \<noteq> Some u"
  let ?m = "update_report i ''UNDER_REVIEW''
    (\<lambda>t r. r\<lparr>rp_state := report_outcome_code out, rp_resolved_by := Some u, rp_note := Some msg, rp_updated_at := t\<rparr>)
    ''report_resolved_by_fkey'' u :: ('w content_world_scheme, moderation_error, bool) m"
  have "reports_sound (snd (?m w))"
    unfolding update_report_def
    by (rule snd_sql_Inr[OF table_reports_sound I]) (rule reports_sound_resolve[OF I r], unfold update_report_def)
  then show "reports_sound (snd (resolve_row i u msg out w))"
    unfolding resolve_row_def by (rule keeps_bindD) (intro pres)
next
  fix n i u
  show "keeps reports_sound (create_report n)"
    unfolding create_report_def
    by (rule keeps_sql_Inr[OF table_reports_sound]) (rule reports_sound_create, assumption, unfold create_report_def)
  show "keeps reports_sound (claim_report_row i u)"
    unfolding claim_report_row_def
  proof (intro pres keeps_update_report table_reports_sound)
    fix w hit and w' :: "'w content_world_scheme"
    assume I: "reports_sound w" and run: "update_report i ''OPEN''
      (\<lambda>t r. r\<lparr>rp_state := lit ''UNDER_REVIEW'', rp_claimed_by := Some u, rp_updated_at := t\<rparr>)
      ''report_claimed_by_fkey'' u w = (Inr hit, w')"
    show "reports_sound w'"
      by (rule reports_sound_update[OF I update_report_Inr[OF run]])
        (auto simp: report_ok_def report_closed_def is_live_report_def report_key_def lit_def)
  qed
qed

text \<open>C33: the report desk keeps its books along every run: ids are unique, a report is open
  and unclaimed, claimed, or closed by a moderator who is not its reporter, and no reporter has
  two live reports of the same target.\<close>

theorem reports_stay_sound:
  assumes "reports_sound w" shows "reports_sound (content_run V acts w)"
  by (rule reports_sound.keeps_content_run[OF _ assms]) (simp add: list_all_iff)

section \<open>Who may change anything\<close>

fun permitted :: "content_action \<Rightarrow> bool" where
  "permitted (Community (AddParking u ip new)) = au_verified u"
| "permitted (Community (EditParking u i v e)) = au_verified u"
| "permitted (Community (ProposeChange u i k p)) = au_verified u"
| "permitted (Community (SubmitReview u i r b)) = au_verified u"
| "permitted (Community (RecordVerification u s)) = au_verified u"
| "permitted (Photo (UploadPhoto u ip t b alt)) = au_verified u"
| "permitted (Photo (ApprovePhoto u k i)) = may_moderate u"
| "permitted (Photo (RejectPhoto u k i r)) = may_moderate u"
| "permitted (Moderation (ClaimReport u i)) = may_moderate u"
| "permitted (Moderation (ResolveReport u i out n)) = may_moderate u"
| "permitted (Moderation (HideReview u i)) = may_moderate u"
| "permitted (Moderation (RestoreReview u i)) = may_moderate u"
| "permitted (Moderation (HidePhoto u k i)) = may_moderate u"
| "permitted (Moderation (RestorePhoto u k i)) = may_moderate u"
| "permitted (Moderation (InvalidateParking u i)) = may_moderate u"
| "permitted (Moderation (RestoreParking u i)) = may_moderate u"
| "permitted (Moderation (ApproveProposal u i ov)) = may_moderate u"
| "permitted (Moderation (RejectProposal u i r)) = may_moderate u"
| "permitted a = True"

lemmas gate_defs = require_verified_def photo_require_verified_def photo_require_moderator_def require_moderator_def

lemmas use_case_defs =
  add_parking_location_def apply_parking_edit_def propose_location_change_def submit_review_def record_verification_def
  upload_photo_def approve_photo_def reject_photo_def submit_report_def claim_report_def resolve_report_def
  audited_action_def hide_review_def restore_review_def hide_photo_def restore_photo_def invalidate_parking_def restore_parking_def
  approve_proposal_def reject_proposal_def

lemma not_permitted: "\<not> permitted a \<Longrightarrow> snd (content_act V a w) = w"
  by (cases a rule: permitted.cases) (simp_all add: exec gate_defs use_case_defs Let_def)

text \<open>C30: the gates hold: along any run, whatever is asked for by a user without a verified
  address, or without a moderator's role where one is needed, leaves no trace at all: the run
  ends as if it had never been asked.\<close>

theorem gates_hold: "content_run V acts w = content_run V (filter permitted acts) w"
  by (induction acts arbitrary: w) (simp_all add: not_permitted)

end
