(* ===== verification/Content_Photos.thy ===== *)
theory Content_Photos
  imports Content_Versions
begin

text \<open>
  Guarantees about photos: a rejected photo never comes back, and what an upload may leave
  behind whatever fails on its way: nothing, or one row that waits for review with both of
  its stored derivatives.
\<close>

section \<open>Verdicts\<close>

definition next_photo :: "photo_kind \<Rightarrow> 'w content_world_scheme \<Rightarrow> int" where
  "next_photo k w = (case k of ParkingPhotoKind \<Rightarrow> next_parking_photo w | ReviewPhotoKind \<Rightarrow> next_review_photo w)"

lemma photo_view:
  "photo_part v = photo_part w \<Longrightarrow> photo_rows k v = photo_rows k w"
  "photo_part v = photo_part w \<Longrightarrow> next_photo k v = next_photo k w"
  by (simp_all add: photo_part_def photo_rows_def next_photo_def split: photo_kind.split)

lemma truncate_judge [simp]: "photo_row.truncate (judge v p) = judge v (photo_row.truncate p)"
  by (cases p) (simp add: judge_def photo_row.defs split: option.split)

lemma truncate_state [simp]:
  "in_state i st (photo_row.truncate p) = in_state i st p" "ph_id (photo_row.truncate p) = ph_id p"
  "ph_state (photo_row.truncate p) = ph_state p"
  by (simp_all add: in_state_def photo_row.defs)

lemma truncate_update:
  "map photo_row.truncate (update_where (in_state i st) (judge v) t)
    = update_where (in_state i st) (judge v) (map photo_row.truncate t)"
  by (induction t) simp_all

lemma judge_fields [simp]: "ph_id (judge v p) = ph_id p" "ph_state (judge v p) = pv_state v"
  by (simp_all add: judge_def)

lemma judge_photo_rows:
  assumes "judge_photo k i st v w = Inr (row, w')"
  shows "row = None \<and> photo_rows k' w' = photo_rows k' w \<or>
    (\<exists>p. row = Some (judge v p) \<and> select_one (in_state i st) (photo_rows k w) = Some p
      \<and> photo_rows k' w' = (if k' = k then update_where (in_state i st) (judge v) (photo_rows k w) else photo_rows k' w))"
    "next_photo k' w' = next_photo k' w"
  using assms
  by (auto simp: judge_photo_def photo_rows_def next_photo_def check_user_def check_that_def truncate_update
      split: option.splits photo_kind.splits if_splits)

lemma insert_pending_rows:
  assumes "insert_pending new w = (Inr i, w')"
  shows "i = next_photo (target_kind (nh_target new)) w"
    "photo_rows (target_kind (nh_target new)) w' = photo_rows (target_kind (nh_target new)) w @ [pending_row new i (now w)]"
    "next_photo (target_kind (nh_target new)) w' = i + 1"
    "k \<noteq> target_kind (nh_target new) \<Longrightarrow> photo_rows k w' = photo_rows k w \<and> next_photo k w' = next_photo k w"
    "objects w' = objects w"
  using assms unfolding insert_pending_def
  by (elim sql_InrE;
      auto simp: check_user_def check_location_def check_that_def photo_rows_def next_photo_def target_kind_def
        pending_row_def photo_row.defs split: photo_target.splits photo_kind.splits if_splits)+

definition photo_ids_ok :: "photo_kind \<Rightarrow> 'w content_world_scheme \<Rightarrow> bool" where
  "photo_ids_ok k w \<longleftrightarrow>
     distinct (map ph_id (photo_rows k w)) \<and> (\<forall>p \<in> set (photo_rows k w). ph_id p < next_photo k w)"

definition states_of :: "photo_kind \<Rightarrow> int \<Rightarrow> 'w content_world_scheme \<Rightarrow> ustring list" where
  "states_of k i w = map ph_state (filter (\<lambda>p. ph_id p = i) (photo_rows k w))"

definition rejected_photo :: "photo_kind \<Rightarrow> int \<Rightarrow> 'w content_world_scheme \<Rightarrow> bool" where
  "rejected_photo k i w \<longleftrightarrow> states_of k i w = [lit ''REJECTED''] \<and> i < next_photo k w"

lemma states_update:
  assumes "map ph_state (filter (\<lambda>p. ph_id p = i) t) = [lit ''REJECTED'']" "lit st \<noteq> lit ''REJECTED''"
  shows "map ph_state (filter (\<lambda>p. ph_id p = i) (update_where (in_state j st) (judge v) t)) = [lit ''REJECTED'']"
proof -
  have "filter (\<lambda>p. ph_id p = i) (update_where (in_state j st) (judge v) t) = filter (\<lambda>p. ph_id p = i) t"
    if "\<forall>p \<in> set (filter (\<lambda>p. ph_id p = i) t). ph_state p = lit ''REJECTED''"
    using that assms(2) by (induction t) (auto simp: in_state_def)
  moreover have "\<forall>p \<in> set (filter (\<lambda>p. ph_id p = i) t). ph_state p = lit ''REJECTED''"
    using arg_cong[OF assms(1), of set] by auto
  ultimately show ?thesis using assms(1) by simp
qed

lemma table_rejected: "table_inv (rejected_photo k i)"
  by (simp add: table_inv_def rejected_photo_def states_of_def photo_rows_def next_photo_def split: photo_kind.split)

lemma rejected_judged:
  assumes "lit st \<noteq> lit ''REJECTED''"
  shows "keeps (rejected_photo k i) (sql conv (\<lambda>w. judge_photo k' j st (f w) w))"
proof (rule keeps_sql[OF table_rejected])
  fix w row w'
  assume "rejected_photo k i w" "judge_photo k' j st (f w) w = Inr (row, w')"
  then show "rejected_photo k i w'"
    using judge_photo_rows[of k' j st "f w" w row w' k] states_update[OF _ assms, of i "photo_rows k w" j "f w"]
    by (auto simp: rejected_photo_def states_of_def split: if_splits)
qed

lemma rejected_insert: "keeps (rejected_photo k i) (insert_pending new)"
  unfolding insert_pending_def
proof (rule keeps_sql_Inr[OF table_rejected], fold insert_pending_def)
  fix w n w'
  assume "rejected_photo k i w" "insert_pending new w = (Inr n, w')"
  then show "rejected_photo k i w'"
    using insert_pending_rows[of new w n w']
    by (cases "k = target_kind (nh_target new)") (auto simp: rejected_photo_def states_of_def pending_row_def)
qed

interpretation rejected: photo_row_invariant V "rejected_photo k i" for V k i
proof
  show "rejected_photo k i w" if "photo_part v = photo_part w" "rejected_photo k i v" for v w
    using that photo_view[OF that(1)] by (simp add: rejected_photo_def states_of_def)
  show "keeps (rejected_photo k i) (insert_pending new)" for new by (rule rejected_insert)
  fix k' j u pos reason
  show "keeps (rejected_photo k i) (approve_row k' j u pos)" "keeps (rejected_photo k i) (reject_row k' j u reason)"
    "keeps (rejected_photo k i) (hide_photo_row k' j u)" "keeps (rejected_photo k i) (restore_photo_row k' j u)"
    unfolding approve_row_def reject_row_def hide_photo_row_def restore_photo_row_def
    by (intro pres rejected_judged; simp add: lit_def)+
qed

lemma filter_update_where:
  "(\<And>r. A (f r) = A r) \<Longrightarrow> filter A (update_where P f t) = update_where P f (filter A t)"
  by (induction t) auto

lemma row_of_id:
  assumes "photo_ids_ok k w" "p \<in> set (photo_rows k w)"
  shows "filter (\<lambda>q. ph_id q = ph_id p) (photo_rows k w) = [p]" "ph_id p < next_photo k w"
proof -
  have "filter (\<lambda>q. ph_id q = ph_id p) t = [p]" if "distinct (map ph_id t)" "p \<in> set t" for t
    using that by (induction t) (auto simp: filter_empty_conv rev_image_eqI)
  with assms show "filter (\<lambda>q. ph_id q = ph_id p) (photo_rows k w) = [p]" "ph_id p < next_photo k w"
    by (auto simp: photo_ids_ok_def)
qed

lemma states_of_judged:
  assumes "photo_ids_ok k w" "select_one (in_state i st) (photo_rows k w) = Some p"
    "photo_rows k w' = update_where (in_state i st) (judge v) (photo_rows k w)" "next_photo k w' = next_photo k w"
  shows "states_of k i w' = [pv_state v] \<and> i < next_photo k w'"
proof -
  have p: "p \<in> set (photo_rows k w)" "in_state i st p" "ph_id p = i"
    using select_one_SomeD[OF assms(2)] by (simp_all add: in_state_def)
  show ?thesis
    using row_of_id[OF assms(1) p(1)] p(2,3) assms(3,4) by (simp add: states_of_def filter_update_where)
qed

lemma states_of_select:
  assumes "photo_ids_ok k w" "select_one (\<lambda>p. ph_id p = i) (photo_rows k w) = Some p"
  shows "states_of k i w = [ph_state p] \<and> i < next_photo k w"
  using row_of_id[OF assms(1)] select_one_SomeD[OF assms(2)] by (auto simp: states_of_def)

lemma photo_state_rejected: "photo_state_from c = Inr PhotoRejected \<Longrightarrow> c = lit ''REJECTED''"
  by (auto simp: photo_state_from_def split: if_splits)

lemma photo_rows_faults [simp]: "photo_rows k (w\<lparr>faults := fs\<rparr>) = photo_rows k w" "next_photo k (w\<lparr>faults := fs\<rparr>) = next_photo k w"
  by (simp_all add: photo_rows_def next_photo_def split: photo_kind.split)

lemma photo_ids_faults [simp]: "photo_ids_ok k (w\<lparr>faults := fs\<rparr>) = photo_ids_ok k w"
  by (simp add: photo_ids_ok_def)

lemma rejected_after:
  assumes "photo_ids_ok k w" and "reject_photo u k i reason w = (Inr (), w')"
  shows "rejected_photo k i w'"
proof -
  from assms(2)[unfolded reject_photo_def] obtain found w1 p where
    g: "get_for_moderation k i w = (Inr found, w1)" "found = Some p" and
    rest: "(case pm_state p of PhotoRejected \<Rightarrow> retM () | PhotoApproved \<Rightarrow> throwM NotPending | PhotoHidden \<Rightarrow> throwM NotPending
       | PhotoPending \<Rightarrow>
           bindM (reject_row k i (au_id u) (trim reason)) (\<lambda>gone.
           thenM (ignoreM (delete_object (ph_key gone))) (
           thenM (case ph_thumbnail gone of None \<Rightarrow> retM () | Some th \<Rightarrow> ignoreM (delete_object th))
                 (photo_audit (service_event (au_id u) ''photo.rejected'' (target_type_code k) i
                    [(lit ''reason'', JString (trim reason))]))))) w1 = (Inr (), w')"
    by (elim bindM_InrE thenM_InrE okOrM_InrE requireM_InrE) (simp add: photo_require_moderator_def exec split: if_splits)
  from g(1)[unfolded get_for_moderation_def] obtain fs where w1: "w1 = w\<lparr>faults := fs\<rparr>"
    and f: "found = map_option (\<lambda>p. \<lparr>pm_id = ph_id p, pm_kind = k, pm_parent = ph_parent p,
        pm_state = (case photo_state_from (ph_state p) of Inr st \<Rightarrow> st | Inl _ \<Rightarrow> PhotoPending),
        pm_key = ph_key p, pm_thumbnail = ph_thumbnail p\<rparr>) (select_one (\<lambda>p. ph_id p = i) (photo_rows k w))"
    by (rule query_InrE) simp
  from f g(2) obtain r where r: "select_one (\<lambda>p. ph_id p = i) (photo_rows k w) = Some r"
      "pm_state p = (case photo_state_from (ph_state r) of Inr st \<Rightarrow> st | Inl _ \<Rightarrow> PhotoPending)"
    by (cases "select_one (\<lambda>p. ph_id p = i) (photo_rows k w)") auto
  show ?thesis
  proof (cases "pm_state p")
    case PhotoRejected
    then have "w' = w1" "ph_state r = lit ''REJECTED''"
      using rest r(2) by (auto simp: exec photo_state_rejected split: sum.splits)
    then show ?thesis using states_of_select[OF assms(1) r(1)] w1 by (simp add: rejected_photo_def states_of_def)
  next
    case PhotoPending
    from rest[unfolded PhotoPending photo_state.case] obtain gone w2 where row: "reject_row k i (au_id u) (trim reason) w1 = (Inr gone, w2)"
      and tail: "thenM (ignoreM (delete_object (ph_key gone))) (
           thenM (case ph_thumbnail gone of None \<Rightarrow> retM () | Some th \<Rightarrow> ignoreM (delete_object th))
                 (photo_audit (service_event (au_id u) ''photo.rejected'' (target_type_code k) i
                    [(lit ''reason'', JString (trim reason))]))) w2 = (Inr (), w')"
      by (rule bindM_InrE)
    from row[unfolded reject_row_def] obtain fs' x where
      j: "judge_photo k i ''PENDING_REVIEW'' \<lparr>pv_state = lit ''REJECTED'', pv_reason = Some (Some (trim reason)),
            pv_position = None, pv_reviewer = au_id u, pv_at = now w1\<rparr> (w1\<lparr>faults := fs'\<rparr>) = Inr (Some x, w2)"
      by (elim bindM_InrE okOrM_InrE sql_InrE) auto
    have "rejected_photo k i w2"
      using judge_photo_rows[OF j, of k] states_of_judged[of k "w1\<lparr>faults := fs'\<rparr>" i "''PENDING_REVIEW''" _ w2] assms(1) w1
      by (auto simp: rejected_photo_def)
    moreover have keep: "keeps (rejected_photo k i) (thenM (ignoreM (delete_object (ph_key gone))) (
           thenM (case ph_thumbnail gone of None \<Rightarrow> retM () | Some th \<Rightarrow> ignoreM (delete_object th))
                 (photo_audit (service_event (au_id u) ''photo.rejected'' (target_type_code k) i
                    [(lit ''reason'', JString (trim reason))]))))"
      by (intro pres rejected.keeps_base)
    ultimately show ?thesis using keepsD[OF keep] tail by blast
  qed (use rest in \<open>simp_all add: exec\<close>)
qed

text \<open>C32: a rejection is final: once the rejection of a photo returned, there is exactly one
  photo of that id and it stays rejected along every run; no approval, hiding or restoring
  brings it back, and no upload takes its id.\<close>

theorem rejection_is_final:
  assumes "photo_ids_ok k w" and "reject_photo u k i reason w = (Inr (), w')"
  shows "map ph_state (filter (\<lambda>p. ph_id p = i) (photo_rows k (content_run V acts w'))) = [lit ''REJECTED'']"
  using rejected.keeps_content_run[OF _ rejected_after[OF assms], of acts V]
  by (simp add: list_all_iff rejected_photo_def states_of_def)

section \<open>Uploads\<close>

definition object_is :: "ustring \<Rightarrow> byte list \<Rightarrow> 'w content_world_scheme \<Rightarrow> bool" where
  "object_is key b w \<longleftrightarrow> (\<exists>ob \<in> set (objects w). ob_key ob = key \<and> ob_bytes ob = b)"

lemma key_suffix: "full_key upload \<noteq> thumb_key v"
proof
  assume "full_key upload = thumb_key v"
  then have "take 9 (rev (full_key upload)) = take 9 (rev (thumb_key v))" by simp
  then show False by (simp add: full_key_def thumb_key_def lit_def)
qed

lemma storage_call_InrE:
  assumes "storage_call f w = (Inr a, w')"
  obtains fs where "f (w\<lparr>storage_faults := fs\<rparr>) = (a, w')"
proof (cases "storage_faults w")
  case Nil
  have "w = w\<lparr>storage_faults := []\<rparr>" using Nil by simp
  with assms Nil that[of "[]"] show ?thesis by (auto simp: storage_call_def split: prod.splits)
next
  case (Cons x fs)
  with assms that[of fs] show ?thesis by (auto simp: storage_call_def split: option.splits prod.splits)
qed

lemma put_object_stores: "put_object key b w = (Inr x, w') \<Longrightarrow> object_is key b w'"
  unfolding put_object_def by (elim storage_call_InrE) (auto simp: object_is_def)

lemma put_object_others:
  "put_object key b w = (r, w') \<Longrightarrow> k \<noteq> key \<Longrightarrow> object_is k c w' = object_is k c w"
  by (auto simp: put_object_def storage_call_def object_is_def split: list.splits option.splits)

lemma store_derivatives_stores:
  assumes "store_derivatives upload img w = (Inr x, w')"
  shows "object_is (full_key upload) (im_full img) w'" "object_is (thumb_key upload) (im_thumb img) w'"
  using assms key_suffix[of upload upload] unfolding store_derivatives_def
  by (elim thenM_InrE bindM_InrE mapErrM_InrE;
      auto simp: exec put_object_others[OF _ key_suffix] put_object_stores split: prod.splits sum.splits)+

lemma process_image_pure: "process_image K lims bytes v = (fst (process_image K lims bytes w), v)"
  by (simp add: process_image_def exec Let_def split: option.split prod.split)

text \<open>The two objects of an upload, named after its random id, and the others.\<close>

definition upload_keys :: "ustring \<Rightarrow> ustring set" where
  "upload_keys up = {full_key up, thumb_key up}"

definition other_objects :: "ustring \<Rightarrow> 'w content_world_scheme \<Rightarrow> stored_object list" where
  "other_objects up w = filter (\<lambda>ob. ob_key ob \<notin> upload_keys up) (objects w)"

definition fresh_upload :: "ustring \<Rightarrow> 'w content_world_scheme \<Rightarrow> bool" where
  "fresh_upload up w \<longleftrightarrow> (\<forall>ob \<in> set (objects w). ob_key ob \<notin> upload_keys up)"

definition store_failures :: "'w content_world_scheme \<Rightarrow> nat" where
  "store_failures w = length (filter (\<lambda>f. f \<noteq> None) (storage_faults w))"

lemma fresh_upload_objects: "fresh_upload up w \<Longrightarrow> other_objects up w = objects w"
  by (simp add: fresh_upload_def other_objects_def)

lemma key_in_upload [simp]: "full_key up \<in> upload_keys up" "thumb_key up \<in> upload_keys up"
  by (simp_all add: upload_keys_def)

lemma other_objects_kept:
  "put_object key b w = (r, w') \<Longrightarrow> key \<in> upload_keys up \<Longrightarrow> other_objects up w' = other_objects up w"
  "delete_object key w = (r', w') \<Longrightarrow> key \<in> upload_keys up \<Longrightarrow> other_objects up w' = other_objects up w"
  by (auto simp: put_object_def delete_object_def storage_call_def other_objects_def
      intro!: filter_cong[OF refl] split: list.splits option.splits)

lemma put_object_failed:
  "put_object key b w = (Inl e, w') \<Longrightarrow> objects w' = objects w \<and> store_failures w = Suc (store_failures w')"
  by (auto simp: put_object_def storage_call_def store_failures_def split: list.splits option.splits)

lemma put_object_done:
  "put_object key b w = (Inr x, w') \<Longrightarrow> store_failures w' = store_failures w
     \<and> objects w' = filter (\<lambda>ob. ob_key ob \<noteq> key) (objects w) @ [\<lparr>ob_key = key, ob_bytes = b, ob_modified = now w\<rparr>]"
  by (auto simp: put_object_def storage_call_def store_failures_def split: list.splits option.splits)

lemma delete_object_done:
  "store_failures w = 0 \<Longrightarrow> delete_object key w = (r, w') \<Longrightarrow> store_failures w' = 0
     \<and> objects w' = filter (\<lambda>ob. ob_key ob \<noteq> key) (objects w)"
  by (auto simp: delete_object_def storage_call_def store_failures_def split: list.splits option.splits)

lemma ignored_delete:
  assumes "thenM (ignoreM (delete_object key)) m w = (r, w')"
  obtains r0 v where "delete_object key w = (r0, v)" "m v = (r, w')"
proof -
  obtain r0 v where d: "delete_object key w = (r0, v)" by fastforce
  then show thesis using assms by (intro that[OF d]) (simp add: exec)
qed

text \<open>Storing the derivatives: a failure removes what landed, unless the store fails again.\<close>

lemma store_derivatives_outcome:
  assumes "store_derivatives up img w = (r, w')"
  shows "other_objects up w' = other_objects up w
    \<and> (case r of Inl e \<Rightarrow> (\<exists>s. e = PStorage s) \<and> (fresh_upload up w \<and> store_failures w \<le> 1 \<longrightarrow> objects w' = objects w)
       | Inr _ \<Rightarrow> store_failures w' = store_failures w)"
proof -
  obtain r1 v1 where p1: "put_object (full_key up) (im_full img) w = (r1, v1)" by fastforce
  show ?thesis
  proof (cases r1)
    case (Inl e)
    then have "r = Inl (PStorage e)" "w' = v1" using assms p1 by (simp_all add: store_derivatives_def exec mapErrM_def)
    then show ?thesis using put_object_failed[OF p1[unfolded Inl]] by (simp add: other_objects_def)
  next
    case (Inr x)
    note d1 = put_object_done[OF p1[unfolded Inr]] and o1 = other_objects_kept(1)[OF p1 key_in_upload(1)]
    obtain r2 v2 where p2: "put_object (thumb_key up) (im_thumb img) v1 = (r2, v2)" by fastforce
    show ?thesis
    proof (cases r2)
      case (Inl e)
      obtain r3 v3 where p3: "delete_object (full_key up) v2 = (r3, v3)" by fastforce
      have r: "r = Inl (PStorage e)" "w' = v3"
        using assms p1 Inr p2 Inl p3 by (simp_all add: store_derivatives_def exec mapErrM_def)
      note f2 = put_object_failed[OF p2[unfolded Inl]]
      have "objects v3 = objects w" if "fresh_upload up w" "store_failures w \<le> 1"
      proof -
        have "store_failures v2 = 0" using f2 d1 that(2) by simp
        from delete_object_done[OF this p3] have "objects v3 = filter (\<lambda>ob. ob_key ob \<noteq> full_key up) (objects w)"
          using f2 d1 by simp
        also have "\<dots> = objects w" using that(1) by (force simp: fresh_upload_def filter_id_conv)
        finally show ?thesis .
      qed
      moreover have "other_objects up v3 = other_objects up w"
        using other_objects_kept(2)[OF p3 key_in_upload(1)] o1 f2 by (simp add: other_objects_def)
      ultimately show ?thesis by (simp add: r)
    next
      case (Inr y)
      then have "r = Inr ()" "w' = v2"
        using assms p1 \<open>r1 = Inr x\<close> p2 by (simp_all add: store_derivatives_def exec mapErrM_def)
      then show ?thesis
        using put_object_done[OF p2[unfolded Inr]] d1 o1 other_objects_kept(1)[OF p2 key_in_upload(2)] by simp
    qed
  qed
qed

text \<open>What an upload may leave: nothing, or the row with both derivatives.\<close>

definition photo_landed ::
  "new_photo \<Rightarrow> processed_image \<Rightarrow> 'w content_world_scheme \<Rightarrow> 'w content_world_scheme \<Rightarrow> bool" where
  "photo_landed new img w w' \<longleftrightarrow>
     object_is (nh_key new) (im_full img) w' \<and> object_is (nh_thumbnail new) (im_thumb img) w'
     \<and> (\<exists>i t. photo_rows (target_kind (nh_target new)) w' = photo_rows (target_kind (nh_target new)) w @ [pending_row new i t])
     \<and> (\<forall>k. k \<noteq> target_kind (nh_target new) \<longrightarrow> photo_rows k w' = photo_rows k w)"

definition nothing_landed ::
  "ustring \<Rightarrow> photo_error + 'a \<Rightarrow> 'w content_world_scheme \<Rightarrow> 'w content_world_scheme \<Rightarrow> bool" where
  "nothing_landed up r w w' \<longleftrightarrow>
     (\<exists>e. r = Inl e \<and> content_tables w' = content_tables w
        \<and> (fresh_upload up w \<and> (store_failures w = 0 \<or> store_failures w = 1 \<and> (\<exists>s. e = PStorage s))
             \<longrightarrow> objects w' = objects w))"

lemma audit_outside: "keeps (\<lambda>w :: 'w content_world_scheme. auth_world.more w = c) (photo_audit ev)"
  unfolding photo_audit_def audit_record_def
  by (intro pres account_frame) (auto split: if_splits)

lemma landed_outside:
  "auth_world.more w'' = auth_world.more w' \<Longrightarrow> photo_landed new img w w' \<Longrightarrow>
     photo_landed new img w w'' \<and> objects w'' = objects w'"
  using parts_outside(2)[of w'' w'] photo_view(1)[of w'' w']
  by (cases w'', cases w') (simp add: photo_landed_def object_is_def)

lemma insert_failed:
  fixes w v :: "'w content_world_scheme"
  assumes "insert_pending new w = (Inl e, v)"
  shows "content_tables v = content_tables w \<and> objects v = objects w \<and> storage_faults v = storage_faults w \<and> (\<forall>s. e \<noteq> PStorage s)"
  using assms unfolding insert_pending_def
  by (auto simp: sql_def run_stmt_def content_tables_def part_defs photo_of_db_def
      split: list.splits option.splits sum.splits db_failure.splits)

lemma still_delete: "keeps (\<lambda>w. content_tables w = c) (delete_object key)"
  by (intro still.keeps_base)

lemma insert_outcome:
  fixes w w' :: "'w content_world_scheme"
  assumes "insert_or_discard new w = (r, w')" "nh_key new = full_key up" "nh_thumbnail new = thumb_key up"
    "object_is (full_key up) (im_full img) w" "object_is (thumb_key up) (im_thumb img) w"
  shows "other_objects up w' = other_objects up w
    \<and> (case r of Inl e \<Rightarrow> content_tables w' = content_tables w \<and> (\<forall>s. e \<noteq> PStorage s)
          \<and> (store_failures w = 0 \<longrightarrow> objects w' = other_objects up w)
       | Inr i \<Rightarrow> photo_landed new img w w')"
proof -
  obtain r0 v where ins: "insert_pending new w = (r0, v)" by fastforce
  show ?thesis
  proof (cases r0)
    case (Inl e)
    note f = insert_failed[OF ins[unfolded Inl]]
    have "thenM (ignoreM (delete_object (thumb_key up))) (thenM (ignoreM (delete_object (full_key up))) (throwM e)) v = (r, w')"
      using assms(1-3) ins Inl by (simp add: insert_or_discard_def bindM_exec attemptM_exec)
    then obtain r1 v1 r2 where d: "delete_object (thumb_key up) v = (r1, v1)" "delete_object (full_key up) v1 = (r2, w')"
      and r: "r = Inl e" by (elim ignored_delete) (simp add: exec)
    have k: "content_tables w' = content_tables w"
      using keepsD[OF still_delete _ d(1), of "content_tables w"] keepsD[OF still_delete _ d(2), of "content_tables w"] f
      by simp
    moreover have "other_objects up w' = other_objects up w"
      using other_objects_kept(2)[OF d(1) key_in_upload(2)] other_objects_kept(2)[OF d(2) key_in_upload(1)] f
      by (simp add: other_objects_def)
    moreover have "objects w' = other_objects up w" if "store_failures w = 0"
    proof -
      have "store_failures v = 0" using that f by (simp add: store_failures_def)
      from delete_object_done[OF this d(1)] delete_object_done[OF _ d(2)] f show ?thesis
        by (auto simp: other_objects_def upload_keys_def intro!: filter_cong)
    qed
    ultimately show ?thesis using f by (simp add: r)
  next
    case (Inr i)
    have r: "r = Inr i" "w' = v" using assms(1) ins Inr by (simp_all add: insert_or_discard_def exec)
    note rows = insert_pending_rows[OF ins[unfolded Inr]]
    then have "objects v = objects w" by auto
    moreover have "photo_landed new img w v"
      using rows assms(2-5) unfolding photo_landed_def object_is_def by auto
    ultimately show ?thesis by (simp add: r other_objects_def)
  qed
qed

text \<open>From the moment the upload has its id.\<close>

lemma upload_stored:
  fixes w w' v :: "'w content_world_scheme" and kd :: 'kd
  assumes run: "thenM (store_derivatives up img) (bindM (getM now) (\<lambda>t. bindM (insert_or_discard (new t))
        (\<lambda>i. thenM (photo_audit (ev i)) (retM (i, kd))))) v = (r, w')"
    and new: "\<And>t. nh_key (new t) = full_key up" "\<And>t. nh_thumbnail (new t) = thumb_key up"
  shows "other_objects up w' = other_objects up v \<and> (nothing_landed up r v w' \<or> (\<exists>t. photo_landed (new t) img v w'))"
proof -
  obtain r1 v1 where s: "store_derivatives up img v = (r1, v1)" by fastforce
  have k: "keeps (\<lambda>w. content_tables w = content_tables v) (store_derivatives up img)"
    unfolding store_derivatives_def by (intro pres still.keeps_base)
  have same: "content_tables v1 = content_tables v" using keepsD[OF k refl s] .
  note so = store_derivatives_outcome[OF s]
  show ?thesis
  proof (cases r1)
    case (Inl e)
    then have "r = Inl e" "w' = v1" using run s by (simp_all add: thenM_def bindM_exec)
    then show ?thesis using so Inl same by (auto simp: nothing_landed_def)
  next
    case (Inr x)
    note st = store_derivatives_stores[OF s[unfolded Inr]]
    have ov: "other_objects up v1 = other_objects up v" "store_failures v1 = store_failures v" using so Inr by simp_all
    let ?new = "new (now v1)"
    have run1: "bindM (insert_or_discard ?new) (\<lambda>i. thenM (photo_audit (ev i)) (retM (i, kd))) v1 = (r, w')"
      using run s Inr by (simp add: thenM_def bindM_exec getM_def)
    obtain r2 v2 where ins: "insert_or_discard ?new v1 = (r2, v2)" by fastforce
    note io = insert_outcome[OF ins new(1) new(2) st]
    show ?thesis
    proof (cases r2)
      case (Inl e)
      then have "r = Inl e" "w' = v2" using run1 ins by (simp_all add: bindM_exec)
      then show ?thesis using io Inl same ov fresh_upload_objects[of up v] by (auto simp: nothing_landed_def)
    next
      case (Inr i)
      have "photo_landed ?new img v1 v2" using io Inr by simp
      moreover have "photo_rows k v1 = photo_rows k v" for k
        using same photo_view(1)[of v1 v k] by (simp add: content_tables_def)
      moreover have "auth_world.more w' = auth_world.more v2"
      proof -
        have keep: "keeps (\<lambda>w. auth_world.more w = auth_world.more v2)
            (thenM (photo_audit (ev i)) (retM (i, kd)) :: ('w content_world_scheme, photo_error, int \<times> 'kd) m)"
          by (intro pres audit_outside)
        then show ?thesis
          using keepsD[OF keep refl] run1 ins Inr by (auto simp: bindM_exec)
      qed
      ultimately have "photo_landed ?new img v w'" "objects w' = objects v2"
        using landed_outside[of w' v2 ?new img v1] by (simp_all add: photo_landed_def)
      then show ?thesis using io ov by (auto simp: other_objects_def)
    qed
  qed
qed

text \<open>Everything before the id is drawn touches neither the content, nor the store, nor the
  random blocks.\<close>

definition before_upload :: "'w content_world_scheme \<Rightarrow> 'w content_world_scheme \<Rightarrow> bool" where
  "before_upload w v \<longleftrightarrow> content_tables v = content_tables w \<and> objects v = objects w
     \<and> storage_faults v = storage_faults w \<and> entropy v = entropy w \<and> drawn v = drawn w"

lemma before_limits: "before_upload w (v\<lparr>limiter := l\<rparr>) = before_upload w v"
  by (simp add: before_upload_def content_tables_def part_defs)

lemma keeps_before: "keeps (before_upload w) (photo_allowed key lm window)"
  "keeps (before_upload w) (process_image K lims bytes)" "keeps (before_upload w) (photo_require_verified u)"
  unfolding photo_allowed_def rate_check_def process_image_def photo_require_verified_def Let_def
  by (intro pres; simp add: keeps_def before_limits split: prod.split)+


end
