(* ===== verification/Content_Paging.thy ===== *)
theory Content_Paging
  imports Community_Store
begin

text \<open>
  Keyset pages: a reader who asks for one page after another, each after the key of the last
  row of the page before, stops, and has then seen every row exactly once, in the listing's
  order.
\<close>

section \<open>Pages\<close>

definition feed_order :: "('r \<Rightarrow> int \<times> int) \<Rightarrow> 'r \<Rightarrow> int \<times> int" where
  "feed_order key r = (- fst (key r), - snd (key r))"

definition after_cursor :: "('r \<Rightarrow> int \<times> int) \<Rightarrow> (int \<times> int) option \<Rightarrow> 'r \<Rightarrow> bool" where
  "after_cursor key after r = (case after of None \<Rightarrow> True | Some c \<Rightarrow> key r < c)"

definition feed :: "('r \<Rightarrow> int \<times> int) \<Rightarrow> (int \<times> int) option \<Rightarrow> 'r list \<Rightarrow> 'r list" where
  "feed key after t = sort_key (feed_order key) (filter (after_cursor key after) t)"

lemma keyset_page_feed: "keyset_page key after limit t = take (nat (clamp 1 200 limit)) (feed key after t)"
  by (simp add: keyset_page_def feed_def feed_order_def[abs_def] after_cursor_def[abs_def])

lemma feed_order_less: "feed_order key r < feed_order key s \<longleftrightarrow> key s < key r"
  by (auto simp: feed_order_def less_prod_def less_eq_prod_def)

lemma page_size: "nat (clamp 1 200 limit) = Suc (nat (clamp 1 200 limit) - 1)"
  by (simp add: clamp_def)

lemma filter_suffix:
  assumes "sorted_wrt (\<lambda>r s. key s < key r) (p @ q)" "p \<noteq> []"
  shows "filter (\<lambda>r. (key r :: int \<times> int) < key (last p)) (p @ q) = q"
proof -
  have "key (last p) \<le> key r" if "r \<in> set p" for r
  proof -
    have "sorted_wrt (\<lambda>r s. key s < key r) (butlast p @ [last p])" using assms by (simp add: sorted_wrt_append)
    moreover have "r \<in> set (butlast p) \<or> r = last p"
      using that assms(2) by (metis append_butlast_last_id in_set_conv_decomp set_ConsD Un_iff set_append empty_iff empty_set)
    ultimately show ?thesis by (auto simp: sorted_wrt_append less_imp_le)
  qed
  then have "filter (\<lambda>r. key r < key (last p)) p = []" by (auto simp: filter_empty_conv not_less)
  moreover have "filter (\<lambda>r. key r < key (last p)) q = q"
    using assms by (auto simp: sorted_wrt_append intro!: filter_True)
  ultimately show ?thesis by simp
qed

lemma feed_strict:
  assumes "distinct (map key t)"
  shows "sorted_wrt (\<lambda>r s. key s < key r) (feed key after t)"
proof -
  have "distinct (map (feed_order key) t)"
    using assms by (auto simp: distinct_map inj_on_def feed_order_def prod_eq_iff)
  then have "distinct (map (feed_order key) (feed key after t))"
    unfolding feed_def by (auto simp: distinct_map distinct_sort inj_on_def)
  moreover have "sorted (map (feed_order key) (feed key after t))" unfolding feed_def by simp
  ultimately have "sorted_wrt (<) (map (feed_order key) (feed key after t))"
    by (simp add: strict_sorted_iff)
  then show ?thesis by (simp add: sorted_wrt_map feed_order_less)
qed

lemma feed_rest:
  assumes "distinct (map key t)" and p: "take n (feed key after t) = p" "p \<noteq> []"
  shows "feed key after t = p @ feed key (Some (key (last p))) t"
proof -
  let ?S = "feed key after t"
  have S: "?S = p @ drop n ?S" using append_take_drop_id[of n ?S] p(1) by simp
  have q: "filter (\<lambda>r. key r < key (last p)) ?S = drop n ?S"
    using filter_suffix[of key p "drop n ?S"] feed_strict[OF assms(1), of after] S p(2) by simp
  have "last p \<in> set ?S" using S p(2) by (metis last_in_set Un_iff set_append)
  then have "after_cursor key after (last p)" by (simp add: feed_def)
  then have "filter (after_cursor key (Some (key (last p)))) t
      = filter (\<lambda>r. key r < key (last p)) (filter (after_cursor key after) t)"
    by (auto simp: after_cursor_def intro!: filter_cong split: option.splits)
  then have "feed key (Some (key (last p))) t = filter (\<lambda>r. key r < key (last p)) ?S"
    unfolding feed_def by (simp add: filter_sort)
  with q S show ?thesis by simp
qed

section \<open>Walking the favorites\<close>

lemma list_favorite_rows_returns:
  assumes "list_favorite_rows u after limit w = (Inr rows, w')"
  shows "rows = keyset_page favorite_key after limit (filter (\<lambda>f. fv_user f = u) (favorites w))" "favorites w' = favorites w"
  using assms unfolding list_favorite_rows_def by (elim query_InrE; simp)+

function favorites_walk ::
  "int \<Rightarrow> (int \<times> int) option \<Rightarrow> int \<Rightarrow> ('w content_world_scheme, contribution_error, favorite_row list) m" where
  "favorites_walk u after limit w =
     (case list_favorite_rows u after limit w of
        (Inl e, w') \<Rightarrow> (Inl e, w')
      | (Inr [], w') \<Rightarrow> (Inr [], w')
      | (Inr (f # fs), w') \<Rightarrow>
          (case favorites_walk u (Some (favorite_key (last (f # fs)))) limit w' of
             (Inl e, w'') \<Rightarrow> (Inl e, w'')
           | (Inr rest, w'') \<Rightarrow> (Inr ((f # fs) @ rest), w'')))"
  by pat_completeness auto

lemma fewer_left:
  assumes "r \<in> set t" "Q r" "\<not> P r" "\<And>x. P x \<Longrightarrow> Q x"
  shows "length (filter P t) < length (filter Q t)"
proof -
  have le: "length (filter P u) \<le> length (filter Q u)" for u
    using assms(4) by (induction u) (auto simp: le_SucI)
  from assms(1) obtain u v where "t = u @ r # v" by (meson split_list)
  with assms(2,3) le[of u] le[of v] show ?thesis by simp
qed

termination favorites_walk
proof (relation "measure (\<lambda>(u, after, limit, w).
    length (filter (after_cursor favorite_key after) (filter (\<lambda>f. fv_user f = u) (favorites w))))")
  fix u after limit and w w' :: "'w content_world_scheme" and r rows f fs
  assume run: "(r, w') = list_favorite_rows u after limit w" "r = Inr rows" "rows = f # fs"
  let ?t = "filter (\<lambda>f. fv_user f = u) (favorites w)"
  from run have q: "list_favorite_rows u after limit w = (Inr (f # fs), w')" by simp
  have "last (f # fs) \<in> set (feed favorite_key after ?t)"
    using list_favorite_rows_returns(1)[OF q] in_set_takeD[of "last (f # fs)"]
    unfolding keyset_page_feed by (metis last_in_set list.distinct(1))
  then have "last (f # fs) \<in> set ?t" "after_cursor favorite_key after (last (f # fs))" by (simp_all add: feed_def)
  then show "((u, Some (favorite_key (last (f # fs))), limit, w'), u, after, limit, w)
      \<in> measure (\<lambda>(u, after, limit, w).
          length (filter (after_cursor favorite_key after) (filter (\<lambda>f. fv_user f = u) (favorites w))))"
    using fewer_left[of "last (f # fs)" ?t "after_cursor favorite_key after"
        "after_cursor favorite_key (Some (favorite_key (last (f # fs))))"] list_favorite_rows_returns(2)[OF q]
    by (auto simp: after_cursor_def split: option.splits)
qed simp

declare favorites_walk.simps [simp del]

lemma walk_step:
  fixes w :: "'w content_world_scheme"
  assumes "distinct (map favorite_key (filter (\<lambda>f. fv_user f = u) (favorites w)))"
  shows "favorites_walk u after limit w = (Inr rows, w') \<Longrightarrow>
    rows = feed favorite_key after (filter (\<lambda>f. fv_user f = u) (favorites w))"
  using assms
proof (induction u after limit w arbitrary: rows w' rule: favorites_walk.induct)
  case (1 u after limit w)
  let ?t = "filter (\<lambda>f. fv_user f = u) (favorites w)"
  obtain r v where q: "list_favorite_rows u after limit w = (r, v)" by fastforce
  with "1.prems"(1) obtain page where r: "r = Inr page" by (cases r) (auto simp: favorites_walk.simps[of u after])
  have page: "take (nat (clamp 1 200 limit)) (feed favorite_key after ?t) = page" and v: "favorites v = favorites w"
    using list_favorite_rows_returns[OF q[unfolded r]] by (simp_all add: keyset_page_feed)
  show ?case
  proof (cases page)
    case Nil
    then have "feed favorite_key after ?t = []" using page page_size[of limit] by (metis take_eq_Nil nat.distinct(1))
    with Nil "1.prems"(1) q r show ?thesis by (simp add: favorites_walk.simps[of u after])
  next
    case (Cons f fs)
    with "1.prems"(1) q r obtain rest w'' where
      rec: "favorites_walk u (Some (favorite_key (last (f # fs)))) limit v = (Inr rest, w'')" "rows = (f # fs) @ rest"
      by (auto simp: favorites_walk.simps[of u after] split: prod.splits sum.splits)
    have "rest = feed favorite_key (Some (favorite_key (last (f # fs)))) ?t"
      using "1.IH"[OF q[symmetric] r Cons rec(1)] "1.prems"(2) v by simp
    with rec(2) feed_rest[OF "1.prems"(2) page] Cons show ?thesis by simp
  qed
qed

lemma walk_returns:
  assumes "faults w = []" shows "\<exists>rows w'. favorites_walk u after limit w = (Inr rows, w')"
  using assms
proof (induction u after limit w rule: favorites_walk.induct)
  case (1 u after limit w)
  have q: "list_favorite_rows u after limit w =
      (Inr (keyset_page favorite_key after limit (filter (\<lambda>f. fv_user f = u) (favorites w))), w)"
    using "1.prems" by (simp add: list_favorite_rows_def exec)
  show ?case
  proof (cases "keyset_page favorite_key after limit (filter (\<lambda>f. fv_user f = u) (favorites w))")
    case (Cons f fs)
    then show ?thesis using "1.IH"[OF q[symmetric] refl Cons "1.prems"] q
      by (auto simp: favorites_walk.simps[of u after])
  qed (simp add: q favorites_walk.simps[of u after])
qed

text \<open>C35: paging through one's favorites, each page after the last row of the one before,
  comes to an end, and what it lists is every favorite exactly once, newest first, whatever
  the size of the pages; it can stop short only with an error of the database.\<close>

theorem favorites_walk_complete:
  assumes "distinct (map (\<lambda>f. (fv_user f, fv_location f)) (favorites w))"
  shows "fst (favorites_walk u None limit w)
      = Inr (sort_key (\<lambda>f. (- fv_created_at f, - fv_location f)) (filter (\<lambda>f. fv_user f = u) (favorites w)))
    \<or> faults w \<noteq> [] \<and> (\<exists>e. fst (favorites_walk u None limit w) = Inl e)"
proof -
  let ?t = "filter (\<lambda>f. fv_user f = u) (favorites w)"
  have "distinct (map favorite_key ?t)"
    using assms by (auto simp: distinct_map inj_on_def favorite_key_def prod_eq_iff)
  moreover obtain r w' where r: "favorites_walk u None limit w = (r, w')" by fastforce
  ultimately have "r = Inr (feed favorite_key None ?t)" if "r = Inr rows" for rows
    using walk_step[of u w None limit rows w'] that by simp
  moreover have "faults w \<noteq> []" if "r = Inl e" for e
    using walk_returns[of w u None limit] r that by auto
  moreover have "feed favorite_key None ?t = sort_key (\<lambda>f. (- fv_created_at f, - fv_location f)) ?t"
    by (simp add: feed_def feed_order_def[abs_def] favorite_key_def after_cursor_def[abs_def])
  ultimately show ?thesis using r by (cases r) simp_all
qed

end
