(* ===== verification/Content_Demo.thy ===== *)
theory Content_Demo
  imports Auth_Demo Content_Guarantees Content_Decoding Content_Moderation Content_Photos Content_Paging
begin

text \<open>
  A small directory on top of the demo accounts: one location with a review, a proposal, a
  photo that waits for review, an open report and a favorite, and instances of the functions
  outside the repository.  The guarantees about the content are applied to it.
\<close>

section \<open>The instance\<close>

definition demo_geo :: geo_externals where
  "demo_geo = \<lparr>gx_tz_known = (\<lambda>_. True), gx_lower = (\<lambda>c. [c]), gx_distance = (\<lambda>_ _. 0), gx_knn = (\<lambda>_ _. 0)\<rparr>"

definition demo_codec :: "byte list image_codec" where
  "demo_codec =
     \<lparr>ic_format = (\<lambda>_. Some None), ic_open = (\<lambda>_. Some (\<lparr>pd_width = 4, pd_height = 3\<rparr>, Some Rotate90)), ic_decode = Some,
      ic_rotate90 = rev, ic_rotate180 = id, ic_rotate270 = id, ic_flip_horizontal = id, ic_flip_vertical = id,
      ic_size = (\<lambda>_. \<lparr>pd_width = 3, pd_height = 4\<rparr>), ic_thumbnail = (\<lambda>n. take 1), ic_encode = (\<lambda>q b. Some (q # b))\<rparr>"

definition demo_limits :: photo_limits where
  "demo_limits = \<lparr>max_bytes = 100, max_megapixels = 24, thumb_max_side = 480, derivative_quality = 82\<rparr>"

definition demo_V :: "byte list content_env" where
  "demo_V = \<lparr>en_auth = demo_E, en_geo = demo_geo, en_codec = demo_codec, en_photo = demo_limits,
     en_moderation = default_moderation_limits\<rparr>"

definition demo_location :: location_row where
  "demo_location =
     \<lparr>lr_id = 1, lr_name = lit ''Rack'', lr_address = lit ''Street 1'', lr_description = None,
      lr_type = lit ''rack'', lr_cost_kind = lit ''free'', lr_cents = None, lr_currency = None, lr_unit = None,
      lr_lat = Fin 1, lr_lon = Fin 2, lr_timezone = lit ''Etc/UTC'', lr_hours_unknown = True,
      lr_rating_avg = Some 500, lr_rating_count = 1, lr_state = lit ''ACTIVE'', lr_created_at = 0, lr_updated_at = 0,
      lr_meaningful_at = None, lr_verified_at = None, lr_version = 1, lr_creator = Some 1\<rparr>"

definition demo_review :: review_row where
  "demo_review = \<lparr>re_id = 1, re_location = 1, re_author = Some 1, re_rating = 5, re_body = lit ''good'',
     re_state = lit ''ACTIVE'', re_created_at = 0, re_updated_at = 0\<rparr>"

definition demo_proposal :: proposal_row where
  "demo_proposal = \<lparr>pr_id = 1, pr_location = 1, pr_proposer = Some 1, pr_base_version = 1,
     pr_kind = lit ''change_existence'', pr_proposed = JObject [(lit ''existence'', JString (lit ''removed''))],
     pr_status = lit ''PENDING'', pr_resolved_by = None, pr_resolved_at = None, pr_created_at = 0\<rparr>"

definition demo_photo :: parking_photo_row where
  "demo_photo = \<lparr>ph_id = 1, ph_parent = 1, ph_uploader = Some 1, ph_key = full_key (lit ''ab''), ph_thumbnail = Some (thumb_key (lit ''ab'')),
     ph_width = Some 4, ph_height = Some 3, ph_processed_at = Some 0, ph_state = lit ''PENDING_REVIEW'', ph_reason = None,
     ph_reviewed_by = None, ph_reviewed_at = None, ph_position = 0, ph_created_at = 0,
     ph_content_type = lit ''image/jpeg'', ph_alt = None\<rparr>"

definition demo_report :: report_row where
  "demo_report = \<lparr>rp_id = 1, rp_reporter = Some 1, rp_target_type = lit ''review'', rp_target_id = 1,
     rp_reason = lit ''spam'', rp_description = None, rp_state = lit ''OPEN'', rp_claimed_by = None, rp_resolved_by = None,
     rp_note = None, rp_created_at = 0, rp_updated_at = 0\<rparr>"

definition demo_content :: content_world where
  "demo_content = auth_world.extend demo_auth
     (content_world.fields [demo_location] 2 [] []
        [\<lparr>rv_id = 1, rv_location = 1, rv_version = 1, rv_editor = Some 1, rv_kind = lit ''create'', rv_summary = None,
          rv_snapshot = JNull, rv_created_at = 0\<rparr>] 2
        [demo_proposal] 2 [demo_review] 2 [] 1 [] 1 [\<lparr>fv_user = 1, fv_location = 1, fv_created_at = 0\<rparr>]
        [demo_photo] 2 [] 1 [demo_report] 2 [] [])"

definition demo_edit :: parking_edit where
  "demo_edit = \<lparr>pe_name = lit ''Rack 2'', pe_address = lit ''Street 1'', pe_description = None, pe_type = Rack,
     pe_cost = FreeCost, pe_hours = UnknownHours, pe_security = []\<rparr>"

lemma content_fields [simp]:
  "now demo_content = 1000000" "faults demo_content = []" "entropy demo_content = block_of" "keys_of (limiter demo_content) = {}"
  "users demo_content = users demo_auth" "user_roles demo_content = user_roles demo_auth"
  "locations demo_content = [demo_location]" "next_location demo_content = 2" "hours_table demo_content = []"
  "security_table demo_content = []" "revisions demo_content = [\<lparr>rv_id = 1, rv_location = 1, rv_version = 1, rv_editor = Some 1,
     rv_kind = lit ''create'', rv_summary = None, rv_snapshot = JNull, rv_created_at = 0\<rparr>]"
  "proposals demo_content = [demo_proposal]" "reviews demo_content = [demo_review]"
  "favorites demo_content = [\<lparr>fv_user = 1, fv_location = 1, fv_created_at = 0\<rparr>]"
  "parking_photos demo_content = [demo_photo]" "next_parking_photo demo_content = 2" "review_photos demo_content = []"
  "reports demo_content = [demo_report]" "next_report demo_content = 2" "objects demo_content = []"
  "storage_faults demo_content = []"
  by (simp_all add: demo_content_def demo_auth_def auth_world.defs content_world.defs keys_of_def)

lemma demo_admin_fields [simp]:
  "au_verified demo_admin" "au_id demo_admin = 2" "may_moderate demo_admin"
  by (simp_all add: demo_admin_def may_moderate_def actor_has_role_def)

lemma demo_geo_simps [simp]: "gx_tz_known demo_geo z" "en_geo demo_V = demo_geo"
  by (simp_all add: demo_geo_def demo_V_def)

lemma demo_location_fields [simp]:
  "lr_id demo_location = 1" "lr_version demo_location = 1" "lr_state demo_location = lit ''ACTIVE''"
  "lr_lat demo_location = Fin 1" "lr_lon demo_location = Fin 2" "lr_timezone demo_location = lit ''Etc/UTC''"
  "lr_rating_avg demo_location = Some 500" "lr_rating_count demo_location = 1"
  by (simp_all add: demo_location_def)

lemma demo_log_ok: "log_ok demo_content"
  using versions_of_append[of "[]"] by (simp add: log_ok_def log_complete_def) (simp add: versions_of_def)

lemma demo_ratings: "ratings_current demo_content"
  by (simp add: ratings_aggregated aggregate_def active_reviews_def demo_review_def average_hundredths_def Let_def)

lemma demo_trim [simp]:
  "trim (lit ''Rack'') = lit ''Rack''" "trim (lit ''Rack 2'') = lit ''Rack 2''" "trim (lit ''Street 1'') = lit ''Street 1''"
  "trim (lit ''blurry'') = lit ''blurry''"
  by (simp_all add: trim_def trim_start_def trim_end_def is_whitespace_def lit_def)

lemma demo_decodes: "decodable demo_geo demo_content"
proof -
  have "\<exists>c. storable_cost c \<and> cost_parts c = (lit ''free'', None, None, None)"
    by (intro exI[of _ FreeCost]) (simp add: storable_cost_def cost_parts_def)
  moreover have "\<exists>ty. lit ''rack'' = parking_type_code ty" by (intro exI[of _ Rack]) (simp add: parking_type_code_def)
  moreover have "\<exists>st. lit ''ACTIVE'' = moderation_state_code st" by (intro exI[of _ MActive]) (simp add: moderation_state_code_def)
  ultimately show ?thesis
    by (simp add: decodable_def row_decodes_def demo_location_def demo_review_def row_point_def wf_geo_point_def f64_within_def)
qed

lemma demo_zones: "zones_known demo_geo"
  by (simp add: zones_known_def list_all_iff)

lemma demo_reports: "reports_sound demo_content"
  by (simp add: reports_sound_def demo_report_def report_ok_def)

lemma demo_photo_ids: "photo_ids_ok ParkingPhotoKind demo_content"
  by (simp add: photo_ids_ok_def photo_rows_def next_photo_def demo_photo_def photo_row.defs)

lemma demo_allowed:
  assumes "key \<notin> keys_of (limiter w)" "0 < n"
  shows "\<exists>l. contribution_allowed key n window w = (Inr (), w\<lparr>limiter := l\<rparr>)"
    "\<exists>l. photo_allowed key n window w = (Inr (), w\<lparr>limiter := l\<rparr>) \<and> keys_of l \<subseteq> insert key (keys_of (limiter w))"
  using mem_check_fresh[OF assms, of window "now w"] keys_of_check[of key n window "now w" "limiter w"]
  by (auto simp: contribution_allowed_def photo_allowed_def rate_check_def exec split: prod.splits)

lemma demo_edit_returns: "\<exists>w'. apply_parking_edit demo_geo demo_admin 1 1 demo_edit demo_content = (Inr 2, w')"
proof -
  have v: "validate_name_address (pe_name demo_edit) (pe_address demo_edit) w = (Inr (), w)" for w :: content_world
    by (simp add: validate_name_address_def exec demo_edit_def)
  obtain l where l: "contribution_allowed (lit ''contribution:edit:user:'' @ show_int 2) edit_user_limit (hours 1) demo_content
      = (Inr (), demo_content\<lparr>limiter := l\<rparr>)"
    using demo_allowed(1)[of "lit ''contribution:edit:user:'' @ show_int 2" demo_content edit_user_limit "hours 1"]
    by (auto simp: edit_user_limit_def)
  let ?w = "demo_content\<lparr>limiter := l\<rparr>"
  have "parking_type_from (lit ''rack'') = Inr Rack" "moderation_state_from (lit ''ACTIVE'') = Inr MActive" by code_simp+
  then obtain p where p: "details demo_geo 1 ?w = (Inr (Some p), ?w)" "pl_moderation p = MActive"
    by (simp add: details_def exec location_of_def select_one_def hours_of_def security_of_def to_domain_def demo_location_def
      price_of_def expectD_def cost_from_kind_and_price_def geo_point_new_def f64_within_def rating_new_def rating_of_hundredths_def
      parking_location_new_def)
  have "\<exists>v. apply_edit demo_geo 1 1 demo_edit 2 1000000 ?w = (Inr 2, v) \<and> faults v = [] \<and> users v = users demo_auth"
    by (simp add: apply_edit_def exec transaction_def location_of_def select_one_def moderation_state_code_def update_location_def
      edited_row_def demo_edit_def cost_parts_def geo_point_new_def f64_within_def write_hours_def write_security_def
      security_states_def insert_revision_def revision_insert_def user_exists_def location_exists_def check_user_def
      check_location_def)
  then obtain v1 where v1: "apply_edit demo_geo 1 1 demo_edit 2 1000000 ?w = (Inr 2, v1)" "faults v1 = []" "users v1 = users demo_auth"
    by blast
  have "fst (apply_parking_edit demo_geo demo_admin 1 1 demo_edit demo_content) = Inr 2"
    by (simp add: apply_parking_edit_def require_verified_def exec l v require_active_def get_for_edit_def p v1
      contribution_audit_def audit_record_def service_event_def user_exists_def)
  then show ?thesis by (metis prod.collapse)
qed

lemma demo_reject: "\<exists>w'. reject_photo demo_admin ParkingPhotoKind 1 (lit ''blurry'') demo_content = (Inr (), w')"
proof -
  have "photo_state_from (lit ''PENDING_REVIEW'') = Inr PhotoPending" by code_simp
  then have "fst (reject_photo demo_admin ParkingPhotoKind 1 (lit ''blurry'') demo_content) = Inr ()"
    by (simp add: reject_photo_def photo_require_moderator_def get_for_moderation_def exec select_one_def photo_rows_def
      demo_photo_def photo_row.defs reject_row_def judge_photo_def in_state_def judge_def user_exists_def check_user_def
      delete_object_def storage_call_def photo_audit_def audit_record_def service_event_def)
  then show ?thesis by (metis prod.collapse)
qed

lemma demo_hide: "\<exists>w'. hide_review demo_admin 1 demo_content = (Inr (), w')"
proof -
  have "fst (hide_review demo_admin 1 demo_content) = Inr ()"
    by (simp add: hide_review_def audited_action_def require_moderator_def exec hide_review_row_def flip_review_def
      demo_review_def moderation_audit_def audit_record_def service_event_def Let_def user_exists_def)
  then show ?thesis by (metis prod.collapse)
qed

lemma demo_image:
  "process_image demo_codec demo_limits [1, 2, 3] w = (Inr \<lparr>im_full = [82, 3, 2, 1], im_thumb = [82, 3],
      im_dimensions = \<lparr>pd_width = 3, pd_height = 4\<rparr>, im_content_type = lit ''image/jpeg''\<rparr>, w)"
proof -
  have "megapixels \<lparr>pd_width = 4, pd_height = 3\<rparr> \<le> 24" by code_simp
  then show ?thesis
    by (simp add: process_image_def exec demo_codec_def demo_limits_def apply_orientation_def within_limit_def Let_def)
qed

lemma demo_upload:
  "\<exists>x w'. upload_photo demo_codec demo_limits demo_admin (lit ''ip'') (ParkingTarget 1) [1, 2, 3] None demo_content = (Inr x, w')"
proof -
  let ?k1 = "lit ''photo:upload:user:'' @ show_int 2" and ?k2 = "lit ''photo:upload:ip:'' @ lit ''ip''"
  obtain l1 where l1: "photo_allowed ?k1 photo_upload_user_limit (days 1) demo_content = (Inr (), demo_content\<lparr>limiter := l1\<rparr>)"
      "keys_of l1 \<subseteq> {?k1}"
    using demo_allowed(2)[of ?k1 demo_content photo_upload_user_limit "days 1"] by (auto simp: photo_upload_user_limit_def)
  have "?k1 \<noteq> ?k2" by (simp add: lit_def)
  then have "?k2 \<notin> keys_of (limiter (demo_content\<lparr>limiter := l1\<rparr>))" using l1(2) by auto
  from demo_allowed(2)[OF this, of photo_upload_ip_limit "days 1"] obtain l2 where
    l2: "photo_allowed ?k2 photo_upload_ip_limit (days 1) (demo_content\<lparr>limiter := l1\<rparr>) = (Inr (), demo_content\<lparr>limiter := l2\<rparr>)"
    by (auto simp: photo_upload_ip_limit_def)
  have key: "full_key i \<noteq> []" for i by (simp add: full_key_def lit_def)
  have lim: "max_bytes demo_limits = 100" by (simp add: demo_limits_def)
  have "\<exists>x. fst (upload_photo demo_codec demo_limits demo_admin (lit ''ip'') (ParkingTarget 1) [1, 2, 3] None demo_content) = Inr x"
    by (simp add: upload_photo_def photo_require_verified_def exec l1 l2 demo_image lim bytes_within_limit_def normalize_alt_def
      mint_upload_id_def store_derivatives_def put_object_def storage_call_def insert_or_discard_def insert_pending_def key
      check_user_def check_location_def check_that_def location_exists_def user_exists_def photo_audit_def audit_record_def service_event_def)
  then show ?thesis by (metis prod.collapse)
qed

definition demo_override :: proposal_override where
  "demo_override = \<lparr>ov_lat = None, ov_lon = None, ov_timezone = None, ov_exists = None\<rparr>"

lemma demo_approve: "\<exists>w'. approve_proposal demo_geo demo_admin 1 demo_override demo_content = (Inr (), w')"
proof -
  have "moderation_state_from (lit ''ACTIVE'') = Inr MActive" "proposal_status_from (lit ''PENDING'') = Inr PPending"
    "proposal_kind_from (lit ''change_existence'') = Inr ChangeExistenceKind"
    "payload_from_json ChangeExistenceKind (JObject [(lit ''existence'', JString (lit ''removed''))])
      = payload_new (ChangeExistence False) None"
    by code_simp+
  then have "fst (approve_proposal demo_geo demo_admin 1 demo_override demo_content) = Inr ()"
    by (simp add: approve_proposal_def require_moderator_def exec find_proposal_def joined_proposals_def demo_proposal_def
      select_one_def map_proposal_def payload_new_def merge_proposal_def demo_override_def approve_proposal_row_def
      transaction_def proposal_of_def location_of_def proposal_status_code_def update_location_def applied_row_def
      snapshot_with_def insert_moderation_revision_def revision_insert_def user_exists_def location_exists_def
      check_user_def check_location_def settle_proposal_def supersede_siblings_def moderation_audit_def audit_record_def service_event_def Let_def)
  then show ?thesis by (metis prod.collapse)
qed

section \<open>The guarantees on the instance\<close>

definition demo_acts :: "content_action list" where
  "demo_acts =
     [Community (EditParking demo_admin 1 1 demo_edit), Account (Faults [None, Some DbOther]),
      Photo (RejectPhoto demo_admin ParkingPhotoKind 1 (lit ''blurry'')),
      Moderation (ResolveReport demo_admin 1 OutcomeResolved (lit ''done'')), Community (ToggleFavorite demo_admin 1)]"

theorem revision_log_complete_witness: "log_ok (content_run demo_V demo_acts demo_content)"
  using demo_log_ok by (rule revision_log_complete)

theorem stale_edit_refused_witness:
  "\<exists>w'. apply_parking_edit demo_geo demo_admin 1 1 demo_edit demo_content = (Inr 2, w')
    \<and> fst (apply_parking_edit demo_geo demo_admin 1 1 demo_edit (content_run demo_V demo_acts w')) \<noteq> Inr 2"
proof -
  obtain w' where r: "apply_parking_edit demo_geo demo_admin 1 1 demo_edit demo_content = (Inr 2, w')"
    using demo_edit_returns by blast
  show ?thesis
    using stale_edit_refused[OF demo_log_ok, of demo_V demo_admin 1 1 demo_edit 2 w' 1 demo_admin demo_edit demo_acts 2] r
    by auto
qed

theorem proposal_applied_witness:
  "\<exists>w'. approve_proposal demo_geo demo_admin 1 demo_override demo_content = (Inr (), w')
    \<and> map pr_status (proposals w') = [lit ''APPROVED''] \<and> users w' = users demo_content"
proof -
  obtain w' where r: "approve_proposal demo_geo demo_admin 1 demo_override demo_content = (Inr (), w')"
    using demo_approve by blast
  from proposal_applied[OF r] obtain l :: location_row where
    "proposals w' = map (settled (lr_id l) 1 (au_id demo_admin) (now demo_content)) (proposals demo_content)"
    "users w' = users demo_content"
    by (elim exE conjE) (rule that; simp)
  then have "map pr_status (proposals w') = [lit ''APPROVED'']" "users w' = users demo_content"
    by (simp_all add: settled_def demo_proposal_def)
  then show ?thesis by (intro exI[of _ w'] conjI r)
qed

theorem ratings_stay_current_witness:
  "ratings_current (content_run demo_V [Community (ToggleFavorite demo_admin 1), Account (Faults [None, Some DbOther]),
     Moderation (ResolveReport demo_admin 1 OutcomeDismissed (lit ''no''))] demo_content)"
  by (rule ratings_stay_current[OF demo_ratings]) simp

theorem stored_locations_decode_witness:
  "\<exists>p. fst (details demo_geo 1 ((content_run demo_V [] demo_content)\<lparr>faults := []\<rparr>)) = Inr (Some p) \<and> pl_id p = 1"
  using stored_locations_decode[of demo_V demo_content "[]" 1] demo_zones demo_decodes
  by (simp add: location_exists_def)

theorem reports_stay_sound_witness: "reports_sound (content_run demo_V demo_acts demo_content)"
  using demo_reports by (rule reports_stay_sound)

theorem rejection_is_final_witness:
  "\<exists>w'. reject_photo demo_admin ParkingPhotoKind 1 (lit ''blurry'') demo_content = (Inr (), w')
    \<and> map ph_state (filter (\<lambda>p. ph_id p = 1) (photo_rows ParkingPhotoKind
          (content_run demo_V [Photo (ApprovePhoto demo_admin ParkingPhotoKind 1)] w'))) = [lit ''REJECTED'']"
proof -
  obtain w' where r: "reject_photo demo_admin ParkingPhotoKind 1 (lit ''blurry'') demo_content = (Inr (), w')"
    using demo_reject by blast
  from rejection_is_final[OF demo_photo_ids r] r show ?thesis by blast
qed


theorem favorites_walk_complete_witness:
  "fst (favorites_walk 1 None 20 demo_content) = Inr [\<lparr>fv_user = 1, fv_location = 1, fv_created_at = 0\<rparr>]"
  using favorites_walk_complete[of demo_content 1 20] by simp

end
