(* ===== verification/Privacy_Store.thy ===== *)
theory Privacy_Store
  imports Moderation_Service "HOL-Library.List_Lexorder"
begin

text \<open>
  The tables of the privacy workflow (\<open>migrations/0012, 0013, 0014\<close>) as an extension of the
  content world, and the repositories over them: rights requests
  (\<open>infrastructure/src/privacy/request.rs\<close>), personal-data exports (\<open>privacy/export.rs\<close>),
  anonymization in place (\<open>privacy/anonymize.rs\<close>) and the versioned legal pages
  (\<open>privacy/policy.rs, policy_seed.rs\<close>).

  The JSON of a stored export is kept as the value it encodes; \<open>users.suspended_at\<close>, which is
  never read, is left out.
\<close>

section \<open>Errors\<close>

datatype privacy_error =
    PvNotAuthorized | PvNotFound | PvLastAdmin | PvReauthRequired | PvInvalidToken | PvExpired
  | PvAlreadyDownloaded | PvInvalidKind | PvInvalidField ustring | PvConflict | PvUnavailable | PvInternal

definition privacy_of_auth :: "auth_error \<Rightarrow> privacy_error" where
  "privacy_of_auth e = (case e of InvalidCredentials \<Rightarrow> PvReauthRequired | _ \<Rightarrow> PvInternal)"

definition privacy_of_audit :: "audit_error \<Rightarrow> privacy_error" where
  "privacy_of_audit e = PvInternal"

definition privacy_of_db :: "db_failure \<Rightarrow> privacy_error" where
  "privacy_of_db f =
     (case f of DbConflict _ \<Rightarrow> PvConflict | DbRetryable \<Rightarrow> PvConflict
      | DbInvalid c \<Rightarrow> PvInvalidField (invalid_hint c) | DbUnavailable \<Rightarrow> PvUnavailable | DbOther \<Rightarrow> PvInternal)"

section \<open>The export document\<close>

record export_account =
  ea_user_id :: int
  ea_email :: ustring
  ea_display_name :: "ustring option"
  ea_account_state :: ustring
  ea_email_verified_at :: "int option"
  ea_created_at :: int
  ea_roles :: "ustring list"

record export_provider =
  ei_provider :: ustring
  ei_subject :: ustring
  ei_email_verified :: bool

record export_session =
  en_created_at :: int
  en_last_seen_at :: int
  en_expires_at :: int

record export_favorite =
  ef_location :: int
  ef_created_at :: int

record export_review_revision =
  ew_rating :: "16 word"
  ew_body :: ustring
  ew_edited_at :: int

record export_review =
  er_id :: int
  er_location :: int
  er_rating :: "16 word"
  er_body :: ustring
  er_state :: ustring
  er_created_at :: int
  er_updated_at :: int
  er_revisions :: "export_review_revision list"

record export_verification =
  ev_location :: int
  ev_kind :: ustring
  ev_result :: ustring
  ev_attribute :: "ustring option"
  ev_created_at :: int

record export_proposal =
  ep_location :: int
  ep_base_version :: int
  ep_kind :: ustring
  ep_proposed :: json
  ep_status :: ustring
  ep_created_at :: int

record export_report =
  eq_target_type :: ustring
  eq_target_id :: int
  eq_reason :: ustring
  eq_description :: "ustring option"
  eq_state :: ustring
  eq_created_at :: int

record export_photo =
  eh_kind :: ustring
  eh_location :: "int option"
  eh_review :: "int option"
  eh_key :: ustring
  eh_thumbnail :: "ustring option"
  eh_content_type :: "ustring option"
  eh_state :: ustring
  eh_created_at :: int

record export_payload =
  xp_schema_version :: nat
  xp_exported_at :: int
  xp_account :: export_account
  xp_authentication :: "export_provider list"
  xp_sessions :: "export_session list"
  xp_favorites :: "export_favorite list"
  xp_reviews :: "export_review list"
  xp_verifications :: "export_verification list"
  xp_proposals :: "export_proposal list"
  xp_reports :: "export_report list"
  xp_photos :: "export_photo list"

section \<open>Rows\<close>

record request_row =
  qr_id :: int
  qr_user :: "int option"
  qr_kind :: ustring
  qr_state :: ustring
  qr_details :: json
  qr_fulfilled_by :: "int option"
  qr_fulfilled_at :: "int option"
  qr_created_at :: int
  qr_updated_at :: int

record export_row =
  xr_id :: int
  xr_user :: int
  xr_state :: ustring
  xr_token_hash :: ustring
  xr_payload :: export_payload
  xr_created_at :: int
  xr_expires_at :: int
  xr_downloaded_at :: "int option"

record consent_row =
  co_id :: int
  co_user :: int
  co_scope :: ustring
  co_status :: ustring

record policy_row =
  py_id :: int
  py_kind :: ustring
  py_locale :: ustring
  py_version :: ustring
  py_effective_at :: int
  py_superseded_at :: "int option"
  py_content :: ustring

record privacy_world = content_world +
  privacy_requests :: "request_row list"
  next_privacy_request :: int
  data_exports :: "export_row list"
  next_data_export :: int
  consents :: "consent_row list"
  policy_versions :: "policy_row list"
  next_policy :: int

text \<open>A \<open>DELETE\<close> or an \<open>UPDATE\<close> of the rows of a condition, answering how many there were.\<close>

definition delete_rows ::
  "('w world_scheme \<Rightarrow> 'r list) \<Rightarrow> ('r list \<Rightarrow> 'w world_scheme \<Rightarrow> 'w world_scheme) \<Rightarrow> ('r \<Rightarrow> bool)
    \<Rightarrow> ('w world_scheme, privacy_error, nat) m" where
  "delete_rows get put P =
     sql privacy_of_db (\<lambda>w. Inr (length (filter P (get w)), put (filter (\<lambda>r. \<not> P r) (get w)) w))"

definition update_rows ::
  "('w world_scheme \<Rightarrow> 'r list) \<Rightarrow> ('r list \<Rightarrow> 'w world_scheme \<Rightarrow> 'w world_scheme) \<Rightarrow> ('r \<Rightarrow> bool) \<Rightarrow> ('r \<Rightarrow> 'r)
    \<Rightarrow> ('w world_scheme, privacy_error, nat) m" where
  "update_rows get put P f =
     sql privacy_of_db (\<lambda>w. Inr (length (filter P (get w)), put (update_where P f (get w)) w))"

section \<open>Rights requests\<close>

record new_privacy_request =
  nq_user :: int
  nq_kind :: privacy_request_kind
  nq_details :: json

record privacy_request =
  rq_id :: int
  rq_user :: "int option"
  rq_kind :: privacy_request_kind
  rq_state :: privacy_request_state
  rq_details :: json
  rq_fulfilled_by :: "int option"
  rq_fulfilled_at :: "int option"
  rq_created_at :: int
  rq_updated_at :: int

definition request_from_row :: "request_row \<Rightarrow> ('s, privacy_error, privacy_request) m" where
  "request_from_row r =
     bindM (mapErrM (\<lambda>_. PvInternal) (liftR (privacy_request_kind_from (qr_kind r)))) (\<lambda>k.
     bindM (mapErrM (\<lambda>_. PvInternal) (liftR (privacy_request_state_from (qr_state r)))) (\<lambda>st.
       retM \<lparr>rq_id = qr_id r, rq_user = qr_user r, rq_kind = k, rq_state = st, rq_details = qr_details r,
             rq_fulfilled_by = qr_fulfilled_by r, rq_fulfilled_at = qr_fulfilled_at r,
             rq_created_at = qr_created_at r, rq_updated_at = qr_updated_at r\<rparr>))"

definition create_request :: "new_privacy_request \<Rightarrow> ('w privacy_world_scheme, privacy_error, int) m" where
  "create_request n =
     sql privacy_of_db (\<lambda>w.
       check_user ''privacy_request_user_id_fkey'' w (nq_user n)
         (Inr (next_privacy_request w,
            w\<lparr>privacy_requests := privacy_requests w @
                 [\<lparr>qr_id = next_privacy_request w, qr_user = Some (nq_user n),
                   qr_kind = privacy_request_kind_code (nq_kind n), qr_state = lit ''OPEN'', qr_details = nq_details n,
                   qr_fulfilled_by = None, qr_fulfilled_at = None, qr_created_at = now w, qr_updated_at = now w\<rparr>],
              next_privacy_request := next_privacy_request w + 1\<rparr>)))"

definition list_request_rows ::
  "privacy_request_state option \<Rightarrow> ('w privacy_world_scheme, privacy_error, privacy_request list) m" where
  "list_request_rows st =
     bindM (query privacy_of_db (\<lambda>w.
              sort_key (\<lambda>r. (qr_created_at r, qr_id r))
                (filter (\<lambda>r. case st of None \<Rightarrow> True | Some s \<Rightarrow> qr_state r = privacy_request_state_code s)
                   (privacy_requests w))))
       (mapM request_from_row)"

definition get_request :: "int \<Rightarrow> ('w privacy_world_scheme, privacy_error, privacy_request option) m" where
  "get_request i =
     bindM (query privacy_of_db (\<lambda>w. select_one (\<lambda>r. qr_id r = i) (privacy_requests w))) (\<lambda>row.
       case row of None \<Rightarrow> retM None | Some r \<Rightarrow> bindM (request_from_row r) (\<lambda>q. retM (Some q)))"

definition open_request :: "int \<Rightarrow> request_row \<Rightarrow> bool" where
  "open_request i r \<longleftrightarrow> qr_id r = i \<and> (qr_state r = lit ''OPEN'' \<or> qr_state r = lit ''IN_PROGRESS'')"

definition fulfill_row :: "int \<Rightarrow> int option \<Rightarrow> ('w privacy_world_scheme, privacy_error, unit) m" where
  "fulfill_row i by =
     bindM (sql privacy_of_db (\<lambda>w.
              let r = Inr (length (filter (open_request i) (privacy_requests w)),
                    w\<lparr>privacy_requests := update_where (open_request i)
                        (\<lambda>r. r\<lparr>qr_state := lit ''COMPLETED'', qr_fulfilled_by := by, qr_fulfilled_at := Some (now w),
                               qr_updated_at := now w\<rparr>) (privacy_requests w)\<rparr>)
              in (case by of
                    Some u \<Rightarrow>
                      if filter (open_request i) (privacy_requests w) = [] then r
                      else check_user ''privacy_request_fulfilled_by_fkey'' w u r
                  | None \<Rightarrow> r)))
       (\<lambda>n. requireM (n = 1) PvNotFound)"

section \<open>Exports\<close>

text \<open>The UTF-8 bytes of a string, and a comparison that looks at all of them.\<close>

definition utf8_char :: "uchar \<Rightarrow> byte list" where
  "utf8_char c =
     (if c < 128 then [of_nat c]
      else if c < 2048 then [of_nat (192 + c div 64), of_nat (128 + c mod 64)]
      else if c < 65536 then [of_nat (224 + c div 4096), of_nat (128 + c div 64 mod 64), of_nat (128 + c mod 64)]
      else [of_nat (240 + c div 262144), of_nat (128 + c div 4096 mod 64), of_nat (128 + c div 64 mod 64),
            of_nat (128 + c mod 64)])"

definition utf8_bytes :: "ustring \<Rightarrow> byte list" where
  "utf8_bytes s = concat (map utf8_char s)"

definition constant_time_hex_eq :: "ustring \<Rightarrow> ustring \<Rightarrow> bool" where
  "constant_time_hex_eq a b =
     (if str_len a = str_len b \<and> str_len a mod 2 = 0
      then fold (\<lambda>(x, y) diff. or diff (xor x y)) (zip (utf8_bytes a) (utf8_bytes b)) 0 = 0
      else False)"

record new_export =
  nx_user :: int
  nx_token :: "byte list"
  nx_payload :: export_payload
  nx_expires_at :: int

record export =
  xe_id :: int
  xe_user :: int
  xe_state :: export_state
  xe_created_at :: int
  xe_expires_at :: int
  xe_downloaded_at :: "int option"

definition export_payload_new ::
  "export_account \<Rightarrow> export_provider list \<Rightarrow> export_session list \<Rightarrow> export_favorite list \<Rightarrow> export_review list
    \<Rightarrow> export_verification list \<Rightarrow> export_proposal list \<Rightarrow> export_report list \<Rightarrow> export_photo list \<Rightarrow> int
    \<Rightarrow> export_payload" where
  "export_payload_new acc auth ses fav rvs ver prps reps ph t =
     \<lparr>xp_schema_version = 1, xp_exported_at = t, xp_account = acc, xp_authentication = auth, xp_sessions = ses,
      xp_favorites = fav, xp_reviews = rvs, xp_verifications = ver, xp_proposals = prps, xp_reports = reps,
      xp_photos = ph\<rparr>"

text \<open>The sections of the document.  Rows of equal age keep the order of the table, where the
  database may give any.\<close>

definition account_section :: "int \<Rightarrow> ('w privacy_world_scheme, privacy_error, export_account) m" where
  "account_section u =
     bindM (query privacy_of_db (\<lambda>w. select_one (\<lambda>r. ur_id r = u) (users w))) (\<lambda>found.
     bindM (okOrM PvNotFound found) (\<lambda>row.
     bindM (query privacy_of_db (\<lambda>w. sort (map rl_role (filter (\<lambda>r. rl_user r = u) (user_roles w))))) (\<lambda>roles.
       retM \<lparr>ea_user_id = ur_id row, ea_email = ur_email row, ea_display_name = ur_display_name row,
             ea_account_state = ur_state row, ea_email_verified_at = ur_verified_at row,
             ea_created_at = ur_created_at row, ea_roles = roles\<rparr>)))"

definition authentication_section :: "int \<Rightarrow> ('w privacy_world_scheme, privacy_error, export_provider list) m" where
  "authentication_section u =
     query privacy_of_db (\<lambda>w.
       map (\<lambda>r. \<lparr>ei_provider = ir_provider r, ei_subject = ir_subject r,
                 ei_email_verified = (case select_one (\<lambda>x. ur_id x = ir_user r) (users w) of
                    None \<Rightarrow> False | Some x \<Rightarrow> ur_verified_at x \<noteq> None)\<rparr>)
         (filter (\<lambda>r. ir_user r = u) (identities w)))"

definition sessions_section :: "int \<Rightarrow> ('w privacy_world_scheme, privacy_error, export_session list) m" where
  "sessions_section u =
     query privacy_of_db (\<lambda>w.
       map (\<lambda>r. \<lparr>en_created_at = sr_created_at r, en_last_seen_at = sr_last_seen_at r, en_expires_at = sr_expires_at r\<rparr>)
         (sort_key sr_created_at (filter (\<lambda>r. sr_user r = u) (sessions w))))"

definition favorites_section :: "int \<Rightarrow> ('w privacy_world_scheme, privacy_error, export_favorite list) m" where
  "favorites_section u =
     query privacy_of_db (\<lambda>w.
       map (\<lambda>r. \<lparr>ef_location = fv_location r, ef_created_at = fv_created_at r\<rparr>)
         (sort_key fv_created_at (filter (\<lambda>r. fv_user r = u) (favorites w))))"

definition reviews_section :: "int \<Rightarrow> ('w privacy_world_scheme, privacy_error, export_review list) m" where
  "reviews_section u =
     bindM (query privacy_of_db (\<lambda>w. sort_key re_created_at (filter (\<lambda>r. re_author r = Some u) (reviews w)))) (\<lambda>rows.
     bindM (if rows = [] then retM []
            else query privacy_of_db (\<lambda>w.
              sort_key (\<lambda>v. (rw_review v, rw_edited_at v))
                (filter (\<lambda>v. rw_review v \<in> set (map re_id rows)) (review_revisions w)))) (\<lambda>revs.
       retM (map (\<lambda>r. \<lparr>er_id = re_id r, er_location = re_location r, er_rating = re_rating r, er_body = re_body r,
                       er_state = re_state r, er_created_at = re_created_at r, er_updated_at = re_updated_at r,
                       er_revisions = map (\<lambda>v. \<lparr>ew_rating = rw_rating v, ew_body = rw_body v, ew_edited_at = rw_edited_at v\<rparr>)
                         (filter (\<lambda>v. rw_review v = re_id r) revs)\<rparr>) rows)))"

definition verifications_section :: "int \<Rightarrow> ('w privacy_world_scheme, privacy_error, export_verification list) m" where
  "verifications_section u =
     query privacy_of_db (\<lambda>w.
       map (\<lambda>r. \<lparr>ev_location = sg_location r, ev_kind = sg_kind r, ev_result = sg_result r,
                 ev_attribute = sg_attribute r, ev_created_at = sg_created_at r\<rparr>)
         (sort_key sg_created_at (filter (\<lambda>r. sg_user r = Some u) (signals w))))"

definition proposals_section :: "int \<Rightarrow> ('w privacy_world_scheme, privacy_error, export_proposal list) m" where
  "proposals_section u =
     query privacy_of_db (\<lambda>w.
       map (\<lambda>r. \<lparr>ep_location = pr_location r, ep_base_version = pr_base_version r, ep_kind = pr_kind r,
                 ep_proposed = pr_proposed r, ep_status = pr_status r, ep_created_at = pr_created_at r\<rparr>)
         (sort_key pr_created_at (filter (\<lambda>r. pr_proposer r = Some u) (proposals w))))"

definition reports_section :: "int \<Rightarrow> ('w privacy_world_scheme, privacy_error, export_report list) m" where
  "reports_section u =
     query privacy_of_db (\<lambda>w.
       map (\<lambda>r. \<lparr>eq_target_type = rp_target_type r, eq_target_id = rp_target_id r, eq_reason = rp_reason r,
                 eq_description = rp_description r, eq_state = rp_state r, eq_created_at = rp_created_at r\<rparr>)
         (sort_key rp_created_at (filter (\<lambda>r. rp_reporter r = Some u) (reports w))))"

definition photos_section :: "int \<Rightarrow> ('w privacy_world_scheme, privacy_error, export_photo list) m" where
  "photos_section u =
     bindM (query privacy_of_db (\<lambda>w.
       map (\<lambda>r. \<lparr>eh_kind = lit ''parking'', eh_location = Some (ph_parent r), eh_review = None, eh_key = ph_key r,
                 eh_thumbnail = ph_thumbnail r, eh_content_type = Some (ph_content_type r), eh_state = ph_state r,
                 eh_created_at = ph_created_at r\<rparr>)
         (sort_key ph_created_at (filter (\<lambda>r. ph_uploader r = Some u) (parking_photos w))))) (\<lambda>parking.
     bindM (query privacy_of_db (\<lambda>w.
       map (\<lambda>r. \<lparr>eh_kind = lit ''review'', eh_location = None, eh_review = Some (ph_parent r), eh_key = ph_key r,
                 eh_thumbnail = ph_thumbnail r, eh_content_type = None, eh_state = ph_state r,
                 eh_created_at = ph_created_at r\<rparr>)
         (sort_key ph_created_at (filter (\<lambda>r. ph_uploader r = Some u) (review_photos w))))) (\<lambda>review.
       retM (parking @ review)))"

text \<open>One \<open>REPEATABLE READ\<close> transaction.\<close>

definition assemble_payload :: "int \<Rightarrow> ('w privacy_world_scheme, privacy_error, export_payload) m" where
  "assemble_payload u =
     transaction privacy_of_db
       (thenM (command privacy_of_db id) (
        bindM (getM now) (\<lambda>t.
        bindM (account_section u) (\<lambda>acc.
        bindM (authentication_section u) (\<lambda>auth.
        bindM (sessions_section u) (\<lambda>ses.
        bindM (favorites_section u) (\<lambda>fav.
        bindM (reviews_section u) (\<lambda>rvs.
        bindM (verifications_section u) (\<lambda>ver.
        bindM (proposals_section u) (\<lambda>prps.
        bindM (reports_section u) (\<lambda>reps.
        bindM (photos_section u) (\<lambda>ph.
          retM (export_payload_new acc auth ses fav rvs ver prps reps ph t)))))))))))))"

definition create_export :: "auth_externals \<Rightarrow> new_export \<Rightarrow> ('w privacy_world_scheme, privacy_error, int) m" where
  "create_export E e =
     sql privacy_of_db (\<lambda>w.
       check_user ''personal_data_export_user_id_fkey'' w (nx_user e)
         (Inr (next_data_export w,
            w\<lparr>data_exports := data_exports w @
                 [\<lparr>xr_id = next_data_export w, xr_user = nx_user e, xr_state = lit ''READY'',
                   xr_token_hash = sha256_hex E (nx_token e), xr_payload = nx_payload e, xr_created_at = now w,
                   xr_expires_at = nx_expires_at e, xr_downloaded_at = None\<rparr>],
              next_data_export := next_data_export w + 1\<rparr>)))"

definition export_from_row :: "export_row \<Rightarrow> ('s, privacy_error, export) m" where
  "export_from_row r =
     bindM (mapErrM (\<lambda>_. PvInternal) (liftR (export_state_from (xr_state r)))) (\<lambda>st.
       retM \<lparr>xe_id = xr_id r, xe_user = xr_user r, xe_state = st, xe_created_at = xr_created_at r,
             xe_expires_at = xr_expires_at r, xe_downloaded_at = xr_downloaded_at r\<rparr>)"

definition list_export_rows :: "int \<Rightarrow> ('w privacy_world_scheme, privacy_error, export list) m" where
  "list_export_rows u =
     bindM (query privacy_of_db (\<lambda>w.
              sort_key (\<lambda>r. - xr_created_at r) (filter (\<lambda>r. xr_user r = u) (data_exports w))))
       (mapM export_from_row)"

definition get_export :: "int \<Rightarrow> ('w privacy_world_scheme, privacy_error, export option) m" where
  "get_export i =
     bindM (query privacy_of_db (\<lambda>w. select_one (\<lambda>r. xr_id r = i) (data_exports w))) (\<lambda>row.
       case row of None \<Rightarrow> retM None | Some r \<Rightarrow> bindM (export_from_row r) (\<lambda>e. retM (Some e)))"

definition consumable :: "int \<Rightarrow> int \<Rightarrow> export_row \<Rightarrow> bool" where
  "consumable i t r \<longleftrightarrow> xr_id r = i \<and> xr_state r = lit ''READY'' \<and> t < xr_expires_at r"

definition consume_download :: "auth_externals \<Rightarrow> int \<Rightarrow> byte list \<Rightarrow> int \<Rightarrow> ('w privacy_world_scheme, privacy_error, export_payload) m" where
  "consume_download E i token t =
     bindM (query privacy_of_db (\<lambda>w. select_one (\<lambda>r. xr_id r = i) (data_exports w))) (\<lambda>found.
     bindM (okOrM PvNotFound found) (\<lambda>row.
     bindM (query privacy_of_db (\<lambda>w. select_one (\<lambda>r. xr_id r = i) (data_exports w))) (\<lambda>found'.
     bindM (okOrM PvNotFound found') (\<lambda>check.
     thenM (requireM (constant_time_hex_eq (xr_token_hash check) (sha256_hex E token)) PvInvalidToken) (
     thenM (requireM (xr_state check \<noteq> lit ''DOWNLOADED'') PvAlreadyDownloaded) (
     thenM (requireM (\<not> (xr_state check = lit ''EXPIRED'' \<or> xr_expires_at check < t)) PvExpired) (
     bindM (update_rows data_exports (\<lambda>x. data_exports_update (\<lambda>_. x)) (consumable i t)
              (\<lambda>r. r\<lparr>xr_state := lit ''DOWNLOADED'', xr_downloaded_at := Some t\<rparr>)) (\<lambda>n.
     thenM (requireM (n = 1) PvAlreadyDownloaded) (
       retM (xr_payload row))))))))))"

definition purge_ready_exports :: "int \<Rightarrow> ('w privacy_world_scheme, privacy_error, nat) m" where
  "purge_ready_exports t =
     delete_rows data_exports (\<lambda>x. data_exports_update (\<lambda>_. x))
       (\<lambda>r. xr_state r = lit ''READY'' \<and> xr_expires_at r < t)"

section \<open>Anonymization in place\<close>

record anonymization_report =
  an_identities :: nat
  an_roles :: nat
  an_roles_granted_by :: nat
  an_sessions :: nat
  an_verification_tokens :: nat
  an_reset_tokens :: nat
  an_favorites :: nat
  an_parked_here :: nat
  an_exports :: nat
  an_consents :: nat
  an_reviews :: nat
  an_verifications :: nat
  an_proposals :: nat
  an_reports :: nat
  an_locations :: nat
  an_revisions :: nat
  an_parking_photos :: nat
  an_review_photos :: nat
  an_audit_events :: nat
  an_audit_targets :: nat
  an_requests :: nat

definition is_last_admin :: "int \<Rightarrow> ('w privacy_world_scheme, privacy_error, bool) m" where
  "is_last_admin u =
     query privacy_of_db (\<lambda>w.
       (\<exists>r \<in> set (user_roles w). rl_role r = lit ''ADMIN'' \<and> rl_user r = u)
       \<and> length (filter (\<lambda>r. rl_role r = lit ''ADMIN'' \<and> rl_user r \<noteq> u) (user_roles w)) = 0)"

definition last_admin_locked :: "int \<Rightarrow> ('w privacy_world_scheme, privacy_error, bool) m" where
  "last_admin_locked u =
     bindM (query privacy_of_db admin_ids) (\<lambda>admins. retM (u \<in> set admins \<and> length admins = 1))"

definition scrub_user :: "auth_externals \<Rightarrow> int \<Rightarrow> int \<Rightarrow> ('w privacy_world_scheme, privacy_error, nat) m" where
  "scrub_user E u t =
     sql privacy_of_db (\<lambda>w.
       let tbl = update_where (\<lambda>r. ur_id r = u)
             (\<lambda>r. r\<lparr>ur_email := anonymized_email u, ur_display_name := None, ur_verified_at := None,
                    ur_deleted_at := Some t, ur_state := lit ''DELETED''\<rparr>) (users w)
       in check_unique ''idx_users_email'' (unique_emails E tbl)
            (length (filter (\<lambda>r. ur_id r = u) (users w)), w\<lparr>users := tbl\<rparr>))"

definition erase_activity :: "int \<Rightarrow> ('w privacy_world_scheme, privacy_error, anonymization_report \<Rightarrow> anonymization_report) m" where
  "erase_activity u =
     bindM (delete_rows identities (\<lambda>x. identities_update (\<lambda>_. x)) (\<lambda>r. ir_user r = u)) (\<lambda>n1.
     bindM (delete_rows user_roles (\<lambda>x. user_roles_update (\<lambda>_. x)) (\<lambda>r. rl_user r = u)) (\<lambda>n2.
     bindM (update_rows user_roles (\<lambda>x. user_roles_update (\<lambda>_. x)) (\<lambda>r. rl_granted_by r = Some u)
              (\<lambda>r. r\<lparr>rl_granted_by := None\<rparr>)) (\<lambda>n3.
     bindM (delete_rows sessions (\<lambda>x. sessions_update (\<lambda>_. x)) (\<lambda>r. sr_user r = u)) (\<lambda>n4.
     bindM (delete_rows verif_tokens (\<lambda>x. verif_tokens_update (\<lambda>_. x)) (\<lambda>r. vr_user r = u)) (\<lambda>n5.
     bindM (delete_rows reset_tokens (\<lambda>x. reset_tokens_update (\<lambda>_. x)) (\<lambda>r. rr_user r = u)) (\<lambda>n6.
     bindM (delete_rows favorites (\<lambda>x. favorites_update (\<lambda>_. x)) (\<lambda>r. fv_user r = u)) (\<lambda>n7.
     bindM (delete_rows signals (\<lambda>x. signals_update (\<lambda>_. x))
              (\<lambda>r. sg_user r = Some u \<and> sg_kind r = lit ''parked_here'')) (\<lambda>n8.
     bindM (delete_rows data_exports (\<lambda>x. data_exports_update (\<lambda>_. x)) (\<lambda>r. xr_user r = u)) (\<lambda>n9.
     bindM (delete_rows consents (\<lambda>x. consents_update (\<lambda>_. x)) (\<lambda>r. co_user r = u)) (\<lambda>n10.
       retM (\<lambda>a. a\<lparr>an_identities := n1, an_roles := n2, an_roles_granted_by := n3, an_sessions := n4,
                   an_verification_tokens := n5, an_reset_tokens := n6, an_favorites := n7, an_parked_here := n8,
                   an_exports := n9, an_consents := n10\<rparr>)))))))))))"

definition detach_content :: "int \<Rightarrow> ('w privacy_world_scheme, privacy_error, anonymization_report \<Rightarrow> anonymization_report) m" where
  "detach_content u =
     bindM (update_rows reviews (\<lambda>x. reviews_update (\<lambda>_. x)) (\<lambda>r. re_author r = Some u)
              (\<lambda>r. r\<lparr>re_author := None\<rparr>)) (\<lambda>n1.
     bindM (update_rows signals (\<lambda>x. signals_update (\<lambda>_. x))
              (\<lambda>r. sg_user r = Some u \<and> sg_kind r \<noteq> lit ''parked_here'') (\<lambda>r. r\<lparr>sg_user := None\<rparr>)) (\<lambda>n2.
     bindM (update_rows proposals (\<lambda>x. proposals_update (\<lambda>_. x))
              (\<lambda>r. pr_proposer r = Some u \<or> pr_resolved_by r = Some u)
              (\<lambda>r. r\<lparr>pr_proposer := None, pr_resolved_by := None\<rparr>)) (\<lambda>n3.
     bindM (update_rows reports (\<lambda>x. reports_update (\<lambda>_. x))
              (\<lambda>r. rp_reporter r = Some u \<or> rp_claimed_by r = Some u \<or> rp_resolved_by r = Some u)
              (\<lambda>r. r\<lparr>rp_reporter := None, rp_claimed_by := None, rp_resolved_by := None\<rparr>)) (\<lambda>n4.
     bindM (update_rows locations (\<lambda>x. locations_update (\<lambda>_. x)) (\<lambda>r. lr_creator r = Some u)
              (\<lambda>r. r\<lparr>lr_creator := None\<rparr>)) (\<lambda>n5.
     bindM (update_rows revisions (\<lambda>x. revisions_update (\<lambda>_. x)) (\<lambda>r. rv_editor r = Some u)
              (\<lambda>r. r\<lparr>rv_editor := None\<rparr>)) (\<lambda>n6.
     bindM (update_rows parking_photos (\<lambda>x. parking_photos_update (\<lambda>_. x)) (\<lambda>r. ph_uploader r = Some u)
              (\<lambda>r. r\<lparr>ph_uploader := None\<rparr>)) (\<lambda>n7.
     bindM (update_rows review_photos (\<lambda>x. review_photos_update (\<lambda>_. x)) (\<lambda>r. ph_uploader r = Some u)
              (\<lambda>r. r\<lparr>ph_uploader := None\<rparr>)) (\<lambda>n8.
       retM (\<lambda>a. a\<lparr>an_reviews := n1, an_verifications := n2, an_proposals := n3, an_reports := n4,
                   an_locations := n5, an_revisions := n6, an_parking_photos := n7, an_review_photos := n8\<rparr>)))))))))"

definition unname_actor :: "int \<Rightarrow> audit_row \<Rightarrow> audit_row" where
  "unname_actor u r = r\<lparr>ar_event := (ar_event r)\<lparr>ae_actor := None\<rparr>\<rparr>"

definition scrub_audit :: "int \<Rightarrow> ustring option \<Rightarrow> ('w privacy_world_scheme, privacy_error, anonymization_report \<Rightarrow> anonymization_report) m" where
  "scrub_audit u old_email =
     bindM (update_rows audit_events (\<lambda>x. audit_events_update (\<lambda>_. x)) (\<lambda>r. ae_actor (ar_event r) = Some u)
              (unname_actor u)) (\<lambda>n1.
     bindM (case old_email of
              None \<Rightarrow> retM 0
            | Some email \<Rightarrow>
                update_rows audit_events (\<lambda>x. audit_events_update (\<lambda>_. x))
                  (\<lambda>r. ae_target_type (ar_event r) = lit ''user'' \<and> ae_target_id (ar_event r) = email)
                  (\<lambda>r. r\<lparr>ar_event := (ar_event r)\<lparr>ae_target_id := anonymized_email u\<rparr>\<rparr>)) (\<lambda>n2.
     bindM (update_rows privacy_requests (\<lambda>x. privacy_requests_update (\<lambda>_. x))
              (\<lambda>r. qr_user r = Some u \<or> qr_fulfilled_by r = Some u)
              (\<lambda>r. r\<lparr>qr_user := None, qr_fulfilled_by := None\<rparr>)) (\<lambda>n3.
       retM (\<lambda>a. a\<lparr>an_audit_events := n1, an_audit_targets := n2, an_requests := n3\<rparr>))))"

definition empty_report :: anonymization_report where
  "empty_report =
     \<lparr>an_identities = 0, an_roles = 0, an_roles_granted_by = 0, an_sessions = 0, an_verification_tokens = 0,
      an_reset_tokens = 0, an_favorites = 0, an_parked_here = 0, an_exports = 0, an_consents = 0, an_reviews = 0,
      an_verifications = 0, an_proposals = 0, an_reports = 0, an_locations = 0, an_revisions = 0,
      an_parking_photos = 0, an_review_photos = 0, an_audit_events = 0, an_audit_targets = 0, an_requests = 0\<rparr>"

text \<open>One transaction; \<open>SET LOCAL\<close> is a statement that changes no table.\<close>

definition anonymize :: "auth_externals \<Rightarrow> int \<Rightarrow> int \<Rightarrow> ('w privacy_world_scheme, privacy_error, anonymization_report) m" where
  "anonymize E u t =
     transaction privacy_of_db
       (bindM (last_admin_locked u) (\<lambda>last.
        thenM (requireM (\<not> last) PvLastAdmin) (
        thenM (command privacy_of_db id) (
        bindM (query privacy_of_db (\<lambda>w. map_option ur_email (select_one (\<lambda>r. ur_id r = u) (users w)))) (\<lambda>old_email.
        thenM (scrub_user E u t) (
        bindM (erase_activity u) (\<lambda>f.
        bindM (detach_content u) (\<lambda>g.
        bindM (scrub_audit u old_email) (\<lambda>h.
          retM (h (g (f empty_report))))))))))))"

section \<open>Legal pages\<close>

record policy_document =
  pd_id :: int
  pd_kind :: policy_kind
  pd_locale :: ustring
  pd_version :: ustring
  pd_effective_at :: int
  pd_superseded_at :: "int option"
  pd_content :: ustring

definition document_from_row :: "policy_row \<Rightarrow> ('s, privacy_error, policy_document) m" where
  "document_from_row r =
     bindM (mapErrM (\<lambda>_. PvInternal) (liftR (policy_kind_from (py_kind r)))) (\<lambda>k.
       retM \<lparr>pd_id = py_id r, pd_kind = k, pd_locale = py_locale r, pd_version = py_version r,
             pd_effective_at = py_effective_at r, pd_superseded_at = py_superseded_at r, pd_content = py_content r\<rparr>)"

definition of_policy :: "policy_kind \<Rightarrow> ustring \<Rightarrow> policy_row \<Rightarrow> bool" where
  "of_policy k loc r \<longleftrightarrow> py_kind r = policy_kind_code k \<and> py_locale r = loc"

definition current_policy :: "policy_kind \<Rightarrow> ustring \<Rightarrow> ('w privacy_world_scheme, privacy_error, policy_document option) m" where
  "current_policy k loc =
     bindM (query privacy_of_db (\<lambda>w.
              case sort_key (\<lambda>r. - py_effective_at r)
                     (filter (\<lambda>r. of_policy k loc r \<and> py_superseded_at r = None) (policy_versions w)) of
                [] \<Rightarrow> None | r # _ \<Rightarrow> Some r)) (\<lambda>row.
       case row of None \<Rightarrow> retM None | Some r \<Rightarrow> bindM (document_from_row r) (\<lambda>d. retM (Some d)))"

definition policy_history :: "policy_kind \<Rightarrow> ustring \<Rightarrow> ('w privacy_world_scheme, privacy_error, policy_document list) m" where
  "policy_history k loc =
     bindM (query privacy_of_db (\<lambda>w.
              sort_key (\<lambda>r. (- py_effective_at r, - py_id r)) (filter (of_policy k loc) (policy_versions w))))
       (mapM document_from_row)"

definition policy_locales :: "ustring list" where
  "policy_locales = [lit ''pt-BR'', lit ''en'']"

definition insert_policy ::
  "policy_kind \<Rightarrow> ustring \<Rightarrow> ustring \<Rightarrow> int \<Rightarrow> ustring \<Rightarrow> ('w privacy_world_scheme, privacy_error, unit) m" where
  "insert_policy k loc version effective_at content =
     sql privacy_of_db (\<lambda>w.
       if \<exists>r \<in> set (policy_versions w). of_policy k loc r \<and> py_version r = version
       then Inl (DbConflict (Some (lit ''policy_version_kind_locale_version_key'')))
       else check_that ''policy_version_locale_check'' (loc \<in> set policy_locales)
         (Inr ((), w\<lparr>policy_versions := policy_versions w @
                [\<lparr>py_id = next_policy w, py_kind = policy_kind_code k, py_locale = loc, py_version = version,
                  py_effective_at = effective_at, py_superseded_at = None, py_content = content\<rparr>],
              next_policy := next_policy w + 1\<rparr>)))"

definition seed_policy ::
  "policy_kind \<Rightarrow> ustring \<Rightarrow> ustring \<Rightarrow> int \<Rightarrow> ustring \<Rightarrow> ('w privacy_world_scheme, privacy_error, unit) m" where
  "seed_policy k loc version effective_at content =
     bindM (query privacy_of_db (\<lambda>w. \<exists>r \<in> set (policy_versions w). of_policy k loc r \<and> py_version r = version)) (\<lambda>exists.
     if exists then retM ()
     else
       thenM (update_rows policy_versions (\<lambda>x. policy_versions_update (\<lambda>_. x))
                (\<lambda>r. of_policy k loc r \<and> py_superseded_at r = None \<and> py_effective_at r < effective_at)
                (\<lambda>r. r\<lparr>py_superseded_at := Some effective_at\<rparr>))
             (insert_policy k loc version effective_at content))"

text \<open>\<open>fill_policy_placeholders\<close>: the loop over the text that is left.\<close>

definition is_token :: "ustring \<Rightarrow> bool" where
  "is_token t \<longleftrightarrow> t \<noteq> [] \<and> list_all (\<lambda>c. (65 \<le> c \<and> c \<le> 90) \<or> (48 \<le> c \<and> c \<le> 57) \<or> c = 95) t"

fun find_pair :: "uchar \<Rightarrow> ustring \<Rightarrow> (ustring \<times> ustring) option" where
  "find_pair c (a # b # s) =
     (if a = c \<and> b = c then Some ([], s) else map_option (\<lambda>(before, after). (a # before, after)) (find_pair c (b # s)))"
| "find_pair c s = None"

lemma find_pair_shorter: "find_pair c s = Some (before, after) \<Longrightarrow> length after < length s"
  by (induction c s arbitrary: before rule: find_pair.induct) (fastforce split: if_splits)+

function fill_loop ::
  "(ustring \<Rightarrow> ustring option) \<Rightarrow> ustring \<Rightarrow> ustring list \<Rightarrow> ustring \<Rightarrow> ustring \<times> ustring list" where
  "fill_loop lookup out missing rest =
     (case find_pair 123 rest of
        None \<Rightarrow> (out @ rest, missing)
      | Some (before, after) \<Rightarrow>
          (case find_pair 125 after of
             None \<Rightarrow> (out @ rest, missing)
           | Some (inner, rest') \<Rightarrow>
               if is_token (trim inner)
               then (case lookup (trim inner) of
                       Some v \<Rightarrow> fill_loop lookup (out @ before @ v) missing rest'
                     | None \<Rightarrow> fill_loop lookup (out @ before)
                                 (if trim inner \<in> set missing then missing else missing @ [trim inner]) rest')
               else fill_loop lookup (out @ before @ lit ''{{'' @ inner @ lit ''}}'') missing rest'))"
  by pat_completeness auto
termination
  by (relation "measure (\<lambda>(lookup, out, missing, rest). length rest)")
    (auto dest!: find_pair_shorter)

declare fill_loop.simps [simp del]

definition fill_policy_placeholders :: "ustring \<Rightarrow> (ustring \<Rightarrow> ustring option) \<Rightarrow> ustring list + ustring" where
  "fill_policy_placeholders content lookup =
     (case fill_loop lookup [] [] content of
        (out, []) \<Rightarrow> Inr out
      | (out, m # ms) \<Rightarrow> Inl (m # ms))"

end
