(* ===== verification/Privacy_Service.thy ===== *)
theory Privacy_Service
  imports Privacy_Store
begin

text \<open>
  The privacy use cases (\<open>application/src/privacy.rs, PrivacyService\<close>): exporting and
  downloading one's data, deleting one's account, and the rights requests an
  administrator fulfils.  The parameter \<open>stamp\<close> of \<open>request_export\<close> is chrono's
  rendering of an instant in JSON.
\<close>

section \<open>Helpers\<close>

definition manual_request_kinds :: "privacy_request_kind list" where
  "manual_request_kinds = [PRectification, PRestriction, PObjection, PConsentWithdrawal]"

definition b64url_decode :: "auth_externals \<Rightarrow> ustring \<Rightarrow> byte list option" where
  "b64url_decode E s =
     (case b64_decode (ax_b64 E) s of
        None \<Rightarrow> None
      | Some bytes \<Rightarrow> if length bytes \<noteq> 32 then None else Some bytes)"

definition require_privacy_admin :: "authenticated_user \<Rightarrow> ('s, privacy_error, unit) m" where
  "require_privacy_admin u = requireM (actor_has_role u RAdmin) PvNotAuthorized"

definition privacy_audit :: "audit_event \<Rightarrow> ('w privacy_world_scheme, privacy_error, unit) m" where
  "privacy_audit ev = mapErrM privacy_of_audit (audit_record ev)"

section \<open>Exports\<close>

record export_requested =
  xq_id :: int
  xq_token :: ustring
  xq_created_at :: int
  xq_expires_at :: int

definition request_export ::
  "auth_externals \<Rightarrow> (int \<Rightarrow> ustring) \<Rightarrow> authenticated_user \<Rightarrow> ('w privacy_world_scheme, privacy_error, export_requested) m" where
  "request_export E stamp u =
     bindM (getM now) (\<lambda>t.
     bindM (assemble_payload (au_id u)) (\<lambda>payload.
     bindM random_bytes (\<lambda>token.
     bindM (create_export E \<lparr>nx_user = au_id u, nx_token = token, nx_payload = payload, nx_expires_at = t + hours 24\<rparr>) (\<lambda>i.
     thenM (privacy_audit (service_event (au_id u) ''privacy.export_requested'' ''personal_data_export'' i
              [(lit ''expires_at'', JString (stamp (t + hours 24)))]))
           (retM \<lparr>xq_id = i, xq_token = b64_encode (ax_b64 E) token, xq_created_at = t,
                  xq_expires_at = t + hours 24\<rparr>)))))"

definition list_exports :: "authenticated_user \<Rightarrow> ('w privacy_world_scheme, privacy_error, export list) m" where
  "list_exports u = list_export_rows (au_id u)"

definition download_export ::
  "auth_externals \<Rightarrow> authenticated_user \<Rightarrow> int \<Rightarrow> ustring \<Rightarrow> ('w privacy_world_scheme, privacy_error, export_payload) m" where
  "download_export E u i raw_token =
     bindM (get_export i) (\<lambda>found.
     bindM (okOrM PvNotFound found) (\<lambda>export.
     thenM (requireM (xe_user export = au_id u) PvNotAuthorized) (
     bindM (okOrM PvInvalidToken (b64url_decode E raw_token)) (\<lambda>token.
     bindM (getM now) (\<lambda>t.
     bindM (consume_download E i token t) (\<lambda>payload.
     thenM (privacy_audit (service_event (au_id u) ''privacy.export_downloaded'' ''personal_data_export'' i []))
           (retM payload)))))))"

section \<open>Deletion\<close>

text \<open>The re-authentication: the typed address, and the password of an account that has one.\<close>

definition reauthenticate ::
  "auth_externals \<Rightarrow> authenticated_user \<Rightarrow> ustring option \<Rightarrow> ustring \<Rightarrow> ('w privacy_world_scheme, privacy_error, unit) m" where
  "reauthenticate E u password typed_email =
     thenM (requireM (to_lowercase (ax_lower E) (trim typed_email) = au_email u) PvReauthRequired) (
     bindM (mapErrM privacy_of_auth (find_identity PasswordProvider (au_email u))) (\<lambda>identity.
       case identity of
         None \<Rightarrow> retM ()
       | Some i \<Rightarrow>
           (case id_hash i of
              None \<Rightarrow> retM ()
            | Some hash \<Rightarrow>
                bindM (okOrM PvReauthRequired password) (\<lambda>pw.
                bindM (mapErrM privacy_of_auth (verify_password E pw hash)) (\<lambda>good.
                  requireM good PvReauthRequired)))))"

definition request_deletion ::
  "auth_externals \<Rightarrow> authenticated_user \<Rightarrow> ustring option \<Rightarrow> ustring \<Rightarrow> ('w privacy_world_scheme, privacy_error, unit) m" where
  "request_deletion E u password typed_email =
     thenM (reauthenticate E u password typed_email) (
     bindM (is_last_admin (au_id u)) (\<lambda>last.
     thenM (requireM (\<not> last) PvLastAdmin) (
     bindM (getM now) (\<lambda>t.
     bindM (create_request \<lparr>nq_user = au_id u, nq_kind = PDeletion, nq_details = JObject []\<rparr>) (\<lambda>request.
     thenM (privacy_audit (service_event (au_id u) ''account.deletion_requested'' ''user'' (au_id u) [])) (
     thenM (anonymize E (au_id u) t) (
     thenM (fulfill_row request None) (
     thenM (privacy_audit (service_event (au_id u) ''account.anonymized'' ''user'' (au_id u) []))
           (mapErrM privacy_of_auth (revoke_all_for_user (au_id u)))))))))))"

section \<open>Rights requests\<close>

definition submit_request ::
  "authenticated_user \<Rightarrow> privacy_request_kind \<Rightarrow> json \<Rightarrow> ('w privacy_world_scheme, privacy_error, int) m" where
  "submit_request u k dets =
     thenM (requireM (k \<in> set manual_request_kinds) PvInvalidKind) (
     bindM (create_request \<lparr>nq_user = au_id u, nq_kind = k, nq_details = dets\<rparr>) (\<lambda>i.
     thenM (privacy_audit (service_event (au_id u) ''privacy.request_created'' ''privacy_request'' i
              [(lit ''kind'', JString (privacy_request_kind_code k))]))
           (retM i)))"

definition list_requests ::
  "authenticated_user \<Rightarrow> privacy_request_state option \<Rightarrow> ('w privacy_world_scheme, privacy_error, privacy_request list) m" where
  "list_requests actor st = thenM (require_privacy_admin actor) (list_request_rows st)"

definition fulfill_request :: "authenticated_user \<Rightarrow> int \<Rightarrow> ('w privacy_world_scheme, privacy_error, unit) m" where
  "fulfill_request actor i =
     thenM (require_privacy_admin actor) (
     thenM (fulfill_row i (Some (au_id actor)))
           (privacy_audit (service_event (au_id actor) ''privacy.request_fulfilled'' ''privacy_request'' i [])))"

end
