(* ===== verification/Privacy_Jobs.thy ===== *)
theory Privacy_Jobs
  imports Privacy_Service
begin

text \<open>
  Retention (\<open>infrastructure/src/privacy/retention.rs\<close> and \<open>RetentionJob\<close> of
  \<open>application/src/privacy.rs\<close>): the purges, the sweep of the object store a page at a time
  (\<open>list\<close> of \<open>infrastructure/src/storage.rs\<close>), the reconciliation of pending photos and the
  two steps the configuration enables.

  S3 lists the keys of a prefix in ascending order, strictly after \<open>start_after\<close>, and says
  whether it stopped early; every stored object has a modification time.
\<close>

section \<open>Listing the object store\<close>

record object_info =
  oi_key :: ustring
  oi_modified :: int

record object_page =
  og_objects :: "object_info list"
  og_next :: "ustring option"

definition list_page_keys :: nat where "list_page_keys = 1000"

definition listed_after :: "ustring \<Rightarrow> ustring option \<Rightarrow> 'w content_world_scheme \<Rightarrow> stored_object list" where
  "listed_after p after w =
     sort_key ob_key (filter (\<lambda>ob. starts_with (ob_key ob) p \<and> (case after of None \<Rightarrow> True | Some k \<Rightarrow> k < ob_key ob))
       (objects w))"

definition page_of :: "stored_object list \<Rightarrow> object_page" where
  "page_of found =
     (let shown = map (\<lambda>ob. \<lparr>oi_key = ob_key ob, oi_modified = ob_modified ob div seconds 1 * seconds 1\<rparr>)
                    (take list_page_keys found)
      in \<lparr>og_objects = shown,
          og_next = (if list_page_keys < length found \<and> shown \<noteq> [] then Some (oi_key (last shown)) else None)\<rparr>)"

definition list_objects ::
  "ustring \<Rightarrow> ustring option \<Rightarrow> ('w content_world_scheme, storage_error, object_page) m" where
  "list_objects p after = storage_call (\<lambda>w. (page_of (listed_after p after w), w))"

section \<open>Purges of expired rows\<close>

definition upload_prefix :: ustring where "upload_prefix = lit ''uploads/''"
definition pending_reconcile_grace :: int where "pending_reconcile_grace = hours 1"

definition privacy_of_storage :: "storage_error \<Rightarrow> privacy_error" where
  "privacy_of_storage e = (case e of StorageUnavailable \<Rightarrow> PvUnavailable | _ \<Rightarrow> PvInternal)"

definition purge_reset_tokens :: "int \<Rightarrow> ('w privacy_world_scheme, privacy_error, nat) m" where
  "purge_reset_tokens t = delete_rows reset_tokens (\<lambda>x. reset_tokens_update (\<lambda>_. x)) (\<lambda>r. rr_expires_at r < t)"

definition purge_verification_tokens :: "int \<Rightarrow> ('w privacy_world_scheme, privacy_error, nat) m" where
  "purge_verification_tokens t = delete_rows verif_tokens (\<lambda>x. verif_tokens_update (\<lambda>_. x)) (\<lambda>r. vr_expires_at r < t)"

definition purge_sessions :: "retention_policy \<Rightarrow> int \<Rightarrow> ('w privacy_world_scheme, privacy_error, nat) m" where
  "purge_sessions P t =
     delete_rows sessions (\<lambda>x. sessions_update (\<lambda>_. x))
       (\<lambda>r. sr_expires_at r < t \<or> sr_last_seen_at r < t - session_idle P)"

definition purge_parked_here :: "int \<Rightarrow> ('w privacy_world_scheme, privacy_error, nat) m" where
  "purge_parked_here t =
     delete_rows signals (\<lambda>x. signals_update (\<lambda>_. x))
       (\<lambda>r. sg_kind r = lit ''parked_here'' \<and> (case sg_expires_at r of None \<Rightarrow> False | Some e \<Rightarrow> e < t))"

definition purge_exports :: "int \<Rightarrow> ('w privacy_world_scheme, privacy_error, nat) m" where
  "purge_exports t = delete_rows data_exports (\<lambda>x. data_exports_update (\<lambda>_. x)) (\<lambda>r. xr_expires_at r < t)"

section \<open>The sweep of orphaned uploads\<close>

definition photo_keys :: "'w content_world_scheme \<Rightarrow> ustring set" where
  "photo_keys w =
     set (map ph_key (parking_photos w) @ map ph_key (review_photos w)
        @ concat (map (\<lambda>p. case ph_thumbnail p of None \<Rightarrow> [] | Some k \<Rightarrow> [k]) (parking_photos w))
        @ concat (map (\<lambda>p. case ph_thumbnail p of None \<Rightarrow> [] | Some k \<Rightarrow> [k]) (review_photos w)))"

definition referenced :: "ustring list \<Rightarrow> ('w privacy_world_scheme, privacy_error, ustring list) m" where
  "referenced probed =
     (if probed = [] then retM []
      else query privacy_of_db (\<lambda>w. filter (\<lambda>k. k \<in> photo_keys w) probed))"

fun delete_unreferenced :: "ustring list \<Rightarrow> ustring list \<Rightarrow> ('w privacy_world_scheme, privacy_error, nat) m" where
  "delete_unreferenced used [] = retM 0"
| "delete_unreferenced used (key # keys) =
     (if key \<in> set used then delete_unreferenced used keys
      else thenM (mapErrM privacy_of_storage (delete_object key))
             (bindM (delete_unreferenced used keys) (\<lambda>n. retM (n + 1))))"

definition purge_unreferenced :: "ustring list \<Rightarrow> ('w privacy_world_scheme, privacy_error, nat) m" where
  "purge_unreferenced probed =
     bindM (referenced probed) (\<lambda>used. delete_unreferenced used probed)"

text \<open>The loop over the pages: each answer's cursor leaves fewer keys to list.\<close>

lemma listed_after_length:
  "length (listed_after p after w) = length (filter (\<lambda>ob. starts_with (ob_key ob) p
     \<and> (case after of None \<Rightarrow> True | Some k \<Rightarrow> k < ob_key ob)) (objects w))"
  by (simp add: listed_after_def)

lemma in_listed_after:
  "ob \<in> set (listed_after p after w) \<longleftrightarrow>
     ob \<in> set (objects w) \<and> starts_with (ob_key ob) p \<and> (case after of None \<Rightarrow> True | Some k \<Rightarrow> k < ob_key ob)"
  by (simp add: listed_after_def)

lemma filter_shorter:
  assumes "\<And>x. x \<in> set xs \<Longrightarrow> P x \<Longrightarrow> Q x" and "y \<in> set xs" "Q y" "\<not> P y"
  shows "length (filter P xs) < length (filter Q xs)"
proof -
  have "filter P xs = filter P (filter Q xs)"
    using assms(1) by (simp add: filter_filter) (metis (mono_tags, lifting) filter_cong)
  moreover have "length (filter P (filter Q xs)) < length (filter Q xs)"
    by (rule length_filter_less[of y]) (use assms(2-4) in simp_all)
  ultimately show ?thesis by simp
qed

lemma listed_after_shrinks:
  assumes "ob \<in> set (listed_after p after w)"
  shows "length (listed_after p (Some (ob_key ob)) w) < length (listed_after p after w)"
  unfolding listed_after_length
  by (rule filter_shorter[of _ _ _ ob]) (use assms in \<open>auto simp: in_listed_after split: option.splits\<close>)

lemma listed_after_faults [simp]: "listed_after p after (w\<lparr>storage_faults := fs\<rparr>) = listed_after p after w"
  by (simp add: listed_after_def)

lemma list_objects_InrD:
  "list_objects p after w = (Inr page, w') \<Longrightarrow>
     objects w' = objects w \<and> page = page_of (listed_after p after w)"
  by (auto simp: list_objects_def storage_call_def split: list.splits option.splits)

lemma page_of_next:
  assumes "og_next (page_of found) = Some k"
  obtains ob where "ob \<in> set found" "k = ob_key ob"
proof -
  have nonempty: "take list_page_keys found \<noteq> []" and k: "k = ob_key (last (take list_page_keys found))"
    using assms by (auto simp: page_of_def Let_def last_map split: if_splits)
  from in_set_takeD[OF last_in_set[OF nonempty]] k show thesis by (rule that)
qed

lemma list_objects_next:
  assumes "list_objects p after w = (Inr page, w')" and "og_next page = Some k"
  shows "length (listed_after p (Some k) w') < length (listed_after p after w)"
proof -
  from list_objects_InrD[OF assms(1)] have same: "objects w' = objects w"
    and page: "page = page_of (listed_after p after w)" by simp_all
  from assms(2) obtain ob where "ob \<in> set (listed_after p after w)" "k = ob_key ob"
    unfolding page by (rule page_of_next)
  then show ?thesis using listed_after_shrinks[of ob p after w] by (simp add: listed_after_length same)
qed

lemma delete_unreferenced_objects:
  "delete_unreferenced used keys w = (r, w') \<Longrightarrow> \<exists>Q. objects w' = filter Q (objects w)"
proof (induction keys arbitrary: w r w')
  case (Cons key keys)
  show ?case
  proof (cases "key \<in> set used")
    case True with Cons show ?thesis by simp
  next
    case False
    obtain d w1 where d: "delete_object key w = (d, w1)" by fastforce
    then have w1: "\<exists>Q. objects w1 = filter Q (objects w)"
      by (auto simp: delete_object_def storage_call_def split: list.splits option.splits
          intro: exI[of _ "\<lambda>_. True"])
    show ?thesis
    proof (cases d)
      case (Inl e) with Cons.prems False d w1 show ?thesis by (auto simp: exec)
    next
      case (Inr u)
      obtain q w2 where q: "delete_unreferenced used keys w1 = (q, w2)" by fastforce
      from Cons.IH[OF this] w1 have "\<exists>Q. objects w2 = filter Q (objects w)" by auto
      with Cons.prems False d Inr q show ?thesis by (auto simp: exec split: sum.splits)
    qed
  qed
qed (auto simp: exec intro: exI[of _ "\<lambda>_. True"])

lemma purge_unreferenced_objects:
  "purge_unreferenced keys w = (r, w') \<Longrightarrow> \<exists>Q. objects w' = filter Q (objects w)"
  by (auto simp: purge_unreferenced_def referenced_def exec query_def sql_def run_stmt_def
      split: prod.splits sum.splits if_splits option.splits list.splits
      intro: exI[of _ "\<lambda>_. True"] dest!: delete_unreferenced_objects)

lemma purge_unreferenced_listed:
  assumes "purge_unreferenced keys w = (r, w')"
  shows "length (listed_after p after w') \<le> length (listed_after p after w)"
proof -
  from purge_unreferenced_objects[OF assms] obtain Q where Q: "objects w' = filter Q (objects w)" ..
  have "length (filter P (filter Q xs)) \<le> length (filter P xs)" for P :: "stored_object \<Rightarrow> bool" and xs
    by (induction xs) auto
  then show ?thesis unfolding listed_after_length Q .
qed

function (sequential) sweep_uploads ::
  "int \<Rightarrow> ustring option \<Rightarrow> 'w privacy_world_scheme \<Rightarrow> (privacy_error + nat) \<times> 'w privacy_world_scheme" where
  "sweep_uploads cutoff after w =
     (case mapErrM privacy_of_storage (list_objects upload_prefix after) w of
        (Inl e, w1) \<Rightarrow> (Inl e, w1)
      | (Inr page, w1) \<Rightarrow>
          (case purge_unreferenced (map oi_key (filter (\<lambda>ob. oi_modified ob < cutoff) (og_objects page))) w1 of
             (Inl e, w2) \<Rightarrow> (Inl e, w2)
           | (Inr n, w2) \<Rightarrow>
               (case og_next page of
                  None \<Rightarrow> (Inr n, w2)
                | Some k \<Rightarrow>
                    (case sweep_uploads cutoff (Some k) w2 of
                       (Inl e, w3) \<Rightarrow> (Inl e, w3)
                     | (Inr m, w3) \<Rightarrow> (Inr (n + m), w3)))))"
  by pat_completeness auto
termination
proof (relation "measure (\<lambda>(cutoff, after, w). length (listed_after upload_prefix after w))", goal_cases)
  case (2 cutoff after w r w1 page r' w2 n k)
  have "list_objects upload_prefix after w = (Inr page, w1)"
    using 2(1,2) by (auto simp: exec split: prod.splits sum.splits)
  from list_objects_next[OF this 2(5)] purge_unreferenced_listed[OF 2(3)[symmetric]]
  show ?case by (auto intro: le_less_trans)
qed simp

declare sweep_uploads.simps [simp del]

definition purge_orphan_uploads :: "retention_policy \<Rightarrow> int \<Rightarrow> ('w privacy_world_scheme, privacy_error, nat) m" where
  "purge_orphan_uploads P t = sweep_uploads (t - upload_orphan_ttl P) None"

section \<open>Pending photos without an object\<close>

definition delete_photo_row :: "photo_kind \<Rightarrow> int \<Rightarrow> ('w privacy_world_scheme, privacy_error, nat) m" where
  "delete_photo_row k i =
     (case k of
        ParkingPhotoKind \<Rightarrow> delete_rows parking_photos (\<lambda>x. parking_photos_update (\<lambda>_. x)) (\<lambda>p. ph_id p = i)
      | ReviewPhotoKind \<Rightarrow> delete_rows review_photos (\<lambda>x. review_photos_update (\<lambda>_. x)) (\<lambda>p. ph_id p = i))"

fun reconcile_rows :: "photo_kind \<Rightarrow> (int \<times> ustring) list \<Rightarrow> ('w privacy_world_scheme, privacy_error, nat) m" where
  "reconcile_rows k [] = retM 0"
| "reconcile_rows k ((i, key) # rows) =
     bindM (mapErrM privacy_of_storage (object_exists key)) (\<lambda>exists.
       if exists then reconcile_rows k rows
       else bindM (delete_photo_row k i) (\<lambda>n.
            bindM (reconcile_rows k rows) (\<lambda>m. retM (n + m))))"

definition reconcile_kind :: "photo_kind \<Rightarrow> int \<Rightarrow> ('w privacy_world_scheme, privacy_error, nat) m" where
  "reconcile_kind k cutoff =
     bindM (query privacy_of_db (\<lambda>w.
              map (\<lambda>p. (ph_id p, ph_key p))
                (filter (\<lambda>p. ph_state p = lit ''PENDING_REVIEW'' \<and> ph_created_at p < cutoff) (photo_rows k w))))
       (reconcile_rows k)"

definition reconcile_pending_photos :: "int \<Rightarrow> ('w privacy_world_scheme, privacy_error, nat) m" where
  "reconcile_pending_photos t =
     bindM (reconcile_kind ParkingPhotoKind (t - pending_reconcile_grace)) (\<lambda>n.
     bindM (reconcile_kind ReviewPhotoKind (t - pending_reconcile_grace)) (\<lambda>m.
       retM (n + m)))"

section \<open>Inactive and deleted accounts\<close>

text \<open>\<open>COALESCE(max(last_seen_at), created_at)\<close> of an account.\<close>

definition last_activity :: "'w auth_world_scheme \<Rightarrow> user_row \<Rightarrow> int" where
  "last_activity w r =
     (case map sr_last_seen_at (filter (\<lambda>s. sr_user s = ur_id r) (sessions w)) of
        [] \<Rightarrow> ur_created_at r
      | t # ts \<Rightarrow> fold max ts t)"

definition inactive_accounts :: "int \<Rightarrow> 'w auth_world_scheme \<Rightarrow> int list" where
  "inactive_accounts cutoff w =
     map ur_id (filter (\<lambda>r. ur_state r \<noteq> lit ''DELETED''
         \<and> \<not> (\<exists>x \<in> set (user_roles w). rl_user x = ur_id r \<and> rl_role x = lit ''ADMIN'')
         \<and> last_activity w r < cutoff) (users w))"

definition anonymize_inactive_accounts ::
  "auth_externals \<Rightarrow> int \<Rightarrow> ('w privacy_world_scheme, privacy_error, nat) m" where
  "anonymize_inactive_accounts E cutoff =
     bindM (query privacy_of_db (inactive_accounts cutoff)) (\<lambda>ids.
     thenM (forM ids (\<lambda>i. bindM (getM now) (\<lambda>t. thenM (anonymize E i t) (retM ()))))
           (retM (length ids)))"

text \<open>\<open>DELETE FROM users\<close> and what its foreign keys do: \<open>ON DELETE CASCADE\<close> on the account's own
  rows, \<open>ON DELETE SET NULL\<close> on every column that attributes something to it.\<close>

definition forget :: "(int \<Rightarrow> bool) \<Rightarrow> int option \<Rightarrow> int option" where
  "forget gone u = (case u of None \<Rightarrow> None | Some i \<Rightarrow> if gone i then None else Some i)"

definition cascade_accounts :: "(int \<Rightarrow> bool) \<Rightarrow> 'w privacy_world_scheme \<Rightarrow> 'w privacy_world_scheme" where
  "cascade_accounts gone w =
     w\<lparr>users := filter (\<lambda>r. \<not> gone (ur_id r)) (users w),
       identities := filter (\<lambda>r. \<not> gone (ir_user r)) (identities w),
       sessions := filter (\<lambda>r. \<not> gone (sr_user r)) (sessions w),
       verif_tokens := filter (\<lambda>r. \<not> gone (vr_user r)) (verif_tokens w),
       reset_tokens := filter (\<lambda>r. \<not> gone (rr_user r)) (reset_tokens w),
       user_roles := map (\<lambda>r. r\<lparr>rl_granted_by := forget gone (rl_granted_by r)\<rparr>)
         (filter (\<lambda>r. \<not> gone (rl_user r)) (user_roles w)),
       favorites := filter (\<lambda>r. \<not> gone (fv_user r)) (favorites w),
       data_exports := filter (\<lambda>r. \<not> gone (xr_user r)) (data_exports w),
       consents := filter (\<lambda>r. \<not> gone (co_user r)) (consents w)\<rparr>"

definition detach_accounts :: "(int \<Rightarrow> bool) \<Rightarrow> 'w privacy_world_scheme \<Rightarrow> 'w privacy_world_scheme" where
  "detach_accounts gone w =
     w\<lparr>audit_events := map (\<lambda>r. r\<lparr>ar_event := (ar_event r)\<lparr>ae_actor := forget gone (ae_actor (ar_event r))\<rparr>\<rparr>) (audit_events w),
       reviews := map (\<lambda>r. r\<lparr>re_author := forget gone (re_author r)\<rparr>) (reviews w),
       signals := map (\<lambda>r. r\<lparr>sg_user := forget gone (sg_user r)\<rparr>) (signals w),
       proposals := map (\<lambda>r. r\<lparr>pr_proposer := forget gone (pr_proposer r), pr_resolved_by := forget gone (pr_resolved_by r)\<rparr>)
         (proposals w),
       reports := map (\<lambda>r. r\<lparr>rp_reporter := forget gone (rp_reporter r), rp_claimed_by := forget gone (rp_claimed_by r),
                             rp_resolved_by := forget gone (rp_resolved_by r)\<rparr>) (reports w),
       locations := map (\<lambda>r. r\<lparr>lr_creator := forget gone (lr_creator r)\<rparr>) (locations w),
       revisions := map (\<lambda>r. r\<lparr>rv_editor := forget gone (rv_editor r)\<rparr>) (revisions w),
       parking_photos := map (\<lambda>r. r\<lparr>ph_uploader := forget gone (ph_uploader r), ph_reviewed_by := forget gone (ph_reviewed_by r)\<rparr>)
         (parking_photos w),
       review_photos := map (\<lambda>r. r\<lparr>ph_uploader := forget gone (ph_uploader r), ph_reviewed_by := forget gone (ph_reviewed_by r)\<rparr>)
         (review_photos w),
       privacy_requests := map (\<lambda>r. r\<lparr>qr_user := forget gone (qr_user r), qr_fulfilled_by := forget gone (qr_fulfilled_by r)\<rparr>)
         (privacy_requests w)\<rparr>"

definition purgeable :: "int \<Rightarrow> user_row \<Rightarrow> bool" where
  "purgeable cutoff r \<longleftrightarrow>
     ur_state r = lit ''DELETED'' \<and> (case ur_deleted_at r of None \<Rightarrow> False | Some t \<Rightarrow> t < cutoff)"

definition purge_deleted_accounts :: "int \<Rightarrow> ('w privacy_world_scheme, privacy_error, nat) m" where
  "purge_deleted_accounts cutoff =
     sql privacy_of_db (\<lambda>w.
       let gone = (\<lambda>i. \<exists>r \<in> set (users w). ur_id r = i \<and> purgeable cutoff r)
       in Inr (length (filter (purgeable cutoff) (users w)), detach_accounts gone (cascade_accounts gone w)))"

section \<open>The retention job\<close>

record retention_config =
  inactive_account_anonymize_after_days :: nat
  deleted_account_purge_after_days :: nat

text \<open>One step: its name, when it runs, and what it removes.\<close>

definition count_step ::
  "string \<Rightarrow> ('s, privacy_error, nat) m \<Rightarrow> ('s, privacy_error, (ustring \<times> nat) list) m" where
  "count_step name act = bindM act (\<lambda>n. retM [(lit name, n)])"

definition gated_step ::
  "string \<Rightarrow> nat \<Rightarrow> (int \<Rightarrow> ('s, privacy_error, nat) m) \<Rightarrow> int \<Rightarrow> ('s, privacy_error, (ustring \<times> nat) list) m" where
  "gated_step name after_days act t =
     (if after_days > 0 then count_step name (act (t - days (int after_days))) else retM [])"

definition retention_run ::
  "auth_externals \<Rightarrow> retention_policy \<Rightarrow> retention_config
    \<Rightarrow> ('w privacy_world_scheme, privacy_error, (ustring \<times> nat) list) m" where
  "retention_run E P C =
     bindM (getM now) (\<lambda>t.
     bindM (mapM id
       [count_step ''password_reset_tokens'' (purge_reset_tokens t),
        count_step ''email_verification_tokens'' (purge_verification_tokens t),
        count_step ''sessions'' (purge_sessions P t),
        count_step ''parked_here'' (purge_parked_here t),
        count_step ''exports'' (purge_exports t),
        count_step ''orphan_uploads'' (purge_orphan_uploads P t),
        count_step ''pending_photos'' (reconcile_pending_photos t),
        gated_step ''inactive_accounts'' (inactive_account_anonymize_after_days C) (anonymize_inactive_accounts E) t,
        gated_step ''deleted_accounts'' (deleted_account_purge_after_days C) purge_deleted_accounts t]) (\<lambda>steps.
     thenM (privacy_audit
              \<lparr>ae_actor = None, ae_action = lit ''retention.purged'', ae_target_type = lit ''system'',
               ae_target_id = lit ''retention'', ae_result = lit ''success'',
               ae_metadata = JObject [(lit ''steps'', JObject (map (\<lambda>(n, c). (n, JInt (int c))) (concat steps)))]\<rparr>)
           (retM (concat steps))))"

end
