(* ===== verification/Privacy_Effects.thy ===== *)
theory Privacy_Effects
  imports Privacy_Jobs Content_Frames
begin

text \<open>
  What the privacy operations do to the tables, as functions of the world: the erasure of an
  account, statement by statement, amounts to \<open>anonymized\<close>, or to nothing.  The sweep of
  the object store is an exact filter of it.
\<close>

section \<open>Statements over rows\<close>

lemma delete_rows_InrE:
  assumes "delete_rows get put P w = (Inr n, w')"
  obtains fs where "w' = put (filter (\<lambda>r. \<not> P r) (get (w\<lparr>faults := fs\<rparr>))) (w\<lparr>faults := fs\<rparr>)"
  using assms unfolding delete_rows_def by (elim sql_InrE) auto

lemma update_rows_InrE:
  assumes "update_rows get put P f w = (Inr n, w')"
  obtains fs where "w' = put (update_where P f (get (w\<lparr>faults := fs\<rparr>))) (w\<lparr>faults := fs\<rparr>)"
  using assms unfolding update_rows_def by (elim sql_InrE) auto

section \<open>The erasure of an account\<close>

definition activity_erased :: "int \<Rightarrow> 'w privacy_world_scheme \<Rightarrow> 'w privacy_world_scheme" where
  "activity_erased u w =
     w\<lparr>identities := filter (\<lambda>r. ir_user r \<noteq> u) (identities w),
       user_roles := update_where (\<lambda>r. rl_granted_by r = Some u) (\<lambda>r. r\<lparr>rl_granted_by := None\<rparr>)
         (filter (\<lambda>r. rl_user r \<noteq> u) (user_roles w)),
       sessions := filter (\<lambda>r. sr_user r \<noteq> u) (sessions w),
       verif_tokens := filter (\<lambda>r. vr_user r \<noteq> u) (verif_tokens w),
       reset_tokens := filter (\<lambda>r. rr_user r \<noteq> u) (reset_tokens w),
       favorites := filter (\<lambda>r. fv_user r \<noteq> u) (favorites w),
       signals := filter (\<lambda>r. \<not> (sg_user r = Some u \<and> sg_kind r = lit ''parked_here'')) (signals w),
       data_exports := filter (\<lambda>r. xr_user r \<noteq> u) (data_exports w),
       consents := filter (\<lambda>r. co_user r \<noteq> u) (consents w)\<rparr>"

definition content_detached :: "int \<Rightarrow> 'w privacy_world_scheme \<Rightarrow> 'w privacy_world_scheme" where
  "content_detached u w =
     w\<lparr>reviews := update_where (\<lambda>r. re_author r = Some u) (\<lambda>r. r\<lparr>re_author := None\<rparr>) (reviews w),
       signals := update_where (\<lambda>r. sg_user r = Some u \<and> sg_kind r \<noteq> lit ''parked_here'') (\<lambda>r. r\<lparr>sg_user := None\<rparr>)
         (signals w),
       proposals := update_where (\<lambda>r. pr_proposer r = Some u \<or> pr_resolved_by r = Some u)
         (\<lambda>r. r\<lparr>pr_proposer := None, pr_resolved_by := None\<rparr>) (proposals w),
       reports := update_where (\<lambda>r. rp_reporter r = Some u \<or> rp_claimed_by r = Some u \<or> rp_resolved_by r = Some u)
         (\<lambda>r. r\<lparr>rp_reporter := None, rp_claimed_by := None, rp_resolved_by := None\<rparr>) (reports w),
       locations := update_where (\<lambda>r. lr_creator r = Some u) (\<lambda>r. r\<lparr>lr_creator := None\<rparr>) (locations w),
       revisions := update_where (\<lambda>r. rv_editor r = Some u) (\<lambda>r. r\<lparr>rv_editor := None\<rparr>) (revisions w),
       parking_photos := update_where (\<lambda>r. ph_uploader r = Some u) (\<lambda>r. r\<lparr>ph_uploader := None\<rparr>) (parking_photos w),
       review_photos := update_where (\<lambda>r. ph_uploader r = Some u) (\<lambda>r. r\<lparr>ph_uploader := None\<rparr>) (review_photos w)\<rparr>"

definition hide_target :: "int \<Rightarrow> ustring option \<Rightarrow> audit_row list \<Rightarrow> audit_row list" where
  "hide_target u email rows =
     (case email of
        None \<Rightarrow> rows
      | Some e \<Rightarrow> update_where (\<lambda>r. ae_target_type (ar_event r) = lit ''user'' \<and> ae_target_id (ar_event r) = e)
          (\<lambda>r. r\<lparr>ar_event := (ar_event r)\<lparr>ae_target_id := anonymized_email u\<rparr>\<rparr>) rows)"

definition audit_scrubbed :: "int \<Rightarrow> ustring option \<Rightarrow> 'w privacy_world_scheme \<Rightarrow> 'w privacy_world_scheme" where
  "audit_scrubbed u email w =
     w\<lparr>audit_events := hide_target u email
         (update_where (\<lambda>r. ae_actor (ar_event r) = Some u) (unname_actor u) (audit_events w)),
       privacy_requests := update_where (\<lambda>r. qr_user r = Some u \<or> qr_fulfilled_by r = Some u)
         (\<lambda>r. r\<lparr>qr_user := None, qr_fulfilled_by := None\<rparr>) (privacy_requests w)\<rparr>"

definition user_scrubbed :: "int \<Rightarrow> int \<Rightarrow> 'w auth_world_scheme \<Rightarrow> 'w auth_world_scheme" where
  "user_scrubbed u t w =
     w\<lparr>users := update_where (\<lambda>r. ur_id r = u)
         (\<lambda>r. r\<lparr>ur_email := anonymized_email u, ur_display_name := None, ur_verified_at := None,
                ur_deleted_at := Some t, ur_state := lit ''DELETED''\<rparr>) (users w)\<rparr>"

definition anonymized :: "int \<Rightarrow> int \<Rightarrow> 'w privacy_world_scheme \<Rightarrow> 'w privacy_world_scheme" where
  "anonymized u t w =
     audit_scrubbed u (map_option ur_email (select_one (\<lambda>r. ur_id r = u) (users w)))
       (content_detached u (activity_erased u (user_scrubbed u t w)))"

lemma erase_activity_Inr:
  "erase_activity u w = (Inr f, w') \<Longrightarrow> w' = (activity_erased u w)\<lparr>faults := faults w'\<rparr>"
  unfolding erase_activity_def
  by (elim bindM_InrE delete_rows_InrE update_rows_InrE retM_InrE) (simp add: activity_erased_def)

lemma detach_content_Inr:
  "detach_content u w = (Inr f, w') \<Longrightarrow> w' = (content_detached u w)\<lparr>faults := faults w'\<rparr>"
  unfolding detach_content_def
  by (elim bindM_InrE update_rows_InrE retM_InrE) (simp add: content_detached_def)

lemma scrub_audit_Inr:
  "scrub_audit u email w = (Inr f, w') \<Longrightarrow> w' = (audit_scrubbed u email w)\<lparr>faults := faults w'\<rparr>"
  unfolding scrub_audit_def
  by (cases email) (auto simp: audit_scrubbed_def hide_target_def elim!: bindM_InrE update_rows_InrE retM_InrE)

lemma scrub_user_Inr:
  "scrub_user E u t w = (Inr n, w') \<Longrightarrow>
     w' = (user_scrubbed u t w)\<lparr>faults := faults w'\<rparr> \<and> unique_emails E (users (user_scrubbed u t w))"
  unfolding scrub_user_def
  by (elim sql_InrE) (auto simp: user_scrubbed_def Let_def check_unique_def split: if_splits)

lemma effects_faults [simp]:
  "activity_erased u (w\<lparr>faults := fs\<rparr>) = (activity_erased u w)\<lparr>faults := fs\<rparr>"
  "content_detached u (w\<lparr>faults := fs\<rparr>) = (content_detached u w)\<lparr>faults := fs\<rparr>"
  "audit_scrubbed u e (w\<lparr>faults := fs\<rparr>) = (audit_scrubbed u e w)\<lparr>faults := fs\<rparr>"
  "user_scrubbed u t (w\<lparr>faults := fs\<rparr>) = (user_scrubbed u t w)\<lparr>faults := fs\<rparr>"
  by (simp_all add: activity_erased_def content_detached_def audit_scrubbed_def user_scrubbed_def)

text \<open>As elimination rules.\<close>

lemma effect_InrE:
  "erase_activity u w = (Inr f, w') \<Longrightarrow> (\<And>fs. w' = (activity_erased u w)\<lparr>faults := fs\<rparr> \<Longrightarrow> R) \<Longrightarrow> R"
  "detach_content u w = (Inr f, w') \<Longrightarrow> (\<And>fs. w' = (content_detached u w)\<lparr>faults := fs\<rparr> \<Longrightarrow> R) \<Longrightarrow> R"
  "scrub_audit u email w = (Inr f, w') \<Longrightarrow> (\<And>fs. w' = (audit_scrubbed u email w)\<lparr>faults := fs\<rparr> \<Longrightarrow> R) \<Longrightarrow> R"
  "scrub_user E u t w = (Inr n, w') \<Longrightarrow>
     (\<And>fs. w' = (user_scrubbed u t w)\<lparr>faults := fs\<rparr> \<Longrightarrow> unique_emails E (users (user_scrubbed u t w)) \<Longrightarrow> R) \<Longrightarrow> R"
proof -
  show "(\<And>fs. w' = (user_scrubbed u t w)\<lparr>faults := fs\<rparr> \<Longrightarrow> unique_emails E (users (user_scrubbed u t w)) \<Longrightarrow> R) \<Longrightarrow> R"
    if "scrub_user E u t w = (Inr n, w')"
    using scrub_user_Inr[OF that] by blast
qed (blast dest: erase_activity_Inr detach_content_Inr scrub_audit_Inr)+

lemma last_admin_locked_InrE:
  assumes "last_admin_locked u w = (Inr b, w')"
  obtains fs where "w' = w\<lparr>faults := fs\<rparr>" "b \<longleftrightarrow> u \<in> set (admin_ids w) \<and> length (admin_ids w) = 1"
  using assms unfolding last_admin_locked_def
  by (elim bindM_InrE query_InrE retM_InrE) (auto simp: admin_ids_def)

text \<open>A successful erasure is the function, and an account with the last ADMIN role is refused.\<close>

lemma anonymize_Inr:
  assumes "anonymize E u t w = (Inr rep, w')"
  shows "w' = (anonymized u t w)\<lparr>faults := faults w'\<rparr> \<and> \<not> (u \<in> set (admin_ids w) \<and> length (admin_ids w) = 1)
      \<and> unique_emails E (users (user_scrubbed u t w))"
  using assms unfolding anonymize_def
  by (elim transaction_InrE bindM_InrE thenM_InrE last_admin_locked_InrE requireM_InrE command_InrE query_InrE
      retM_InrE effect_InrE) (simp add: anonymized_def admin_ids_def)

end
