(* ===== verification/Privacy_Erasure.thy ===== *)
theory Privacy_Erasure
  imports Privacy_Effects
begin

text \<open>
  What the deletion of an account leaves behind: rows that belong to it are gone, what it
  contributed stays without its name, and a deletion that fails has changed nothing but the
  request and the audit trail, or has erased the account.
\<close>

section \<open>Rows that name an account\<close>

text \<open>Rows of the account itself.\<close>

definition owns :: "int \<Rightarrow> 'w privacy_world_scheme \<Rightarrow> bool" where
  "owns u w \<longleftrightarrow>
     u \<in> set (map ir_user (identities w) @ map rl_user (user_roles w) @ map sr_user (sessions w)
            @ map vr_user (verif_tokens w) @ map rr_user (reset_tokens w) @ map fv_user (favorites w)
            @ map xr_user (data_exports w) @ map co_user (consents w))"

text \<open>Rows that attribute something to it: every such column but the audit trail's actor and
  the reviewer of a photo.\<close>

definition attributed :: "int \<Rightarrow> 'w privacy_world_scheme \<Rightarrow> bool" where
  "attributed u w \<longleftrightarrow>
     Some u \<in> set (map rl_granted_by (user_roles w) @ map re_author (reviews w) @ map sg_user (signals w)
            @ map pr_proposer (proposals w) @ map pr_resolved_by (proposals w)
            @ map rp_reporter (reports w) @ map rp_claimed_by (reports w) @ map rp_resolved_by (reports w)
            @ map lr_creator (locations w) @ map rv_editor (revisions w)
            @ map ph_uploader (parking_photos w) @ map ph_uploader (review_photos w)
            @ map qr_user (privacy_requests w) @ map qr_fulfilled_by (privacy_requests w))"

definition audited :: "int \<Rightarrow> 'w auth_world_scheme \<Rightarrow> audit_row list" where
  "audited u w = filter (\<lambda>r. ae_actor (ar_event r) = Some u) (audit_events w)"

definition shell :: "int \<Rightarrow> user_row \<Rightarrow> bool" where
  "shell u r \<longleftrightarrow> ur_email r = anonymized_email u \<and> ur_display_name r = None \<and> ur_verified_at r = None
     \<and> ur_deleted_at r \<noteq> None \<and> ur_state r = lit ''DELETED''"

definition erased :: "int \<Rightarrow> 'w privacy_world_scheme \<Rightarrow> bool" where
  "erased u w \<longleftrightarrow> \<not> owns u w \<and> \<not> attributed u w \<and> (\<forall>r \<in> set (users w). ur_id r = u \<longrightarrow> shell u r)"

lemma anonymized_tables:
  "\<not> owns u (anonymized u t w)" "\<not> attributed u (anonymized u t w)" "audited u (anonymized u t w) = []"
  "\<forall>r \<in> set (users (anonymized u t w)). ur_id r = u \<longrightarrow> shell u r"
proof -
  note defs = anonymized_def user_scrubbed_def activity_erased_def content_detached_def audit_scrubbed_def
  show "\<not> owns u (anonymized u t w)"
    by (auto simp: owns_def defs set_update_where)
  show "\<not> attributed u (anonymized u t w)"
    by (auto simp: attributed_def defs set_update_where)
  show "audited u (anonymized u t w) = []"
    by (auto simp: audited_def defs hide_target_def set_update_where unname_actor_def filter_empty_conv split: option.splits)
  show "\<forall>r \<in> set (users (anonymized u t w)). ur_id r = u \<longrightarrow> shell u r"
    by (simp add: defs ball_update_where shell_def)
qed

text \<open>The contributions without their authors, and the rows of everyone else.\<close>

definition contributions where
  "contributions w =
     (map (re_author_update (\<lambda>_. None)) (reviews w),
      map (pr_proposer_update (\<lambda>_. None) \<circ> pr_resolved_by_update (\<lambda>_. None)) (proposals w),
      map (rp_reporter_update (\<lambda>_. None) \<circ> rp_claimed_by_update (\<lambda>_. None) \<circ> rp_resolved_by_update (\<lambda>_. None)) (reports w),
      map (lr_creator_update (\<lambda>_. None)) (locations w), map (rv_editor_update (\<lambda>_. None)) (revisions w),
      map (ph_uploader_update (\<lambda>_. None)) (parking_photos w), map (ph_uploader_update (\<lambda>_. None)) (review_photos w),
      map (sg_user_update (\<lambda>_. None)) (filter (\<lambda>s. sg_kind s \<noteq> lit ''parked_here'') (signals w)),
      hours_table w, security_table w, review_revisions w)"

definition rows_of_others where
  "rows_of_others u w =
     (filter (\<lambda>r. ur_id r \<noteq> u) (users w), filter (\<lambda>r. ir_user r \<noteq> u) (identities w),
      filter (\<lambda>r. sr_user r \<noteq> u) (sessions w), filter (\<lambda>r. vr_user r \<noteq> u) (verif_tokens w),
      filter (\<lambda>r. rr_user r \<noteq> u) (reset_tokens w), map role_key (filter (\<lambda>r. rl_user r \<noteq> u) (user_roles w)),
      filter (\<lambda>r. fv_user r \<noteq> u) (favorites w), filter (\<lambda>r. xr_user r \<noteq> u) (data_exports w),
      filter (\<lambda>r. co_user r \<noteq> u) (consents w), filter (\<lambda>s. sg_user s \<noteq> Some u \<and> sg_user s \<noteq> None) (signals w))"

lemma filter_update_where_other:
  "(\<And>r. P r \<Longrightarrow> \<not> Q r \<and> \<not> Q (f r)) \<Longrightarrow> filter Q (update_where P f t) = filter Q t"
  by (induction t) auto

lemma map_update_where_same: "(\<And>r. P r \<Longrightarrow> g (f r) = g r) \<Longrightarrow> map g (update_where P f t) = map g t"
  by (rule map_update_where)

lemma anonymized_contributions: "contributions (anonymized u t w) = contributions w"
proof -
  note defs = anonymized_def user_scrubbed_def activity_erased_def content_detached_def audit_scrubbed_def
  have "map (sg_user_update (\<lambda>_. None)) (filter (\<lambda>s. sg_kind s \<noteq> k) (update_where (\<lambda>r. sg_user r = Some u \<and> sg_kind r \<noteq> k)
      (\<lambda>r. r\<lparr>sg_user := None\<rparr>) (filter (\<lambda>r. sg_user r = Some u \<longrightarrow> sg_kind r \<noteq> k) rows)))
    = map (sg_user_update (\<lambda>_. None)) (filter (\<lambda>s. sg_kind s \<noteq> k) rows)" for k and rows :: "signal_row list"
    by (induction rows) auto
  then show ?thesis by (simp add: contributions_def defs map_update_where)
qed

lemma anonymized_others: "rows_of_others u (anonymized u t w) = rows_of_others u w"
proof -
  note defs = anonymized_def user_scrubbed_def activity_erased_def content_detached_def audit_scrubbed_def
  have "map role_key (filter (\<lambda>r. rl_user r \<noteq> u) (update_where (\<lambda>r. rl_granted_by r = Some u) (\<lambda>r. r\<lparr>rl_granted_by := None\<rparr>)
      (filter (\<lambda>r. rl_user r \<noteq> u) rows))) = map role_key (filter (\<lambda>r. rl_user r \<noteq> u) rows)" for rows
    by (induction rows) (auto simp: role_key_def)
  moreover have "filter (\<lambda>s. sg_user s \<noteq> Some u \<and> sg_user s \<noteq> None) (update_where (\<lambda>r. sg_user r = Some u \<and> sg_kind r \<noteq> k)
      (\<lambda>r. r\<lparr>sg_user := None\<rparr>) (filter (\<lambda>r. sg_user r = Some u \<longrightarrow> sg_kind r \<noteq> k) rows))
    = filter (\<lambda>s. sg_user s \<noteq> Some u \<and> sg_user s \<noteq> None) rows" for k and rows :: "signal_row list"
    by (induction rows) auto
  moreover have "filter (\<lambda>r. ur_id r \<noteq> u) (update_where (\<lambda>r. ur_id r = u) f rows) = filter (\<lambda>r. ur_id r \<noteq> u) rows"
    if "\<And>r. ur_id (f r) = ur_id r" for f and rows :: "user_row list"
    using that by (induction rows) auto
  ultimately show ?thesis by (simp add: rows_of_others_def defs)
qed

lemma erased_faults [simp]:
  "owns u (w\<lparr>faults := fs\<rparr>) = owns u w" "attributed u (w\<lparr>faults := fs\<rparr>) = attributed u w"
  "audited u (w\<lparr>faults := fs\<rparr>) = audited u w" "contributions (w\<lparr>faults := fs\<rparr>) = contributions w"
  "rows_of_others u (w\<lparr>faults := fs\<rparr>) = rows_of_others u w"
  by (simp_all add: owns_def attributed_def audited_def contributions_def rows_of_others_def)

text \<open>Erased, everything else kept.\<close>

lemma anonymize_erases:
  assumes "anonymize E u t w = (Inr rep, w')"
  shows "erased u w' \<and> audited u w' = [] \<and> contributions w' = contributions w \<and> rows_of_others u w' = rows_of_others u w"
proof -
  from anonymize_Inr[OF assms] obtain fs where w': "w' = (anonymized u t w)\<lparr>faults := fs\<rparr>" by blast
  show ?thesis by (simp add: w' erased_def erased_faults anonymized_tables anonymized_contributions anonymized_others)
qed

section \<open>The deletion use case\<close>

definition may_delete ::
  "auth_externals \<Rightarrow> authenticated_user \<Rightarrow> ustring option \<Rightarrow> ustring \<Rightarrow> 'w auth_world_scheme \<Rightarrow> bool" where
  "may_delete E u password typed w \<longleftrightarrow>
     to_lowercase (ax_lower E) (trim typed) = au_email u
     \<and> (case select_one (\<lambda>r. ir_provider r = lit ''password'' \<and> ir_subject r = au_email u) (identities w) of
          None \<Rightarrow> True
        | Some r \<Rightarrow>
            (case ir_hash r of
               None \<Rightarrow> True
             | Some h \<Rightarrow> (case password of None \<Rightarrow> False | Some p \<Rightarrow> ax_verify E p h = Some True)))"

lemma reauthenticate_InrE:
  assumes "reauthenticate E u password typed w = (Inr x, w')"
  obtains fs where "w' = w\<lparr>faults := fs\<rparr>" "may_delete E u password typed w"
proof -
  have "\<exists>fs. w' = w\<lparr>faults := fs\<rparr> \<and> may_delete E u password typed w"
    using assms unfolding reauthenticate_def find_identity_def verify_password_def
    by (elim thenM_InrE requireM_InrE bindM_InrE mapErrM_InrE query_InrE)
      (auto simp: may_delete_def provider_code_def exec split: option.splits if_splits)
  then show thesis using that by blast
qed

lemma privacy_audit_InrE:
  assumes "privacy_audit ev w = (Inr x, w')"
  obtains fs row where "w' = w\<lparr>faults := fs, audit_events := audit_events w @ [row], next_audit := next_audit w + 1\<rparr>"
    "ar_event row = ev"
  using assms unfolding privacy_audit_def audit_record_def
  by (elim mapErrM_InrE sql_InrE) (auto split: if_splits)

lemma create_request_InrE:
  assumes "create_request n w = (Inr i, w')"
  obtains fs row where "i = next_privacy_request w"
    "w' = w\<lparr>faults := fs, privacy_requests := privacy_requests w @ [row], next_privacy_request := next_privacy_request w + 1\<rparr>"
    "qr_id row = i" "qr_kind row = privacy_request_kind_code (nq_kind n)" "qr_state row = lit ''OPEN''"
    "qr_user row = Some (nq_user n)" "qr_fulfilled_by row = None"
  using assms unfolding create_request_def
  by (elim sql_InrE) (auto simp: check_user_def check_that_def split: if_splits)

lemma fulfill_row_InrE:
  assumes "fulfill_row i by w = (Inr x, w')"
  obtains fs t where "length (filter (open_request i) (privacy_requests w)) = 1"
    "w' = w\<lparr>faults := fs, privacy_requests := update_where (open_request i)
        (\<lambda>r. r\<lparr>qr_state := lit ''COMPLETED'', qr_fulfilled_by := by, qr_fulfilled_at := Some t, qr_updated_at := t\<rparr>)
        (privacy_requests w)\<rparr>"
  using assms unfolding fulfill_row_def
  by (elim bindM_InrE sql_InrE requireM_InrE)
    (auto simp: Let_def check_user_def check_that_def split: option.splits if_splits)

lemma revoke_all_InrE:
  assumes "revoke_all_for_user i w = (Inr x, w')"
  obtains fs t where "w' = w\<lparr>faults := fs, sessions := update_where (\<lambda>r. sr_user r = i \<and> sr_revoked_at r = None)
      (\<lambda>r. r\<lparr>sr_revoked_at := Some t\<rparr>) (sessions w)\<rparr>"
  using assms unfolding revoke_all_for_user_def revoke_where_def by (elim command_InrE) auto

text \<open>The erased world after the request is closed, the audit written and the sessions revoked.\<close>

lemma erased_writes [simp]:
  "contributions (w\<lparr>audit_events := a, next_audit := n\<rparr>) = contributions w"
  "contributions (w\<lparr>privacy_requests := q\<rparr>) = contributions w"
  "contributions (w\<lparr>next_privacy_request := k\<rparr>) = contributions w"
  "contributions (w\<lparr>sessions := ss\<rparr>) = contributions w"
  by (simp_all add: contributions_def)

lemma erased_kept:
  assumes "erased u w"
  shows "erased u (w\<lparr>faults := fs\<rparr>)" "erased u (w\<lparr>audit_events := a, next_audit := n\<rparr>)"
    "(\<And>r. qr_user (f r) = qr_user r) \<Longrightarrow> (\<And>r. qr_fulfilled_by (f r) = None) \<Longrightarrow>
       erased u (w\<lparr>privacy_requests := update_where P f (privacy_requests w)\<rparr>)"
    "(\<And>r. sr_user (g r) = sr_user r) \<Longrightarrow> erased u (w\<lparr>sessions := update_where S g (sessions w)\<rparr>)"
  using assms by (auto simp: erased_def owns_def attributed_def set_update_where)

lemma anonymized_request:
  assumes "row \<in> set (privacy_requests v)" "qr_user row = Some u"
  shows "row\<lparr>qr_user := None, qr_fulfilled_by := None\<rparr> \<in> set (privacy_requests (anonymized u t v))"
  using assms by (auto simp: anonymized_def audit_scrubbed_def content_detached_def activity_erased_def user_scrubbed_def
      set_update_where image_iff)

lemma request_deletion_InrE:
  assumes "request_deletion E u password typed w = (Inr x, w')"
  obtains s1 s2 s3 v v2 v3 v4 i rep where
    "reauthenticate E u password typed w = (Inr (), s1)" "is_last_admin (au_id u) s1 = (Inr False, s2)"
    "create_request \<lparr>nq_user = au_id u, nq_kind = PDeletion, nq_details = JObject []\<rparr> s2 = (Inr i, s3)"
    "privacy_audit (service_event (au_id u) ''account.deletion_requested'' ''user'' (au_id u) []) s3 = (Inr (), v)"
    "anonymize E (au_id u) (now s2) v = (Inr rep, v2)" "fulfill_row i None v2 = (Inr (), v3)"
    "privacy_audit (service_event (au_id u) ''account.anonymized'' ''user'' (au_id u) []) v3 = (Inr (), v4)"
    "revoke_all_for_user (au_id u) v4 = (Inr (), w')"
  using assms unfolding request_deletion_def
  by (elim thenM_InrE bindM_InrE getM_InrE requireM_InrE mapErrM_InrE) clarsimp

lemma prepared_deletion:
  assumes "reauthenticate E u password typed w = (Inr y, s1)" "is_last_admin (au_id u) s1 = (Inr b, s2)"
    "create_request \<lparr>nq_user = au_id u, nq_kind = PDeletion, nq_details = JObject []\<rparr> s2 = (Inr i, s3)"
    "privacy_audit ev s3 = (Inr y', v)"
  shows "may_delete E u password typed w \<and> i = next_privacy_request w \<and> admin_ids v = admin_ids w
    \<and> contributions v = contributions w \<and> users v = users w \<and> (\<exists>row \<in> set (privacy_requests v). qr_id row = i \<and> qr_kind row = lit ''deletion''
      \<and> qr_state row = lit ''OPEN'' \<and> qr_user row = Some (au_id u))"
  using assms unfolding is_last_admin_def
  by (elim reauthenticate_InrE query_InrE create_request_InrE privacy_audit_InrE)
    (simp add: contributions_def admin_ids_def privacy_request_kind_code_def)

lemma hide_target_hides:
  "e \<noteq> anonymized_email u \<Longrightarrow> r \<in> set (hide_target u (Some e) rows) \<Longrightarrow> ae_target_type (ar_event r) = lit ''user''
    \<Longrightarrow> ae_target_id (ar_event r) \<noteq> e"
  by (auto simp: hide_target_def set_update_where)

lemma anonymized_targets:
  assumes "select_one (\<lambda>r. ur_id r = u) (users v) = Some row" "ur_email row \<noteq> anonymized_email u"
    and "r \<in> set (audit_events (anonymized u t v))" "ae_target_type (ar_event r) = lit ''user''"
  shows "ae_target_id (ar_event r) \<noteq> ur_email row"
proof -
  have "r \<in> set (hide_target u (Some (ur_email row))
      (update_where (\<lambda>r. ae_actor (ar_event r) = Some u) (unname_actor u) (audit_events v)))"
    using assms(1,3) by (simp add: anonymized_def audit_scrubbed_def content_detached_def activity_erased_def user_scrubbed_def)
  from hide_target_hides[OF assms(2) this assms(4)] show ?thesis .
qed

text \<open>C8: a deletion that returned was confirmed, left an administrator, erased the account and
  closed its request without a name.  In the audit trail, its own last record is the only event
  whose actor is the account, and no event about a user has the account's e-mail address as its
  target any more (a failed login is recorded under the address that was typed).  Events about
  the account keep its bare number as their target.\<close>

theorem deletion_completes:
  assumes "request_deletion E u password typed w = (Inr x, w')"
  shows "may_delete E u password typed w
     \<and> \<not> (au_id u \<in> set (admin_ids w) \<and> length (admin_ids w) = 1)
     \<and> erased (au_id u) w' \<and> contributions w' = contributions w
     \<and> map (\<lambda>r. ae_action (ar_event r)) (audited (au_id u) w') = [lit ''account.anonymized'']
     \<and> (\<forall>row. select_one (\<lambda>r. ur_id r = au_id u) (users w) = Some row
            \<and> ur_email row \<notin> {anonymized_email (au_id u), show_int (au_id u)} \<longrightarrow>
          (\<forall>r \<in> set (audit_events w'). ae_target_type (ar_event r) = lit ''user'' \<longrightarrow> ae_target_id (ar_event r) \<noteq> ur_email row))
     \<and> (\<exists>q \<in> set (privacy_requests w'). qr_id q = next_privacy_request w \<and> qr_kind q = lit ''deletion''
          \<and> qr_state q = lit ''COMPLETED'' \<and> qr_user q = None)"
proof -
  let ?u = "au_id u" and ?i = "next_privacy_request w"
    and ?close = "\<lambda>t r :: request_row. r\<lparr>qr_state := lit ''COMPLETED'', qr_fulfilled_by := None, qr_fulfilled_at := Some t,
      qr_updated_at := t\<rparr>"
  from assms obtain s1 s2 s3 v v2 v3 v4 i rep where
    before: "reauthenticate E u password typed w = (Inr (), s1)" "is_last_admin ?u s1 = (Inr False, s2)"
      "create_request \<lparr>nq_user = ?u, nq_kind = PDeletion, nq_details = JObject []\<rparr> s2 = (Inr i, s3)"
      "privacy_audit (service_event ?u ''account.deletion_requested'' ''user'' ?u []) s3 = (Inr (), v)"
    and erase: "anonymize E ?u (now s2) v = (Inr rep, v2)"
    and after: "fulfill_row i None v2 = (Inr (), v3)"
      "privacy_audit (service_event ?u ''account.anonymized'' ''user'' ?u []) v3 = (Inr (), v4)"
      "revoke_all_for_user ?u v4 = (Inr (), w')"
    by (rule request_deletion_InrE) blast
  from prepared_deletion[OF before] obtain row where prep: "may_delete E u password typed w" "i = ?i"
    "admin_ids v = admin_ids w" "contributions v = contributions w" "users v = users w" and row: "row \<in> set (privacy_requests v)"
    "qr_id row = i" "qr_kind row = lit ''deletion''" "qr_state row = lit ''OPEN''" "qr_user row = Some ?u" by blast
  from anonymize_Inr[OF erase] obtain fs where v2: "v2 = (anonymized ?u (now s2) v)\<lparr>faults := fs\<rparr>"
    and admins: "\<not> (?u \<in> set (admin_ids w) \<and> length (admin_ids w) = 1)" by (auto simp: prep)
  have e2: "erased ?u v2" "audited ?u v2 = []" "contributions v2 = contributions w"
    by (simp_all add: v2 erased_def anonymized_tables anonymized_contributions prep)
  from after obtain fs1 fs2 fs3 t t' ev where
    v3: "v3 = v2\<lparr>faults := fs1, privacy_requests := update_where (open_request i) (?close t) (privacy_requests v2)\<rparr>"
    and v4: "v4 = v3\<lparr>faults := fs2, audit_events := audit_events v3 @ [ev], next_audit := next_audit v3 + 1\<rparr>"
    and ev: "ar_event ev = service_event ?u ''account.anonymized'' ''user'' ?u []"
    and w': "w' = v4\<lparr>faults := fs3, sessions := update_where (\<lambda>r. sr_user r = ?u \<and> sr_revoked_at r = None)
        (\<lambda>r. r\<lparr>sr_revoked_at := Some t'\<rparr>) (sessions v4)\<rparr>"
    by (elim fulfill_row_InrE privacy_audit_InrE revoke_all_InrE) blast
  have "erased ?u v3" unfolding v3
    using erased_kept(3)[OF erased_kept(1)[OF e2(1), of fs1], of "?close t" "open_request i"] by simp
  from erased_kept(1)[OF erased_kept(2)[OF this]] have "erased ?u (v4\<lparr>faults := fs3\<rparr>)" by (simp add: v4)
  then have erased: "erased ?u w'"
    unfolding w' using erased_kept(4)[of ?u "v4\<lparr>faults := fs3\<rparr>" "\<lambda>r. r\<lparr>sr_revoked_at := Some t'\<rparr>"] by simp
  have trail: "audited ?u w' = [ev]"
    using e2(2) by (simp add: audited_def w' v4 v3 ev service_event_def)
  have kept: "contributions w' = contributions w"
    using e2(3) by (simp add: w' v4 v3)
  have "row\<lparr>qr_user := None, qr_fulfilled_by := None\<rparr> \<in> set (privacy_requests v2)"
    using anonymized_request[OF row(1,5)] by (simp add: v2)
  then have "\<exists>q \<in> set (privacy_requests w'). qr_id q = ?i \<and> qr_kind q = lit ''deletion''
      \<and> qr_state q = lit ''COMPLETED'' \<and> qr_user q = None"
    unfolding w' v4 v3 by (simp add: bex_update_where) (rule bexI[rotated], assumption, simp add: row prep open_request_def)
  moreover have "ae_target_id (ar_event r) \<noteq> ur_email x"
    if "select_one (\<lambda>r. ur_id r = ?u) (users w) = Some x" "ur_email x \<notin> {anonymized_email ?u, show_int ?u}"
      "r \<in> set (audit_events w')" "ae_target_type (ar_event r) = lit ''user''" for x r
  proof (cases "r = ev")
    case True
    then show ?thesis using that(2) by (auto simp: ev service_event_def)
  next
    case False
    then have "r \<in> set (audit_events (anonymized ?u (now s2) v))" using that(3) by (simp add: w' v4 v3 v2)
    from anonymized_targets[OF _ _ this that(4)] that(1,2) prep(5) show ?thesis by auto
  qed
  ultimately show ?thesis using prep admins erased trail kept ev by (simp add: service_event_def)
qed

text \<open>Everything an account has or made, but its requests and the audit trail.\<close>

definition personal where
  "personal w =
     (users w, identities w, sessions w, verif_tokens w, reset_tokens w, user_roles w, content_tables w,
      review_revisions w, data_exports w, consents w)"

lemma personal_tables: "table_inv (\<lambda>w. personal w = p)"
  by (simp add: table_inv_def personal_def content_tables_def part_defs)

lemma personal_writes [simp]:
  "personal (w\<lparr>privacy_requests := q\<rparr>) = personal w" "personal (w\<lparr>next_privacy_request := n\<rparr>) = personal w"
  "personal (w\<lparr>audit_events := a\<rparr>) = personal w" "personal (w\<lparr>next_audit := n\<rparr>) = personal w"
  "personal (w\<lparr>faults := fs\<rparr>) = personal w" "personal (w\<lparr>drawn := d\<rparr>) = personal w"
  by (simp_all add: personal_def content_tables_def part_defs)

lemma keeps_personal:
  "keeps (\<lambda>w. personal w = p) (reauthenticate E u password typed)"
  "keeps (\<lambda>w. personal w = p) (is_last_admin i)" "keeps (\<lambda>w. personal w = p) (create_request n)"
  "keeps (\<lambda>w. personal w = p) (privacy_audit ev)"
  unfolding reauthenticate_def find_identity_def verify_password_def is_last_admin_def create_request_def
    privacy_audit_def audit_record_def
  by (intro pres personal_tables keeps_sql[OF personal_tables];
      auto simp: check_user_def check_that_def split: if_splits)+

lemma transaction_Inl_world:
  "transaction conv body w = (Inl e, w') \<Longrightarrow> \<exists>fs d. w' = w\<lparr>faults := fs, drawn := d\<rparr>"
  by (auto simp: transaction_def rollback_def split: prod.splits sum.splits)

lemma erased_table_inv: "table_inv (\<lambda>w. erased u w \<and> contributions w = c)"
  by (simp add: table_inv_def erased_def owns_def attributed_def contributions_def)

lemma keeps_erased:
  "keeps (\<lambda>w. erased u w \<and> contributions w = c) (fulfill_row i None)"
  "keeps (\<lambda>w. erased u w \<and> contributions w = c) (privacy_audit ev)"
  "keeps (\<lambda>w. erased u w \<and> contributions w = c) (revoke_all_for_user j)"
  unfolding fulfill_row_def privacy_audit_def audit_record_def revoke_all_for_user_def revoke_where_def
  by (intro pres erased_table_inv keeps_sql[OF erased_table_inv] keeps_command[OF erased_table_inv];
      auto simp: erased_kept split: if_splits option.splits)+

text \<open>C6: whatever fails on the way, a deletion either reports an error and left everything that is
  personal as it was, or has erased the account and kept its contributions without a name.\<close>

theorem deletion_erases_or_leaves:
  assumes "request_deletion E u password typed w = (r, w')"
  shows "(\<exists>e. r = Inl e \<and> personal w' = personal w) \<or> (erased (au_id u) w' \<and> contributions w' = contributions w)"
proof -
  let ?A = "\<lambda>v. personal v = personal w" and ?D = "\<lambda>v. erased (au_id u) v \<and> contributions v = contributions w"
    and ?P = "\<lambda>r v. (\<exists>e. r = Inl e \<and> personal v = personal w) \<or> (erased (au_id u) v \<and> contributions v = contributions w)"
  note step = outcome_bind[where A = ?A and P = ?P] outcome_then[where A = ?A and P = ?P]
  have same: "contributions v = contributions w" if "personal v = personal w" for v
    using that by (auto simp: personal_def contributions_def content_tables_def part_defs)
  have fin: "?P r w'" if "thenM (anonymize E (au_id u) t) m v = (r, w')" "?A v" "keeps ?D m" for t m v
  proof -
    obtain r1 v1 where a: "anonymize E (au_id u) t v = (r1, v1)" by fastforce
    show ?thesis
    proof (cases r1)
      case (Inl e)
      from a[unfolded Inl anonymize_def, THEN transaction_Inl_world] that a Inl show ?thesis by (auto simp: thenM_exec)
    next
      case (Inr rep)
      from anonymize_Inr[OF a[unfolded Inr]] obtain fs where "v1 = (anonymized (au_id u) t v)\<lparr>faults := fs\<rparr>" by blast
      then have "?D v1" using same[OF that(2)] by (simp add: erased_def anonymized_tables anonymized_contributions)
      with keepsD[OF that(3) this, of r w'] that(1) a Inr show ?thesis by (auto simp: thenM_exec)
    qed
  qed
  have rest: "keeps ?D (thenM (fulfill_row i None) (thenM (privacy_audit ev) (mapErrM g (revoke_all_for_user j))))"
    for i ev g j by (intro pres keeps_erased)
  show ?thesis
    using assms unfolding request_deletion_def
    by (elim step fin) (intro pres keeps_personal rest | simp)+
qed

end
