(* ===== verification/Privacy_System.thy ===== *)
theory Privacy_System
  imports Privacy_Erasure Auth_Invariants
begin

text \<open>
  Runs of the whole system: every use case of the accounts, the content and the privacy
  workflow, the retention job and the seeding of a legal page, in any order, with faults in
  the database and the object store.  The locale says what an invariant of such runs must
  survive.
\<close>

section \<open>Runs\<close>

datatype privacy_action =
    Content content_action
  | RequestExport authenticated_user
  | DownloadExport authenticated_user int ustring
  | RequestDeletion authenticated_user "ustring option" ustring
  | SubmitRequest authenticated_user privacy_request_kind json
  | FulfillRequest authenticated_user int
  | RunRetention retention_policy retention_config
  | PurgeReadyExports
  | SeedPolicy policy_kind ustring ustring int ustring

fun privacy_act ::
  "'img content_env \<Rightarrow> (int \<Rightarrow> ustring) \<Rightarrow> privacy_action \<Rightarrow> ('w privacy_world_scheme, unit, unit) m" where
  "privacy_act V stamp (Content a) = content_act V a"
| "privacy_act V stamp (RequestExport u) = ignoreM (request_export (en_auth V) stamp u)"
| "privacy_act V stamp (DownloadExport u i tok) = ignoreM (download_export (en_auth V) u i tok)"
| "privacy_act V stamp (RequestDeletion u pw typed) = ignoreM (request_deletion (en_auth V) u pw typed)"
| "privacy_act V stamp (SubmitRequest u k dets) = ignoreM (submit_request u k dets)"
| "privacy_act V stamp (FulfillRequest u i) = ignoreM (fulfill_request u i)"
| "privacy_act V stamp (RunRetention P C) = ignoreM (retention_run (en_auth V) P C)"
| "privacy_act V stamp PurgeReadyExports = ignoreM (bindM (getM now) purge_ready_exports)"
| "privacy_act V stamp (SeedPolicy k loc ver t c) = ignoreM (seed_policy k loc ver t c)"

fun privacy_run ::
  "'img content_env \<Rightarrow> (int \<Rightarrow> ustring) \<Rightarrow> privacy_action list \<Rightarrow> 'w privacy_world_scheme \<Rightarrow> 'w privacy_world_scheme" where
  "privacy_run V stamp [] w = w"
| "privacy_run V stamp (a # acts) w = privacy_run V stamp acts (snd (privacy_act V stamp a w))"

section \<open>Invariants\<close>

text \<open>\<open>A\<close> says which content actions a run may have, \<open>F\<close> whether shells of deleted accounts may
  be purged.\<close>

fun privacy_action_ok :: "(content_action \<Rightarrow> bool) \<Rightarrow> bool \<Rightarrow> privacy_action \<Rightarrow> bool" where
  "privacy_action_ok A F (Content a) = A a"
| "privacy_action_ok A F (RunRetention P C) = (F \<or> deleted_account_purge_after_days C = 0)"
| "privacy_action_ok A F a = True"

text \<open>What only reads the tables and writes the object store.\<close>

locale store_invariant =
  fixes I :: "'w privacy_world_scheme \<Rightarrow> bool"
  assumes tables: "table_inv I"
    and object_store: "I w \<Longrightarrow> I (w\<lparr>objects := obs, storage_faults := fs\<rparr>)"
begin

lemma keeps_storage_call:
  assumes "\<And>w. I w \<Longrightarrow> I (snd (f w))" shows "keeps I (storage_call f)"
proof -
  have s: "I (w\<lparr>storage_faults := fs\<rparr>)" if "I w" for w fs
    using object_store[OF that, where obs = "objects w" and fs = fs] by simp
  have f: "I (snd (case f w of (a, w') \<Rightarrow> (Inr a, w')))" if "I w" for w
    using assms[OF that] by (cases "f w") simp
  show ?thesis
    unfolding storage_call_def by (rule keepsI) (auto split: list.split option.split intro: s f)
qed

lemma keeps_store: "keeps I (list_objects p after)" "keeps I (delete_object key)" "keeps I (object_exists key)"
proof -
  have o: "I (w\<lparr>objects := obs\<rparr>)" if "I w" for w obs
    using object_store[OF that, where obs = obs and fs = "storage_faults w"] by simp
  then show "keeps I (list_objects p after)" "keeps I (delete_object key)" "keeps I (object_exists key)"
    unfolding list_objects_def delete_object_def object_exists_def by (intro keeps_storage_call; simp)+
qed

lemma keeps_delete_unreferenced: "keeps I (delete_unreferenced used keys)"
  by (induction keys) (auto intro!: pres keeps_store)

lemma keeps_purge_unreferenced: "keeps I (purge_unreferenced keys)"
  unfolding purge_unreferenced_def referenced_def by (intro pres tables keeps_delete_unreferenced)

lemma keeps_sweep: "I w \<Longrightarrow> I (snd (sweep_uploads cutoff after w))"
proof (induction cutoff after w rule: sweep_uploads.induct)
  case (1 cutoff after w)
  obtain r1 w1 where l: "mapErrM privacy_of_storage (list_objects upload_prefix after) w = (r1, w1)" by fastforce
  have I1: "I w1" using keepsD[OF keeps_mapErr[OF keeps_store(1)] 1(2) l] .
  show ?case
  proof (cases r1)
    case (Inl e) with l I1 show ?thesis by (subst sweep_uploads.simps) simp
  next
    case (Inr page)
    obtain r2 w2 where p: "purge_unreferenced (map oi_key (filter (\<lambda>ob. oi_modified ob < cutoff) (og_objects page))) w1 = (r2, w2)"
      by fastforce
    have I2: "I w2" using keepsD[OF keeps_purge_unreferenced I1 p] .
    show ?thesis
    proof (cases r2)
      case (Inl e) with l p Inr I2 show ?thesis by (subst sweep_uploads.simps) simp
    next
      case (Inr n)
      note IH = 1(1)[OF l[symmetric] \<open>r1 = Inr page\<close> p[symmetric] Inr _ I2]
      show ?thesis
        using l p Inr \<open>r1 = Inr page\<close> I2 IH
        by (subst sweep_uploads.simps) (auto split: option.split prod.split sum.split)
    qed
  qed
qed

lemma keeps_uploads: "keeps I (sweep_uploads cutoff after)"
  by (rule keepsI) (rule keeps_sweep)

end

locale privacy_invariant = store_invariant I
  for V :: "'img content_env" and I :: "'w privacy_world_scheme \<Rightarrow> bool"
    and A :: "content_action \<Rightarrow> bool" and F :: bool +
  assumes content_law: "A a \<Longrightarrow> keeps I (content_act V a)"
    and audit_law: "keeps I (audit_record ev)"
    and request_laws: "keeps I (create_request q)" "keeps I (fulfill_row i by)"
    and export_laws: "keeps I (create_export (en_auth V) x)" "keeps I (consume_download (en_auth V) i tok t)"
    and account_laws: "keeps I (anonymize (en_auth V) i t)" "keeps I (revoke_all_for_user i)"
      "F \<Longrightarrow> keeps I (purge_deleted_accounts t)"
    and purge_laws: "keeps I (purge_reset_tokens t)" "keeps I (purge_verification_tokens t)" "keeps I (purge_sessions P t)"
      "keeps I (purge_parked_here t)" "keeps I (purge_exports t)" "keeps I (purge_ready_exports t)"
      "keeps I (delete_photo_row k i)"
    and policy_law: "keeps I (seed_policy k' loc ver t content)"
begin

lemma keeps_privacy_audit: "keeps I (privacy_audit ev)"
  unfolding privacy_audit_def by (intro pres audit_law)

lemma keeps_sections: "keeps I (assemble_payload u)"
  unfolding assemble_payload_def account_section_def authentication_section_def sessions_section_def
    favorites_section_def reviews_section_def verifications_section_def proposals_section_def
    reports_section_def photos_section_def
  by (intro pres tables keeps_command[OF tables]) simp_all

lemma keeps_export_uses:
  "keeps I (request_export (en_auth V) stamp u)" "keeps I (download_export (en_auth V) u i tok)"
  unfolding request_export_def download_export_def get_export_def export_from_row_def
  by (intro pres tables keeps_sections keeps_privacy_audit export_laws)+

lemma keeps_deletion: "keeps I (request_deletion (en_auth V) u pw typed)"
  unfolding request_deletion_def reauthenticate_def find_identity_def verify_password_def is_last_admin_def
  by (intro pres tables keeps_privacy_audit request_laws account_laws)

lemma keeps_requests: "keeps I (submit_request u k dets)" "keeps I (fulfill_request u i)"
  unfolding submit_request_def fulfill_request_def require_privacy_admin_def
  by (intro pres keeps_privacy_audit request_laws)+

lemma keeps_reconcile_rows: "keeps I (reconcile_rows k rows)"
  by (induction rows rule: reconcile_rows.induct) (auto intro!: pres keeps_store purge_laws)

lemma keeps_steps:
  "keeps I (purge_orphan_uploads P t)" "keeps I (reconcile_pending_photos t)"
  "keeps I (anonymize_inactive_accounts (en_auth V) t)"
  unfolding purge_orphan_uploads_def reconcile_pending_photos_def reconcile_kind_def anonymize_inactive_accounts_def
  by (auto intro!: keeps_uploads pres tables keeps_reconcile_rows account_laws)

lemma keeps_retention:
  assumes "F \<or> deleted_account_purge_after_days C = 0" shows "keeps I (retention_run (en_auth V) P C)"
proof -
  have purge: "keeps I (gated_step name (deleted_account_purge_after_days C) purge_deleted_accounts t)" for name t
    using assms unfolding gated_step_def count_step_def by (auto intro!: pres account_laws)
  show ?thesis
    unfolding retention_run_def gated_step_def[of _ "inactive_account_anonymize_after_days C"] count_step_def id_def
    by (simp, intro pres purge_laws keeps_steps keeps_privacy_audit purge)
qed

lemma keeps_privacy: "privacy_action_ok A F a \<Longrightarrow> keeps I (privacy_act V stamp a)"
  by (cases a) (auto intro!: keeps_ignore content_law keeps_export_uses keeps_deletion keeps_requests keeps_retention
      policy_law pres purge_laws)

lemma keeps_privacy_run: "list_all (privacy_action_ok A F) acts \<Longrightarrow> I w \<Longrightarrow> I (privacy_run V stamp acts w)"
  using keeps_privacy by (induction acts arbitrary: w) (simp_all add: keeps_def)

end

end
