(* ===== verification/Privacy_Accounts.thy ===== *)
theory Privacy_Accounts
  imports Privacy_System
begin

text \<open>
  The account tables along runs with the privacy workflow: they stay well formed, and an
  administrator remains, whoever deletes an account and whatever the retention job anonymizes.
\<close>

section \<open>Accounts\<close>

definition auth_tables where
  "auth_tables w = (users w, next_user w, identities w, sessions w, verif_tokens w, reset_tokens w, user_roles w)"

lemma auth_tables_inv: "table_inv (\<lambda>w. auth_tables w = c)"
  by (simp add: table_inv_def auth_tables_def)

lemma auth_tables_writes [simp]:
  "auth_tables (w\<lparr>privacy_requests := q\<rparr>) = auth_tables w" "auth_tables (w\<lparr>next_privacy_request := n\<rparr>) = auth_tables w"
  "auth_tables (w\<lparr>data_exports := e\<rparr>) = auth_tables w" "auth_tables (w\<lparr>next_data_export := n\<rparr>) = auth_tables w"
  "auth_tables (w\<lparr>policy_versions := pv\<rparr>) = auth_tables w"
  "auth_tables (w\<lparr>next_policy := n\<rparr>) = auth_tables w"
  by (simp_all add: auth_tables_def)

text \<open>The content never writes the account tables.\<close>

lemma auth_tables_content [simp]:
  "auth_tables (w\<lparr>locations := l\<rparr>) = auth_tables w" "auth_tables (w\<lparr>next_location := n\<rparr>) = auth_tables w"
  "auth_tables (w\<lparr>hours_table := h\<rparr>) = auth_tables w" "auth_tables (w\<lparr>security_table := s\<rparr>) = auth_tables w"
  "auth_tables (w\<lparr>revisions := rv\<rparr>) = auth_tables w" "auth_tables (w\<lparr>next_revision := n\<rparr>) = auth_tables w"
  "auth_tables (w\<lparr>proposals := p\<rparr>) = auth_tables w" "auth_tables (w\<lparr>next_proposal := n\<rparr>) = auth_tables w"
  "auth_tables (w\<lparr>reviews := r\<rparr>) = auth_tables w" "auth_tables (w\<lparr>next_review := n\<rparr>) = auth_tables w"
  "auth_tables (w\<lparr>review_revisions := rr\<rparr>) = auth_tables w" "auth_tables (w\<lparr>next_review_revision := n\<rparr>) = auth_tables w"
  "auth_tables (w\<lparr>next_signal := n\<rparr>) = auth_tables w" "auth_tables (w\<lparr>favorites := f\<rparr>) = auth_tables w"
  "auth_tables (w\<lparr>next_parking_photo := n\<rparr>) = auth_tables w" "auth_tables (w\<lparr>next_review_photo := n\<rparr>) = auth_tables w"
  "auth_tables (w\<lparr>reports := rp\<rparr>) = auth_tables w" "auth_tables (w\<lparr>next_report := n\<rparr>) = auth_tables w"
  "auth_tables (w\<lparr>signals := sg\<rparr>) = auth_tables w" "auth_tables (w\<lparr>parking_photos := pp\<rparr>) = auth_tables w"
  "auth_tables (w\<lparr>review_photos := rph\<rparr>) = auth_tables w" "auth_tables (w\<lparr>objects := obs, storage_faults := fs\<rparr>) = auth_tables w"
  by (simp_all add: auth_tables_def)

lemma keeps_delete_rows: "table_inv I \<Longrightarrow> (\<And>w. I w \<Longrightarrow> I (put (filter (\<lambda>r. \<not> P r) (get w)) w)) \<Longrightarrow> keeps I (delete_rows get put P)"
  unfolding delete_rows_def by (rule keeps_sql) auto

lemma keeps_update_rows: "table_inv I \<Longrightarrow> (\<And>w. I w \<Longrightarrow> I (put (update_where P f (get w)) w)) \<Longrightarrow> keeps I (update_rows get put P f)"
  unfolding update_rows_def by (rule keeps_sql) auto

lemma auth_tables_frame:
  "keeps (\<lambda>w. auth_tables w = c) (create_request q)" "keeps (\<lambda>w. auth_tables w = c) (fulfill_row i by)"
  "keeps (\<lambda>w. auth_tables w = c) (create_export E x)" "keeps (\<lambda>w. auth_tables w = c) (consume_download E i tok t)"
  "keeps (\<lambda>w. auth_tables w = c) (purge_parked_here t)" "keeps (\<lambda>w. auth_tables w = c) (purge_exports t)"
  "keeps (\<lambda>w. auth_tables w = c) (purge_ready_exports t)" "keeps (\<lambda>w. auth_tables w = c) (delete_photo_row k i)"
  "keeps (\<lambda>w. auth_tables w = c) (seed_policy k' loc ver t content)"
proof -
  note tbl = auth_tables_inv[of c] and stmt = keeps_sql[OF auth_tables_inv[of c]]
    keeps_delete_rows[OF auth_tables_inv[of c]] keeps_update_rows[OF auth_tables_inv[of c]]
  show "keeps (\<lambda>w. auth_tables w = c) (create_request q)" "keeps (\<lambda>w. auth_tables w = c) (create_export E x)"
    unfolding create_request_def create_export_def
    by (rule stmt, auto simp: check_user_def check_that_def split: if_splits)+
  show "keeps (\<lambda>w. auth_tables w = c) (fulfill_row i by)"
    unfolding fulfill_row_def
    by (intro pres stmt) (auto simp: Let_def check_user_def check_that_def split: option.splits if_splits)
  show "keeps (\<lambda>w. auth_tables w = c) (consume_download E i tok t)"
    unfolding consume_download_def by (intro pres stmt tbl) simp
  show "keeps (\<lambda>w. auth_tables w = c) (purge_parked_here t)" "keeps (\<lambda>w. auth_tables w = c) (purge_exports t)"
    "keeps (\<lambda>w. auth_tables w = c) (purge_ready_exports t)"
    unfolding purge_parked_here_def purge_exports_def purge_ready_exports_def by (rule stmt, simp)+
  show "keeps (\<lambda>w. auth_tables w = c) (delete_photo_row k i)"
    unfolding delete_photo_row_def by (cases k; simp; rule stmt; simp)
  show "keeps (\<lambda>w. auth_tables w = c) (seed_policy k' loc ver t content)"
    unfolding seed_policy_def insert_policy_def
    by (intro pres stmt tbl) (auto simp: check_that_def split: if_splits)
qed

lemmas auth_rules = keeps_sql[OF auth_tables_inv] keeps_command[OF auth_tables_inv] auth_tables_inv

lemma auth_location_frame:
  "keeps (\<lambda>w. auth_tables w = c) (create_location new u t)" "keeps (\<lambda>w. auth_tables w = c) (apply_edit G i v e u t)"
  "keeps (\<lambda>w. auth_tables w = c) (mark_verified_at i t)" "keeps (\<lambda>w. auth_tables w = c) (upsert_review i u x b)"
  "keeps (\<lambda>w. auth_tables w = c) (flip_review i from to)"
  "keeps (\<lambda>w. auth_tables w = c) (set_parking_state i froms st u)"
  unfolding location_statements
  by (intro pres auth_rules keeps_case_hours;
      auto simp: Let_def check_user_def check_location_def check_that_def split: sum.splits option.splits if_splits)+

lemma auth_side_frame:
  "keeps (\<lambda>w. auth_tables w = c) (create_proposal p)" "keeps (\<lambda>w. auth_tables w = c) (record_signal s t)"
  "keeps (\<lambda>w. auth_tables w = c) (toggle u i)" "keeps (\<lambda>w. auth_tables w = c) (reject_proposal_row i u)"
  "keeps (\<lambda>w. auth_tables w = c) (approve_proposal_row i u a)"
  "keeps (\<lambda>w. auth_tables w = c) (create_report n)" "keeps (\<lambda>w. auth_tables w = c) (claim_report_row i u)"
  "keeps (\<lambda>w. auth_tables w = c) (resolve_row i u msg out)"
  unfolding side_statements proposal_statements report_statements
  by (intro pres auth_rules; auto simp: Let_def split: prod.splits if_splits)+

lemma auth_photo_frame:
  "keeps (\<lambda>w. auth_tables w = c) (insert_pending new)" "keeps (\<lambda>w. auth_tables w = c) (approve_row k i u pos)"
  "keeps (\<lambda>w. auth_tables w = c) (reject_row k i u reason)" "keeps (\<lambda>w. auth_tables w = c) (hide_photo_row k i u)"
  "keeps (\<lambda>w. auth_tables w = c) (restore_photo_row k i u)"
  unfolding photo_statements
  by (intro pres auth_rules;
      auto simp: Let_def split: if_splits option.splits photo_target.splits photo_kind.splits)+

lemma wf_auth_tables: "auth_tables v = auth_tables w \<Longrightarrow> wf_auth E v = wf_auth E w"
  by (simp add: auth_tables_def wf_auth_def wf_users_def user_exists_def)

lemma has_admin_tables: "auth_tables v = auth_tables w \<Longrightarrow> has_admin v = has_admin w"
  by (simp add: auth_tables_def has_admin_def)

lemma keeps_auth_frame:
  assumes "\<And>c. keeps (\<lambda>w. auth_tables w = c) m"
  shows "keeps (wf_auth E) m" "keeps has_admin m"
  using keeps_of_frame[where f = auth_tables, OF assms] wf_auth_tables has_admin_tables by metis+

text \<open>So an invariant of the account tables that the accounts keep is kept by the content.\<close>

locale account_part =
  fixes E :: auth_externals and J :: "'w content_world_scheme \<Rightarrow> bool"
  assumes tables_only: "auth_tables v = auth_tables w \<Longrightarrow> J v \<Longrightarrow> J w"
    and kept_by_accounts: "keeps J (auth_act E a)"
begin

lemma keeps_untouched: "(\<And>c. keeps (\<lambda>w. auth_tables w = c) m) \<Longrightarrow> keeps J m"
  by (rule keeps_of_frame[where f = auth_tables]) (auto elim: tables_only)

lemma same_account_tables:
  "J (w\<lparr>limiter := l\<rparr>) = J w" "J (w\<lparr>objects := obs, storage_faults := fs\<rparr>) = J w" "J (w\<lparr>faults := fs', drawn := d\<rparr>) = J w"
  by (rule iffI; erule tables_only[rotated]; simp add: auth_tables_def)+

end

sublocale account_part \<subseteq> content: content_invariant "V\<lparr>en_auth := E\<rparr>" J "\<lambda>_. True" "\<lambda>_. True" True for V
proof unfold_locales
  show "table_inv J" by (simp add: table_inv_def same_account_tables)
  show "keeps J (audit_record ev)" for ev
    unfolding audit_record_def
    by (rule keeps_untouched, rule auth_rules) (auto simp: auth_tables_def split: if_splits)
  show "J (w\<lparr>limiter := l\<rparr>)" "J (w\<lparr>objects := obs, storage_faults := fs\<rparr>)" if "J w" for w l obs fs
    using that by (simp_all add: same_account_tables)
  show "J (snd (resolve_row i u msg out w))" if "J w" for i u msg out w
    using keeps_untouched[OF auth_side_frame(8)] that by (simp add: keeps_def)
qed (simp_all add: kept_by_accounts keeps_untouched auth_location_frame auth_side_frame auth_photo_frame)

lemma en_auth_same: "V\<lparr>en_auth := en_auth V\<rparr> = V"
  by (cases V) simp

text \<open>Removing rows that refer to nothing else, and scrubbing or removing accounts.\<close>

lemma wf_auth_anonymized:
  assumes "wf_auth E w" "unique_emails E (users (user_scrubbed u t w))"
  shows "wf_auth E (anonymized u t w)"
proof -
  note defs = anonymized_def user_scrubbed_def activity_erased_def content_detached_def audit_scrubbed_def
  have ids: "map ur_id (users (user_scrubbed u t w)) = map ur_id (users w)"
    by (simp add: user_scrubbed_def map_update_where)
  have e: "user_exists (anonymized u t w) i = user_exists w i" for i
    by (auto simp: user_exists_def defs bex_update_where)
  have "wf_users E (anonymized u t w)"
    using assms ids by (auto simp: wf_auth_def wf_users_def unique_emails_def defs ball_update_where map_update_where)
  with assms(1) show ?thesis
    unfolding wf_auth_def e
    by (auto simp: defs distinct_map_filter set_update_where map_update_where role_key_def)
qed

lemma wf_auth_purged:
  assumes "wf_auth E w" shows "wf_auth E (detach_accounts gone (cascade_accounts gone w))"
proof -
  have e: "user_exists (detach_accounts gone (cascade_accounts gone w)) i \<longleftrightarrow> \<not> gone i \<and> user_exists w i" for i
    by (auto simp: user_exists_def detach_accounts_def cascade_accounts_def)
  have "wf_users E (detach_accounts gone (cascade_accounts gone w))"
    using assms by (auto simp: wf_auth_def wf_users_def detach_accounts_def cascade_accounts_def distinct_map_filter)
  moreover have "role_key \<circ> (\<lambda>r. r\<lparr>rl_granted_by := forget gone (rl_granted_by r)\<rparr>) = role_key"
    by (rule ext) (simp add: role_key_def)
  ultimately show ?thesis
    using assms unfolding wf_auth_def e
    by (simp add: detach_accounts_def cascade_accounts_def distinct_map_filter)
qed

lemma has_admin_anonymized:
  assumes "wf_auth E w" "has_admin w" "\<not> (u \<in> set (admin_ids w) \<and> length (admin_ids w) = 1)"
  shows "has_admin (anonymized u t w)"
proof -
  have "distinct (map rl_user (filter (\<lambda>r. rl_role r = lit ''ADMIN'') (user_roles w)))"
    using assms(1) by (auto simp: wf_auth_def role_key_def distinct_map inj_on_def)
  then have d: "distinct (admin_ids w)" by (simp add: admin_ids_def)
  have "\<exists>i \<in> set (admin_ids w). i \<noteq> u"
  proof (rule ccontr)
    assume "\<not> ?thesis"
    then have "set (admin_ids w) \<subseteq> {u}" by blast
    with d have "length (admin_ids w) \<le> 1" using card_mono[of "{u}" "set (admin_ids w)"] by (simp add: distinct_card)
    moreover have "admin_ids w \<noteq> []" using assms(2) by (auto simp: has_admin_def admin_ids_def filter_empty_conv)
    ultimately have "length (admin_ids w) = 1" by (cases "admin_ids w") auto
    with \<open>set (admin_ids w) \<subseteq> {u}\<close> assms(3) show False by (cases "admin_ids w") auto
  qed
  then obtain r where "r \<in> set (user_roles w)" "rl_role r = lit ''ADMIN''" "rl_user r \<noteq> u"
    by (auto simp: admin_ids_def)
  then show ?thesis
    by (auto simp: has_admin_def anonymized_def user_scrubbed_def activity_erased_def content_detached_def
        audit_scrubbed_def bex_update_where)
qed

lemma keeps_anonymize:
  assumes "table_inv I" and "\<And>w. I w \<Longrightarrow> \<not> (u \<in> set (admin_ids w) \<and> length (admin_ids w) = 1) \<Longrightarrow>
      unique_emails E (users (user_scrubbed u t w)) \<Longrightarrow> I (anonymized u t w)"
  shows "keeps I (anonymize E u t)"
proof (rule keepsI)
  fix w assume I: "I w"
  obtain r w' where a: "anonymize E u t w = (r, w')" by fastforce
  show "I (snd (anonymize E u t w))"
  proof (cases r)
    case (Inl e)
    from transaction_Inl_world[OF a[unfolded Inl anonymize_def]] I a show ?thesis
      using assms(1) by (auto simp: table_inv_def)
  next
    case (Inr rep)
    from anonymize_Inr[OF a[unfolded Inr]] assms(2)[OF I] obtain fs
      where "w' = (anonymized u t w)\<lparr>faults := fs\<rparr>" "I (anonymized u t w)" by blast
    with a show ?thesis by (simp add: table_inv_faults[OF assms(1)])
  qed
qed

lemma wf_auth_trimmed:
  assumes "wf_auth E w"
  shows "wf_auth E (w\<lparr>reset_tokens := filter P (reset_tokens w)\<rparr>)" "wf_auth E (w\<lparr>verif_tokens := filter Q (verif_tokens w)\<rparr>)"
    "wf_auth E (w\<lparr>sessions := filter S (sessions w)\<rparr>)"
    "(\<And>r. sr_hash (f r) = sr_hash r) \<Longrightarrow> (\<And>r. sr_user (f r) = sr_user r) \<Longrightarrow>
       wf_auth E (w\<lparr>sessions := update_where S f (sessions w)\<rparr>)"
  using assms by (auto simp: wf_auth_def wf_users_def user_exists_def distinct_map_filter map_update_where ball_update_where)

lemma keeps_account_purges:
  assumes I: "table_inv I"
    and trimmed: "\<And>w P. I w \<Longrightarrow> I (w\<lparr>reset_tokens := filter P (reset_tokens w)\<rparr>)"
      "\<And>w P. I w \<Longrightarrow> I (w\<lparr>verif_tokens := filter P (verif_tokens w)\<rparr>)"
      "\<And>w P. I w \<Longrightarrow> I (w\<lparr>sessions := filter P (sessions w)\<rparr>)"
  shows "keeps I (purge_reset_tokens t)" "keeps I (purge_verification_tokens t)" "keeps I (purge_sessions P t)"
  unfolding purge_reset_tokens_def purge_verification_tokens_def purge_sessions_def
  by (rule keeps_delete_rows[OF I]; simp add: trimmed)+

interpretation wf_part: account_part E "wf_auth E" for E
proof unfold_locales
  show "wf_auth E w" if "auth_tables v = auth_tables w" "wf_auth E v" for v w :: "'w content_world_scheme"
    using wf_auth_tables[OF that(1)] that(2) by simp
qed (rule wf.keeps_action)

interpretation admin_part: account_part E "\<lambda>w. wf_auth E w \<and> has_admin w" for E
proof unfold_locales
  show "wf_auth E w \<and> has_admin w" if "auth_tables v = auth_tables w" "wf_auth E v \<and> has_admin v"
    for v w :: "'w content_world_scheme"
    using wf_auth_tables[OF that(1)] has_admin_tables[OF that(1)] that(2) by simp
qed (rule admins.keeps_action)

interpretation accounts: privacy_invariant V "\<lambda>w. wf_auth (en_auth V) w" "\<lambda>_. True" True for V
proof unfold_locales
  let ?I = "\<lambda>w. wf_auth (en_auth V) w"
  show t: "table_inv ?I" by (rule table_inv_wf_auth)
  show "keeps ?I (content_act V a)" for a
    using wf_part.content.keeps_content[of a "en_auth V" V] by (simp add: en_auth_same)
  show "?I (w\<lparr>objects := obs, storage_faults := fs\<rparr>)" if "?I w" for w obs fs
    using that by (simp add: wf_auth_def wf_users_def user_exists_def)
  fix i u tok t P content loc ver k k' x ev q b
  show "keeps ?I (audit_record ev)" by (rule keeps_audit)
  show "keeps ?I (create_request q)" "keeps ?I (fulfill_row i b)" "keeps ?I (create_export (en_auth V) x)"
    "keeps ?I (consume_download (en_auth V) i tok t)" "keeps ?I (purge_parked_here t)" "keeps ?I (purge_exports t)"
    "keeps ?I (purge_ready_exports t)" "keeps ?I (delete_photo_row k i)" "keeps ?I (seed_policy k' loc ver t content)"
    by (rule keeps_auth_frame(1), rule auth_tables_frame)+
  show "keeps ?I (purge_reset_tokens t)" "keeps ?I (purge_verification_tokens t)" "keeps ?I (purge_sessions P t)"
    by (rule keeps_account_purges[OF table_inv_wf_auth]; rule wf_auth_trimmed; assumption)+
  show "keeps ?I (anonymize (en_auth V) i t)"
    by (rule keeps_anonymize[OF table_inv_wf_auth]) (rule wf_auth_anonymized)
  show "keeps ?I (revoke_all_for_user i)"
    unfolding revoke_all_for_user_def revoke_where_def
    by (rule keeps_command[OF table_inv_wf_auth], rule wf_auth_trimmed(4)) simp_all
  show "keeps ?I (purge_deleted_accounts t)"
    unfolding purge_deleted_accounts_def
    by (rule keeps_sql[OF table_inv_wf_auth]) (auto simp: Let_def intro: wf_auth_purged)
qed

lemma keeps_with_admin: "keeps (wf_auth E) m \<Longrightarrow> keeps has_admin m \<Longrightarrow> keeps (\<lambda>w. wf_auth E w \<and> has_admin w) m"
  by (rule keeps_conj)

interpretation admin: privacy_invariant V "\<lambda>w. wf_auth (en_auth V) w \<and> has_admin w" "\<lambda>_. True" False for V
proof unfold_locales
  let ?I = "\<lambda>w. wf_auth (en_auth V) w \<and> has_admin w"
  show "table_inv ?I" by (rule table_inv_admins)
  show "keeps ?I (content_act V a)" for a
    using admin_part.content.keeps_content[of a "en_auth V" V] by (simp add: en_auth_same)
  show "?I (w\<lparr>objects := obs, storage_faults := fs\<rparr>)" if "?I w" for w obs fs
    using that by (simp add: wf_auth_def wf_users_def user_exists_def has_admin_def)
  fix i u tok t P content loc ver k k' x ev q b
  show "keeps ?I (audit_record ev)" 
    unfolding audit_record_def[of ev]
    by (rule keeps_with_admin[OF keeps_audit[unfolded audit_record_def]], rule keeps_sql[OF table_inv_has_admin])
      (force simp: has_admin_def split: if_splits)
  show "keeps ?I (create_request q)" "keeps ?I (fulfill_row i b)" "keeps ?I (create_export (en_auth V) x)"
    "keeps ?I (consume_download (en_auth V) i tok t)" "keeps ?I (purge_parked_here t)" "keeps ?I (purge_exports t)"
    "keeps ?I (purge_ready_exports t)" "keeps ?I (delete_photo_row k i)" "keeps ?I (seed_policy k' loc ver t content)"
    by (rule keeps_with_admin; rule keeps_auth_frame, rule auth_tables_frame)+
  show "keeps ?I (purge_reset_tokens t)" "keeps ?I (purge_verification_tokens t)" "keeps ?I (purge_sessions P t)"
    by (rule keeps_account_purges[OF table_inv_admins]; auto simp: wf_auth_trimmed has_admin_def)+
  show "keeps ?I (anonymize (en_auth V) i t)"
    by (rule keeps_anonymize[OF table_inv_admins]) (auto intro: wf_auth_anonymized has_admin_anonymized)
  show "keeps ?I (revoke_all_for_user i)"
    unfolding revoke_all_for_user_def revoke_where_def
    by (rule keeps_command[OF table_inv_admins]) (auto simp: wf_auth_trimmed has_admin_def)
qed simp

text \<open>C9: along every run of the whole system in which the retention job does not purge the shells of
  deleted accounts, the account tables stay well formed and an administrator remains, whoever deletes an
  account or loses a role and whatever fails.\<close>

theorem privacy_runs_keep_admin:
  assumes "wf_auth (en_auth V) w" "has_admin w" "list_all (privacy_action_ok (\<lambda>_. True) False) acts"
  shows "wf_auth (en_auth V) (privacy_run V stamp acts w) \<and> has_admin (privacy_run V stamp acts w)"
  using admin.keeps_privacy_run assms by blast

end
