(* ===== verification/Privacy_Exports.thy ===== *)
theory Privacy_Exports
  imports Privacy_Accounts
begin

text \<open>
  Personal-data exports along runs of the whole system: what a download needs, and that an
  export is handed out at most once.
\<close>

section \<open>Exports\<close>

text \<open>The comparison of hashes is equality on the hexadecimal strings it is used for.\<close>

lemma ascii_bytes:
  "list_all (\<lambda>c. c < 128) s \<Longrightarrow> utf8_bytes s = map of_nat s \<and> str_len s = length s"
  by (induction s) (simp_all add: utf8_bytes_def utf8_char_def str_len_def utf8_len_def)

lemma of_nat_byte_inject: "a < 128 \<Longrightarrow> b < 128 \<Longrightarrow> (of_nat a :: byte) = of_nat b \<Longrightarrow> a = b"
proof -
  assume lt: "a < 128" "b < 128" and eq: "(of_nat a :: byte) = of_nat b"
  have "unat (of_nat n :: byte) = n" if "n < 128" for n using that by (simp add: unat_of_nat)
  from this[OF lt(1)] this[OF lt(2)] eq show "a = b" by metis
qed

lemma constant_time_hex_eq_iff:
  assumes "list_all (\<lambda>c. c < 128) a" "list_all (\<lambda>c. c < 128) b" "even (length b)"
  shows "constant_time_hex_eq a b \<longleftrightarrow> a = b"
proof -
  have "map (of_nat :: nat \<Rightarrow> byte) a = map of_nat b \<longleftrightarrow> a = b" if "length a = length b"
    using that assms(1,2) by (induction a b rule: list_induct2) (auto dest: of_nat_byte_inject)
  then show ?thesis
    using assms by (auto simp: constant_time_hex_eq_def ascii_bytes csrf_fold_zero)
qed

text \<open>The rows of the export table: unique ids that are not handed out again, hashes as
  they were stored.\<close>

definition hex_text :: "ustring \<Rightarrow> bool" where
  "hex_text s \<longleftrightarrow> list_all (\<lambda>c. c < 128) s \<and> even (length s)"

definition exports_ok :: "'w privacy_world_scheme \<Rightarrow> bool" where
  "exports_ok w \<longleftrightarrow>
     distinct (map xr_id (data_exports w))
     \<and> (\<forall>r \<in> set (data_exports w). xr_id r < next_data_export w \<and> hex_text (xr_token_hash r))"

lemma sha256_hex_text: "hex_text (sha256_hex E bytes)"
proof -
  have "list_all (\<lambda>c. c < 128) (byte_to_hex b) \<and> length (byte_to_hex b) = 2" for b
    using hex_digit_range byte_nibbles[of b] by (simp add: byte_to_hex_def)
  then have "hex_text (bytes_to_hex bs)" for bs by (induction bs) (simp_all add: hex_text_def)
  then show ?thesis by (simp add: sha256_hex_def)
qed

definition export_part where
  "export_part w = (data_exports w, next_data_export w)"

lemma export_part_inv: "table_inv (\<lambda>w. export_part w = c)"
  by (simp add: table_inv_def export_part_def)

text \<open>The content never touches the privacy tables.\<close>

lemma more_content_inv: "table_inv (\<lambda>w :: 'w content_world_scheme. content_world.more w = c)"
  by (simp add: table_inv_def)

lemmas more_rules = keeps_sql[OF more_content_inv] keeps_command[OF more_content_inv] more_content_inv

lemma more_frame:
  "keeps (\<lambda>w. content_world.more w = c) (create_location new u t)" "keeps (\<lambda>w. content_world.more w = c) (apply_edit G i v e u t)"
  "keeps (\<lambda>w. content_world.more w = c) (mark_verified_at i t)" "keeps (\<lambda>w. content_world.more w = c) (upsert_review i u x b)"
  "keeps (\<lambda>w. content_world.more w = c) (flip_review i from to)"
  "keeps (\<lambda>w. content_world.more w = c) (set_parking_state i froms st u)"
  unfolding location_statements
  by (intro pres more_rules keeps_case_hours;
      auto simp: Let_def check_user_def check_location_def check_that_def split: sum.splits option.splits if_splits)+

lemma more_side_frame:
  "keeps (\<lambda>w. content_world.more w = c) (create_proposal p)" "keeps (\<lambda>w. content_world.more w = c) (record_signal s t)"
  "keeps (\<lambda>w. content_world.more w = c) (toggle u i)" "keeps (\<lambda>w. content_world.more w = c) (reject_proposal_row i u)"
  "keeps (\<lambda>w. content_world.more w = c) (approve_proposal_row i u a)"
  "keeps (\<lambda>w. content_world.more w = c) (create_report n)" "keeps (\<lambda>w. content_world.more w = c) (claim_report_row i u)"
  "keeps (\<lambda>w. content_world.more w = c) (resolve_row i u msg out)"
  unfolding side_statements proposal_statements report_statements
  by (intro pres more_rules; auto simp: Let_def split: prod.splits if_splits)+

lemma more_photo_frame:
  "keeps (\<lambda>w. content_world.more w = c) (insert_pending new)" "keeps (\<lambda>w. content_world.more w = c) (approve_row k i u pos)"
  "keeps (\<lambda>w. content_world.more w = c) (reject_row k i u reason)" "keeps (\<lambda>w. content_world.more w = c) (hide_photo_row k i u)"
  "keeps (\<lambda>w. content_world.more w = c) (restore_photo_row k i u)"
  unfolding photo_statements
  by (intro pres more_rules;
      auto simp: Let_def split: if_splits option.splits photo_target.splits photo_kind.splits)+

interpretation more: content_invariant V "\<lambda>w :: 'w content_world_scheme. content_world.more w = c"
  "\<lambda>_. True" "\<lambda>_. True" True for V c
proof unfold_locales
  let ?I = "\<lambda>w :: 'w content_world_scheme. content_world.more w = c"
  have out: "?I w" if "auth_world.more v = auth_world.more w" "?I v" for v w
    using that by (cases v, cases w) simp
  show "table_inv ?I" "keeps ?I (audit_record ev)" "keeps ?I (auth_act (en_auth V) b)" for ev b
    by (rule outside_laws, erule (1) out)+
  show "?I (snd (resolve_row i u msg out w))" if "?I w" for i u msg out w
    by (rule keepsD[OF more_side_frame(8) that surjective_pairing])
qed (simp_all add: more_frame more_side_frame more_photo_frame)

lemma export_part_content: "keeps (\<lambda>w. export_part w = c) (content_act V a)"
proof (rule keeps_of_frame[where f = content_world.more])
  show "keeps (\<lambda>w. content_world.more w = d) (content_act V a)" for d by (rule more.keeps_content) simp
  show "export_part v = c \<Longrightarrow> export_part w = c" if "content_world.more v = content_world.more w"
    for v w :: "'a privacy_world_scheme"
    using that by (cases v, cases w) (simp add: export_part_def)
qed

lemma export_part_writes [simp]:
  "export_part (w\<lparr>privacy_requests := q\<rparr>) = export_part w" "export_part (w\<lparr>next_privacy_request := n\<rparr>) = export_part w"
  "export_part (w\<lparr>policy_versions := pv\<rparr>) = export_part w" "export_part (w\<lparr>next_policy := n\<rparr>) = export_part w"
  "export_part (w\<lparr>parking_photos := pp\<rparr>) = export_part w" "export_part (w\<lparr>review_photos := rp\<rparr>) = export_part w"
  "export_part (w\<lparr>signals := s\<rparr>) = export_part w" "export_part (w\<lparr>audit_events := a\<rparr>) = export_part w"
  "export_part (w\<lparr>next_audit := n\<rparr>) = export_part w" "export_part (w\<lparr>sessions := ss\<rparr>) = export_part w"
  "export_part (w\<lparr>verif_tokens := vt\<rparr>) = export_part w" "export_part (w\<lparr>reset_tokens := rt\<rparr>) = export_part w"
  "export_part (w\<lparr>objects := obs, storage_faults := fs\<rparr>) = export_part w"
  by (simp_all add: export_part_def)

lemma export_part_frame:
  "keeps (\<lambda>w. export_part w = c) (audit_record ev)" "keeps (\<lambda>w. export_part w = c) (create_request q)"
  "keeps (\<lambda>w. export_part w = c) (fulfill_row i b)" "keeps (\<lambda>w. export_part w = c) (revoke_all_for_user i)"
  "keeps (\<lambda>w. export_part w = c) (purge_reset_tokens t)" "keeps (\<lambda>w. export_part w = c) (purge_verification_tokens t)"
  "keeps (\<lambda>w. export_part w = c) (purge_sessions P t)" "keeps (\<lambda>w. export_part w = c) (purge_parked_here t)"
  "keeps (\<lambda>w. export_part w = c) (delete_photo_row k i)" "keeps (\<lambda>w. export_part w = c) (seed_policy k' loc ver t content)"
proof -
  note tbl = export_part_inv[of c] and stmt = keeps_sql[OF export_part_inv[of c]] keeps_command[OF export_part_inv[of c]]
    keeps_delete_rows[OF export_part_inv[of c]] keeps_update_rows[OF export_part_inv[of c]]
  show "keeps (\<lambda>w. export_part w = c) (audit_record ev)" "keeps (\<lambda>w. export_part w = c) (create_request q)"
    unfolding create_request_def audit_record_def
    by (rule stmt, auto simp: check_user_def check_that_def split: if_splits)+
  show "keeps (\<lambda>w. export_part w = c) (fulfill_row i b)"
    unfolding fulfill_row_def
    by (intro pres stmt) (auto simp: Let_def check_user_def check_that_def split: option.splits if_splits)
  show "keeps (\<lambda>w. export_part w = c) (revoke_all_for_user i)"
    "keeps (\<lambda>w. export_part w = c) (purge_reset_tokens t)" "keeps (\<lambda>w. export_part w = c) (purge_verification_tokens t)"
    "keeps (\<lambda>w. export_part w = c) (purge_sessions P t)" "keeps (\<lambda>w. export_part w = c) (purge_parked_here t)"
    unfolding revoke_all_for_user_def revoke_where_def purge_reset_tokens_def purge_verification_tokens_def
      purge_sessions_def purge_parked_here_def by (rule stmt, simp)+
  show "keeps (\<lambda>w. export_part w = c) (delete_photo_row k i)"
    unfolding delete_photo_row_def by (cases k; simp; rule stmt; simp)
  show "keeps (\<lambda>w. export_part w = c) (seed_policy k' loc ver t content)"
    unfolding seed_policy_def insert_policy_def
    by (intro pres stmt tbl) (auto simp: check_that_def split: if_splits)
qed

text \<open>An export that is spent: no row of its id is ready, and the id is not given again.\<close>

definition spent :: "int \<Rightarrow> 'w privacy_world_scheme \<Rightarrow> bool" where
  "spent i w \<longleftrightarrow> i < next_data_export w \<and> (\<forall>r \<in> set (data_exports w). xr_id r = i \<longrightarrow> xr_state r \<noteq> lit ''READY'')"

text \<open>The laws a statement on the export table obeys: insert with the next id and a stored
  hash, filter, mark as downloaded.\<close>

locale export_law =
  fixes J :: "export_row list \<Rightarrow> int \<Rightarrow> bool"
  assumes inserted: "J rows n \<Longrightarrow> xr_id r = n \<Longrightarrow> hex_text (xr_token_hash r) \<Longrightarrow> J (rows @ [r]) (n + 1)"
    and filtered: "J rows n \<Longrightarrow> J (filter P rows) n"
    and marked: "J rows n \<Longrightarrow> J (update_where P (\<lambda>r. r\<lparr>xr_state := lit ''DOWNLOADED'', xr_downloaded_at := Some t\<rparr>) rows) n"

context export_law
begin

lemma keeps_local: "(\<And>c. keeps (\<lambda>w. export_part w = c) m) \<Longrightarrow> keeps (\<lambda>w. J (data_exports w) (next_data_export w)) m"
  by (rule keeps_of_frame[where f = export_part]) (auto simp: export_part_def)

end

sublocale export_law \<subseteq> privacy_invariant V "\<lambda>w. J (data_exports w) (next_data_export w)" "\<lambda>_. True" True for V
proof unfold_locales
  let ?I = "\<lambda>w. J (data_exports w) (next_data_export w)"
  show t: "table_inv ?I" by (simp add: table_inv_def)
  show "keeps ?I (content_act V a)" for a by (rule keeps_local) (rule export_part_content)
  show "?I (w\<lparr>objects := obs, storage_faults := fs\<rparr>)" if "?I w" for w obs fs using that by simp
  fix i u tok t P content loc ver k k' x ev q b
  show "keeps ?I (audit_record ev)" "keeps ?I (create_request q)" "keeps ?I (fulfill_row i b)"
    "keeps ?I (revoke_all_for_user i)" "keeps ?I (purge_reset_tokens t)" "keeps ?I (purge_verification_tokens t)"
    "keeps ?I (purge_sessions P t)" "keeps ?I (purge_parked_here t)" "keeps ?I (delete_photo_row k i)"
    "keeps ?I (seed_policy k' loc ver t content)"
    by (rule keeps_local, rule export_part_frame)+
  show "keeps ?I (create_export (en_auth V) x)"
    unfolding create_export_def
    by (rule keeps_sql[OF t]) (auto simp: check_user_def check_that_def inserted sha256_hex_text split: if_splits)
  show "keeps ?I (consume_download (en_auth V) i tok t)"
    unfolding consume_download_def by (intro pres t keeps_update_rows[OF t]) (simp add: marked)
  show "keeps ?I (purge_exports t)" "keeps ?I (purge_ready_exports t)"
    unfolding purge_exports_def purge_ready_exports_def by (rule keeps_delete_rows[OF t], simp add: filtered)+
  show "keeps ?I (anonymize (en_auth V) i t)"
    by (rule keeps_anonymize[OF t])
      (simp add: anonymized_def user_scrubbed_def activity_erased_def content_detached_def audit_scrubbed_def filtered)
  show "keeps ?I (purge_deleted_accounts t)"
    unfolding purge_deleted_accounts_def
    by (rule keeps_sql[OF t]) (auto simp: Let_def detach_accounts_def cascade_accounts_def filtered)
qed

interpretation table: export_law "\<lambda>rows n. distinct (map xr_id rows) \<and> (\<forall>r \<in> set rows. xr_id r < n \<and> hex_text (xr_token_hash r))"
  by unfold_locales (auto simp: distinct_map_filter map_update_where ball_update_where)

interpretation once: export_law "\<lambda>rows n. i < n \<and> (\<forall>r \<in> set rows. xr_id r = i \<longrightarrow> xr_state r \<noteq> lit ''READY'')" for i
  by unfold_locales (auto simp: ball_update_where)

lemma any_privacy_action: "list_all (privacy_action_ok (\<lambda>_. True) True) acts"
proof -
  have "privacy_action_ok (\<lambda>_. True) True a" for a by (cases a) simp_all
  then show ?thesis by (simp add: list_all_iff)
qed

lemma exports_stay_ok: "exports_ok w \<Longrightarrow> exports_ok (privacy_run V stamp acts w)"
  using table.keeps_privacy_run[OF any_privacy_action, of w V stamp] by (simp add: exports_ok_def)

lemma spent_stays: "spent i w \<Longrightarrow> spent i (privacy_run V stamp acts w)"
  using once.keeps_privacy_run[OF any_privacy_action, of i w V stamp] by (simp add: spent_def)

section \<open>What a download needs\<close>

lemma update_rows_count:
  assumes "update_rows get put P f w = (Inr n, w')"
  obtains fs where "w' = put (update_where P f (get (w\<lparr>faults := fs\<rparr>))) (w\<lparr>faults := fs\<rparr>)"
    "n = length (filter P (get (w\<lparr>faults := fs\<rparr>)))"
  using assms unfolding update_rows_def by (elim sql_InrE) auto

lemma consume_download_InrE:
  assumes "consume_download E i tok t w = (Inr p, w')"
  obtains fs row where "select_one (\<lambda>r. xr_id r = i) (data_exports w) = Some row"
    "constant_time_hex_eq (xr_token_hash row) (sha256_hex E tok)" "p = xr_payload row"
    "length (filter (consumable i t) (data_exports w)) = 1"
    "w' = w\<lparr>faults := fs, data_exports := update_where (consumable i t)
        (\<lambda>r. r\<lparr>xr_state := lit ''DOWNLOADED'', xr_downloaded_at := Some t\<rparr>) (data_exports w)\<rparr>"
proof -
  let ?row = "select_one (\<lambda>r. xr_id r = i) (data_exports w)"
  note parts = bindM_InrE thenM_InrE
    and leaves = query_InrE okOrM_InrE requireM_InrE retM_InrE
  have "?row \<noteq> None \<and> constant_time_hex_eq (xr_token_hash (the ?row)) (sha256_hex E tok) \<and> p = xr_payload (the ?row)
    \<and> length (filter (consumable i t) (data_exports w)) = 1
    \<and> w' = w\<lparr>faults := faults w', data_exports := update_where (consumable i t)
        (\<lambda>r. r\<lparr>xr_state := lit ''DOWNLOADED'', xr_downloaded_at := Some t\<rparr>) (data_exports w)\<rparr>"
    using assms unfolding consume_download_def
    by (elim parts, elim leaves, elim update_rows_count, clarsimp) (metis option.sel)
  then show thesis using that[of "the ?row" "faults w'"] by auto
qed

lemma audit_exports: "privacy_audit ev w = (Inr x, w') \<Longrightarrow> export_part w' = export_part w"
  by (elim privacy_audit_InrE) (simp add: export_part_def)

lemma get_export_InrE:
  assumes "get_export i w = (Inr (Some e), w')"
  obtains fs row where "select_one (\<lambda>r. xr_id r = i) (data_exports w) = Some row" "xe_user e = xr_user row"
    "w' = w\<lparr>faults := fs\<rparr>"
  using assms unfolding get_export_def export_from_row_def
  by (elim bindM_InrE query_InrE) (auto simp: exec split: option.splits sum.splits)

lemma download_export_parts:
  assumes "download_export E u i raw w = (Inr p, w')"
  obtains e v tok v' where "get_export i w = (Inr (Some e), v)" "xe_user e = au_id u" "b64url_decode E raw = Some tok"
    "consume_download E i tok (now v) v = (Inr p, v')" "export_part w' = export_part v'"
  using assms unfolding download_export_def
  by (elim bindM_InrE thenM_InrE okOrM_InrE requireM_InrE getM_InrE retM_InrE) (drule audit_exports, simp add: that)

lemma download_export_InrD:
  assumes ok: "exports_ok w" and d: "download_export E u i raw w = (Inr p, w')"
  shows "\<exists>r tok. r \<in> set (data_exports w) \<and> xr_id r = i \<and> xr_user r = au_id u \<and> xr_state r = lit ''READY''
     \<and> now w < xr_expires_at r \<and> b64url_decode E raw = Some tok \<and> xr_token_hash r = sha256_hex E tok
     \<and> p = xr_payload r \<and> spent i w'"
proof -
  from d obtain e v tok v' where e: "get_export i w = (Inr (Some e), v)" "xe_user e = au_id u"
    and tok: "b64url_decode E raw = Some tok"
    and c': "consume_download E i tok (now v) v = (Inr p, v')" and same: "export_part w' = export_part v'"
    by (rule download_export_parts)
  from e obtain fs row where found: "select_one (\<lambda>r. xr_id r = i) (data_exports w) = Some row"
    and owner: "xr_user row = au_id u" and v: "v = w\<lparr>faults := fs\<rparr>"
    by (elim get_export_InrE) auto
  have c: "consume_download E i tok (now w) v = (Inr p, v')" using c' by (simp add: v)
  from c obtain fs' row' where row': "select_one (\<lambda>r. xr_id r = i) (data_exports v) = Some row'"
    and eq: "constant_time_hex_eq (xr_token_hash row') (sha256_hex E tok)" and p: "p = xr_payload row'"
    and one: "length (filter (consumable i (now w)) (data_exports v)) = 1"
    and v': "v' = v\<lparr>faults := fs', data_exports := update_where (consumable i (now w))
        (\<lambda>r. r\<lparr>xr_state := lit ''DOWNLOADED'', xr_downloaded_at := Some (now w)\<rparr>) (data_exports v)\<rparr>"
    by (rule consume_download_InrE)
  from row' found have [simp]: "row' = row" by (simp add: v)
  from select_one_SomeD[OF found] have row: "row \<in> set (data_exports w)" "xr_id row = i" by auto
  have "filter (consumable i (now w)) (data_exports w) \<noteq> []" using one by (auto simp: v)
  then obtain r where r: "r \<in> set (data_exports w)" "consumable i (now w) r"
    by (auto simp: filter_empty_conv)
  with ok row have "r = row" by (auto simp: exports_ok_def consumable_def distinct_map inj_on_def)
  with r have ready: "xr_state row = lit ''READY''" "now w < xr_expires_at row" by (auto simp: consumable_def)
  have hash: "xr_token_hash row = sha256_hex E tok"
    using eq ok row sha256_hex_text[of E tok] constant_time_hex_eq_iff by (auto simp: exports_ok_def hex_text_def)
  have "spent i v'"
    using ok row \<open>r = row\<close> r by (auto simp: spent_def v' v exports_ok_def ball_update_where consumable_def distinct_map inj_on_def)
  then have "spent i w'" using same by (simp add: spent_def export_part_def)
  with row owner ready tok hash p show ?thesis by auto
qed

text \<open>A download that returned was asked for by the owner of a stored export that was ready
  and had not expired, with the token whose hash was stored, and it is spent now.\<close>

lemma export_download_guarded:
  assumes "exports_ok w" "download_export E u i raw w = (Inr p, w')"
  shows "\<exists>r tok. r \<in> set (data_exports w) \<and> xr_id r = i \<and> xr_user r = au_id u \<and> xr_state r = lit ''READY''
     \<and> now w < xr_expires_at r \<and> b64url_decode E raw = Some tok \<and> xr_token_hash r = sha256_hex E tok
     \<and> p = xr_payload r \<and> spent i w'"
  using assms by (rule download_export_InrD)

text \<open>C10: an export is handed out at most once: after a download returned, no run of the whole
  system reaches a state in which anyone downloads it again.\<close>

theorem export_downloads_once:
  assumes "exports_ok w" "download_export (en_auth V) u i raw w = (Inr p, w')"
  shows "\<exists>e. fst (download_export E' u' i raw' (privacy_run V stamp acts w')) = Inl e"
proof -
  let ?v = "privacy_run V stamp acts w'"
  have run: "w' = privacy_run V stamp [DownloadExport u i raw] w"
    using assms(2) by (simp add: exec)
  have ok: "exports_ok ?v" using exports_stay_ok[OF exports_stay_ok[OF assms(1)]] unfolding run .
  have "spent i w'" using download_export_InrD[OF assms] by blast
  then have spent: "spent i ?v" by (rule spent_stays)
  show ?thesis
  proof (cases "fst (download_export E' u' i raw' ?v)")
    case (Inr q)
    then obtain v' where "download_export E' u' i raw' ?v = (Inr q, v')" by (metis prod.collapse)
    from download_export_InrD[OF ok this] spent show ?thesis by (auto simp: spent_def)
  qed simp
qed

end
