(* ===== verification/Privacy_Availability.thy ===== *)
theory Privacy_Availability
  imports Privacy_Exports "HOL-Library.Multiset"
begin

text \<open>
  What succeeds while the database answers: exactly which deletions of an account go through,
  and that an export can be fetched with the token its request returned.
\<close>

lemma delete_rows_ok [exec]:
  "faults w = [] \<Longrightarrow> delete_rows get put P w = (Inr (length (filter P (get w))), put (filter (\<lambda>r. \<not> P r) (get w)) w)"
  by (simp add: delete_rows_def exec)

lemma update_rows_ok [exec]:
  "faults w = [] \<Longrightarrow> update_rows get put P f w = (Inr (length (filter P (get w))), put (update_where P f (get w)) w)"
  by (simp add: update_rows_def exec)

lemma privacy_audit_ok:
  "faults w = [] \<Longrightarrow> user_exists w a \<Longrightarrow> ae_actor ev = Some a \<Longrightarrow>
     privacy_audit ev w = (Inr (), w\<lparr>audit_events := audit_events w @
        [\<lparr>ar_id = next_audit w, ar_event = ev, ar_created_at = now w\<rparr>], next_audit := next_audit w + 1\<rparr>)"
  by (simp add: privacy_audit_def audit_record_def exec)

section \<open>Deleting an account\<close>

text \<open>Nobody else has registered the address an erased account is given.\<close>

definition placeholder_free :: "auth_externals \<Rightarrow> int \<Rightarrow> 'w auth_world_scheme \<Rightarrow> bool" where
  "placeholder_free E u w \<longleftrightarrow>
     (\<forall>r \<in> set (users w). ur_id r \<noteq> u \<longrightarrow> ax_pg_lower E (ur_email r) \<noteq> ax_pg_lower E (anonymized_email u))"

lemma scrubbed_unique:
  assumes "wf_users E w"
  shows "unique_emails E (users (user_scrubbed u t w)) \<longleftrightarrow> placeholder_free E u w \<or> \<not> user_exists w u"
proof -
  let ?f = "\<lambda>r. if ur_id r = u then r\<lparr>ur_email := anonymized_email u, ur_display_name := None, ur_verified_at := None,
      ur_deleted_at := Some t, ur_state := lit ''DELETED''\<rparr> else r"
  have d: "distinct (users w)" "inj_on ur_id (set (users w))" "inj_on (\<lambda>r. ax_pg_lower E (ur_email r)) (set (users w))"
    using assms by (auto simp: wf_users_def distinct_map)
  have "unique_emails E (users (user_scrubbed u t w)) \<longleftrightarrow> inj_on (\<lambda>r. ax_pg_lower E (ur_email (?f r))) (set (users w))"
    using d(1) by (simp add: unique_emails_def user_scrubbed_def update_where_def distinct_map comp_def)
  also have "\<dots> \<longleftrightarrow> placeholder_free E u w \<or> \<not> user_exists w u"
  proof
    assume i: "inj_on (\<lambda>r. ax_pg_lower E (ur_email (?f r))) (set (users w))"
    show "placeholder_free E u w \<or> \<not> user_exists w u"
      unfolding placeholder_free_def user_exists_def
    proof (intro disjCI ballI impI notI)
      fix r assume "\<not> \<not> (\<exists>r \<in> set (users w). ur_id r = u)" and r: "r \<in> set (users w)" "ur_id r \<noteq> u"
        and same: "ax_pg_lower E (ur_email r) = ax_pg_lower E (anonymized_email u)"
      then obtain x where "x \<in> set (users w)" "ur_id x = u" by blast
      with inj_onD[OF i, of r x] r same show False by auto
    qed
  next
    assume "placeholder_free E u w \<or> \<not> user_exists w u"
    then show "inj_on (\<lambda>r. ax_pg_lower E (ur_email (?f r))) (set (users w))"
      using d(2,3) by (auto simp: placeholder_free_def user_exists_def inj_on_def)
  qed
  finally show ?thesis .
qed

lemma anonymize_returns:
  assumes "faults w = []" "\<not> (u \<in> set (admin_ids w) \<and> length (admin_ids w) = 1)"
    and "unique_emails E (users (user_scrubbed u t w))"
  shows "\<exists>rep. anonymize E u t w = (Inr rep, anonymized u t w)"
proof -
  have "\<exists>rep. fst (anonymize E u t w) = Inr rep" "faults (snd (anonymize E u t w)) = []"
    using assms
    by (simp_all add: anonymize_def exec last_admin_locked_def scrub_user_def check_unique_def user_scrubbed_def Let_def
        erase_activity_def detach_content_def scrub_audit_def split: option.split)
  moreover obtain r w' where "anonymize E u t w = (r, w')" by fastforce
  ultimately obtain rep where rep: "anonymize E u t w = (Inr rep, w')" "faults w' = []" by auto
  moreover have "anonymized u t w = (anonymized u t w)\<lparr>faults := []\<rparr>"
    using assms(1) by (simp add: anonymized_def audit_scrubbed_def content_detached_def activity_erased_def user_scrubbed_def)
  ultimately show ?thesis using anonymize_Inr[OF rep(1)] by metis
qed

lemma reauthenticate_returns:
  "faults w = [] \<Longrightarrow> may_delete E u password typed w \<Longrightarrow> reauthenticate E u password typed w = (Inr (), w)"
  by (auto simp: reauthenticate_def may_delete_def find_identity_def verify_password_def exec provider_code_def
      provider_from_def lit_def dest!: select_one_SomeD split: option.splits)

definition another_admin :: "int \<Rightarrow> 'w auth_world_scheme \<Rightarrow> bool" where
  "another_admin u w \<longleftrightarrow> u \<in> set (admin_ids w) \<longrightarrow> (\<exists>a \<in> set (admin_ids w). a \<noteq> u)"

lemma is_last_admin_iff: "faults w = [] \<Longrightarrow> is_last_admin u w = (Inr (\<not> another_admin u w), w)"
  by (auto simp: is_last_admin_def exec another_admin_def admin_ids_def filter_empty_conv)

lemma another_admin_locked: "another_admin u w \<Longrightarrow> \<not> (u \<in> set (admin_ids w) \<and> length (admin_ids w) = 1)"
  by (auto simp: another_admin_def length_Suc_conv)

lemma same_users:
  "users v = users w \<Longrightarrow> users (user_scrubbed u t v) = users (user_scrubbed u t w)"
  "users v = users w \<Longrightarrow> user_exists v u = user_exists w u"
  by (simp_all add: user_scrubbed_def user_exists_def)

lemma anonymized_users: "users (anonymized u t w) = users (user_scrubbed u t w)"
  "user_exists (anonymized u t w) i = user_exists w i" "faults (anonymized u t w) = faults w"
  "privacy_requests (anonymized u t w) = update_where (\<lambda>r. qr_user r = Some u \<or> qr_fulfilled_by r = Some u)
     (\<lambda>r. r\<lparr>qr_user := None, qr_fulfilled_by := None\<rparr>) (privacy_requests w)"
  by (auto simp: anonymized_def audit_scrubbed_def content_detached_def activity_erased_def user_scrubbed_def
      user_exists_def bex_update_where split: if_splits)

definition fresh_requests :: "'w privacy_world_scheme \<Rightarrow> bool" where
  "fresh_requests w \<longleftrightarrow> (\<forall>q \<in> set (privacy_requests w). qr_id q < next_privacy_request w)"

lemma fulfill_row_ok:
  "faults w = [] \<Longrightarrow> length (filter (open_request i) (privacy_requests w)) = 1 \<Longrightarrow>
     fulfill_row i None w = (Inr (), w\<lparr>privacy_requests := update_where (open_request i)
        (\<lambda>r. r\<lparr>qr_state := lit ''COMPLETED'', qr_fulfilled_by := None, qr_fulfilled_at := Some (now w),
               qr_updated_at := now w\<rparr>)
        (privacy_requests w)\<rparr>)"
  by (simp add: fulfill_row_def exec Let_def)

lemma deletion_returns:
  assumes f: "faults w = []" and d: "may_delete E u password typed w" and a: "another_admin (au_id u) w"
    and q: "unique_emails E (users (user_scrubbed (au_id u) (now w) w))"
    and u: "user_exists w (au_id u)" and n: "fresh_requests w"
  shows "\<exists>w'. request_deletion E u password typed w = (Inr (), w')"
proof -
  let ?u = "au_id u" and ?i = "next_privacy_request w"
  obtain row v where c: "create_request \<lparr>nq_user = ?u, nq_kind = PDeletion, nq_details = JObject []\<rparr> w = (Inr ?i, v)"
    and v: "v = w\<lparr>privacy_requests := privacy_requests w @ [row], next_privacy_request := ?i + 1\<rparr>"
    and row: "qr_id row = ?i" "qr_state row = lit ''OPEN''"
    using f u by (simp add: create_request_def exec check_user_def)
  let ?ev = "service_event ?u ''account.deletion_requested'' ''user'' ?u []"
    and ?ev' = "service_event ?u ''account.anonymized'' ''user'' ?u []"
  have fv: "faults v = []" "user_exists v ?u" using f u by (simp_all add: v user_exists_def)
  have act: "ae_actor ?ev = Some ?u" "ae_actor ?ev' = Some ?u" by (simp_all add: service_event_def)
  obtain v1 where a1: "privacy_audit ?ev v = (Inr (), v1)" and v1: "faults v1 = []" "users v1 = users w"
    "admin_ids v1 = admin_ids w" "privacy_requests v1 = privacy_requests v"
    using privacy_audit_ok[OF fv act(1)] f by (simp add: v admin_ids_def)
  obtain rep where an: "anonymize E ?u (now w) v1 = (Inr rep, anonymized ?u (now w) v1)"
    using anonymize_returns[of v1 ?u E "now w"] v1 another_admin_locked[OF a] q same_users(1)[OF v1(2)] by auto
  let ?v2 = "anonymized ?u (now w) v1"
  have "open_request ?i (if qr_user r = Some ?u \<or> qr_fulfilled_by r = Some ?u then r\<lparr>qr_user := None, qr_fulfilled_by := None\<rparr> else r)
      = open_request ?i r" for r
    by (simp add: open_request_def)
  moreover have "filter (open_request ?i) (privacy_requests w) = []"
    using n by (auto simp: fresh_requests_def filter_empty_conv open_request_def)
  ultimately have one: "length (filter (open_request ?i) (privacy_requests ?v2)) = 1"
    by (simp add: anonymized_users v1 v update_where_def filter_map comp_def row) (simp add: open_request_def row)
  have f2: "faults ?v2 = []" "user_exists ?v2 ?u"
    using v1 u same_users(2)[OF v1(2)] by (simp_all add: anonymized_users)
  obtain v3 where c3: "fulfill_row ?i None ?v2 = (Inr (), v3)" "faults v3 = []" "users v3 = users ?v2"
    using fulfill_row_ok[OF f2(1) one] f2(1) by auto
  have "user_exists v3 ?u" using same_users(2)[OF c3(3)] f2(2) by simp
  from privacy_audit_ok[OF c3(2) this act(2)] obtain v4 where a4: "privacy_audit ?ev' v3 = (Inr (), v4)" "faults v4 = []"
    using c3(2) by simp
  show ?thesis
    using f reauthenticate_returns[OF f d] is_last_admin_iff[OF f] a c a1 an c3(1) a4
    by (simp add: request_deletion_def exec revoke_all_for_user_def revoke_where_def)
qed

text \<open>C7: while the database answers, deleting one's account succeeds exactly when it was confirmed,
  another administrator is left, and nobody has registered the address of the erased account.\<close>

theorem deletion_available:
  assumes "wf_auth E w" "faults w = []" "fresh_requests w" "user_exists w (au_id u)"
  shows "(\<exists>w'. request_deletion E u password typed w = (Inr (), w'))
    \<longleftrightarrow> may_delete E u password typed w \<and> another_admin (au_id u) w \<and> placeholder_free E (au_id u) w"
proof
  have wf: "wf_users E w" using assms(1) by (simp add: wf_auth_def)
  assume "\<exists>w'. request_deletion E u password typed w = (Inr (), w')"
  then obtain w' where "request_deletion E u password typed w = (Inr (), w')" by blast
  then obtain s1 s2 s3 v v2 i rep where s: "reauthenticate E u password typed w = (Inr (), s1)"
    "is_last_admin (au_id u) s1 = (Inr False, s2)"
    "create_request \<lparr>nq_user = au_id u, nq_kind = PDeletion, nq_details = JObject []\<rparr> s2 = (Inr i, s3)"
    "privacy_audit (service_event (au_id u) ''account.deletion_requested'' ''user'' (au_id u) []) s3 = (Inr (), v)"
    "anonymize E (au_id u) (now s2) v = (Inr rep, v2)"
    by (rule request_deletion_InrE)
  from s(1) obtain fs where d: "may_delete E u password typed w" and s1: "s1 = w\<lparr>faults := fs\<rparr>"
    by (rule reauthenticate_InrE)
  have adm: "another_admin (au_id u) w"
    using s(2) unfolding is_last_admin_def s1
    by (elim query_InrE) (auto simp: another_admin_def admin_ids_def filter_empty_conv)
  have "users v = users w"
    using s(2-4) unfolding is_last_admin_def s1
    by (elim query_InrE create_request_InrE privacy_audit_InrE) simp
  then have "placeholder_free E (au_id u) w"
    using anonymize_Inr[OF s(5)] scrubbed_unique[OF wf, of "au_id u" "now s2"] assms(4) same_users(1) by metis
  with d adm show "may_delete E u password typed w \<and> another_admin (au_id u) w \<and> placeholder_free E (au_id u) w" by blast
next
  have wf: "wf_users E w" using assms(1) by (simp add: wf_auth_def)
  assume "may_delete E u password typed w \<and> another_admin (au_id u) w \<and> placeholder_free E (au_id u) w"
  then show "\<exists>w'. request_deletion E u password typed w = (Inr (), w')"
    using deletion_returns assms scrubbed_unique[OF wf] by blast
qed

section \<open>Exporting one's data\<close>

text \<open>What the document has, table by table and column by column: the account with its roles,
  its ways to sign in, its sessions and favorites, and what it contributed: reviews with their
  earlier texts, verifications, proposals, reports and photos.\<close>

definition covers_account :: "int \<Rightarrow> 'w auth_world_scheme \<Rightarrow> export_account \<Rightarrow> export_provider list \<Rightarrow> bool" where
  "covers_account u w a ps \<longleftrightarrow>
     (\<exists>x. select_one (\<lambda>r. ur_id r = u) (users w) = Some x
       \<and> (ea_user_id a, ea_email a, ea_display_name a, ea_account_state a, ea_email_verified_at a, ea_created_at a)
          = (u, ur_email x, ur_display_name x, ur_state x, ur_verified_at x, ur_created_at x)
       \<and> mset (ea_roles a) = mset (map rl_role (filter (\<lambda>r. rl_user r = u) (user_roles w)))
       \<and> mset (map (\<lambda>p. (ei_provider p, ei_subject p, ei_email_verified p)) ps)
          = mset (map (\<lambda>r. (ir_provider r, ir_subject r, ur_verified_at x \<noteq> None)) (filter (\<lambda>r. ir_user r = u) (identities w))))"

definition er_columns where
  "er_columns x = (er_id x, er_location x, er_rating x, er_body x, er_state x, er_created_at x, er_updated_at x)"

definition re_columns where
  "re_columns r = (re_id r, re_location r, re_rating r, re_body r, re_state r, re_created_at r, re_updated_at r)"

definition ew_columns where "ew_columns v = (ew_rating v, ew_body v, ew_edited_at v)"

definition rw_columns where "rw_columns v = (rw_rating v, rw_body v, rw_edited_at v)"

definition covers :: "int \<Rightarrow> 'w privacy_world_scheme \<Rightarrow> export_payload \<Rightarrow> bool" where
  "covers u w p \<longleftrightarrow>
     xp_exported_at p = now w \<and> covers_account u w (xp_account p) (xp_authentication p)
     \<and> mset (map (\<lambda>s. (en_created_at s, en_last_seen_at s, en_expires_at s)) (xp_sessions p))
        = mset (map (\<lambda>r. (sr_created_at r, sr_last_seen_at r, sr_expires_at r)) (filter (\<lambda>r. sr_user r = u) (sessions w)))
     \<and> mset (map (\<lambda>f. (ef_location f, ef_created_at f)) (xp_favorites p))
        = mset (map (\<lambda>r. (fv_location r, fv_created_at r)) (filter (\<lambda>r. fv_user r = u) (favorites w)))
     \<and> mset (map er_columns (xp_reviews p))
        = mset (map re_columns
            (filter (\<lambda>r. re_author r = Some u) (reviews w)))
     \<and> (\<forall>x \<in> set (xp_reviews p). mset (map ew_columns (er_revisions x))
          = mset (map rw_columns (filter (\<lambda>v. rw_review v = er_id x) (review_revisions w))))
     \<and> mset (map (\<lambda>r. (ev_location r, ev_kind r, ev_result r, ev_attribute r, ev_created_at r)) (xp_verifications p))
        = mset (map (\<lambda>r. (sg_location r, sg_kind r, sg_result r, sg_attribute r, sg_created_at r))
            (filter (\<lambda>r. sg_user r = Some u) (signals w)))
     \<and> mset (map (\<lambda>r. (ep_location r, ep_base_version r, ep_kind r, ep_proposed r, ep_status r, ep_created_at r)) (xp_proposals p))
        = mset (map (\<lambda>r. (pr_location r, pr_base_version r, pr_kind r, pr_proposed r, pr_status r, pr_created_at r))
            (filter (\<lambda>r. pr_proposer r = Some u) (proposals w)))
     \<and> mset (map (\<lambda>r. (eq_target_type r, eq_target_id r, eq_reason r, eq_description r, eq_state r, eq_created_at r)) (xp_reports p))
        = mset (map (\<lambda>r. (rp_target_type r, rp_target_id r, rp_reason r, rp_description r, rp_state r, rp_created_at r))
            (filter (\<lambda>r. rp_reporter r = Some u) (reports w)))
     \<and> mset (map (\<lambda>h. (eh_kind h, eh_location h, eh_review h, eh_key h, eh_thumbnail h, eh_state h, eh_created_at h)) (xp_photos p))
        = mset (map (\<lambda>r. (lit ''parking'', Some (ph_parent r), None, ph_key r, ph_thumbnail r, ph_state r, ph_created_at r))
              (filter (\<lambda>r. ph_uploader r = Some u) (parking_photos w))
            @ map (\<lambda>r. (lit ''review'', None, Some (ph_parent r), ph_key r, ph_thumbnail r, ph_state r, ph_created_at r))
              (filter (\<lambda>r. ph_uploader r = Some u) (review_photos w)))"

lemma mset_sorted_map: "mset (map f (sort_key k xs)) = mset (map f xs)"
  by simp

lemma covers_faults [simp]: "covers u (w\<lparr>faults := fs\<rparr>) p = covers u w p"
  by (simp add: covers_def covers_account_def)

lemma reviews_section_InrE:
  assumes "reviews_section u w = (Inr x, w')"
  obtains fs where "w' = w\<lparr>faults := fs\<rparr>"
    "mset (map er_columns x) = mset (map re_columns (filter (\<lambda>r. re_author r = Some u) (reviews w)))"
    "\<forall>r \<in> set x. mset (map ew_columns (er_revisions r)) = mset (map rw_columns (filter (\<lambda>v. rw_review v = er_id r) (review_revisions w)))"
proof -
  let ?rows = "sort_key re_created_at (filter (\<lambda>r. re_author r = Some u) (reviews w))"
  let ?revs = "sort_key (\<lambda>v. (rw_review v, rw_edited_at v))
     (filter (\<lambda>v. rw_review v \<in> set (map re_id ?rows)) (review_revisions w))"
  let ?doc = "map (\<lambda>r. \<lparr>er_id = re_id r, er_location = re_location r, er_rating = re_rating r, er_body = re_body r,
     er_state = re_state r, er_created_at = re_created_at r, er_updated_at = re_updated_at r,
     er_revisions = map (\<lambda>v. \<lparr>ew_rating = rw_rating v, ew_body = rw_body v, ew_edited_at = rw_edited_at v\<rparr>)
        (filter (\<lambda>v. rw_review v = re_id r) ?revs)\<rparr>) ?rows"
  have x: "x = ?doc \<and> (\<exists>fs. w' = w\<lparr>faults := fs\<rparr>)"
    using assms unfolding reviews_section_def
    by (elim bindM_InrE query_InrE retM_InrE) (auto simp: exec split: if_splits elim!: query_InrE)
  have revs: "filter (\<lambda>v. rw_review v = re_id r) ?revs
      = sort_key (\<lambda>v. (rw_review v, rw_edited_at v)) (filter (\<lambda>v. rw_review v = re_id r) (review_revisions w))"
    if "r \<in> set ?rows" for r
  proof -
    have "filter (\<lambda>v. rw_review v = re_id r \<and> rw_review v \<in> set (map re_id ?rows)) (review_revisions w)
        = filter (\<lambda>v. rw_review v = re_id r) (review_revisions w)"
      by (rule filter_cong[OF refl]) (use that in force)
    then show ?thesis by (simp only: filter_sort filter_filter conj_commute)
  qed
  have "map er_columns ?doc = map re_columns ?rows" by (simp add: er_columns_def re_columns_def)
  then have rows: "mset (map er_columns ?doc) = mset (map re_columns (filter (\<lambda>r. re_author r = Some u) (reviews w)))"
    by (simp only: mset_sorted_map)
  have texts: "mset (map ew_columns (er_revisions d)) = mset (map rw_columns (filter (\<lambda>v. rw_review v = er_id d) (review_revisions w)))"
    if "d \<in> set ?doc" for d
  proof -
    from that obtain r where r: "r \<in> set ?rows" and d: "er_id d = re_id r"
      "er_revisions d = map (\<lambda>v. \<lparr>ew_rating = rw_rating v, ew_body = rw_body v, ew_edited_at = rw_edited_at v\<rparr>)
        (filter (\<lambda>v. rw_review v = re_id r) ?revs)"
      unfolding set_map by (elim imageE) (simp only: export_review.simps)
    have "map ew_columns (map (\<lambda>v. \<lparr>ew_rating = rw_rating v, ew_body = rw_body v, ew_edited_at = rw_edited_at v\<rparr>) vs)
        = map rw_columns vs" for vs :: "review_revision_row list" by (simp add: ew_columns_def rw_columns_def)
    then show ?thesis unfolding d revs[OF r] by (simp only: mset_sorted_map)
  qed
  from x obtain fs where w': "w' = w\<lparr>faults := fs\<rparr>" and doc: "x = ?doc" by blast
  show thesis
  proof (rule that[OF w'])
    show "mset (map er_columns x) = mset (map re_columns (filter (\<lambda>r. re_author r = Some u) (reviews w)))"
      unfolding doc by (rule rows)
    show "\<forall>r \<in> set x. mset (map ew_columns (er_revisions r)) = mset (map rw_columns (filter (\<lambda>v. rw_review v = er_id r) (review_revisions w)))"
      unfolding doc by (rule ballI, rule texts)
  qed
qed

lemma account_section_InrE:
  assumes "account_section u w = (Inr x, w')"
  obtains fs row where "w' = w\<lparr>faults := fs\<rparr>" "select_one (\<lambda>r. ur_id r = u) (users w) = Some row"
    "(ea_user_id x, ea_email x, ea_display_name x, ea_account_state x, ea_email_verified_at x, ea_created_at x)
       = (u, ur_email row, ur_display_name row, ur_state row, ur_verified_at row, ur_created_at row)"
    "mset (ea_roles x) = mset (map rl_role (filter (\<lambda>r. rl_user r = u) (user_roles w)))"
proof -
  from assms obtain fs row where row: "select_one (\<lambda>r. ur_id r = u) (users w) = Some row"
    and w': "w' = w\<lparr>faults := fs\<rparr>"
      "x = \<lparr>ea_user_id = ur_id row, ea_email = ur_email row, ea_display_name = ur_display_name row,
             ea_account_state = ur_state row, ea_email_verified_at = ur_verified_at row,
             ea_created_at = ur_created_at row, ea_roles = sort (map rl_role (filter (\<lambda>r. rl_user r = u) (user_roles w)))\<rparr>"
    unfolding account_section_def by (elim bindM_InrE query_InrE okOrM_InrE retM_InrE) clarsimp
  from select_one_SomeD[OF row] row w' show thesis by (intro that) auto
qed

lemma authentication_section_InrE:
  assumes "authentication_section u w = (Inr x, w')" "select_one (\<lambda>r. ur_id r = u) (users w) = Some row"
  obtains fs where "w' = w\<lparr>faults := fs\<rparr>"
    "mset (map (\<lambda>p. (ei_provider p, ei_subject p, ei_email_verified p)) x)
       = mset (map (\<lambda>r. (ir_provider r, ir_subject r, ur_verified_at row \<noteq> None)) (filter (\<lambda>r. ir_user r = u) (identities w)))"
proof -
  have "map (\<lambda>p. (ei_provider p, ei_subject p, ei_email_verified p)) x
      = map (\<lambda>r. (ir_provider r, ir_subject r, ur_verified_at row \<noteq> None)) (filter (\<lambda>r. ir_user r = u) (identities w))"
    using assms unfolding authentication_section_def by (elim query_InrE) (auto intro!: map_cong)
  moreover have "\<exists>fs. w' = w\<lparr>faults := fs\<rparr>"
    using assms(1) unfolding authentication_section_def by (elim query_InrE) blast
  ultimately show thesis using that by metis
qed

text \<open>One section after the other.\<close>

lemma section_InrE:
  "sessions_section u w = (Inr xa, w') \<Longrightarrow> (\<And>fs. w' = w\<lparr>faults := fs\<rparr> \<Longrightarrow>
     mset (map (\<lambda>s. (en_created_at s, en_last_seen_at s, en_expires_at s)) xa)
       = mset (map (\<lambda>r. (sr_created_at r, sr_last_seen_at r, sr_expires_at r)) (filter (\<lambda>r. sr_user r = u) (sessions w))) \<Longrightarrow> R) \<Longrightarrow> R"
  "favorites_section u w = (Inr xb, w') \<Longrightarrow> (\<And>fs. w' = w\<lparr>faults := fs\<rparr> \<Longrightarrow>
     mset (map (\<lambda>f. (ef_location f, ef_created_at f)) xb)
       = mset (map (\<lambda>r. (fv_location r, fv_created_at r)) (filter (\<lambda>r. fv_user r = u) (favorites w))) \<Longrightarrow> R) \<Longrightarrow> R"
  "verifications_section u w = (Inr xc, w') \<Longrightarrow> (\<And>fs. w' = w\<lparr>faults := fs\<rparr> \<Longrightarrow>
     mset (map (\<lambda>r. (ev_location r, ev_kind r, ev_result r, ev_attribute r, ev_created_at r)) xc)
       = mset (map (\<lambda>r. (sg_location r, sg_kind r, sg_result r, sg_attribute r, sg_created_at r)) (filter (\<lambda>r. sg_user r = Some u) (signals w))) \<Longrightarrow> R) \<Longrightarrow> R"
  "proposals_section u w = (Inr xd, w') \<Longrightarrow> (\<And>fs. w' = w\<lparr>faults := fs\<rparr> \<Longrightarrow>
     mset (map (\<lambda>r. (ep_location r, ep_base_version r, ep_kind r, ep_proposed r, ep_status r, ep_created_at r)) xd)
       = mset (map (\<lambda>r. (pr_location r, pr_base_version r, pr_kind r, pr_proposed r, pr_status r, pr_created_at r)) (filter (\<lambda>r. pr_proposer r = Some u) (proposals w))) \<Longrightarrow> R) \<Longrightarrow> R"
  "reports_section u w = (Inr xe, w') \<Longrightarrow> (\<And>fs. w' = w\<lparr>faults := fs\<rparr> \<Longrightarrow>
     mset (map (\<lambda>r. (eq_target_type r, eq_target_id r, eq_reason r, eq_description r, eq_state r, eq_created_at r)) xe)
       = mset (map (\<lambda>r. (rp_target_type r, rp_target_id r, rp_reason r, rp_description r, rp_state r, rp_created_at r)) (filter (\<lambda>r. rp_reporter r = Some u) (reports w))) \<Longrightarrow> R) \<Longrightarrow> R"
  "photos_section u w = (Inr xf, w') \<Longrightarrow> (\<And>fs. w' = w\<lparr>faults := fs\<rparr> \<Longrightarrow>
     mset (map (\<lambda>h. (eh_kind h, eh_location h, eh_review h, eh_key h, eh_thumbnail h, eh_state h, eh_created_at h)) xf)
        = mset (map (\<lambda>r. (lit ''parking'', Some (ph_parent r), None, ph_key r, ph_thumbnail r, ph_state r, ph_created_at r))
              (filter (\<lambda>r. ph_uploader r = Some u) (parking_photos w))
            @ map (\<lambda>r. (lit ''review'', None, Some (ph_parent r), ph_key r, ph_thumbnail r, ph_state r, ph_created_at r))
              (filter (\<lambda>r. ph_uploader r = Some u) (review_photos w))) \<Longrightarrow> R) \<Longrightarrow> R"
  unfolding sessions_section_def favorites_section_def verifications_section_def proposals_section_def reports_section_def
    photos_section_def
  by (elim bindM_InrE query_InrE retM_InrE; clarsimp simp: image_mset.compositionality comp_def)+

lemma assemble_payload_InrE:
  assumes "assemble_payload u w = (Inr p, w')"
  obtains fs where "w' = w\<lparr>faults := fs\<rparr>" "covers u w p" "user_exists w u"
proof -
  have "w' = w\<lparr>faults := faults w'\<rparr> \<and> covers u w p \<and> user_exists w u"
    using assms unfolding assemble_payload_def
    by (elim transaction_InrE thenM_InrE bindM_InrE command_InrE getM_InrE retM_InrE,
        elim account_section_InrE, hypsubst,
        elim authentication_section_InrE section_InrE reviews_section_InrE, simp, hypsubst)
      (auto simp: covers_def covers_account_def export_payload_new_def user_exists_def simp del: mset_map mset_append
        dest: select_one_SomeD)
  then show thesis using that by blast
qed

lemma create_export_InrE:
  assumes "create_export E n w = (Inr i, w')"
  obtains fs row where "i = next_data_export w"
    "w' = w\<lparr>faults := fs, data_exports := data_exports w @ [row], next_data_export := i + 1\<rparr>"
    "xr_id row = i" "xr_user row = nx_user n" "xr_state row = lit ''READY''" "xr_token_hash row = sha256_hex E (nx_token n)"
    "xr_payload row = nx_payload n" "xr_expires_at row = nx_expires_at n"
  using assms unfolding create_export_def
  by (elim sql_InrE) (auto simp: check_user_def check_that_def split: if_splits)

lemma request_export_parts:
  assumes "request_export E stamp u w = (Inr x, w')"
  obtains p s1 i s3 ev y where "assemble_payload (au_id u) w = (Inr p, s1)"
    "create_export E \<lparr>nx_user = au_id u, nx_token = entropy s1 (drawn s1), nx_payload = p, nx_expires_at = now w + hours 24\<rparr>
       (s1\<lparr>drawn := Suc (drawn s1)\<rparr>) = (Inr i, s3)"
    "privacy_audit ev s3 = (Inr y, w')"
    "x = \<lparr>xq_id = i, xq_token = b64_encode (ax_b64 E) (entropy s1 (drawn s1)), xq_created_at = now w,
          xq_expires_at = now w + hours 24\<rparr>"
  using assms unfolding request_export_def
  by (elim bindM_InrE thenM_InrE getM_InrE retM_InrE random_bytes_InrE) (hypsubst+, rule that; (assumption | rule refl))

lemma select_one_append: "select_one P xs = None \<Longrightarrow> select_one P (xs @ ys) = select_one P ys"
  unfolding select_one_def by (induction xs) (auto split: if_splits)

text \<open>A ready export is handed out to its owner for its token.\<close>

lemma download_returns:
  assumes f: "faults w = []" and row: "select_one (\<lambda>r. xr_id r = i) (data_exports w) = Some row"
    and one: "filter (consumable i (now w)) (data_exports w) = [row]"
    and own: "xr_user row = au_id u" "user_exists w (au_id u)"
    and tok: "b64url_decode E raw = Some tok" "xr_token_hash row = sha256_hex E tok"
  shows "\<exists>v. download_export E u i raw w = (Inr (xr_payload row), v)"
proof -
  have "consumable i (now w) row" using one by (metis Cons_eq_filterD)
  then have ready: "xr_state row = lit ''READY''" "now w < xr_expires_at row" by (simp_all add: consumable_def)
  have code: "export_state_from (lit ''READY'') = Inr ExportReady" "lit ''READY'' \<noteq> lit ''DOWNLOADED''"
    "lit ''READY'' \<noteq> lit ''EXPIRED''" by code_simp+
  have hash: "constant_time_hex_eq (sha256_hex E tok) (sha256_hex E tok)"
    using sha256_hex_text[of E tok] constant_time_hex_eq_iff by (simp add: hex_text_def)
  have "fst (download_export E u i raw w) = Inr (xr_payload row)"
    using ready(2) own(2)
    by (simp add: download_export_def exec f get_export_def row export_from_row_def ready(1) code own(1) tok consume_download_def
        hash one privacy_audit_def audit_record_def service_event_def user_exists_def)
  then show ?thesis by (metis prod.collapse)
qed


end
