(* ===== verification/Privacy_Sweep.thy ===== *)
theory Privacy_Sweep
  imports Privacy_Exports
begin

text \<open>
  The sweep of orphaned uploads removes exactly the objects it is meant to remove, over any
  number of pages, and leaves the others; a retention run that returned has left no expired row.
\<close>

section \<open>The sweep\<close>

definition orphan :: "int \<Rightarrow> 'w content_world_scheme \<Rightarrow> stored_object \<Rightarrow> bool" where
  "orphan cutoff w ob \<longleftrightarrow>
     starts_with (ob_key ob) upload_prefix \<and> ob_modified ob div seconds 1 * seconds 1 < cutoff \<and> ob_key ob \<notin> photo_keys w"

definition later :: "ustring option \<Rightarrow> stored_object \<Rightarrow> bool" where
  "later after ob \<longleftrightarrow> (case after of None \<Rightarrow> True | Some k \<Rightarrow> k < ob_key ob)"

definition unique_objects :: "'w content_world_scheme \<Rightarrow> bool" where
  "unique_objects w \<longleftrightarrow> distinct (map ob_key (objects w))"

lemma photo_keys_writes [simp]:
  "photo_keys (w\<lparr>storage_faults := fs\<rparr>) = photo_keys w" "photo_keys (w\<lparr>faults := fs'\<rparr>) = photo_keys w"
  "photo_keys (w\<lparr>objects := obs\<rparr>) = photo_keys w"
  by (simp_all add: photo_keys_def)

lemma list_objects_effect:
  assumes "list_objects p after w = (r, w')"
  shows "\<exists>fs. w' = w\<lparr>storage_faults := fs\<rparr> \<and> (\<forall>page. r = Inr page \<longrightarrow> page = page_of (listed_after p after w))"
proof (cases "storage_faults w")
  case Nil
  with assms have "w' = w \<and> r = Inr (page_of (listed_after p after w))" by (auto simp: list_objects_def storage_call_def)
  then show ?thesis by (intro exI[of _ "storage_faults w"]) simp
next
  case (Cons x fs)
  with assms show ?thesis by (auto simp: list_objects_def storage_call_def split: option.splits)
qed

lemma length_filter_key: "distinct (map f xs) \<Longrightarrow> x \<in> set xs \<Longrightarrow> length (filter (\<lambda>y. f y = f x) xs) = 1"
proof (induction xs)
  case (Cons a xs)
  have "filter (\<lambda>y. f y = f a) xs = []" using Cons.prems(1) by (auto simp: filter_empty_conv) (metis imageI)
  with Cons show ?case by auto
qed simp

lemma delete_unreferenced_Inr:
  assumes "delete_unreferenced used keys w = (Inr n, w')" "distinct keys"
    and "\<And>k. k \<in> set keys \<Longrightarrow> k \<in> ob_key ` set (objects w)" "unique_objects w"
  shows "objects w' = filter (\<lambda>ob. ob_key ob \<notin> set keys - set used) (objects w)
     \<and> n = length (filter (\<lambda>ob. ob_key ob \<in> set keys - set used) (objects w))
     \<and> photo_keys w' = photo_keys w"
  using assms
proof (induction keys arbitrary: n w)
  case Nil
  then show ?case by (simp add: exec)
next
  case (Cons key keys)
  show ?case
  proof (cases "key \<in> set used")
    case True
    with Cons.prems have "delete_unreferenced used keys w = (Inr n, w')" by simp
    moreover have "set (key # keys) - set used = set keys - set used" using True by auto
    ultimately show ?thesis using Cons.IH[of w n] Cons.prems by simp
  next
    case False
    with Cons.prems(1) obtain v m where d: "delete_object key w = (Inr (), v)"
      and r: "delete_unreferenced used keys v = (Inr m, w')" and n: "n = m + 1"
      by (auto elim!: thenM_InrE bindM_InrE mapErrM_InrE retM_InrE)
    have v: "objects v = filter (\<lambda>ob. ob_key ob \<noteq> key) (objects w)" "photo_keys v = photo_keys w"
      using d by (auto simp: delete_object_def storage_call_def photo_keys_def split: list.splits option.splits)
    have "unique_objects v" using Cons.prems(4) by (simp add: unique_objects_def v distinct_map_filter)
    moreover have "k \<in> ob_key ` set (objects v)" if "k \<in> set keys" for k
      using Cons.prems(2,3) that by (auto simp: v)
    ultimately have IH: "objects w' = filter (\<lambda>ob. ob_key ob \<notin> set keys - set used) (objects v)"
      "m = length (filter (\<lambda>ob. ob_key ob \<in> set keys - set used) (objects v))" "photo_keys w' = photo_keys v"
      using Cons.IH[OF r] Cons.prems(2) by auto
    have split: "length (filter (\<lambda>ob. ob_key ob \<in> set (key # keys) - set used) obs)
        = length (filter (\<lambda>ob. ob_key ob = key) obs) + length (filter (\<lambda>ob. ob_key ob \<in> set keys - set used)
            (filter (\<lambda>ob. ob_key ob \<noteq> key) obs))" for obs :: "stored_object list"
      using False Cons.prems(2) by (induction obs) auto
    have "length (filter (\<lambda>ob. ob_key ob = key) (objects w)) = 1"
      using Cons.prems(3)[of key] Cons.prems(4) length_filter_key[of ob_key "objects w"] by (auto simp: unique_objects_def)
    with IH v n split show ?thesis using False by (auto intro!: filter_cong)
  qed
qed

lemma purge_unreferenced_Inr:
  assumes "purge_unreferenced keys w = (Inr n, w')" "distinct keys"
    and "\<And>k. k \<in> set keys \<Longrightarrow> k \<in> ob_key ` set (objects w)" "unique_objects w"
  shows "objects w' = filter (\<lambda>ob. ob_key ob \<notin> set keys - photo_keys w) (objects w)
     \<and> n = length (filter (\<lambda>ob. ob_key ob \<in> set keys - photo_keys w) (objects w))
     \<and> photo_keys w' = photo_keys w"
proof -
  from assms(1) obtain used fs where used: "set keys - set used = set keys - photo_keys w"
    and d: "delete_unreferenced used keys (w\<lparr>faults := fs\<rparr>) = (Inr n, w')"
  proof (cases "keys = []")
    case True
    with assms(1) that[of "[]" "faults w"] show ?thesis by (simp add: purge_unreferenced_def referenced_def exec)
  next
    case False
    with assms(1) obtain fs where
      "delete_unreferenced (filter (\<lambda>k. k \<in> photo_keys w) keys) keys (w\<lparr>faults := fs\<rparr>) = (Inr n, w')"
      unfolding purge_unreferenced_def referenced_def
      by (auto elim!: bindM_InrE query_InrE simp: photo_keys_def)
    with that[of "filter (\<lambda>k. k \<in> photo_keys w) keys" fs] show ?thesis by auto
  qed
  have "photo_keys (w\<lparr>faults := fs\<rparr>) = photo_keys w" by (simp add: photo_keys_def)
  with delete_unreferenced_Inr[OF d assms(2)] assms(3,4) used show ?thesis by (simp add: unique_objects_def)
qed

lemma take_sorted:
  assumes "sorted (map f L)" "distinct (map f L)" "take n L \<noteq> []" "x \<in> set L"
  shows "x \<in> set (take n L) \<longleftrightarrow> \<not> (f (last (take n L)) < f x)"
proof -
  have L: "set L = set (take n L) \<union> set (drop n L)" by (metis append_take_drop_id set_append)
  have s: "sorted (map f (take n L) @ map f (drop n L))" and d: "distinct (map f (take n L) @ map f (drop n L))"
    using assms(1,2) by (metis append_take_drop_id map_append)+
  have before: "f y \<le> f (last (take n L))" if "y \<in> set (take n L)" for y
  proof -
    have "sorted (map f (take n L))" using s by (simp add: sorted_append)
    then have "sorted (map f (butlast (take n L)) @ [f (last (take n L))])"
      using assms(3) by (metis append_butlast_last_id list.simps(8,9) map_append)
    moreover have "y \<in> set (butlast (take n L)) \<or> y = last (take n L)"
      using that assms(3) by (metis Un_iff append_butlast_last_id empty_iff empty_set set_ConsD set_append)
    ultimately show ?thesis by (auto simp: sorted_append)
  qed
  have after: "f (last (take n L)) < f y" if "y \<in> set (drop n L)" for y
  proof -
    have l: "last (take n L) \<in> set (take n L)" using assms(3) by (rule last_in_set)
    with s that have "f (last (take n L)) \<le> f y" by (auto simp: sorted_append)
    moreover have "f (last (take n L)) \<noteq> f y" using d l that by auto
    ultimately show ?thesis by simp
  qed
  show ?thesis using assms(4) L before after by (metis Un_iff leD)
qed

lemma page_facts:
  assumes "unique_objects w" "page = page_of (listed_after upload_prefix after w)" "ob \<in> set (objects w)"
  shows "ob_key ob \<in> set (map oi_key (filter (\<lambda>oi. oi_modified oi < cutoff) (og_objects page))) - photo_keys w
     \<longleftrightarrow> orphan cutoff w ob \<and> later after ob \<and> (case og_next page of None \<Rightarrow> True | Some k \<Rightarrow> \<not> k < ob_key ob)"
proof -
  let ?L = "listed_after upload_prefix after w"
  have d: "distinct (map ob_key ?L)"
    using assms(1) by (simp add: listed_after_def unique_objects_def distinct_map_filter distinct_map inj_on_def)
  have sorted: "sorted (map ob_key ?L)" by (simp add: listed_after_def)
  have inL: "ob \<in> set ?L \<longleftrightarrow> starts_with (ob_key ob) upload_prefix \<and> later after ob"
    using assms(3) by (auto simp: in_listed_after later_def)
  have own: "ob_key ob \<in> set (map ob_key (filter P (take n ?L))) \<longleftrightarrow> ob \<in> set (take n ?L) \<and> P ob" for P n
  proof -
    have "inj_on ob_key (set (objects w))" using assms(1) by (simp add: unique_objects_def distinct_map)
    moreover have "set (filter P (take n ?L)) \<subseteq> set (objects w)" by (auto simp: in_listed_after dest!: in_set_takeD)
    ultimately show ?thesis using assms(3) by (simp only: list.set_map inj_on_image_mem_iff) simp
  qed
  have keys: "map oi_key (filter (\<lambda>oi. oi_modified oi < cutoff) (og_objects page))
      = map ob_key (filter (\<lambda>ob. ob_modified ob div seconds 1 * seconds 1 < cutoff) (take list_page_keys ?L))"
    by (simp add: assms(2) page_of_def Let_def filter_map comp_def)
  have shown: "ob \<in> set (take list_page_keys ?L) \<longleftrightarrow> ob \<in> set ?L \<and> (case og_next page of None \<Rightarrow> True | Some k \<Rightarrow> \<not> k < ob_key ob)"
  proof (cases "list_page_keys < length ?L \<and> take list_page_keys ?L \<noteq> []")
    case True
    with take_sorted[OF sorted d, of list_page_keys ob] show ?thesis
      by (auto simp: assms(2) page_of_def Let_def last_map dest: in_set_takeD)
  next
    case False
    then have "take list_page_keys ?L = ?L" by (auto simp: list_page_keys_def)
    with False show ?thesis by (auto simp: assms(2) page_of_def Let_def)
  qed
  show ?thesis unfolding keys Diff_iff own shown inL by (auto simp: orphan_def)
qed

lemma sweep_exact:
  assumes "sweep_uploads cutoff after w = (Inr n, w')" "unique_objects w"
  shows "objects w' = filter (\<lambda>ob. \<not> (orphan cutoff w ob \<and> later after ob)) (objects w)
     \<and> n = length (filter (\<lambda>ob. orphan cutoff w ob \<and> later after ob) (objects w))
     \<and> photo_keys w' = photo_keys w"
  using assms
proof (induction cutoff after w arbitrary: n w' rule: sweep_uploads.induct)
  case (1 cutoff after w)
  let ?keys = "\<lambda>page. map oi_key (filter (\<lambda>ob. oi_modified ob < cutoff) (og_objects page))"
  from 1(2) obtain page w1 m w2 where
    l: "mapErrM privacy_of_storage (list_objects upload_prefix after) w = (Inr page, w1)"
    and p: "purge_unreferenced (?keys page) w1 = (Inr m, w2)"
    and rest: "case og_next page of None \<Rightarrow> n = m \<and> w' = w2
      | Some k \<Rightarrow> (\<exists>m'. sweep_uploads cutoff (Some k) w2 = (Inr m', w') \<and> n = m + m')"
    by (subst (asm) sweep_uploads.simps) (auto split: prod.splits sum.splits option.splits)
  from l have "list_objects upload_prefix after w = (Inr page, w1)" by (rule mapErrM_InrE)
  from list_objects_effect[OF this] have w1: "objects w1 = objects w" "page = page_of (listed_after upload_prefix after w)" "photo_keys w1 = photo_keys w"
    by auto
  have keys: "distinct (?keys page)" "set (?keys page) \<subseteq> ob_key ` set (objects w)"
  proof -
    let ?L = "listed_after upload_prefix after w"
    have k: "?keys page = map ob_key (filter (\<lambda>ob. ob_modified ob div seconds 1 * seconds 1 < cutoff) (take list_page_keys ?L))"
      by (simp add: w1(2) page_of_def Let_def filter_map comp_def)
    have "distinct (map ob_key ?L)"
      using 1(3) by (simp add: listed_after_def unique_objects_def distinct_map_filter distinct_map inj_on_def)
    then have "distinct (map ob_key (take list_page_keys ?L))" by (simp add: take_map[symmetric])
    then show "distinct (?keys page)" unfolding k by (rule distinct_map_filter)
    show "set (?keys page) \<subseteq> ob_key ` set (objects w)"
      unfolding k by (auto simp: in_listed_after dest!: in_set_takeD)
  qed
  have removed: "ob_key ob \<in> set (?keys page) - photo_keys w
      \<longleftrightarrow> orphan cutoff w ob \<and> later after ob \<and> (case og_next page of None \<Rightarrow> True | Some k \<Rightarrow> \<not> k < ob_key ob)"
    if "ob \<in> set (objects w)" for ob
    using page_facts[OF 1(3) w1(2) that] .
  have w2: "objects w2 = filter (\<lambda>ob. ob_key ob \<notin> set (?keys page) - photo_keys w) (objects w)"
    "m = length (filter (\<lambda>ob. ob_key ob \<in> set (?keys page) - photo_keys w) (objects w))" "photo_keys w2 = photo_keys w"
    using purge_unreferenced_Inr[OF p keys(1)] keys(2) 1(3) by (auto simp: unique_objects_def w1)
  show ?case
  proof (cases "og_next page")
    case None
    with rest w2 removed show ?thesis by (auto intro!: filter_cong arg_cong[where f = length])
  next
    case (Some k)
    with rest obtain m' where r: "sweep_uploads cutoff (Some k) w2 = (Inr m', w')" and n: "n = m + m'" by auto
    have "unique_objects w2" using 1(3) by (simp add: unique_objects_def w2 distinct_map_filter)
    note IH = 1(1)[OF l[symmetric] refl p[symmetric] refl Some r this]
    let ?P = "\<lambda>ob. ob_key ob \<in> set (?keys page) - photo_keys w" and ?Q = "\<lambda>ob. orphan cutoff w ob \<and> later (Some k) ob"
    have same: "orphan cutoff w2 = orphan cutoff w" by (rule ext) (simp add: orphan_def w2)
    from Some obtain x where "x \<in> set (listed_after upload_prefix after w)" "k = ob_key x"
      unfolding w1(2) by (rule page_of_next)
    then have past: "later after ob" if "later (Some k) ob" for ob
      using that by (auto simp: later_def in_listed_after split: option.splits)
    have PQ: "?P ob \<or> ?Q ob \<longleftrightarrow> orphan cutoff w ob \<and> later after ob" "?P ob \<Longrightarrow> \<not> ?Q ob" if "ob \<in> set (objects w)" for ob
      using removed[OF that] Some past[of ob] by (auto simp: later_def)
    have "objects w' = filter (\<lambda>ob. \<not> ?P ob \<and> \<not> ?Q ob) (objects w)"
      using IH by (simp add: same w2 conj_commute)
    moreover have "n = length (filter ?P (objects w)) + length (filter ?Q (filter (\<lambda>ob. \<not> ?P ob) (objects w)))"
      using IH n by (simp add: same w2)
    moreover have "filter ?Q (filter (\<lambda>ob. \<not> ?P ob) (objects w)) = filter ?Q (objects w)"
      using PQ(2) by (auto intro!: filter_cong simp: filter_filter)
    moreover have "length (filter ?P xs) + length (filter ?Q xs) = length (filter (\<lambda>ob. ?P ob \<or> ?Q ob) xs)"
      if "\<And>ob. ob \<in> set xs \<Longrightarrow> ?P ob \<Longrightarrow> \<not> ?Q ob" for xs
      using that by (induction xs) auto
    ultimately show ?thesis
      using PQ IH w2(3) by (auto intro!: filter_cong arg_cong[where f = length])
  qed
qed

text \<open>Whatever fails on the way, an object that is not an orphan stays.\<close>

lemma delete_unreferenced_spares:
  "delete_unreferenced used keys w = (r, w') \<Longrightarrow> ob \<in> set (objects w) \<Longrightarrow> ob_key ob \<notin> set keys - set used
    \<Longrightarrow> ob \<in> set (objects w') \<and> photo_keys w' = photo_keys w"
proof (induction keys arbitrary: w r w')
  case (Cons key keys)
  show ?case
  proof (cases "key \<in> set used")
    case False
    obtain d v where d: "delete_object key w = (d, v)" by fastforce
    then have v: "ob \<in> set (objects v)" "photo_keys v = photo_keys w"
      using Cons.prems False by (auto simp: delete_object_def storage_call_def split: list.splits option.splits)
    obtain q v' where q: "delete_unreferenced used keys v = (q, v')" by fastforce
    from Cons.IH[OF q v(1)] Cons.prems(3) v(2) have "ob \<in> set (objects v') \<and> photo_keys v' = photo_keys w" by auto
    with Cons.prems(1) False d q v show ?thesis by (auto simp: exec split: sum.splits)
  qed (use Cons in auto)
qed (simp add: exec)

lemma purge_unreferenced_spares:
  assumes "purge_unreferenced keys w = (r, w')" "ob \<in> set (objects w)" "ob_key ob \<notin> set keys - photo_keys w"
  shows "ob \<in> set (objects w') \<and> photo_keys w' = photo_keys w"
proof -
  obtain q v where q: "referenced keys w = (q, v)" by fastforce
  have v: "objects v = objects w" "photo_keys v = photo_keys w"
    using q by (auto simp: referenced_def query_def sql_def run_stmt_def exec split: if_splits list.splits option.splits)
  show ?thesis
  proof (cases q)
    case (Inr used)
    have "set keys - set used = set keys - photo_keys w"
      using q Inr by (auto simp: referenced_def exec photo_keys_def elim!: query_InrE split: if_splits)
    with delete_unreferenced_spares[of used keys v r w' ob] assms q Inr v show ?thesis
      by (simp add: purge_unreferenced_def bindM_exec)
  qed (use assms q v in \<open>simp add: purge_unreferenced_def bindM_exec\<close>)
qed

lemma sweep_spares:
  "sweep_uploads cutoff after w = (r, w') \<Longrightarrow> unique_objects w \<Longrightarrow> ob \<in> set (objects w) \<Longrightarrow> \<not> orphan cutoff w ob
    \<Longrightarrow> ob \<in> set (objects w')"
proof (induction cutoff after w arbitrary: r w' rule: sweep_uploads.induct)
  case (1 cutoff after w)
  let ?keys = "\<lambda>page. map oi_key (filter (\<lambda>ob. oi_modified ob < cutoff) (og_objects page))"
  obtain r1 w1 where l: "mapErrM privacy_of_storage (list_objects upload_prefix after) w = (r1, w1)" by fastforce
  then obtain fs where w1: "w1 = w\<lparr>storage_faults := fs\<rparr>" "\<And>page. r1 = Inr page \<Longrightarrow> page = page_of (listed_after upload_prefix after w)"
    by (auto simp: mapErrM_exec split: prod.splits sum.splits dest!: list_objects_effect)
  show ?case
  proof (cases r1)
    case (Inl e) with 1(2,4) l w1 show ?thesis by (auto simp: sweep_uploads.simps)
  next
    case (Inr page)
    obtain r2 w2 where p: "purge_unreferenced (?keys page) w1 = (r2, w2)" by fastforce
    have "ob_key ob \<notin> set (?keys page) - photo_keys w1"
      using page_facts[OF 1(3) w1(2)[OF Inr] 1(4)] 1(5) by (simp add: w1(1))
    with purge_unreferenced_spares[OF p] 1(4) have w2: "ob \<in> set (objects w2)" "photo_keys w2 = photo_keys w"
      by (simp_all add: w1(1))
    obtain Q where "objects w2 = filter Q (objects w)" using purge_unreferenced_objects[OF p] by (auto simp: w1(1))
    then have u: "unique_objects w2" using 1(3) by (simp add: unique_objects_def distinct_map_filter)
    have o: "\<not> orphan cutoff w2 ob" using 1(5) by (simp add: orphan_def w2)
    show ?thesis
    proof (cases r2)
      case (Inl e) with 1(2) l p Inr w2 show ?thesis by (auto simp: sweep_uploads.simps)
    next
      case (Inr n)
      note IH = 1(1)[OF l[symmetric] \<open>r1 = Inr page\<close> p[symmetric] Inr _ _ u w2(1) o]
      show ?thesis
        using 1(2) l p Inr \<open>r1 = Inr page\<close> w2 IH
        by (subst (asm) sweep_uploads.simps) (auto split: option.splits prod.splits sum.splits)
    qed
  qed
qed

text \<open>C13: whatever fails on the way, the sweep of the object store never removes an object that a
  photo row refers to, that lies outside the uploads, or that is younger than the allowed age; and
  when it returns, over however many pages, exactly the orphans are gone and it has counted them.\<close>

theorem orphan_sweep_is_exact:
  assumes "purge_orphan_uploads P t w = (r, w')" "unique_objects w"
  shows "(\<forall>ob \<in> set (objects w). \<not> orphan (t - upload_orphan_ttl P) w ob \<longrightarrow> ob \<in> set (objects w'))
     \<and> (case r of Inl e \<Rightarrow> True
        | Inr n \<Rightarrow> objects w' = filter (\<lambda>ob. \<not> orphan (t - upload_orphan_ttl P) w ob) (objects w)
            \<and> length (objects w) = length (objects w') + n)"
proof -
  have count: "length xs = length (filter (\<lambda>x. \<not> Q x) xs) + length (filter Q xs)" for Q and xs :: "stored_object list"
    by (induction xs) auto
  from assms(1) have s: "sweep_uploads (t - upload_orphan_ttl P) None w = (r, w')" by (simp add: purge_orphan_uploads_def)
  show ?thesis
    using sweep_spares[OF s assms(2)] sweep_exact[of "t - upload_orphan_ttl P" None w _ w'] s assms(2) count
    by (auto simp: later_def split: sum.split)
qed

end
