(* ===== verification/Privacy_Retention.thy ===== *)
theory Privacy_Retention
  imports Privacy_Sweep
begin

text \<open>
  A retention run that returned has left nothing that was to be purged, although its later steps
  anonymize and remove accounts.
\<close>

text \<open>Of the steps in \<open>A\<close>, no row that the step removes is left.\<close>

definition clean :: "nat set \<Rightarrow> retention_policy \<Rightarrow> int \<Rightarrow> 'w privacy_world_scheme \<Rightarrow> bool" where
  "clean A P t w \<longleftrightarrow>
     (0 \<in> A \<longrightarrow> (\<forall>r \<in> set (reset_tokens w). t \<le> rr_expires_at r))
     \<and> (1 \<in> A \<longrightarrow> (\<forall>r \<in> set (verif_tokens w). t \<le> vr_expires_at r))
     \<and> (2 \<in> A \<longrightarrow> (\<forall>r \<in> set (sessions w). t \<le> sr_expires_at r \<and> t - session_idle P \<le> sr_last_seen_at r))
     \<and> (3 \<in> A \<longrightarrow> (\<forall>r \<in> set (signals w). sg_kind r = lit ''parked_here'' \<longrightarrow>
          (case sg_expires_at r of None \<Rightarrow> True | Some e \<Rightarrow> t \<le> e)))
     \<and> (4 \<in> A \<longrightarrow> (\<forall>r \<in> set (data_exports w). t \<le> xr_expires_at r))"

interpretation clean: store_invariant "clean A P t" for A P t
  by unfold_locales (simp_all add: table_inv_def clean_def)

lemma keeps_clean_purges:
  "keeps (clean A P t) (purge_reset_tokens t')" "keeps (clean A P t) (purge_verification_tokens t')"
  "keeps (clean A P t) (purge_sessions P' t')" "keeps (clean A P t) (purge_parked_here t')"
  "keeps (clean A P t) (purge_exports t')"
  unfolding purge_reset_tokens_def purge_verification_tokens_def purge_sessions_def purge_parked_here_def purge_exports_def
  by (rule keeps_delete_rows[OF clean.tables], simp add: clean_def)+

lemma keeps_clean_steps:
  "keeps (clean A P t) (purge_orphan_uploads P' t')" "keeps (clean A P t) (reconcile_pending_photos t')"
  "keeps (clean A P t) (anonymize E i t')" "keeps (clean A P t) (purge_deleted_accounts t')"
  "keeps (clean A P t) (privacy_audit ev)"
proof -
  show "keeps (clean A P t) (purge_orphan_uploads P' t')"
    unfolding purge_orphan_uploads_def by (rule clean.keeps_uploads)
  have d: "keeps (clean A P t) (delete_photo_row k i)" for k i
    unfolding delete_photo_row_def
    by (cases k; simp; rule keeps_delete_rows[OF clean.tables]; simp add: clean_def)
  have r: "keeps (clean A P t) (reconcile_rows k rows)" for k rows
    by (induction rows rule: reconcile_rows.induct) (auto intro!: pres clean.keeps_store d)
  show "keeps (clean A P t) (reconcile_pending_photos t')"
    unfolding reconcile_pending_photos_def reconcile_kind_def by (intro pres clean.tables r)
  show "keeps (clean A P t) (anonymize E i t')"
    by (rule keeps_anonymize[OF clean.tables])
      (auto simp: clean_def anonymized_def user_scrubbed_def activity_erased_def content_detached_def audit_scrubbed_def
        ball_update_where)
  show "keeps (clean A P t) (purge_deleted_accounts t')"
    unfolding purge_deleted_accounts_def
    by (rule keeps_sql[OF clean.tables]) (auto simp: Let_def clean_def detach_accounts_def cascade_accounts_def)
  show "keeps (clean A P t) (privacy_audit ev)"
    unfolding privacy_audit_def audit_record_def
    by (intro pres keeps_sql[OF clean.tables]) (auto simp: clean_def split: if_splits)
qed

lemma keeps_clean_accounts: "keeps (clean A P t) (anonymize_inactive_accounts E t')"
  unfolding anonymize_inactive_accounts_def by (intro pres clean.tables keeps_clean_steps)

text \<open>Each purge cleans its table.\<close>

lemma purges_clean:
  "purge_reset_tokens t w = (Inr n, w') \<Longrightarrow> clean A P t w \<Longrightarrow> clean (insert 0 A) P t w'"
  "purge_verification_tokens t w = (Inr n, w') \<Longrightarrow> clean A P t w \<Longrightarrow> clean (insert 1 A) P t w'"
  "purge_sessions P t w = (Inr n, w') \<Longrightarrow> clean A P t w \<Longrightarrow> clean (insert 2 A) P t w'"
  "purge_parked_here t w = (Inr n, w') \<Longrightarrow> clean A P t w \<Longrightarrow> clean (insert 3 A) P t w'"
  "purge_exports t w = (Inr n, w') \<Longrightarrow> clean A P t w \<Longrightarrow> clean (insert 4 A) P t w'"
  unfolding purge_reset_tokens_def purge_verification_tokens_def purge_sessions_def purge_parked_here_def purge_exports_def
  by (elim delete_rows_InrE; force simp: clean_def split: option.splits)+

lemma gated_step_InrE:
  assumes "gated_step name n act t w = (Inr x, w')"
  obtains "n = 0" "w' = w" | k where "n > 0" "act (t - days (int n)) w = (Inr k, w')"
  using assms unfolding gated_step_def count_step_def
  by (cases "n = 0") (auto elim!: bindM_InrE retM_InrE)

lemma count_step_InrE:
  assumes "count_step name act w = (Inr x, w')"
  obtains k where "act w = (Inr k, w')"
  using assms unfolding count_step_def by (auto elim!: bindM_InrE retM_InrE)

lemma purge_deleted_accounts_InrD:
  "purge_deleted_accounts cutoff w = (Inr n, w') \<Longrightarrow> \<forall>r \<in> set (users w'). \<not> purgeable cutoff r"
  unfolding purge_deleted_accounts_def
  by (elim sql_InrE) (auto simp: Let_def detach_accounts_def cascade_accounts_def)

text \<open>C12: a retention run that returned has left no expired or idle session, no expired token, no
  expired parking notice, no expired export and, when their purge is enabled, no shell of an
  account deleted long enough ago.\<close>

theorem retention_leaves_nothing_expired:
  assumes "retention_run E P C w = (Inr steps, w')"
  shows "clean UNIV P (now w) w'
     \<and> (deleted_account_purge_after_days C > 0 \<longrightarrow>
          (\<forall>r \<in> set (users w'). \<not> purgeable (now w - days (int (deleted_account_purge_after_days C))) r))"
proof -
  let ?t = "now w"
  from assms obtain w1 w2 w3 w4 w5 w6 w7 w8 w9 n1 n2 n3 n4 n5 n6 n7 x8 x9 x10 ev where
    s: "purge_reset_tokens ?t w = (Inr n1, w1)" "purge_verification_tokens ?t w1 = (Inr n2, w2)"
      "purge_sessions P ?t w2 = (Inr n3, w3)" "purge_parked_here ?t w3 = (Inr n4, w4)" "purge_exports ?t w4 = (Inr n5, w5)"
      "purge_orphan_uploads P ?t w5 = (Inr n6, w6)" "reconcile_pending_photos ?t w6 = (Inr n7, w7)"
      "gated_step ''inactive_accounts'' (inactive_account_anonymize_after_days C) (anonymize_inactive_accounts E) ?t w7 = (Inr x8, w8)"
      "gated_step ''deleted_accounts'' (deleted_account_purge_after_days C) purge_deleted_accounts ?t w8 = (Inr x9, w9)"
      "privacy_audit ev w9 = (Inr x10, w')"
    unfolding retention_run_def mapM.simps id_def
    by (elim bindM_InrE thenM_InrE getM_InrE retM_InrE count_step_InrE) (hypsubst, rule that; assumption)
  have "clean {} P ?t w" by (simp add: clean_def)
  from purges_clean(5)[OF s(5) purges_clean(4)[OF s(4) purges_clean(3)[OF s(3) purges_clean(2)[OF s(2) purges_clean(1)[OF s(1) this]]]]]
  have "clean {0, 1, 2, 3, 4} P ?t w5" by (simp add: insert_commute)
  then have "clean UNIV P ?t w5" by (simp add: clean_def)
  from keepsD[OF keeps_clean_steps(2) keepsD[OF keeps_clean_steps(1) this s(6)] s(7)] have c7: "clean UNIV P ?t w7" .
  have c8: "clean UNIV P ?t w8"
    using s(8) c7 keepsD[OF keeps_clean_accounts c7] by (elim gated_step_InrE) auto
  have c9: "clean UNIV P ?t w9"
    using s(9) c8 keepsD[OF keeps_clean_steps(4) c8] by (elim gated_step_InrE) auto
  have users: "users w' = users w9" using s(10) by (elim privacy_audit_InrE) simp
  show ?thesis
    using keepsD[OF keeps_clean_steps(5) c9 s(10)] s(9) users
    by (auto elim!: gated_step_InrE dest: purge_deleted_accounts_InrD)
qed

end
