(* ===== verification/Privacy_Policies.thy ===== *)
theory Privacy_Policies
  imports Privacy_System
begin

text \<open>
  The legal pages: a template is rendered with every placeholder resolved or all the unresolved
  ones reported, and the page that was seeded last is the one in force.
\<close>

section \<open>Templates\<close>

text \<open>A template is text without an opening brace and placeholders, which may be padded.\<close>

datatype segment = Words ustring | Slot ustring ustring ustring

fun print_segment :: "segment \<Rightarrow> ustring" where
  "print_segment (Words s) = s"
| "print_segment (Slot a t b) = lit ''{{'' @ (a @ t @ b) @ lit ''}}''"

fun segment_ok :: "segment \<Rightarrow> bool" where
  "segment_ok (Words s) = (123 \<notin> set s)"
| "segment_ok (Slot a t b) = (list_all is_whitespace a \<and> is_token t \<and> list_all is_whitespace b)"

fun segment_value :: "(ustring \<Rightarrow> ustring option) \<Rightarrow> segment \<Rightarrow> ustring" where
  "segment_value lookup (Words s) = s"
| "segment_value lookup (Slot a t b) = (case lookup t of None \<Rightarrow> [] | Some v \<Rightarrow> v)"

fun unresolved :: "(ustring \<Rightarrow> ustring option) \<Rightarrow> segment \<Rightarrow> ustring list \<Rightarrow> ustring list" where
  "unresolved lookup (Words s) ms = ms"
| "unresolved lookup (Slot a t b) ms = (if lookup t = None \<and> t \<notin> set ms then ms @ [t] else ms)"

lemma find_pair_skip:
  "c \<notin> set s \<Longrightarrow> find_pair c (s @ rest) = map_option (\<lambda>(b, a). (s @ b, a)) (find_pair c rest)"
proof (induction s)
  case (Cons x s)
  then have IH: "find_pair c (s @ rest) = map_option (\<lambda>(b, a). (s @ b, a)) (find_pair c rest)" and x: "x \<noteq> c" by auto
  show ?case
  proof (cases "s @ rest")
    case Nil then show ?thesis by simp
  next
    case (Cons y ys)
    then have "find_pair c ((x # s) @ rest) = map_option (\<lambda>(b, a). (x # b, a)) (find_pair c (s @ rest))"
      using x by simp
    then show ?thesis unfolding IH by (simp add: option.map_comp comp_def split_def)
  qed
qed (cases "find_pair c rest"; simp)

lemma slot_plain: "segment_ok (Slot a t b) \<Longrightarrow> 125 \<notin> set (a @ t @ b)"
  by (auto simp: is_token_def list_all_iff is_whitespace_def)

lemma trim_slot:
  assumes "segment_ok (Slot a t b)" shows "trim (a @ t @ b) = t"
proof -
  have plain: "\<not> is_whitespace c" if "c \<in> set t" for c
    using assms that by (auto simp: is_token_def list_all_iff is_whitespace_def)
  have "t \<noteq> []" using assms by (simp add: is_token_def)
  with plain have t: "t \<noteq> []" "\<not> is_whitespace (hd t)" "\<not> is_whitespace (last t)" by simp_all
  have "trim_start (a @ t @ b) = t @ b"
    using assms t by (cases t) (auto simp: trim_start_def list_all_iff dropWhile_append2)
  moreover have "dropWhile is_whitespace (rev b @ rev t) = dropWhile is_whitespace (rev t)"
    by (rule dropWhile_append2) (use assms in \<open>simp add: list_all_iff\<close>)
  then have "trim_end (t @ b) = t"
    using t by (cases t rule: rev_cases) (simp_all add: trim_end_def)
  ultimately show ?thesis by (simp add: trim_def)
qed

lemma fill_loop_words:
  assumes "123 \<notin> set s" shows "fill_loop lookup out ms (s @ rest) = fill_loop lookup (out @ s) ms rest"
  by (subst (1 2) fill_loop.simps) (simp add: find_pair_skip[OF assms] split: option.split)

lemma fill_loop_slot:
  assumes "segment_ok (Slot a t b)"
  shows "fill_loop lookup out ms (print_segment (Slot a t b) @ rest)
    = fill_loop lookup (out @ segment_value lookup (Slot a t b)) (unresolved lookup (Slot a t b) ms) rest"
proof -
  have "find_pair 125 ((a @ t @ b) @ 125 # 125 # rest) = Some (a @ t @ b, rest)"
    using find_pair_skip[OF slot_plain[OF assms], of "125 # 125 # rest"] by simp
  then have "find_pair 125 (a @ t @ b @ 125 # 125 # rest) = Some (a @ t @ b, rest)" by simp
  then show ?thesis
    using assms by (subst fill_loop.simps) (simp add: lit_def trim_slot[OF assms] split: option.split)
qed

lemma fill_loop_segments:
  "list_all segment_ok segs \<Longrightarrow> fill_loop lookup out ms (concat (map print_segment segs))
     = (out @ concat (map (segment_value lookup) segs), fold (unresolved lookup) segs ms)"
proof (induction segs arbitrary: out ms)
  case Nil
  then show ?case by (simp add: fill_loop.simps)
next
  case (Cons x segs)
  show ?case
  proof (cases x)
    case (Words s)
    with Cons show ?thesis by (simp add: fill_loop_words)
  next
    case (Slot a t b)
    with Cons.prems fill_loop_slot[of a t b lookup out ms] Cons.IH show ?thesis
      by (simp del: print_segment.simps segment_value.simps unresolved.simps)
  qed
qed

text \<open>Rendering a legal page written as text and placeholders resolves every one of them, or
  reports each unresolved name once, in the order of first use, and renders nothing.\<close>

lemma placeholders_are_filled:
  assumes "list_all segment_ok segs"
  shows "fill_policy_placeholders (concat (map print_segment segs)) lookup
     = (if fold (unresolved lookup) segs [] = [] then Inr (concat (map (segment_value lookup) segs))
        else Inl (fold (unresolved lookup) segs []))"
  using fill_loop_segments[OF assms, of lookup "[]" "[]"]
  by (cases "fold (unresolved lookup) segs []") (simp_all add: fill_policy_placeholders_def)

section \<open>The page in force\<close>

text \<open>A seeded version that is new and takes effect after every other one of its kind and
  locale is the page readers get from then on, and seeding it again changes nothing.\<close>

lemma seeded_policy_is_current:
  assumes "seed_policy k loc ver t content w = (Inr x, w')"
    and "\<forall>r \<in> set (policy_versions w). of_policy k loc r \<longrightarrow> py_version r \<noteq> ver \<and> py_effective_at r < t"
    and "current_policy k loc w' = (Inr d, w'')"
  shows "(\<exists>p. d = Some p \<and> pd_kind p = k \<and> pd_version p = ver \<and> pd_effective_at p = t \<and> pd_content p = content
        \<and> pd_superseded_at p = None)
     \<and> policy_versions (snd (seed_policy k loc ver t' content' w')) = policy_versions w'"
proof -
  let ?old = "\<lambda>r. of_policy k loc r \<and> py_superseded_at r = None \<and> py_effective_at r < t"
    and ?rows = "policy_versions w"
  let ?new = "\<lparr>py_id = next_policy w, py_kind = policy_kind_code k, py_locale = loc, py_version = ver, py_effective_at = t,
          py_superseded_at = None, py_content = content\<rparr>"
  have fresh: "\<not> (\<exists>r \<in> set ?rows. of_policy k loc r \<and> py_version r = ver)" using assms(2) by blast
  have rows: "policy_versions w' = update_where ?old (\<lambda>r. r\<lparr>py_superseded_at := Some t\<rparr>) ?rows @ [?new]"
  proof -
    from assms(1) obtain fs v y where
      "update_rows policy_versions (\<lambda>x. policy_versions_update (\<lambda>_. x)) ?old (\<lambda>r. r\<lparr>py_superseded_at := Some t\<rparr>)
         (w\<lparr>faults := fs\<rparr>) = (Inr y, v)" "insert_policy k loc ver t content v = (Inr x, w')"
      unfolding seed_policy_def
      by (elim bindM_InrE query_InrE) (simp add: fresh, elim thenM_InrE, blast)
    then show ?thesis
      unfolding insert_policy_def
      by (elim update_rows_InrE sql_InrE) (clarsimp simp: check_that_def split: if_splits)
  qed
  have "filter (\<lambda>r. of_policy k loc r \<and> py_superseded_at r = None) (policy_versions w') = [?new]"
  proof -
    have "\<not> (of_policy k loc (if ?old r then r\<lparr>py_superseded_at := Some t\<rparr> else r)
        \<and> py_superseded_at (if ?old r then r\<lparr>py_superseded_at := Some t\<rparr> else r) = None)" if "r \<in> set ?rows" for r
      using assms(2) that by (auto simp: of_policy_def)
    then have "filter (\<lambda>r. of_policy k loc r \<and> py_superseded_at r = None)
        (update_where ?old (\<lambda>r. r\<lparr>py_superseded_at := Some t\<rparr>) ?rows) = []"
      unfolding filter_empty_conv ball_update_where by blast
    then show ?thesis by (simp add: rows of_policy_def)
  qed
  moreover have "policy_kind_from (policy_kind_code k) = Inr k"
    by (cases k) (simp_all add: policy_kind_from_def policy_kind_code_def)
  ultimately have "\<exists>p. d = Some p \<and> pd_kind p = k \<and> pd_version p = ver \<and> pd_effective_at p = t \<and> pd_content p = content
        \<and> pd_superseded_at p = None"
    using assms(3) unfolding current_policy_def document_from_row_def
    by (elim bindM_InrE query_InrE) (auto simp: exec split: sum.splits)
  moreover have "\<exists>r \<in> set (policy_versions w'). of_policy k loc r \<and> py_version r = ver"
    by (simp add: rows of_policy_def)
  then have "policy_versions (snd (seed_policy k loc ver t' content' w')) = policy_versions w'"
    unfolding seed_policy_def query_def
    by (auto simp: exec sql_def run_stmt_def split: list.split option.split)
  ultimately show ?thesis by blast
qed

end
