(* ===== verification/Privacy_Demo.thy ===== *)
theory Privacy_Demo
  imports Content_Demo Privacy_Accounts Privacy_Availability Privacy_Retention Privacy_Policies
begin

text \<open>
  The demo directory with an export that waits for its download, an orphaned upload, an expired
  parking notice and a legal page.  The guarantees about privacy are applied to it.
\<close>

section \<open>The instance\<close>

definition demo_payload :: export_payload where
  "demo_payload =
     export_payload_new
       \<lparr>ea_user_id = 1, ea_email = lit ''a@b.c'', ea_display_name = None, ea_account_state = lit ''ACTIVE'',
        ea_email_verified_at = Some 0, ea_created_at = 0, ea_roles = []\<rparr> [] [] [] [] [] [] [] [] 900000"

definition demo_export :: export_row where
  "demo_export =
     \<lparr>xr_id = 1, xr_user = 1, xr_state = lit ''READY'', xr_token_hash = sha256_hex demo_E (block_of 7),
      xr_payload = demo_payload, xr_created_at = 900000, xr_expires_at = 2000000, xr_downloaded_at = None\<rparr>"

definition demo_stale :: signal_row where
  "demo_stale =
     \<lparr>sg_id = 1, sg_location = 1, sg_user = Some 1, sg_kind = lit ''parked_here'', sg_result = lit ''confirm'',
      sg_attribute = None, sg_created_at = 0, sg_expires_at = Some 5\<rparr>"

definition demo_orphan :: stored_object where
  "demo_orphan = \<lparr>ob_key = lit ''uploads/zz/full'', ob_bytes = [1], ob_modified = 0\<rparr>"

definition demo_kept :: stored_object where
  "demo_kept = \<lparr>ob_key = full_key (lit ''ab''), ob_bytes = [2], ob_modified = 0\<rparr>"

definition demo_policy :: policy_row where
  "demo_policy = \<lparr>py_id = 1, py_kind = policy_kind_code PrivacyPolicy, py_locale = lit ''en'', py_version = lit ''v1'',
     py_effective_at = 0, py_superseded_at = None, py_content = lit ''old''\<rparr>"

definition demo_privacy :: privacy_world where
  "demo_privacy = content_world.extend (demo_content\<lparr>signals := [demo_stale], objects := [demo_orphan, demo_kept]\<rparr>)
     (privacy_world.fields [] 1 [demo_export] 2 [] [demo_policy] 2)"

definition demo_self :: authenticated_user where
  "demo_self = \<lparr>au_id = 1, au_email = lit ''a@b.c'', au_display_name = None, au_state = Active, au_verified = True,
                au_roles = [RUser]\<rparr>"

lemma privacy_fields [simp]:
  "entropy demo_privacy = block_of" "now demo_privacy = 1000000" "faults demo_privacy = []" "storage_faults demo_privacy = []"
  "users demo_privacy = users demo_auth" "next_user demo_privacy = 4" "user_roles demo_privacy = user_roles demo_auth"
  "identities demo_privacy = [demo_identity]" "sessions demo_privacy = [demo_session]"
  "verif_tokens demo_privacy = [demo_verif]" "reset_tokens demo_privacy = [demo_reset]"
  "locations demo_privacy = [demo_location]" "reviews demo_privacy = [demo_review]" "proposals demo_privacy = [demo_proposal]"
  "parking_photos demo_privacy = [demo_photo]" "review_photos demo_privacy = []" "reports demo_privacy = [demo_report]"
  "objects demo_privacy = [demo_orphan, demo_kept]" "signals demo_privacy = [demo_stale]"
  "privacy_requests demo_privacy = []" "next_privacy_request demo_privacy = 1"
  "data_exports demo_privacy = [demo_export]" "next_data_export demo_privacy = 2" "consents demo_privacy = []"
  "policy_versions demo_privacy = [demo_policy]" "next_policy demo_privacy = 2"
  by (simp_all add: demo_privacy_def demo_content_def demo_auth_def auth_world.defs content_world.defs privacy_world.defs)

lemma demo_self_fields [simp]: "au_id demo_self = 1" "au_email demo_self = lit ''a@b.c''"
  by (simp_all add: demo_self_def)

lemma demo_privacy_wf: "wf_auth demo_E demo_privacy" "has_admin demo_privacy"
  using demo_auth_wf demo_has_admin by (simp_all add: wf_auth_def wf_users_def user_exists_def has_admin_def)

lemma demo_exports: "exports_ok demo_privacy"
  by (simp add: exports_ok_def demo_export_def hex_text_def byte_to_hex_def hex_digit_def str_len_def)

lemma demo_unique: "unique_objects demo_privacy"
  by (simp add: unique_objects_def demo_orphan_def demo_kept_def full_key_def lit_def)

lemma demo_new_email: "anonymized_email 1 \<noteq> lit ''m@b.c''" "anonymized_email 1 \<noteq> lit ''s@b.c''"
  by (simp_all add: anonymized_email_def lit_def)

lemma demo_anonymize: "\<exists>rep w'. anonymize demo_E 1 t demo_privacy = (Inr rep, w')"
proof -
  have "\<exists>rep. fst (anonymize demo_E 1 t demo_privacy) = Inr rep"
    using demo_new_email
    by (simp add: anonymize_def exec transaction_def last_admin_locked_def admin_ids_def scrub_user_def unique_emails_def
        check_unique_def select_one_def Let_def erase_activity_def detach_content_def scrub_audit_def delete_rows_def
        update_rows_def)
  then show ?thesis by (metis prod.collapse)
qed

lemma demo_download: "\<exists>w'. download_export demo_E demo_self 1 (replicate 32 7) demo_privacy = (Inr demo_payload, w')"
  using download_returns[of demo_privacy 1 demo_export demo_self demo_E "replicate 32 7" "block_of 7"]
  by (simp add: select_one_def demo_export_def consumable_def b64url_decode_def demo_E_def block_of_def user_exists_def)

lemma demo_confirmed: "may_delete demo_E demo_self (Some (lit ''password12'')) (lit '' A@b.c '') demo_privacy"
  by (simp add: may_delete_def select_one_def)
    (simp add: demo_E_def to_lowercase_def trim_def trim_start_def trim_end_def is_whitespace_def lit_def is_ascii_def
      to_ascii_lower_char_def)

lemma demo_free: "placeholder_free demo_E 1 demo_privacy" "another_admin 1 demo_privacy" "fresh_requests demo_privacy"
  using demo_new_email
  by (simp_all add: placeholder_free_def another_admin_def admin_ids_def fresh_requests_def)

lemma demo_delete:
  "\<exists>w'. request_deletion demo_E demo_self (Some (lit ''password12'')) (lit '' A@b.c '') demo_privacy = (Inr (), w')"
  by (rule deletion_returns) (use demo_free demo_privacy_wf scrubbed_unique[of demo_E demo_privacy 1]
      in \<open>simp_all add: demo_confirmed wf_auth_def user_exists_def\<close>)

lemma demo_request:
  "\<exists>x w'. request_export demo_E (\<lambda>_. []) demo_self demo_privacy = (Inr x, w') \<and> 1000001 < xq_expires_at x"
proof -
  have "\<exists>x. fst (request_export demo_E (\<lambda>_. []) demo_self demo_privacy) = Inr x \<and> 1000001 < xq_expires_at x"
    by (simp add: request_export_def exec assemble_payload_def account_section_def authentication_section_def
        sessions_section_def favorites_section_def reviews_section_def verifications_section_def proposals_section_def
        reports_section_def photos_section_def select_one_def demo_review_def create_export_def check_user_def user_exists_def
        privacy_audit_def audit_record_def service_event_def time_units)
  then show ?thesis by (metis prod.collapse)
qed

definition demo_config :: retention_config where
  "demo_config = \<lparr>inactive_account_anonymize_after_days = 0, deleted_account_purge_after_days = 30\<rparr>"

lemma demo_listed: "listed_after upload_prefix None (w :: privacy_world) = []" if "objects w = []"
  using that by (simp add: listed_after_def)

definition demo_stored :: privacy_world where
  "demo_stored = demo_privacy\<lparr>objects := [], sessions := [], parking_photos := []\<rparr>"

lemma demo_stored_fields [simp]:
  "now demo_stored = 1000000" "faults demo_stored = []" "storage_faults demo_stored = []" "users demo_stored = users demo_auth"
  "user_roles demo_stored = user_roles demo_auth" "identities demo_stored = [demo_identity]" "sessions demo_stored = []"
  "verif_tokens demo_stored = [demo_verif]" "reset_tokens demo_stored = [demo_reset]" "objects demo_stored = []"
  "signals demo_stored = [demo_stale]" "data_exports demo_stored = [demo_export]" "parking_photos demo_stored = []"
  "review_photos demo_stored = []"
  by (simp_all add: demo_stored_def)

lemma demo_retention: "\<exists>steps w'. retention_run demo_E default_retention demo_config demo_stored = (Inr steps, w')"
proof -
  have sweep: "sweep_uploads c None w = (Inr 0, w)" if "storage_faults w = []" "objects w = []" for c and w :: privacy_world
    using that by (subst sweep_uploads.simps)
      (simp add: exec list_objects_def storage_call_def demo_listed page_of_def purge_unreferenced_def referenced_def Let_def)
  have "\<exists>steps. fst (retention_run demo_E default_retention demo_config demo_stored) = Inr steps"
    by (simp add: retention_run_def exec count_step_def gated_step_def purge_reset_tokens_def purge_verification_tokens_def
        purge_sessions_def purge_parked_here_def purge_exports_def purge_orphan_uploads_def sweep demo_config_def
        reconcile_pending_photos_def reconcile_kind_def photo_rows_def demo_stale_def demo_export_def
        purge_deleted_accounts_def privacy_audit_def audit_record_def Let_def detach_accounts_def cascade_accounts_def)
  then show ?thesis by (metis prod.collapse)
qed

lemma demo_seed:
  "\<exists>w' d w''. seed_policy PrivacyPolicy (lit ''en'') (lit ''v2'') 900000 (lit ''new'') demo_privacy = (Inr (), w')
     \<and> current_policy PrivacyPolicy (lit ''en'') w' = (Inr d, w'')"
proof -
  have k: "policy_kind_from (lit ''privacy'') = Inr PrivacyPolicy" and v: "lit ''v1'' \<noteq> lit ''v2''" by code_simp+
  have "\<exists>w'. seed_policy PrivacyPolicy (lit ''en'') (lit ''v2'') 900000 (lit ''new'') demo_privacy = (Inr (), w')
     \<and> (\<exists>d. fst (current_policy PrivacyPolicy (lit ''en'') w') = Inr d)"
    by (simp add: seed_policy_def exec of_policy_def demo_policy_def policy_kind_code_def update_rows_def insert_policy_def
        check_that_def policy_locales_def current_policy_def document_from_row_def k v)
  then show ?thesis by (metis prod.collapse)
qed

section \<open>The guarantees on the instance\<close>

theorem orphan_sweep_is_exact_witness:
  "\<exists>r w'. purge_orphan_uploads default_retention (days 3) demo_privacy = (r, w') \<and> demo_kept \<in> set (objects w')"
proof -
  obtain r w' where r: "purge_orphan_uploads default_retention (days 3) demo_privacy = (r, w')" by fastforce
  have "demo_kept \<in> set (objects w')"
    using orphan_sweep_is_exact[OF r demo_unique]
    by (simp add: orphan_def demo_kept_def photo_keys_def demo_photo_def photo_row.defs)
  with r show ?thesis by blast
qed

theorem privacy_runs_keep_admin_witness:
  "has_admin (privacy_run demo_V (\<lambda>_. []) [RequestDeletion demo_self (Some (lit ''password12'')) (lit ''a@b.c''),
     RunRetention default_retention \<lparr>inactive_account_anonymize_after_days = 1, deleted_account_purge_after_days = 0\<rparr>] demo_privacy)"
proof -
  have E: "en_auth demo_V = demo_E" by (simp add: demo_V_def)
  show ?thesis
    by (rule privacy_runs_keep_admin[where V = demo_V, unfolded E, OF demo_privacy_wf, THEN conjunct2]) simp
qed

theorem export_downloads_once_witness:
  "\<exists>w' e. download_export demo_E demo_self 1 (replicate 32 7) demo_privacy = (Inr demo_payload, w')
    \<and> fst (download_export demo_E demo_self 1 (replicate 32 7)
        (privacy_run demo_V (\<lambda>_. []) [RequestExport demo_self, PurgeReadyExports] w')) = Inl e"
proof -
  have E: "en_auth demo_V = demo_E" by (simp add: demo_V_def)
  obtain w' where r: "download_export demo_E demo_self 1 (replicate 32 7) demo_privacy = (Inr demo_payload, w')"
    using demo_download by blast
  from export_downloads_once[where V = demo_V, unfolded E, OF demo_exports r] r show ?thesis by blast
qed

theorem retention_leaves_nothing_expired_witness:
  "\<exists>steps w'. retention_run demo_E default_retention demo_config demo_stored = (Inr steps, w')
     \<and> clean UNIV default_retention 1000000 w'"
proof -
  obtain steps w' where r: "retention_run demo_E default_retention demo_config demo_stored = (Inr steps, w')"
    using demo_retention by blast
  from retention_leaves_nothing_expired[OF r] r show ?thesis by auto
qed

theorem deletion_completes_witness:
  "\<exists>w'. request_deletion demo_E demo_self (Some (lit ''password12'')) (lit '' A@b.c '') demo_privacy = (Inr (), w') \<and> erased 1 w'"
proof -
  obtain w' where r: "request_deletion demo_E demo_self (Some (lit ''password12'')) (lit '' A@b.c '') demo_privacy = (Inr (), w')"
    using demo_delete by blast
  from deletion_completes[OF r] r show ?thesis by auto
qed

theorem deletion_erases_or_leaves_witness:
  "\<exists>r w'. request_deletion demo_E demo_self None (lit ''a@b.c'') (demo_privacy\<lparr>faults := [None, Some DbOther]\<rparr>) = (r, w')
     \<and> (personal w' = personal (demo_privacy\<lparr>faults := [None, Some DbOther]\<rparr>) \<or> erased 1 w')"
proof -
  obtain r w' where r: "request_deletion demo_E demo_self None (lit ''a@b.c'') (demo_privacy\<lparr>faults := [None, Some DbOther]\<rparr>) = (r, w')"
    by fastforce
  from deletion_erases_or_leaves[OF r] r show ?thesis by auto
qed

theorem deletion_available_witness:
  "\<exists>w'. request_deletion demo_E demo_self (Some (lit ''password12'')) (lit '' A@b.c '') demo_privacy = (Inr (), w')"
  using deletion_available[OF demo_privacy_wf(1), of demo_self "Some (lit ''password12'')" "lit '' A@b.c ''"] demo_confirmed demo_free
  by (simp add: user_exists_def)


end
