(* ===== verification/Web_Text.thy ===== *)
theory Web_Text
  imports Email_Queue
begin

text \<open>
  The texts of an HTTP request, as the web layer reads and writes them: UTF-8 and percent
  encoding, header and cookie lookup, and the places a CSRF token is submitted in
  (\<open>web/src/auth.rs\<close>, and the encoders of \<open>htmx.rs\<close>, \<open>routes/common.rs\<close> and \<open>routes/search.rs\<close>).

  A header map is the list of its names (lower case, as the \<open>http\<close> crate stores them) with
  their values; a value is \<open>Text s\<close> when \<open>HeaderValue::to_str\<close> gives \<open>s\<close> and \<open>Opaque\<close> when it
  refuses.  What that crate promises of a text, that it is visible ASCII, is the
  hypothesis \<open>headers_law\<close>.
\<close>

section \<open>Lossy UTF-8\<close>

text \<open>\<open>String::from_utf8_lossy\<close>: every maximal prefix of an ill-formed sequence becomes one
  replacement character.  \<open>lead_byte\<close> gives the number of continuation bytes, the range of
  the first of them, and the offset of the lead byte.\<close>

definition lead_byte :: "nat \<Rightarrow> (nat \<times> nat \<times> nat \<times> nat) option" where
  "lead_byte a =
     (if 194 \<le> a \<and> a \<le> 223 then Some (1, 128, 191, 192)
      else if a = 224 then Some (2, 160, 191, 224)
      else if a = 237 then Some (2, 128, 159, 224)
      else if 225 \<le> a \<and> a \<le> 239 then Some (2, 128, 191, 224)
      else if a = 240 then Some (3, 144, 191, 240)
      else if 241 \<le> a \<and> a \<le> 243 then Some (3, 128, 191, 240)
      else if a = 244 then Some (3, 128, 143, 240)
      else None)"

fun continuation :: "nat \<Rightarrow> nat \<Rightarrow> nat \<Rightarrow> nat list \<Rightarrow> nat list" where
  "continuation lo hi 0 bs = []"
| "continuation lo hi (Suc k) [] = []"
| "continuation lo hi (Suc k) (b # bs) = (if lo \<le> b \<and> b \<le> hi then b # continuation 128 191 k bs else [])"

text \<open>The scalar decoded at a lead byte, and how many of the following bytes it uses up.\<close>

definition next_scalar :: "nat \<Rightarrow> nat list \<Rightarrow> uchar \<times> nat" where
  "next_scalar a bs =
     (if a < 128 then (a, 0)
      else (case lead_byte a of
              None \<Rightarrow> (65533, 0)
            | Some (k, lo, hi, off) \<Rightarrow>
                let cs = continuation lo hi k bs in
                (if length cs = k then foldl (\<lambda>v c. v * 64 + (c - 128)) (a - off) cs else 65533, length cs)))"

fun lossy :: "nat list \<Rightarrow> ustring" where
  "lossy [] = []"
| "lossy (a # bs) = fst (next_scalar a bs) # lossy (drop (snd (next_scalar a bs)) bs)"

definition from_utf8_lossy :: "byte list \<Rightarrow> ustring" where
  "from_utf8_lossy bs = lossy (map unat bs)"

definition scalar_value :: "uchar \<Rightarrow> bool" where
  "scalar_value c \<longleftrightarrow> c < 55296 \<or> 57344 \<le> c \<and> c < 1114112"

lemma unat_of_nat_byte: "n < 256 \<Longrightarrow> unat (of_nat n :: byte) = n"
  by (simp add: unat_of_nat take_bit_eq_mod)

lemma continuation_1:
  "lo \<le> b \<Longrightarrow> b \<le> hi \<Longrightarrow> continuation lo hi (Suc 0) (b # bs) = [b]"
  by simp

lemma continuation_23:
  "lo \<le> b \<Longrightarrow> b \<le> hi \<Longrightarrow> 128 \<le> c \<Longrightarrow> c \<le> 191 \<Longrightarrow> continuation lo hi 2 (b # c # bs) = [b, c]"
  "lo \<le> b \<Longrightarrow> b \<le> hi \<Longrightarrow> 128 \<le> c \<Longrightarrow> c \<le> 191 \<Longrightarrow> 128 \<le> d \<Longrightarrow> d \<le> 191 \<Longrightarrow>
   continuation lo hi 3 (b # c # d # bs) = [b, c, d]"
  by (simp_all add: numeral_2_eq_2 numeral_3_eq_3)

lemma map_unat_of_nat: "\<forall>n \<in> set ns. n < 256 \<Longrightarrow> map unat (map of_nat ns :: byte list) = ns"
  by (induction ns) (simp_all add: unat_of_nat_byte)

lemma base64_digits:
  "c div 64 * 64 + c mod 64 = (c :: nat)"
  "(c div 4096 * 64 + c div 64 mod 64) * 64 + c mod 64 = (c :: nat)"
  "((c div 262144 * 64 + c div 4096 mod 64) * 64 + c div 64 mod 64) * 64 + c mod 64 = (c :: nat)"
proof -
  have two: "d div 4096 * 64 + d div 64 mod 64 = d div 64" for d :: nat
    using div_mult_mod_eq[of "d div 64" 64] by (simp add: div_mult2_eq[symmetric])
  show "c div 64 * 64 + c mod 64 = c" by simp
  show "(c div 4096 * 64 + c div 64 mod 64) * 64 + c mod 64 = c" by (simp add: two)
  have "c div 262144 * 64 + c div 4096 mod 64 = c div 4096"
    using div_mult_mod_eq[of "c div 4096" 64] by (simp add: div_mult2_eq[symmetric])
  then show "((c div 262144 * 64 + c div 4096 mod 64) * 64 + c div 64 mod 64) * 64 + c mod 64 = c" by (simp add: two)
qed

lemma shift_bounds:
  assumes "e < (64 :: nat)"
  shows "k * 64 \<le> n * 64 + e \<longleftrightarrow> k \<le> n" and "n * 64 + e < k * 64 \<longleftrightarrow> n < k"
  using assms less_eq_div_iff_mult_less_eq[of 64 k "n * 64 + e"] div_less_iff_less_mult[of 64 "n * 64 + e" k]
  by simp_all

lemma lossy_utf8_char:
  assumes "scalar_value c"
  shows "lossy (map unat (utf8_char c) @ bs) = c # lossy bs"
proof -
  consider "c < 128" | "128 \<le> c" "c < 2048" | "2048 \<le> c" "c < 65536" | "65536 \<le> c" by linarith
  then show ?thesis
  proof cases
    case 1
    then show ?thesis by (simp add: utf8_char_def unat_of_nat_byte next_scalar_def)
  next
    case 2
    define a b where "a = c div 64" and "b = c mod 64"
    have c: "c = a * 64 + b" unfolding a_def b_def by (simp only: base64_digits)
    have b: "b < 64" unfolding b_def by simp
    have r: "2 \<le> a" "a < 32" using 2 shift_bounds(1)[OF b, of 2 a, folded c] shift_bounds(2)[OF b, of a 32, folded c] by simp_all
    have u: "map unat (utf8_char c) = [192 + a, 128 + b]"
      using 2 r b unfolding utf8_char_def a_def b_def by (subst map_unat_of_nat) auto
    have "lossy ([192 + a, 128 + b] @ bs) = (a * 64 + b) # lossy bs"
      using r b by (simp add: next_scalar_def lead_byte_def continuation_1 Let_def)
    then show ?thesis unfolding u c[symmetric] .
  next
    case 3
    define a b e where "a = c div 4096" and "b = c div 64 mod 64" and "e = c mod 64"
    have c: "c = (a * 64 + b) * 64 + e" unfolding a_def b_def e_def by (simp only: base64_digits)
    have m: "b < 64" "e < 64" unfolding b_def e_def by simp_all
    have n: "32 \<le> a * 64 + b" "a * 64 + b < 1024" "a * 64 + b < 864 \<or> 896 \<le> a * 64 + b"
      using 3 assms shift_bounds(1)[OF m(2), of 32 "a * 64 + b", folded c] shift_bounds(2)[OF m(2), of "a * 64 + b" 1024, folded c]
        shift_bounds(2)[OF m(2), of "a * 64 + b" 864, folded c] shift_bounds(1)[OF m(2), of 896 "a * 64 + b", folded c]
      unfolding scalar_value_def by simp_all
    have r: "a < 16" using n(2) shift_bounds(2)[OF m(1), of a 16] by simp
    have z: "a = 0 \<longrightarrow> 32 \<le> b" "a = 13 \<longrightarrow> b < 32" using n(1,3) m(1) by auto
    have u: "map unat (utf8_char c) = [224 + a, 128 + b, 128 + e]"
      using 3 r m unfolding utf8_char_def a_def b_def e_def by (subst map_unat_of_nat) auto
    have "lossy ([224 + a, 128 + b, 128 + e] @ bs) = ((a * 64 + b) * 64 + e) # lossy bs"
      using r z m by (auto simp: next_scalar_def lead_byte_def continuation_23 Let_def)
    then show ?thesis unfolding u c[symmetric] .
  next
    case 4
    define a b d e where "a = c div 262144" and "b = c div 4096 mod 64" and "d = c div 64 mod 64" and "e = c mod 64"
    have c: "c = ((a * 64 + b) * 64 + d) * 64 + e" unfolding a_def b_def d_def e_def by (simp only: base64_digits)
    have m: "b < 64" "d < 64" "e < 64" unfolding b_def d_def e_def by simp_all
    have "1024 \<le> (a * 64 + b) * 64 + d" "(a * 64 + b) * 64 + d < 17408"
      using 4 assms shift_bounds(1)[OF m(3), of 1024 "(a * 64 + b) * 64 + d", folded c]
        shift_bounds(2)[OF m(3), of "(a * 64 + b) * 64 + d" 17408, folded c]
      unfolding scalar_value_def by simp_all
    then have n: "16 \<le> a * 64 + b" "a * 64 + b < 272"
      using shift_bounds(1)[OF m(2), of 16 "a * 64 + b"] shift_bounds(2)[OF m(2), of "a * 64 + b" 272] by simp_all
    have r: "a < 5" using n(2) shift_bounds(2)[OF m(1), of a 5] by simp
    have z: "a = 0 \<longrightarrow> 16 \<le> b" "a = 4 \<longrightarrow> b < 16" using n by auto
    have u: "map unat (utf8_char c) = [240 + a, 128 + b, 128 + d, 128 + e]"
      using 4 r m unfolding utf8_char_def a_def b_def d_def e_def by (subst map_unat_of_nat) auto
    have "lossy ([240 + a, 128 + b, 128 + d, 128 + e] @ bs) = (((a * 64 + b) * 64 + d) * 64 + e) # lossy bs"
      using r z m by (auto simp: next_scalar_def lead_byte_def continuation_23 Let_def)
    then show ?thesis unfolding u c[symmetric] .
  qed
qed

lemma from_utf8_lossy_as_bytes: "\<forall>c \<in> set s. scalar_value c \<Longrightarrow> from_utf8_lossy (as_bytes s) = s"
  unfolding from_utf8_lossy_def as_bytes_def by (induction s) (simp_all add: lossy_utf8_char)

section \<open>Percent encoding\<close>

definition hex_val :: "byte \<Rightarrow> byte option" where
  "hex_val b =
     (if 48 \<le> b \<and> b \<le> 57 then Some (b - 48)
      else if 97 \<le> b \<and> b \<le> 102 then Some (b - 97 + 10)
      else if 65 \<le> b \<and> b \<le> 70 then Some (b - 65 + 10) else None)"

fun url_decode_bytes :: "byte list \<Rightarrow> byte list" where
  "url_decode_bytes [] = []"
| "url_decode_bytes [b] = [b]"
| "url_decode_bytes [b, c] = b # url_decode_bytes [c]"
| "url_decode_bytes (b # h # l # bs) =
     (case (if b = 37 then hex_val h else None, hex_val l) of
        (Some x, Some y) \<Rightarrow> (x * 16 + y) # url_decode_bytes bs
      | _ \<Rightarrow> b # url_decode_bytes (h # l # bs))"

definition url_decode :: "byte list \<Rightarrow> ustring" where
  "url_decode bytes = from_utf8_lossy (url_decode_bytes bytes)"

text \<open>\<open>format!("%{b:02X}")\<close>.\<close>

definition hex_upper :: "nat \<Rightarrow> uchar" where
  "hex_upper n = (if n < 10 then 48 + n else 55 + n)"

definition percent :: "byte \<Rightarrow> ustring" where
  "percent b = [37, hex_upper (unat b div 16), hex_upper (unat b mod 16)]"

text \<open>\<open>b'A'..=b'Z' | b'a'..=b'z' | b'0'..=b'9' | b'-' | b'_' | b'.' | b'~'\<close>.\<close>

definition unreserved :: "nat \<Rightarrow> bool" where
  "unreserved n \<longleftrightarrow> 65 \<le> n \<and> n \<le> 90 \<or> 97 \<le> n \<and> n \<le> 122 \<or> 48 \<le> n \<and> n \<le> 57 \<or> n = 45 \<or> n = 95 \<or> n = 46 \<or> n = 126"

definition encode_query_value :: "ustring \<Rightarrow> ustring" where
  "encode_query_value s =
     concat (map (\<lambda>b. if unreserved (unat b) \<or> unat b = 47 then [unat b] else percent b) (as_bytes s))"

definition urlencoding_query :: "ustring \<Rightarrow> ustring" where
  "urlencoding_query s = concat (map (\<lambda>b. if unreserved (unat b) then [unat b] else percent b) (as_bytes s))"

definition urlencode :: "ustring \<Rightarrow> ustring" where
  "urlencode s =
     concat (map (\<lambda>b. if unreserved (unat b) then [unat b] else if b = 32 then [43] else percent b) (as_bytes s))"

lemma as_bytes_ascii: "is_ascii s \<Longrightarrow> as_bytes s = map of_nat s"
  by (induction s) (simp_all add: as_bytes_def utf8_char_def is_ascii_def)

lemma as_bytes_append: "as_bytes (s @ t) = as_bytes s @ as_bytes t"
  by (simp add: as_bytes_def)

lemma is_ascii_append: "is_ascii (s @ t) \<longleftrightarrow> is_ascii s \<and> is_ascii t"
  by (auto simp: is_ascii_def)

lemma hex_val_upper_all: "list_all (\<lambda>n. hex_val (of_nat (hex_upper n)) = Some (of_nat n)) [0..<16]"
  by code_simp

lemma hex_val_upper: "n < 16 \<Longrightarrow> hex_val (of_nat (hex_upper n)) = Some (of_nat n)"
  using hex_val_upper_all by (simp add: list_all_iff)

lemma byte_of_nibbles: "of_nat (unat b div 16) * 16 + of_nat (unat b mod 16) = (b :: byte)"
proof -
  have "of_nat (unat b div 16 * 16 + unat b mod 16) = b" by (simp only: div_mult_mod_eq) simp
  then show ?thesis by (simp only: of_nat_add of_nat_mult of_nat_numeral)
qed

lemma hex_upper_ascii: "n < 16 \<Longrightarrow> hex_upper n < 128"
  by (simp add: hex_upper_def)

lemma url_decode_percent:
  "url_decode_bytes (as_bytes (percent b) @ bs) = b # url_decode_bytes bs"
proof -
  have "is_ascii (percent b)" by (simp add: percent_def is_ascii_def hex_upper_ascii byte_nibbles)
  then show ?thesis
    by (simp add: as_bytes_ascii percent_def hex_val_upper byte_nibbles byte_of_nibbles)
qed

lemma url_decode_plain: "b \<noteq> 37 \<Longrightarrow> url_decode_bytes (b # bs) = b # url_decode_bytes bs"
  by (cases bs rule: url_decode_bytes.cases) simp_all

text \<open>The shared step of every encoder: each byte becomes itself, when it is not the percent
  sign, or its percent form.\<close>

lemma url_decode_encoded:
  assumes "\<And>b. keep b \<Longrightarrow> unat b < 128 \<and> b \<noteq> (37 :: byte)"
  shows "url_decode_bytes (as_bytes (concat (map (\<lambda>b. if keep b then [unat b] else percent b) bs))) = bs"
proof (induction bs)
  case (Cons b bs)
  let ?rest = "concat (map (\<lambda>b. if keep b then [unat b] else percent b) bs)"
  show ?case
  proof (cases "keep b")
    case True
    have "as_bytes ([unat b] @ ?rest) = b # as_bytes ?rest"
      using assms[OF True] by (simp add: as_bytes_append as_bytes_ascii is_ascii_def del: append.simps(2))
    with True assms[OF True] Cons show ?thesis by (simp add: url_decode_plain)
  next
    case False
    with Cons show ?thesis by (simp add: as_bytes_append url_decode_percent)
  qed
qed (simp add: as_bytes_def)

lemma unreserved_plain: "unreserved (unat b) \<or> unat b = 47 \<Longrightarrow> unat b < 128 \<and> b \<noteq> (37 :: byte)"
  by (auto simp: unreserved_def)

text \<open>What any of the three encoders of a link writes, the CSRF middleware's decoder reads
  back; \<open>urlencode\<close> writes a space as a plus sign, which that decoder keeps.\<close>

lemma url_decode_queries:
  assumes "\<forall>c \<in> set s. scalar_value c"
  shows "url_decode (as_bytes (encode_query_value s)) = s" and "url_decode (as_bytes (urlencoding_query s)) = s"
  unfolding url_decode_def encode_query_value_def urlencoding_query_def
  by (subst url_decode_encoded, (simp add: unreserved_plain), rule from_utf8_lossy_as_bytes[OF assms])+

section \<open>Headers and cookies\<close>

datatype header_value = Text ustring | Opaque "byte list"

type_synonym header_map = "(ustring \<times> header_value) list"

definition header :: "header_map \<Rightarrow> string \<Rightarrow> header_value option" where
  "header h name = map_of h (lit name)"

text \<open>\<open>headers.get(name).and_then(|v| v.to_str().ok())\<close>.\<close>

definition header_text :: "header_map \<Rightarrow> string \<Rightarrow> ustring option" where
  "header_text h name = (case header h name of Some (Text s) \<Rightarrow> Some s | _ \<Rightarrow> None)"

definition headers_law :: "header_map \<Rightarrow> bool" where
  "headers_law h \<longleftrightarrow> (\<forall>n s. (n, Text s) \<in> set h \<longrightarrow> is_ascii s)"

lemma header_text_ascii: "headers_law h \<Longrightarrow> header_text h n = Some s \<Longrightarrow> is_ascii s"
  by (auto simp: headers_law_def header_text_def header_def split: option.splits header_value.splits dest!: map_of_SomeD)

text \<open>The pairs of a cookie header: \<open>split(';').filter_map(|kv| kv.split_once('='))\<close>.\<close>

definition cookie_pairs :: "ustring \<Rightarrow> (ustring \<times> ustring) list" where
  "cookie_pairs cookie = List.map_filter (split_once 61) (split_on 59 cookie)"

definition cookie_find :: "ustring \<Rightarrow> ustring \<Rightarrow> ustring option" where
  "cookie_find cookie name = map_option (\<lambda>(_, v). v) (List.find (\<lambda>(k, _). trim k = name) (cookie_pairs cookie))"

definition cookie_value :: "header_map \<Rightarrow> ustring \<Rightarrow> ustring option" where
  "cookie_value h name =
     (case header_text h ''cookie'' of None \<Rightarrow> None | Some cookie \<Rightarrow> map_option trim (cookie_find cookie name))"

definition session_cookie :: ustring where "session_cookie = lit ''session_id''"
definition anon_csrf_cookie :: ustring where "anon_csrf_cookie = lit ''csrf''"

definition session_id_from_headers :: "header_map \<Rightarrow> ustring option" where
  "session_id_from_headers h = cookie_value h session_cookie"

definition csrf_cookie_value :: "header_map \<Rightarrow> ustring option" where
  "csrf_cookie_value h = cookie_value h anon_csrf_cookie"

definition set_session_cookie :: "byte list \<Rightarrow> ustring" where
  "set_session_cookie sess =
     session_cookie @ lit ''='' @ bytes_to_hex sess @ lit ''; HttpOnly; Secure; SameSite=Lax; Path=/; Max-Age=2592000''"

definition clear_session_cookie :: ustring where
  "clear_session_cookie = session_cookie @ lit ''=; HttpOnly; Secure; SameSite=Lax; Path=/; Max-Age=0''"

definition set_anon_csrf_cookie :: "ustring \<Rightarrow> ustring" where
  "set_anon_csrf_cookie tok =
     anon_csrf_cookie @ lit ''='' @ tok @ lit ''; Path=/; HttpOnly; Secure; SameSite=Lax; Max-Age=3600''"

definition export_cookie_name :: "int \<Rightarrow> ustring" where
  "export_cookie_name i = lit ''export_'' @ show_int i"

definition export_token_max_age_seconds :: nat where
  "export_token_max_age_seconds = 24 * 60 * 60"

definition set_export_cookie :: "int \<Rightarrow> ustring \<Rightarrow> ustring" where
  "set_export_cookie i tok =
     export_cookie_name i @ lit ''='' @ tok @ lit ''; HttpOnly; Secure; SameSite=Lax; Path=/account/export/''
     @ show_int i @ lit ''; Max-Age='' @ show_nat export_token_max_age_seconds"

section \<open>Submitted tokens\<close>

text \<open>The lengths are compared in bytes, then the differences of all bytes are accumulated.\<close>

definition constant_time_eq :: "ustring \<Rightarrow> ustring \<Rightarrow> bool" where
  "constant_time_eq a b =
     (if str_len a \<noteq> str_len b then False
      else fold (\<lambda>(x, y) diff. diff OR (x XOR y)) (zip (as_bytes a) (as_bytes b)) 0 = 0)"

definition csrf_from_headers :: "header_map \<Rightarrow> ustring option" where
  "csrf_from_headers h = header_text h ''x-csrf-token''"

definition csrf_query :: ustring where "csrf_query = lit ''csrf''"

definition csrf_from_query :: "ustring option \<Rightarrow> ustring option" where
  "csrf_from_query qs =
     map_option (\<lambda>(_, value). url_decode (as_bytes value))
       (List.find (\<lambda>(key, _). key = csrf_query)
          (List.map_filter (split_once 61) (split_on 38 (case qs of None \<Rightarrow> [] | Some q \<Rightarrow> q))))"

text \<open>The same search over the bytes of a body: \<open>bytes.split(|&b| b == b'&')\<close>.\<close>

fun split_bytes_on :: "byte \<Rightarrow> byte list \<Rightarrow> byte list list" where
  "split_bytes_on c [] = [[]]"
| "split_bytes_on c (x # xs) =
     (if x = c then [] # split_bytes_on c xs
      else (case split_bytes_on c xs of [] \<Rightarrow> [[x]] | p # ps \<Rightarrow> (x # p) # ps))"

definition split_pair :: "byte list \<Rightarrow> (byte list \<times> byte list) option" where
  "split_pair pair =
     (if 61 \<in> set pair then Some (takeWhile (\<lambda>b. b \<noteq> 61) pair, tl (dropWhile (\<lambda>b. b \<noteq> 61) pair)) else None)"

definition csrf_from_form_body :: "byte list \<Rightarrow> ustring option \<Rightarrow> ustring option" where
  "csrf_from_form_body bytes content_type =
     (if \<not> starts_with (case content_type of None \<Rightarrow> [] | Some ct \<Rightarrow> ct) (lit ''application/x-www-form-urlencoded'')
      then None
      else map_option (\<lambda>(_, value). url_decode value)
             (List.find (\<lambda>(key, _). key = as_bytes (lit ''csrf''))
                (List.map_filter split_pair (split_bytes_on 38 bytes))))"

lemma length_utf8_char: "length (utf8_char c) = utf8_len c"
  by (simp add: utf8_char_def utf8_len_def)

lemma length_as_bytes: "length (as_bytes s) = str_len s"
  by (induction s) (simp_all add: as_bytes_def length_utf8_char)

lemma constant_time_eq_iff: "constant_time_eq a b \<longleftrightarrow> as_bytes a = as_bytes b"
proof (cases "str_len a = str_len b")
  case True
  then have "length (as_bytes a) = length (as_bytes b)" by (simp add: length_as_bytes)
  with True show ?thesis by (simp add: constant_time_eq_def csrf_fold_zero)
next
  case False
  then show ?thesis by (auto simp: constant_time_eq_def length_as_bytes[symmetric])
qed

lemma split_on_single: "c \<notin> set s \<Longrightarrow> split_on c s = [s]"
  by (induction s) auto

lemma split_on_first: "c \<notin> set a \<Longrightarrow> split_on c (a @ c # b) = a # split_on c b"
  by (induction a) auto

lemma split_on_join_parts: "p \<noteq> [] \<Longrightarrow> \<exists>x xs. split_on c p = x # xs"
  by (cases p) (auto split: list.splits)

lemma while_neq_first:
  "c \<notin> set a \<Longrightarrow> dropWhile (\<lambda>x. x \<noteq> c) (a @ c # b) = c # b"
  "c \<notin> set a \<Longrightarrow> takeWhile (\<lambda>x. x \<noteq> c) (a @ c # b) = a"
  by (induction a) auto

lemma split_once_first: "c \<notin> set a \<Longrightarrow> split_once c (a @ c # b) = Some (a, b)"
  by (simp add: split_once_def while_neq_first)

lemma split_bytes_single: "c \<notin> set s \<Longrightarrow> split_bytes_on c s = [s]"
  by (induction s) auto

lemma split_bytes_first: "c \<notin> set a \<Longrightarrow> split_bytes_on c (a @ c # b) = a # split_bytes_on c b"
  by (induction a) auto

lemma split_pair_first: "61 \<notin> set a \<Longrightarrow> split_pair (a @ 61 # b) = Some (a, b)"
  by (simp add: split_pair_def while_neq_first)

text \<open>A text of unreserved characters, as base64url and hexadecimal are, survives every place
  a page puts a token in.\<close>

definition plain_token :: "ustring \<Rightarrow> bool" where
  "plain_token tok \<longleftrightarrow> (\<forall>c \<in> set tok. unreserved c)"

lemma plain_tokenD:
  assumes "plain_token tok"
  shows "is_ascii tok" "38 \<notin> set tok" "59 \<notin> set tok" "61 \<notin> set tok" "37 \<notin> set tok"
    "\<forall>c \<in> set tok. \<not> is_whitespace c" "\<forall>c \<in> set tok. scalar_value c"
  using assms by (fastforce simp: plain_token_def unreserved_def is_ascii_def is_whitespace_def scalar_value_def)+

lemma url_decode_plain_bytes: "37 \<notin> set bs \<Longrightarrow> url_decode_bytes bs = bs"
  by (induction bs) (simp_all add: url_decode_plain)

lemma set_as_bytes_ascii: "is_ascii s \<Longrightarrow> of_nat c \<in> set (as_bytes s) \<Longrightarrow> c < 128 \<Longrightarrow> c \<in> set s"
proof -
  assume a: "is_ascii s" "of_nat c \<in> set (as_bytes s)" "c < 128"
  then obtain d where d: "d \<in> set s" "(of_nat c :: byte) = of_nat d" by (auto simp: as_bytes_ascii)
  then have "unat (of_nat c :: byte) = unat (of_nat d :: byte)" by simp
  with a d(1) show "c \<in> set s" by (auto simp: unat_of_nat_byte is_ascii_def dest!: bspec)
qed

lemma url_decode_token:
  assumes "plain_token tok"
  shows "url_decode (as_bytes tok) = tok"
proof -
  note t = plain_tokenD[OF assms]
  have "37 \<notin> set (as_bytes tok)" using set_as_bytes_ascii[OF t(1), of 37] t(5) by auto
  then show ?thesis by (simp add: url_decode_def url_decode_plain_bytes from_utf8_lossy_as_bytes t)
qed

lemma csrf_from_query_token: "plain_token tok \<Longrightarrow> csrf_from_query (Some (lit ''csrf='' @ tok)) = Some tok"
proof -
  assume p: "plain_token tok"
  note t = plain_tokenD[OF p]
  have "split_on 38 (lit ''csrf='' @ tok) = [lit ''csrf'' @ 61 # tok]"
    using t(2) by (subst split_on_single) (auto simp: lit_def)
  moreover have "split_once 61 (lit ''csrf'' @ 61 # tok) = Some (lit ''csrf'', tok)"
    by (rule split_once_first) (simp add: lit_def)
  ultimately show ?thesis
    by (simp add: csrf_from_query_def csrf_query_def url_decode_token[OF p] map_filter_simps)
qed

lemma csrf_from_form_token:
  assumes p: "plain_token tok" and ct: "starts_with ct (lit ''application/x-www-form-urlencoded'')"
  shows "csrf_from_form_body (as_bytes (lit ''csrf='' @ tok) @ 38 # rest) (Some ct) = Some tok"
    and "csrf_from_form_body (as_bytes (lit ''csrf='' @ tok)) (Some ct) = Some tok"
proof -
  note t = plain_tokenD[OF p]
  have s: "as_bytes (lit ''csrf='' @ tok) = as_bytes (lit ''csrf'') @ 61 # as_bytes tok"
    by (simp add: as_bytes_append) (simp add: lit_def as_bytes_def utf8_char_def)
  have no: "38 \<notin> set (as_bytes (lit ''csrf'') @ 61 # as_bytes tok)"
  proof -
    have "38 \<notin> set (as_bytes tok)" using set_as_bytes_ascii[OF t(1), of 38] t(2) by auto
    moreover have "38 \<notin> set (as_bytes (lit ''csrf''))" by (simp add: lit_def as_bytes_def utf8_char_def)
    ultimately show ?thesis by simp
  qed
  have eq: "split_pair (as_bytes (lit ''csrf'') @ 61 # as_bytes tok) = Some (as_bytes (lit ''csrf''), as_bytes tok)"
    by (rule split_pair_first) (simp add: lit_def as_bytes_def utf8_char_def)
  show "csrf_from_form_body (as_bytes (lit ''csrf='' @ tok) @ 38 # rest) (Some ct) = Some tok"
    using split_bytes_first[OF no, of rest]
    by (simp add: csrf_from_form_body_def ct s eq url_decode_token[OF p] map_filter_simps del: append_assoc)
  show "csrf_from_form_body (as_bytes (lit ''csrf='' @ tok)) (Some ct) = Some tok"
    by (simp add: csrf_from_form_body_def ct s split_bytes_single[OF no] eq url_decode_token[OF p] map_filter_simps)
qed

end
