(* ===== verification/Web_Request.thy ===== *)
theory Web_Request
  imports Web_Text
begin

text \<open>
  What the web layer concludes from a request before any handler runs: the local path a
  login may return to and htmx's request shapes (\<open>web/src/htmx.rs\<close>), the locale
  (\<open>i18n/src/lib.rs\<close>), the client address used as a rate-limit key
  (\<open>web/src/client_ip.rs\<close>); and what it adds to every response
  (\<open>web/src/security.rs\<close>) and to policy pages (\<open>web/src/markdown.rs\<close>).
\<close>

section \<open>Requests\<close>

datatype http_method = GET | HEAD | OPTIONS | POST | OtherMethod ustring

text \<open>The URI's parts as the \<open>http\<close> crate hands them out; \<open>rq_body n\<close> is what reading the body
  with the limit \<open>n\<close> yields, \<open>None\<close> when it is longer or the stream fails.  \<open>rq_peer\<close> is the
  displayed address of the TCP peer.\<close>

record web_request =
  rq_method :: http_method
  rq_path :: ustring
  rq_path_and_query :: "ustring option"
  rq_query :: "ustring option"
  rq_headers :: header_map
  rq_body :: "nat \<Rightarrow> byte list option"
  rq_peer :: "ustring option"

section \<open>htmx\<close>

definition is_fragment_request :: "header_map \<Rightarrow> bool" where
  "is_fragment_request h =
     (if header h ''hx-request'' = None then False
      else if header h ''hx-boosted'' \<noteq> None \<or> header h ''hx-history-restore-request'' \<noteq> None then False
      else \<not> (case header h ''hx-request-type'' of
                None \<Rightarrow> False
              | Some v \<Rightarrow> to_ascii_lowercase (case v of Text s \<Rightarrow> s | Opaque bs \<Rightarrow> map unat bs) = lit ''full''))"

text \<open>\<open>safe_local_path\<close> works on the bytes of the text; a backslash and a control character are
  forbidden anywhere.\<close>

definition forbidden_byte :: "byte \<Rightarrow> bool" where
  "forbidden_byte b \<longleftrightarrow> b = 92 \<or> b < 32 \<or> b = 127"

definition safe_local_path :: "ustring \<Rightarrow> ustring option" where
  "safe_local_path s =
     (let bytes = as_bytes s in
      if bytes = [] \<or> hd bytes \<noteq> 47 then None
      else if tl bytes \<noteq> [] \<and> (hd (tl bytes) = 47 \<or> hd (tl bytes) = 92) then None
      else if \<exists>b \<in> set bytes. forbidden_byte b then None
      else Some s)"

text \<open>\<open>find("://")\<close>: what follows the first occurrence.\<close>

fun after_str :: "ustring \<Rightarrow> ustring \<Rightarrow> ustring option" where
  "after_str p [] = (if p = [] then Some [] else None)"
| "after_str p (c # s) = (if starts_with (c # s) p then Some (drop (length p) (c # s)) else after_str p s)"

definition local_part :: "ustring \<Rightarrow> ustring option" where
  "local_part raw =
     safe_local_path
       (case after_str (lit ''://'') raw of
          Some after \<Rightarrow> if 47 \<in> set after then dropWhile (\<lambda>c. c \<noteq> 47) after else lit ''/''
        | None \<Rightarrow> raw)"

text \<open>\<open>path[..i]\<close> for the last slash \<open>i\<close>, and \<open>None\<close> without one.\<close>

definition before_last_slash :: "ustring \<Rightarrow> ustring option" where
  "before_last_slash path =
     (if 47 \<in> set path then Some (rev (tl (dropWhile (\<lambda>c. c \<noteq> 47) (rev path)))) else None)"

text \<open>The page a request was issued from: \<open>HX-Current-URL\<close>, then \<open>Referer\<close>.\<close>

definition issued_from :: "header_map \<Rightarrow> string \<Rightarrow> ustring option" where
  "issued_from h name = (case header_text h name of None \<Rightarrow> None | Some raw \<Rightarrow> local_part raw)"

definition login_next :: "web_request \<Rightarrow> ustring" where
  "login_next r =
     (if rq_method r = GET \<or> rq_method r = HEAD then
        (let pq = (case rq_path_and_query r of Some pq \<Rightarrow> pq | None \<Rightarrow> rq_path r) in
         case safe_local_path pq of Some p \<Rightarrow> p | None \<Rightarrow> lit ''/'')
      else
        (case issued_from (rq_headers r) ''hx-current-url'' of
           Some l \<Rightarrow> l
         | None \<Rightarrow>
             (case issued_from (rq_headers r) ''referer'' of
                Some l \<Rightarrow> l
              | None \<Rightarrow>
                  (case before_last_slash (rq_path r) of
                     None \<Rightarrow> lit ''/''
                   | Some pre \<Rightarrow>
                       if pre = [] then lit ''/''
                       else (case safe_local_path pre of Some p \<Rightarrow> p | None \<Rightarrow> lit ''/'')))))"

definition login_destination :: "ustring \<Rightarrow> ustring" where
  "login_destination nxt = (case safe_local_path nxt of Some p \<Rightarrow> p | None \<Rightarrow> lit ''/account'')"

text \<open>A text the browser resolves against this origin, whatever it does with backslashes, and
  that ends no header line.\<close>

definition stays_local :: "ustring \<Rightarrow> bool" where
  "stays_local s \<longleftrightarrow>
     (\<exists>bs. as_bytes s = 47 # bs \<and> (bs = [] \<or> hd bs \<noteq> 47 \<and> hd bs \<noteq> 92)
       \<and> (\<forall>b \<in> set bs. \<not> forbidden_byte b))"

lemma slash_allowed: "\<not> forbidden_byte 47"
  by (simp add: forbidden_byte_def)

lemma safe_local_path_Some: "safe_local_path s = Some p \<longleftrightarrow> p = s \<and> stays_local s"
  by (cases "as_bytes s") (auto simp: safe_local_path_def stays_local_def slash_allowed Let_def)

lemma stays_local_const: "stays_local (lit ''/'')" "stays_local (lit ''/account'')"
  by (simp_all add: stays_local_def forbidden_byte_def lit_def as_bytes_def utf8_char_def)

lemma local_part_local: "local_part raw = Some p \<Longrightarrow> stays_local p"
  by (simp add: local_part_def safe_local_path_Some)

lemma login_next_local: "stays_local (login_next r)"
proof -
  have *: "stays_local (case safe_local_path s of Some p \<Rightarrow> p | None \<Rightarrow> lit ''/'')" for s
    by (auto simp: stays_local_const safe_local_path_Some split: option.split)
  have "issued_from h n = Some p \<Longrightarrow> stays_local p" for h n p
    by (auto simp: issued_from_def local_part_local split: option.splits)
  then show ?thesis by (auto simp: login_next_def Let_def * stays_local_const split: option.split)
qed

lemma login_destination_eq: "login_destination nxt = (if stays_local nxt then nxt else lit ''/account'')"
proof (cases "safe_local_path nxt")
  case None
  then have "\<not> stays_local nxt" using safe_local_path_Some[of nxt nxt] by simp
  with None show ?thesis by (simp add: login_destination_def)
next
  case (Some p)
  then show ?thesis using safe_local_path_Some[of nxt p] by (simp add: login_destination_def)
qed

text \<open>C19: No login leaves the site.  Whatever the request and its \<open>next\<close> parameter are, the
  path remembered for the login page and the one a login redirects to begin with a
  single slash, followed by neither a slash nor a backslash, and hold no backslash and
  no control character; a local path is kept as it is.\<close>

theorem login_redirects_stay_local:
  "stays_local (login_next r) \<and> stays_local (login_destination nxt)
   \<and> login_destination nxt = (if stays_local nxt then nxt else lit ''/account'')"
  using login_next_local by (simp add: login_destination_eq stays_local_const)

section \<open>The locale of a request\<close>

datatype web_locale = LocEn | LocPtBr

definition html_lang :: "web_locale \<Rightarrow> ustring" where
  "html_lang l = (case l of LocEn \<Rightarrow> lit ''en'' | LocPtBr \<Rightarrow> lit ''pt-BR'')"

definition locale_route_code :: "web_locale \<Rightarrow> ustring" where
  "locale_route_code l = (case l of LocEn \<Rightarrow> lit ''en'' | LocPtBr \<Rightarrow> lit ''pt-br'')"

definition locale_from_code :: "ustring \<Rightarrow> web_locale option" where
  "locale_from_code code =
     (let c = to_ascii_lowercase code in
      if c = lit ''en'' then Some LocEn
      else if c = lit ''pt-br'' \<or> c = lit ''pt'' then Some LocPtBr else None)"

definition cookie_lang :: "ustring \<Rightarrow> web_locale option" where
  "cookie_lang cookie =
     (case cookie_find cookie (lit ''lang'') of None \<Rightarrow> None | Some v \<Rightarrow> locale_from_code (trim v))"

fun accept_tags :: "ustring list \<Rightarrow> web_locale option" where
  "accept_tags [] = None"
| "accept_tags (part # ps) =
     (let tag = to_ascii_lowercase (trim (hd (split_on 59 part))) in
      if starts_with tag (lit ''pt'') then Some LocPtBr
      else if starts_with tag (lit ''en'') then Some LocEn
      else accept_tags ps)"

definition accept_language :: "ustring \<Rightarrow> web_locale option" where
  "accept_language h = accept_tags (split_on 44 h)"

definition locale_from_headers :: "header_map \<Rightarrow> web_locale" where
  "locale_from_headers h =
     (case (case header_text h ''cookie'' of None \<Rightarrow> None | Some c \<Rightarrow> cookie_lang c) of
        Some l \<Rightarrow> l
      | None \<Rightarrow>
          (case (case header_text h ''accept-language'' of None \<Rightarrow> None | Some al \<Rightarrow> accept_language al) of
             Some l \<Rightarrow> l
           | None \<Rightarrow> LocPtBr))"

text \<open>\<open>routes::common::locale_code\<close>: the code an account stores.\<close>

definition locale_code_of :: "web_locale \<Rightarrow> locale_code" where
  "locale_code_of l = (case parse_locale (html_lang l) of Some c \<Rightarrow> c | None \<Rightarrow> default_locale)"

section \<open>The client address\<close>

definition unknown_peer :: ustring where "unknown_peer = lit ''test-peer''"

text \<open>\<open>is_ip\<close> is whether the standard library parses the text as an IP address.\<close>

definition xff_entries :: "ustring \<Rightarrow> ustring list" where
  "xff_entries xff = filter (\<lambda>s. s \<noteq> []) (map trim (split_on 44 xff))"

definition resolve_client_ip :: "(ustring \<Rightarrow> bool) \<Rightarrow> ustring option \<Rightarrow> ustring option \<Rightarrow> nat \<Rightarrow> ustring" where
  "resolve_client_ip is_ip peer xff hops =
     (let peer_ip = (case peer of Some p \<Rightarrow> p | None \<Rightarrow> unknown_peer) in
      if hops = 0 then peer_ip
      else (case xff of
              None \<Rightarrow> peer_ip
            | Some xff \<Rightarrow>
                let entries = xff_entries xff in
                if length entries < hops then peer_ip
                else (let candidate = entries ! (length entries - hops) in
                      if is_ip candidate then candidate else peer_ip)))"

definition client_ip :: "(ustring \<Rightarrow> bool) \<Rightarrow> nat \<Rightarrow> web_request \<Rightarrow> ustring" where
  "client_ip is_ip hops r =
     resolve_client_ip is_ip (rq_peer r) (header_text (rq_headers r) ''x-forwarded-for'') hops"

lemma split_on_nonempty [simp]: "split_on c s \<noteq> []"
  by (cases s) (auto split: list.split)

lemma split_on_append_sep: "split_on c (a @ c # b) = split_on c a @ split_on c b"
proof (induction a)
  case (Cons x xs)
  then show ?case by (cases "split_on c xs") auto
qed simp

lemma resolve_client_ip_prepended:
  assumes "hops \<le> length (xff_entries chain)"
  shows "resolve_client_ip is_ip peer (Some (forged @ 44 # chain)) hops = resolve_client_ip is_ip peer (Some chain) hops"
proof (cases "hops = 0")
  case False
  let ?a = "xff_entries forged" and ?b = "xff_entries chain"
  have "xff_entries (forged @ 44 # chain) = ?a @ ?b" by (simp add: xff_entries_def split_on_append_sep)
  moreover have "length ?a + length ?b - hops = length ?a + (length ?b - hops)" using assms by simp
  then have "(?a @ ?b) ! (length ?a + length ?b - hops) = ?b ! (length ?b - hops)" by (simp only: nth_append_length_plus)
  ultimately show ?thesis using assms by (simp add: resolve_client_ip_def Let_def)
qed (simp add: resolve_client_ip_def)

text \<open>C20: The rate-limit key cannot be chosen by the caller.  With no trusted proxy the
  header is not read; behind trusted proxies the key is the address the outermost of them
  saw, whatever text a client puts in front of the entries the proxies appended; and the key is
  always an IP address of the chain or the peer itself.\<close>

theorem client_address_is_not_forged:
  assumes "hops \<le> length (xff_entries chain)"
  shows "resolve_client_ip is_ip peer xff 0 = resolve_client_ip is_ip peer None 0
    \<and> resolve_client_ip is_ip peer (Some (forged @ 44 # chain)) hops = resolve_client_ip is_ip peer (Some chain) hops
    \<and> (resolve_client_ip is_ip peer xff n = resolve_client_ip is_ip peer None n
       \<or> is_ip (resolve_client_ip is_ip peer xff n)
         \<and> (\<exists>h. xff = Some h \<and> resolve_client_ip is_ip peer xff n
              = rev (xff_entries h) ! (n - 1)))"
proof -
  have "resolve_client_ip is_ip peer xff n = resolve_client_ip is_ip peer None n
    \<or> is_ip (resolve_client_ip is_ip peer xff n)
       \<and> (\<exists>h. xff = Some h \<and> resolve_client_ip is_ip peer xff n
            = rev (xff_entries h) ! (n - 1))"
    by (cases xff) (auto simp: resolve_client_ip_def Let_def rev_nth)
  then show ?thesis using resolve_client_ip_prepended[OF assms] by (auto simp: resolve_client_ip_def)
qed

theorem client_address_is_not_forged_witness:
  "resolve_client_ip (\<lambda>s. s \<noteq> lit ''x'') (Some (lit ''9.9.9.9'')) (Some (lit ''1.1.1.1'' @ 44 # lit ''2.2.2.2'')) 1
   = resolve_client_ip (\<lambda>s. s \<noteq> lit ''x'') (Some (lit ''9.9.9.9'')) (Some (lit ''2.2.2.2'')) 1"
  using client_address_is_not_forged[of 1 "lit ''2.2.2.2''" "\<lambda>s. s \<noteq> lit ''x''" "Some (lit ''9.9.9.9'')" None "lit ''1.1.1.1''" 1]
  by (simp add: lit_def xff_entries_def trim_def trim_start_def trim_end_def is_whitespace_def)

section \<open>Response headers\<close>

record security_headers =
  sh_tls_on :: bool
  sh_tile_hosts :: "ustring list"
  sh_geocode_hosts :: "ustring list"
  sh_media_hosts :: "ustring list"

fun join_with :: "ustring \<Rightarrow> ustring list \<Rightarrow> ustring" where
  "join_with sep [] = []"
| "join_with sep [x] = x"
| "join_with sep (x # y # xs) = x @ sep @ join_with sep (y # xs)"

definition join_hosts :: "ustring list \<Rightarrow> ustring" where
  "join_hosts hosts = (if hosts = [] then [] else lit '' '' @ join_with (lit '' '') hosts)"

definition quoted :: "string \<Rightarrow> ustring" where
  "quoted s = 39 # lit s @ [39]"

definition csp :: "security_headers \<Rightarrow> ustring" where
  "csp s =
     (let tile = join_hosts (sh_tile_hosts s); geocode = join_hosts (sh_geocode_hosts s);
          media = join_hosts (sh_media_hosts s) in
      lit ''default-src '' @ quoted ''self'' @ lit ''; script-src '' @ quoted ''self''
      @ lit ''; style-src '' @ quoted ''self'' @ lit '' '' @ quoted ''unsafe-inline''
      @ lit ''; img-src '' @ quoted ''self'' @ lit '' data: blob:'' @ tile @ media
      @ lit ''; font-src '' @ quoted ''self'' @ tile @ lit ''; connect-src '' @ quoted ''self'' @ tile @ geocode
      @ lit ''; worker-src '' @ quoted ''self'' @ lit '' blob:; object-src '' @ quoted ''none''
      @ lit ''; base-uri '' @ quoted ''self'' @ lit ''; frame-ancestors '' @ quoted ''none''
      @ lit ''; form-action '' @ quoted ''self'')"

definition is_private_path :: "ustring \<Rightarrow> bool" where
  "is_private_path path \<longleftrightarrow>
     starts_with path (lit ''/account'') \<or> starts_with path (lit ''/admin'') \<or> starts_with path (lit ''/moderation'')"

section \<open>Policy pages\<close>

definition safe_destination :: "ustring \<Rightarrow> ustring" where
  "safe_destination dest =
     (let d = trim dest in
      if starts_with d (lit ''https://'') \<or> starts_with d (lit ''http://'') \<or> starts_with d (lit ''mailto:'')
         \<or> starts_with d (lit ''/'') \<and> \<not> starts_with d (lit ''//'') \<or> starts_with d (lit ''#'')
      then dest else lit ''#'')"

definition escape_char :: "uchar \<Rightarrow> ustring" where
  "escape_char c =
     (if c = 38 then lit ''&amp;'' else if c = 60 then lit ''&lt;'' else if c = 62 then lit ''&gt;''
      else if c = 34 then lit ''&quot;'' else if c = 39 then lit ''&#39;'' else [c])"

definition escape_text :: "ustring \<Rightarrow> ustring" where
  "escape_text s = concat (map escape_char s)"

end
