(* ===== verification/Web_Stack.thy ===== *)
theory Web_Stack
  imports Web_Request Auth_Service
begin

text \<open>
  The middleware every request passes (\<open>web/src/auth.rs\<close>, \<open>security.rs\<close>, \<open>routes/errors.rs\<close>,
  stacked as in \<open>wiring.rs\<close>): resolving the session cookie into a principal, the CSRF check of
  state-changing requests, the gates handlers call, the styled error pages and the
  headers added to every response.

  A text of the message catalog is the pair of the locale and the key it is looked up with;
  the titles of error pages carry a suffix that is left out.  A page is a value of a type of
  its own per slice of the product, the parameter \<open>'p\<close>: what its template is given.  Rendering, which
  the code treats as infallible, and the map settings of the layout are left out.
\<close>

section \<open>Principals and pages\<close>

type_synonym message = "web_locale \<times> ustring"

definition tr :: "web_locale \<Rightarrow> string \<Rightarrow> message" where
  "tr l key = (l, lit key)"

record web_auth =
  wa_user :: "authenticated_user option"
  wa_csrf :: "byte list option"
  wa_session :: "byte list option"
  wa_next :: ustring
  wa_fragment :: bool
  wa_locale :: web_locale

definition default_auth :: web_auth where
  "default_auth =
     \<lparr>wa_user = None, wa_csrf = None, wa_session = None, wa_next = lit ''/'', wa_fragment = False, wa_locale = LocPtBr\<rparr>"

definition csrf_value :: "auth_externals \<Rightarrow> web_auth \<Rightarrow> ustring" where
  "csrf_value E a = (case wa_csrf a of Some c \<Rightarrow> b64_encode (ax_b64 E) c | None \<Rightarrow> [])"

definition login_url :: "web_auth \<Rightarrow> ustring" where
  "login_url a = lit ''/login?next='' @ encode_query_value (wa_next a)"

record page_layout =
  ly_title :: message
  ly_current :: ustring
  ly_csrf :: ustring
  ly_authenticated :: bool
  ly_moderator :: bool
  ly_admin :: bool
  ly_can_contribute :: bool

definition layout_new :: "message \<Rightarrow> string \<Rightarrow> page_layout" where
  "layout_new title current =
     \<lparr>ly_title = title, ly_current = lit current, ly_csrf = [], ly_authenticated = False, ly_moderator = False,
      ly_admin = False, ly_can_contribute = False\<rparr>"

definition layout_with_csrf :: "message \<Rightarrow> string \<Rightarrow> ustring \<Rightarrow> page_layout" where
  "layout_with_csrf title current tok = (layout_new title current)\<lparr>ly_csrf := tok\<rparr>"

definition user_is :: "web_auth \<Rightarrow> (authenticated_user \<Rightarrow> bool) \<Rightarrow> bool" where
  "user_is a P = (case wa_user a of Some u \<Rightarrow> P u | None \<Rightarrow> False)"

definition is_moderator :: "authenticated_user \<Rightarrow> bool" where
  "is_moderator u \<longleftrightarrow> actor_has_role u RModerator \<or> actor_has_role u RAdmin"

definition layout_for_request :: "auth_externals \<Rightarrow> message \<Rightarrow> string \<Rightarrow> web_auth \<Rightarrow> page_layout" where
  "layout_for_request E title current a =
     (layout_with_csrf title current (csrf_value E a))
       \<lparr>ly_authenticated := (wa_user a \<noteq> None), ly_moderator := user_is a is_moderator,
        ly_admin := user_is a (\<lambda>u. actor_has_role u RAdmin), ly_can_contribute := user_is a au_verified\<rparr>"

section \<open>Responses\<close>

datatype 'p web_body = NoBody | PlainBody ustring | Page 'p | ErrorPage page_layout nat message | FragmentError message

record 'p web_response =
  re_status :: nat
  re_headers :: "(ustring \<times> ustring) list"
  re_body :: "'p web_body"

definition set_header :: "string \<Rightarrow> ustring \<Rightarrow> 'p web_response \<Rightarrow> 'p web_response" where
  "set_header name v res =
     res\<lparr>re_headers := filter (\<lambda>(n, _). n \<noteq> lit name) (re_headers res) @ [(lit name, v)]\<rparr>"

definition append_header :: "string \<Rightarrow> ustring \<Rightarrow> 'p web_response \<Rightarrow> 'p web_response" where
  "append_header name v res = res\<lparr>re_headers := re_headers res @ [(lit name, v)]\<rparr>"

definition response_header :: "'p web_response \<Rightarrow> string \<Rightarrow> ustring option" where
  "response_header res name = map_of (re_headers res) (lit name)"

definition html :: "nat \<Rightarrow> 'p web_body \<Rightarrow> 'p web_response" where
  "html status b =
     \<lparr>re_status = status, re_headers = [(lit ''content-type'', lit ''text/html; charset=utf-8'')], re_body = b\<rparr>"

definition plain :: "nat \<Rightarrow> string \<Rightarrow> 'p web_response" where
  "plain status s =
     \<lparr>re_status = status, re_headers = [(lit ''content-type'', lit ''text/plain; charset=utf-8'')],
      re_body = PlainBody (lit s)\<rparr>"

definition redirect_to :: "ustring \<Rightarrow> 'p web_response" where
  "redirect_to url = \<lparr>re_status = 303, re_headers = [(lit ''location'', url)], re_body = NoBody\<rparr>"

definition redirect_with_cookie :: "ustring \<Rightarrow> ustring \<Rightarrow> 'p web_response" where
  "redirect_with_cookie path cookie = set_header ''set-cookie'' cookie (redirect_to path)"

definition vary_fragment_names :: ustring where
  "vary_fragment_names = lit ''HX-Request, HX-Request-Type, HX-Boosted, Accept-Language, Cookie''"

definition vary_fragment :: "'p web_response \<Rightarrow> 'p web_response" where
  "vary_fragment res = append_header ''vary'' vary_fragment_names res"

text \<open>The fragment for a real fragment request, else a redirect to the page that shows the state.\<close>

definition fragment_or_redirect :: "header_map \<Rightarrow> 'p web_response \<Rightarrow> ustring \<Rightarrow> 'p web_response" where
  "fragment_or_redirect h fragment url =
     (if is_fragment_request h then vary_fragment fragment else redirect_to url)"

definition error_body ::
  "auth_externals \<Rightarrow> bool \<Rightarrow> web_auth \<Rightarrow> web_locale \<Rightarrow> nat \<Rightarrow> message \<Rightarrow> 'p web_response" where
  "error_body E fragment a l status msg =
     append_header ''vary'' vary_fragment_names
       (html status
          (if fragment then FragmentError msg
           else ErrorPage
                  (layout_for_request E
                     (tr l (if status = 404 then ''error.404.title''
                            else if 500 \<le> status then ''error.500.title'' else ''error.title'')) '''' a)
                  status msg))"

definition error_response ::
  "auth_externals \<Rightarrow> header_map \<Rightarrow> web_auth \<Rightarrow> web_locale \<Rightarrow> nat \<Rightarrow> message \<Rightarrow> 'p web_response" where
  "error_response E h a l status msg = error_body E (is_fragment_request h) a l status msg"

text \<open>The answer of an htmx endpoint, for any caller; a failure page has an anonymous header.\<close>

definition fragment_answer ::
  "auth_externals \<Rightarrow> header_map \<Rightarrow> web_locale \<Rightarrow> nat \<Rightarrow> message \<Rightarrow> ustring \<Rightarrow> 'p web_response \<Rightarrow> 'p web_response" where
  "fragment_answer E h l status msg url fragment =
     (if \<not> is_fragment_request h \<and> \<not> (200 \<le> status \<and> status \<le> 299)
      then error_response E h default_auth l status msg
      else fragment_or_redirect h fragment url)"

definition error_page :: "auth_externals \<Rightarrow> header_map \<Rightarrow> web_auth \<Rightarrow> web_locale \<Rightarrow> nat \<Rightarrow> string \<Rightarrow> 'p web_response" where
  "error_page E h a l status key = error_response E h a l status (tr l key)"

definition internal_error :: "auth_externals \<Rightarrow> header_map \<Rightarrow> web_auth \<Rightarrow> web_locale \<Rightarrow> 'p web_response" where
  "internal_error E h a l = error_page E h a l 500 ''error.500.body''"

definition not_found_page :: "auth_externals \<Rightarrow> header_map \<Rightarrow> web_auth \<Rightarrow> web_locale \<Rightarrow> 'p web_response" where
  "not_found_page E h a l = error_page E h a l 404 ''error.404.body''"

section \<open>Gates\<close>

text \<open>\<open>deny\<close> builds a header map that \<open>is_fragment_request\<close> answers with \<open>fragment\<close>.\<close>

definition deny :: "auth_externals \<Rightarrow> web_auth \<Rightarrow> nat \<Rightarrow> string \<Rightarrow> 'p web_response" where
  "deny E a status key =
     error_response E (if wa_fragment a then [(lit ''hx-request'', Text (lit ''true''))] else [])
       a (wa_locale a) status (tr (wa_locale a) key)"

definition require_user :: "auth_externals \<Rightarrow> web_auth \<Rightarrow> 'p web_response + authenticated_user" where
  "require_user E a =
     (case wa_user a of
        Some u \<Rightarrow> Inr u
      | None \<Rightarrow>
          Inl (if \<not> wa_fragment a then redirect_to (login_url a)
               else set_header ''hx-redirect'' (login_url a) (deny E a 401 ''error.login_required'')))"

text \<open>The gates on top of it: the user, or the answer that refuses.\<close>

definition require_that ::
  "auth_externals \<Rightarrow> (authenticated_user \<Rightarrow> bool) \<Rightarrow> string \<Rightarrow> web_auth \<Rightarrow> 'p web_response + authenticated_user" where
  "require_that E P key a =
     (case require_user E a of
        Inl res \<Rightarrow> Inl res
      | Inr u \<Rightarrow> if P u then Inr u else Inl (deny E a 403 key))"

definition require_role :: "auth_externals \<Rightarrow> role \<Rightarrow> web_auth \<Rightarrow> 'p web_response + authenticated_user" where
  "require_role E r a = require_that E (\<lambda>u. actor_has_role u r) ''error.forbidden'' a"

definition require_moderator :: "auth_externals \<Rightarrow> web_auth \<Rightarrow> 'p web_response + authenticated_user" where
  "require_moderator E a = require_that E is_moderator ''error.forbidden'' a"

definition require_verified_web :: "auth_externals \<Rightarrow> web_auth \<Rightarrow> 'p web_response + authenticated_user" where
  "require_verified_web E a = require_that E au_verified ''contribution.error.not_verified'' a"

section \<open>The auth middleware\<close>

datatype panic = Panic

type_synonym ('w, 'p) web_handler = "web_auth \<Rightarrow> web_request \<Rightarrow> ('w, panic, 'p web_response) m"

definition base_auth :: "web_request \<Rightarrow> web_auth" where
  "base_auth r =
     default_auth\<lparr>wa_next := login_next r, wa_fragment := is_fragment_request (rq_headers r),
                  wa_locale := locale_from_headers (rq_headers r)\<rparr>"

definition resolve_auth :: "auth_externals \<Rightarrow> web_request \<Rightarrow> ('w auth_world_scheme, panic, web_auth) m" where
  "resolve_auth E r =
     (case session_id_from_headers (rq_headers r) of
        None \<Rightarrow> retM (base_auth r)
      | Some raw \<Rightarrow>
          (case session_id_from_hex raw of
             Panicked \<Rightarrow> throwM Panic
           | Returned None \<Rightarrow> retM (base_auth r)
           | Returned (Some sess) \<Rightarrow>
               bindM (attemptM (resolve_session E sess)) (\<lambda>res.
                 case res of
                   Inr (Some rs) \<Rightarrow>
                     retM ((base_auth r)\<lparr>wa_user := Some (rs_user rs), wa_csrf := Some (rs_csrf rs), wa_session := Some sess\<rparr>)
                 | _ \<Rightarrow> retM (base_auth r))))"

definition csrf_body_limit :: nat where "csrf_body_limit = 64 * 1024"

definition is_safe_method :: "http_method \<Rightarrow> bool" where
  "is_safe_method mt \<longleftrightarrow> mt = GET \<or> mt = HEAD \<or> mt = OPTIONS"

text \<open>The submitted token, with the request whose body was read and put back; \<open>None\<close> when the
  body was lost.\<close>

definition submitted_token :: "web_request \<Rightarrow> (ustring option \<times> web_request) option" where
  "submitted_token r =
     (case (case csrf_from_headers (rq_headers r) of Some t \<Rightarrow> Some t | None \<Rightarrow> csrf_from_query (rq_query r)) of
        Some t \<Rightarrow> Some (Some t, r)
      | None \<Rightarrow>
          (case rq_body r csrf_body_limit of
             Some bytes \<Rightarrow>
               Some (csrf_from_form_body bytes (header_text (rq_headers r) ''content-type''),
                     r\<lparr>rq_body := (\<lambda>n. if length bytes \<le> n then Some bytes else None)\<rparr>)
           | None \<Rightarrow> None))"

definition csrf_ok :: "auth_externals \<Rightarrow> web_auth \<Rightarrow> header_map \<Rightarrow> ustring option \<Rightarrow> bool" where
  "csrf_ok E a h submitted =
     (case (wa_csrf a, submitted) of
        (Some tok, Some sub) \<Rightarrow> csrf_verify (ax_b64 E) tok sub
      | (Some _, None) \<Rightarrow> False
      | (None, Some got) \<Rightarrow>
          (case csrf_cookie_value h of Some expected \<Rightarrow> constant_time_eq expected got | None \<Rightarrow> False)
      | (None, None) \<Rightarrow> False)"

definition auth_middleware ::
  "auth_externals \<Rightarrow> ('w auth_world_scheme, 'p) web_handler \<Rightarrow> web_request \<Rightarrow> ('w auth_world_scheme, panic, 'p web_response) m" where
  "auth_middleware E nxt r =
     bindM (resolve_auth E r) (\<lambda>a.
       if is_safe_method (rq_method r) then nxt a r
       else (case submitted_token r of
               None \<Rightarrow> retM (deny E a 413 ''error.too_large'')
             | Some (sub, r') \<Rightarrow>
                 if csrf_ok E a (rq_headers r) sub then nxt a r'
                 else retM (deny E a 403 ''error.csrf'')))"

section \<open>Styled errors\<close>

definition skips_styled_errors :: "ustring \<Rightarrow> bool" where
  "skips_styled_errors path \<longleftrightarrow>
     path = lit ''/healthz'' \<or> path = lit ''/readyz'' \<or> path = lit ''/robots.txt'' \<or> path = lit ''/sitemap.xml''
     \<or> starts_with path (lit ''/static/'')"

definition accepts_html :: "header_map \<Rightarrow> bool" where
  "accepts_html h =
     (case header_text h ''accept'' of
        None \<Rightarrow> True
      | Some a \<Rightarrow> after_str (lit ''text/html'') a \<noteq> None \<or> after_str (lit ''*/*'') a \<noteq> None)"

definition status_message :: "web_locale \<Rightarrow> nat \<Rightarrow> message" where
  "status_message l status =
     tr l (if status = 401 then ''error.login_required'' else if status = 403 then ''error.forbidden''
           else if status = 404 then ''error.404.body'' else if status = 405 then ''error.method_not_allowed''
           else if status = 409 then ''error.conflict'' else if status = 413 then ''error.too_large''
           else if status = 429 then ''error.too_many'' else if status = 503 then ''error.unavailable''
           else if 500 \<le> status \<and> status \<le> 599 then ''error.500.body'' else ''error.bad_request'')"

definition restyle :: "auth_externals \<Rightarrow> web_auth \<Rightarrow> web_request \<Rightarrow> 'p web_response \<Rightarrow> 'p web_response" where
  "restyle E a r res =
     (let l = locale_from_headers (rq_headers r);
          styled = error_response E (rq_headers r) a l (re_status res) (status_message l (re_status res)) in
      if 200 \<le> re_status res \<and> re_status res \<le> 399 then res
      else if skips_styled_errors (rq_path r) \<or> \<not> accepts_html (rq_headers r) then res
      else if \<not> (case response_header res ''content-type'' of
                   None \<Rightarrow> True
                 | Some ct \<Rightarrow> starts_with ct (lit ''text/plain'') \<or> starts_with ct (lit ''application/octet''))
      then res
      else styled\<lparr>re_headers := re_headers styled
                   @ filter (\<lambda>(n, _). n \<noteq> lit ''content-type'' \<and> n \<noteq> lit ''content-length'') (re_headers res)\<rparr>)"

definition styled_errors :: "auth_externals \<Rightarrow> ('w auth_world_scheme, 'p) web_handler \<Rightarrow> ('w auth_world_scheme, 'p) web_handler" where
  "styled_errors E nxt a r = bindM (nxt a r) (\<lambda>res. retM (restyle E a r res))"

section \<open>Response headers of the stack\<close>

text \<open>\<open>HeaderValue::from_str\<close> accepts no control character but the tab.\<close>

definition valid_header_value :: "ustring \<Rightarrow> bool" where
  "valid_header_value s \<longleftrightarrow> (\<forall>b \<in> set (as_bytes s). 32 \<le> b \<and> b \<noteq> 127 \<or> b = 9)"

definition add_vary :: "'p web_response \<Rightarrow> 'p web_response" where
  "add_vary res =
     (if \<not> (case response_header res ''content-type'' of
              Some ct \<Rightarrow> starts_with ct (lit ''text/html'') | None \<Rightarrow> False)
      then res
      else if \<exists>(n, v) \<in> set (re_headers res).
                n = lit ''vary'' \<and> after_str (lit ''hx-request'') (to_ascii_lowercase v) \<noteq> None
      then res
      else append_header ''vary'' (lit ''Accept-Language, Cookie'') res)"

definition harden :: "security_headers \<Rightarrow> ustring \<Rightarrow> 'p web_response \<Rightarrow> 'p web_response" where
  "harden s path res =
     (let r1 = set_header ''content-security-policy'' (csp s)
                 (set_header ''x-frame-options'' (lit ''DENY'')
                   (set_header ''permissions-policy''
                      (lit ''camera=(), microphone=(), geolocation=(self), interest-cohort=()'')
                     (set_header ''referrer-policy'' (lit ''strict-origin-when-cross-origin'')
                       (set_header ''x-content-type-options'' (lit ''nosniff'') res))));
          r2 = (if sh_tls_on s
                then set_header ''strict-transport-security'' (lit ''max-age=31536000; includeSubDomains'') r1 else r1);
          r3 = (if is_private_path path then set_header ''x-robots-tag'' (lit ''noindex, nofollow'') r2 else r2) in
      add_vary r3)"

definition security_middleware ::
  "security_headers \<Rightarrow> (web_request \<Rightarrow> ('w, panic, 'p web_response) m) \<Rightarrow> web_request \<Rightarrow> ('w, panic, 'p web_response) m" where
  "security_middleware s nxt r =
     bindM (nxt r) (\<lambda>res.
       thenM (requireM (valid_header_value (csp s)) Panic) (retM (harden s (rq_path r) res)))"

text \<open>The stack of \<open>app_router_with\<close>, from the outside in.\<close>

definition app_stack ::
  "auth_externals \<Rightarrow> security_headers \<Rightarrow> ('w auth_world_scheme, 'p) web_handler \<Rightarrow> web_request
   \<Rightarrow> ('w auth_world_scheme, panic, 'p web_response) m" where
  "app_stack E s handler = security_middleware s (auth_middleware E (styled_errors E handler))"

end
