(* ===== verification/Web_Accounts.thy ===== *)
theory Web_Accounts
  imports Web_Stack
begin

text \<open>
  The account handlers (\<open>web/src/routes/auth.rs\<close>): register, sign in and out, the mailed links,
  password reset, OAuth callback and the account settings.  A handler takes the parsed form
  and query, whose extraction is the framework's, the resolved principal and the request.
  The redirect to Google and its stub consent page are left out.
\<close>

section \<open>Pages and configuration\<close>

record web_config =
  wc_is_ip :: "ustring \<Rightarrow> bool"
  wc_hops :: nat
  wc_google :: bool

type_synonym field_errors = "(ustring \<times> message) list"

datatype account_page =
    RegisterPage page_layout ustring ustring "message option" field_errors
  | LoginPage page_layout ustring "message option" "message option" field_errors ustring bool
  | VerifyEmailPage page_layout bool "message option"
  | PasswordResetPage page_layout ustring "message option" "message option"
  | PasswordResetNewPage page_layout ustring "message option"
  | AccountPage page_layout ustring "ustring option" bool "message list" "message option"
  | AccountPasswordPage page_layout "message option" "message option"
  | AccountEmailPage page_layout ustring "message option" "message option"

type_synonym 'w account_handler = "('w auth_world_scheme, panic, account_page web_response) m"

text \<open>\<open>FieldErrors::err\<close>: the first message recorded for a field.\<close>

definition field_error :: "field_errors \<Rightarrow> string \<Rightarrow> message option" where
  "field_error fe field = map_of fe (lit field)"

definition request_locale :: "web_request \<Rightarrow> web_locale" where
  "request_locale r = locale_from_headers (rq_headers r)"

definition request_ip :: "web_config \<Rightarrow> web_request \<Rightarrow> ustring" where
  "request_ip cfg r = client_ip (wc_is_ip cfg) (wc_hops cfg) r"

definition anon_csrf_token :: "auth_externals \<Rightarrow> ('w auth_world_scheme, panic, ustring) m" where
  "anon_csrf_token E = bindM random_bytes (\<lambda>bs. retM (b64_encode (ax_b64 E) bs))"

definition render :: "nat \<Rightarrow> 'p \<Rightarrow> 'p web_response" where
  "render status p = html status (Page p)"

definition render_anon :: "'p \<Rightarrow> ustring \<Rightarrow> 'p web_response" where
  "render_anon p tok =
     (if valid_header_value (set_anon_csrf_cookie tok)
      then set_header ''set-cookie'' (set_anon_csrf_cookie tok) (render 200 p) else render 200 p)"

definition auth_error_message :: "web_locale \<Rightarrow> auth_error \<Rightarrow> message" where
  "auth_error_message l e =
     tr l (case e of
             AuthWeakPassword \<Rightarrow> ''auth.error.weak_password''
           | AuthInvalidEmail \<Rightarrow> ''auth.error.invalid_email''
           | RateLimited \<Rightarrow> ''auth.error.rate_limited''
           | TokenExpired \<Rightarrow> ''auth.error.invalid_token''
           | TokenUsed \<Rightarrow> ''auth.error.invalid_token''
           | TokenInvalid \<Rightarrow> ''auth.error.invalid_token''
           | RefuseAdminSelfRevoke \<Rightarrow> ''auth.error.last_admin''
           | AuthConflict \<Rightarrow> ''error.conflict''
           | AuthUnavailable \<Rightarrow> ''error.unavailable''
           | _ \<Rightarrow> ''auth.error.generic'')"

definition register_field_error :: "auth_error \<Rightarrow> string option" where
  "register_field_error e =
     (case e of
        EmailTaken \<Rightarrow> Some ''email'' | AuthInvalidEmail \<Rightarrow> Some ''email''
      | AuthWeakPassword \<Rightarrow> Some ''password'' | _ \<Rightarrow> None)"

definition role_label :: "web_locale \<Rightarrow> role \<Rightarrow> message" where
  "role_label l r =
     tr l (case r of RUser \<Rightarrow> ''role.user'' | RModerator \<Rightarrow> ''role.moderator'' | RAdmin \<Rightarrow> ''role.admin'')"

text \<open>The labels that \<open>format_roles\<close> joins with commas.\<close>

definition format_roles :: "web_locale \<Rightarrow> role list \<Rightarrow> message list" where
  "format_roles l rs = map (role_label l) (remdups_adj (sort_key role_rank rs))"

section \<open>Register\<close>

record register_form =
  rf_email :: ustring
  rf_display_name :: ustring
  rf_password :: ustring

definition register_view ::
  "web_locale \<Rightarrow> ustring \<Rightarrow> ustring \<Rightarrow> ustring \<Rightarrow> message option \<Rightarrow> field_errors \<Rightarrow> account_page web_response" where
  "register_view l tok email name err fe =
     render_anon (RegisterPage (layout_with_csrf (tr l ''auth.register_title'') ''auth'' tok) email name err fe) tok"

definition register_page :: "auth_externals \<Rightarrow> web_auth \<Rightarrow> web_request \<Rightarrow> 'w account_handler" where
  "register_page E a r =
     (if wa_user a \<noteq> None then retM (redirect_to (lit ''/account''))
      else bindM (anon_csrf_token E) (\<lambda>tok. retM (register_view (request_locale r) tok [] [] None [])))"

definition register_post ::
  "auth_externals \<Rightarrow> web_config \<Rightarrow> register_form \<Rightarrow> web_auth \<Rightarrow> web_request \<Rightarrow> 'w account_handler" where
  "register_post E cfg form a r =
     (if wa_user a \<noteq> None then retM (redirect_to (lit ''/account''))
      else
        (let l = request_locale r;
             name = (if trim (rf_display_name form) = [] then None else Some (trim (rf_display_name form))) in
         bindM (attemptM (register E (request_ip cfg r) (rf_email form) name (rf_password form) (locale_code_of l)))
           (\<lambda>res.
             case res of
               Inr _ \<Rightarrow> retM (redirect_to (lit ''/login?registered=1''))
             | Inl err \<Rightarrow>
                 bindM (anon_csrf_token E) (\<lambda>tok.
                   retM (register_view l tok (rf_email form) (rf_display_name form)
                           (Some (auth_error_message l err))
                           (case register_field_error err of
                              Some field \<Rightarrow> [(lit field, auth_error_message l err)] | None \<Rightarrow> []))))))"

section \<open>Sign in and out\<close>

record login_notices =
  ln_registered :: "ustring option"
  ln_verified :: "ustring option"
  ln_reset :: "ustring option"
  ln_resend :: "ustring option"
  ln_oauth :: "ustring option"
  ln_next :: ustring

definition login_notice :: "web_locale \<Rightarrow> login_notices \<Rightarrow> message option" where
  "login_notice l q =
     (if ln_registered q \<noteq> None then Some (tr l ''auth.registered'')
      else if ln_verified q \<noteq> None then Some (tr l ''auth.verified'')
      else if ln_reset q \<noteq> None then Some (tr l ''auth.reset_sent'')
      else if ln_resend q \<noteq> None then Some (tr l ''auth.resend_sent'')
      else if ln_oauth q \<noteq> None then Some (tr l ''auth.oauth_failed'') else None)"

record login_form =
  lf_email :: ustring
  lf_password :: ustring
  lf_next :: ustring

definition login_view ::
  "web_config \<Rightarrow> web_locale \<Rightarrow> ustring \<Rightarrow> message option \<Rightarrow> message option \<Rightarrow> field_errors \<Rightarrow> ustring \<Rightarrow> account_page web_response" where
  "login_view cfg l tok notice err fe nxt =
     render_anon
       (LoginPage (layout_with_csrf (tr l ''auth.login_title'') ''auth'' tok) [] notice err fe nxt (wc_google cfg)) tok"

text \<open>\<open>htmx::safe_local_path(next).unwrap_or("")\<close>: what the hidden field of the form carries.\<close>

definition kept_next :: "ustring \<Rightarrow> ustring" where
  "kept_next nxt = (case safe_local_path nxt of Some p \<Rightarrow> p | None \<Rightarrow> [])"

definition login_page ::
  "auth_externals \<Rightarrow> web_config \<Rightarrow> login_notices \<Rightarrow> web_auth \<Rightarrow> web_request \<Rightarrow> 'w account_handler" where
  "login_page E cfg q a r =
     (if wa_user a \<noteq> None then retM (redirect_to (login_destination (ln_next q)))
      else bindM (anon_csrf_token E) (\<lambda>tok.
             retM (login_view cfg (request_locale r) tok (login_notice (request_locale r) q) None []
                     (kept_next (ln_next q)))))"

text \<open>The answer to any failed attempt.\<close>

definition login_failed :: "web_config \<Rightarrow> web_locale \<Rightarrow> ustring \<Rightarrow> ustring \<Rightarrow> account_page web_response" where
  "login_failed cfg l nxt tok =
     (let message = tr l ''auth.error.invalid_credentials'' in
      login_view cfg l tok None (Some message) [(lit ''email'', message), (lit ''password'', message)] (kept_next nxt))"

definition login_post ::
  "auth_externals \<Rightarrow> web_config \<Rightarrow> login_notices \<Rightarrow> login_form \<Rightarrow> web_auth \<Rightarrow> web_request \<Rightarrow> 'w account_handler" where
  "login_post E cfg q form a r =
     (let nxt = (if lf_next form = [] then ln_next q else lf_next form) in
      if wa_user a \<noteq> None then retM (redirect_to (login_destination nxt))
      else bindM (attemptM (login E (request_ip cfg r) (lf_email form) (lf_password form))) (\<lambda>res.
             case res of
               Inr out \<Rightarrow> retM (redirect_with_cookie (login_destination nxt) (set_session_cookie (lo_session out)))
             | Inl _ \<Rightarrow>
                 bindM (anon_csrf_token E) (\<lambda>tok. retM (login_failed cfg (request_locale r) nxt tok))))"

definition logout_post :: "auth_externals \<Rightarrow> web_auth \<Rightarrow> 'w account_handler" where
  "logout_post E a =
     thenM (case wa_session a of Some sess \<Rightarrow> ignoreM (logout E sess) | None \<Rightarrow> retM ())
       (retM (redirect_with_cookie (lit ''/'') clear_session_cookie))"

definition auth_google_callback ::
  "auth_externals \<Rightarrow> ustring \<Rightarrow> ustring \<Rightarrow> 'w account_handler" where
  "auth_google_callback E code st =
     (if st = [] then retM (redirect_to (lit ''/login?oauth=error''))
      else bindM (attemptM (oauth_callback E code)) (\<lambda>res.
             case res of
               Inr out \<Rightarrow> retM (redirect_with_cookie (lit ''/account'') (set_session_cookie (lo_session out)))
             | Inl _ \<Rightarrow> retM (redirect_to (lit ''/login?oauth=error''))))"

section \<open>Mailed links\<close>

definition verify_view :: "auth_externals \<Rightarrow> web_locale \<Rightarrow> message \<Rightarrow> 'w account_handler" where
  "verify_view E l err =
     bindM (anon_csrf_token E) (\<lambda>tok.
       retM (render_anon
               (VerifyEmailPage (layout_with_csrf (tr l ''auth.verify_title'') ''auth'' tok) False (Some err)) tok))"

definition verify_email_page :: "auth_externals \<Rightarrow> ustring option \<Rightarrow> web_request \<Rightarrow> 'w account_handler" where
  "verify_email_page E token r =
     (let l = request_locale r in
      case (case token of Some t \<Rightarrow> if t \<noteq> [] then Some t else None | None \<Rightarrow> None) of
        None \<Rightarrow> verify_view E l (tr l ''auth.error.invalid_token'')
      | Some t \<Rightarrow>
          bindM (attemptM (verify_email E t)) (\<lambda>res.
            case res of
              Inr _ \<Rightarrow> retM (redirect_to (lit ''/login?verified=1''))
            | Inl err \<Rightarrow> verify_view E l (auth_error_message l err)))"

definition verify_resend ::
  "auth_externals \<Rightarrow> web_config \<Rightarrow> ustring \<Rightarrow> web_request \<Rightarrow> 'w account_handler" where
  "verify_resend E cfg email r =
     (let l = request_locale r in
      case parse_email (ax_lower E) email of
        Inl _ \<Rightarrow> retM (redirect_to (lit ''/login?resend=1''))
      | Inr e \<Rightarrow>
          bindM (attemptM (resend_verification E (request_ip cfg r) e)) (\<lambda>res.
            case res of
              Inr _ \<Rightarrow> retM (redirect_to (lit ''/login?resend=1''))
            | Inl err \<Rightarrow>
                bindM (anon_csrf_token E) (\<lambda>tok.
                  retM (login_view cfg l tok None (Some (auth_error_message l err)) [] []))))"

section \<open>Password reset\<close>

definition reset_view ::
  "auth_externals \<Rightarrow> web_locale \<Rightarrow> ustring \<Rightarrow> message option \<Rightarrow> message option \<Rightarrow> 'w account_handler" where
  "reset_view E l email notice err =
     bindM (anon_csrf_token E) (\<lambda>tok.
       retM (render_anon
               (PasswordResetPage (layout_with_csrf (tr l ''auth.reset_title'') ''auth'' tok) email notice err) tok))"

definition password_reset_page :: "auth_externals \<Rightarrow> ustring option \<Rightarrow> web_request \<Rightarrow> 'w account_handler" where
  "password_reset_page E sent r =
     reset_view E (request_locale r) []
       (if sent \<noteq> None then Some (tr (request_locale r) ''auth.reset_sent'') else None) None"

definition password_reset_post ::
  "auth_externals \<Rightarrow> web_config \<Rightarrow> ustring \<Rightarrow> web_request \<Rightarrow> 'w account_handler" where
  "password_reset_post E cfg email r =
     (case parse_email (ax_lower E) email of
        Inl _ \<Rightarrow> retM (redirect_to (lit ''/password-reset?sent=1''))
      | Inr e \<Rightarrow>
          bindM (attemptM (request_password_reset E (request_ip cfg r) e)) (\<lambda>res.
            case res of
              Inr _ \<Rightarrow> retM (redirect_to (lit ''/password-reset?sent=1''))
            | Inl err \<Rightarrow>
                reset_view E (request_locale r) email None (Some (auth_error_message (request_locale r) err))))"

definition reset_new_view ::
  "auth_externals \<Rightarrow> web_locale \<Rightarrow> ustring \<Rightarrow> message option \<Rightarrow> 'w account_handler" where
  "reset_new_view E l token err =
     bindM (anon_csrf_token E) (\<lambda>tok.
       retM (render_anon
               (PasswordResetNewPage (layout_with_csrf (tr l ''auth.reset_new_title'') ''auth'' tok) token err) tok))"

definition password_reset_new :: "auth_externals \<Rightarrow> ustring option \<Rightarrow> web_request \<Rightarrow> 'w account_handler" where
  "password_reset_new E token r =
     reset_new_view E (request_locale r) (case token of Some t \<Rightarrow> t | None \<Rightarrow> []) None"

definition password_reset_new_post ::
  "auth_externals \<Rightarrow> ustring \<Rightarrow> ustring \<Rightarrow> web_request \<Rightarrow> 'w account_handler" where
  "password_reset_new_post E token password r =
     bindM (attemptM (reset_password E token password)) (\<lambda>res.
       case res of
         Inr _ \<Rightarrow> retM (redirect_to (lit ''/login?reset=1''))
       | Inl err \<Rightarrow>
           reset_new_view E (request_locale r) token (Some (auth_error_message (request_locale r) err)))"

section \<open>Account settings\<close>

definition account_page_view ::
  "auth_externals \<Rightarrow> ustring option \<Rightarrow> ustring option \<Rightarrow> web_auth \<Rightarrow> web_request \<Rightarrow> 'w account_handler" where
  "account_page_view E pw_changed email_pending a r =
     (let l = request_locale r in
      case require_user E a of
        Inl res \<Rightarrow> retM res
      | Inr u \<Rightarrow>
          retM (render 200
            (AccountPage (layout_for_request E (tr l ''account.title'') ''account'' a) (au_email u)
               (au_display_name u) (au_verified u) (format_roles l (au_roles u))
               (if pw_changed \<noteq> None then Some (tr l ''account.pw_changed'')
                else if email_pending \<noteq> None then Some (tr l ''account.email_pending'') else None))))"

definition password_view ::
  "auth_externals \<Rightarrow> web_auth \<Rightarrow> web_locale \<Rightarrow> message option \<Rightarrow> account_page web_response" where
  "password_view E a l err =
     render 200 (AccountPasswordPage (layout_for_request E (tr l ''account.pw_title'') ''account'' a) err None)"

definition account_password :: "auth_externals \<Rightarrow> web_auth \<Rightarrow> web_request \<Rightarrow> 'w account_handler" where
  "account_password E a r =
     (case require_user E a of Inl res \<Rightarrow> retM res | Inr _ \<Rightarrow> retM (password_view E a (request_locale r) None))"

definition account_password_post ::
  "auth_externals \<Rightarrow> ustring \<Rightarrow> ustring \<Rightarrow> web_auth \<Rightarrow> web_request \<Rightarrow> 'w account_handler" where
  "account_password_post E current new a r =
     (case require_user E a of
        Inl res \<Rightarrow> retM res
      | Inr u \<Rightarrow>
          (case wa_session a of
             None \<Rightarrow> retM (plain 401 ''Unauthorized'')
           | Some sess \<Rightarrow>
               bindM (attemptM (change_password E (au_id u) current new sess)) (\<lambda>res.
                 case res of
                   Inr _ \<Rightarrow> retM (redirect_to (lit ''/account?pw_changed=1''))
                 | Inl err \<Rightarrow>
                     retM (password_view E a (request_locale r) (Some (auth_error_message (request_locale r) err))))))"

definition email_view ::
  "auth_externals \<Rightarrow> web_auth \<Rightarrow> authenticated_user \<Rightarrow> web_locale \<Rightarrow> message option \<Rightarrow> account_page web_response" where
  "email_view E a u l err =
     render 200
       (AccountEmailPage (layout_for_request E (tr l ''account.email_title'') ''account'' a) (au_email u) err None)"

definition account_email :: "auth_externals \<Rightarrow> web_auth \<Rightarrow> web_request \<Rightarrow> 'w account_handler" where
  "account_email E a r =
     (case require_user E a of Inl res \<Rightarrow> retM res | Inr u \<Rightarrow> retM (email_view E a u (request_locale r) None))"

definition account_email_post ::
  "auth_externals \<Rightarrow> ustring \<Rightarrow> ustring \<Rightarrow> web_auth \<Rightarrow> web_request \<Rightarrow> 'w account_handler" where
  "account_email_post E current new a r =
     (let l = request_locale r in
      case require_user E a of
        Inl res \<Rightarrow> retM res
      | Inr u \<Rightarrow>
          (case parse_email (ax_lower E) new of
             Inl _ \<Rightarrow> retM (email_view E a u l (Some (tr l ''auth.error.invalid_email'')))
           | Inr e \<Rightarrow>
               bindM (attemptM (change_email E (au_id u) current e)) (\<lambda>res.
                 case res of
                   Inr _ \<Rightarrow> retM (redirect_to (lit ''/account?email_pending=1''))
                 | Inl err \<Rightarrow> retM (email_view E a u l (Some (auth_error_message l err))))))"

end
