(* ===== verification/Web_Guarantees.thy ===== *)
theory Web_Guarantees
  imports Web_Accounts Auth_Credentials
begin

text \<open>
  What the middleware and the account handlers guarantee: no state-changing request reaches
  a handler without the session's token, the pages' own forms do, no request makes the stack
  panic, every response carries the security headers, a failed login says nothing about
  the account, and the cookie a login sets is the session it opened.
\<close>

section \<open>Resolving the principal\<close>

lemma csrf_verify_iff: "csrf_verify C tok sub \<longleftrightarrow> b64_decode C sub = Some tok"
  by (auto simp: csrf_verify_def csrf_fold_zero split: option.split)

lemma resolve_session_csrf:
  assumes "resolve_session E raw w = (Inr (Some rs), w')"
  shows "\<exists>s \<in> set (sessions w). sr_hash s = sha256_hex E raw \<and> sr_revoked_at s = None \<and> now w \<le> sr_expires_at s
    \<and> sr_user s = au_id (rs_user rs) \<and> b64_decode (ax_b64 E) (sr_csrf s) = Some (rs_csrf rs)"
proof -
  from assms obtain s w1 u w2 where s: "session_resolve E raw (now w) w = (Inr (Some s), w1)"
    and u: "find_by_id E (s_user s) w1 = (Inr (Some u), w2)" "rs_user rs = from_user u" "rs_csrf rs = s_csrf s"
    unfolding resolve_session_def
    by (auto split: option.splits if_splits elim!: bindM_InrE getM_InrE retM_InrE)
  from u(1) obtain x where "select_one (\<lambda>x. ur_id x = s_user s) (users w1) = Some x" "account_of E w1 x = Some u"
    by (elim find_by_id_found)
  then have "u_id u = s_user s" using account_of_parts(1) select_one_SomeD by fastforce
  with s u(2,3) show ?thesis
    unfolding session_resolve_def
    by (elim bindM_InrE sql_InrE liftR_InrE)
      (auto simp: session_verdict_def token_from_base64url_def from_user_def Let_def
         split: option.splits if_splits dest!: select_one_SomeD)
qed

lemma hex_chunks_ascii: "is_ascii s \<Longrightarrow> length s = 2 * n \<Longrightarrow> hex_chunks n s \<noteq> Panicked"
proof (induction n arbitrary: s)
  case (Suc n)
  then obtain a b t where s: "s = a # b # t" by (cases s; cases "tl s") auto
  have "split_bytes 2 s = Some ([a, b], t)"
    using Suc.prems split_bytes_append[of "[a, b]" t] by (simp add: s utf8_len_def is_ascii_def numeral_2_eq_2)
  moreover have "hex_chunks n t \<noteq> Panicked" using Suc by (auto simp: s is_ascii_def)
  ultimately show ?case by (auto split: option.split outcome.split)
qed simp

lemma session_id_from_hex_ascii: "is_ascii s \<Longrightarrow> session_id_from_hex s \<noteq> Panicked"
  by (simp add: session_id_from_hex_def str_len_ascii hex_chunks_ascii)

lemma set_map_filter_subset: "set (List.map_filter f xs) \<subseteq> {y. \<exists>x \<in> set xs. f x = Some y}"
  by (auto simp: List.map_filter_def)

lemma split_on_chars: "p \<in> set (split_on c s) \<Longrightarrow> set p \<subseteq> set s"
  by (induction s arbitrary: p) (fastforce split: if_splits list.splits)+

lemma split_once_chars: "split_once c s = Some (a, b) \<Longrightarrow> set b \<subseteq> set s"
  using split_once_Some[of c s a b] by auto

lemma cookie_value_ascii:
  assumes "headers_law h" "cookie_value h n = Some v"
  shows "is_ascii v"
proof -
  from assms(2) obtain c x where c: "header_text h ''cookie'' = Some c" and x: "cookie_find c n = Some x" "v = trim x"
    by (auto simp: cookie_value_def split: option.splits)
  from x(1) obtain k where "(k, x) \<in> set (cookie_pairs c)"
    by (auto simp: cookie_find_def find_Some_iff in_set_conv_nth) (metis nth_mem in_set_conv_nth)
  then obtain p where "p \<in> set (split_on 59 c)" "split_once 61 p = Some (k, x)"
    unfolding cookie_pairs_def using set_map_filter_subset[of "split_once 61"] by blast
  then have "set x \<subseteq> set c" using split_on_chars split_once_chars by blast
  with header_text_ascii[OF assms(1) c] set_trim[of x] x(2) show ?thesis by (auto simp: is_ascii_def)
qed

lemma resolve_auth_returns:
  assumes "headers_law (rq_headers r)"
  shows "\<exists>a v. resolve_auth E r w = (Inr a, v)"
proof (cases "session_id_from_headers (rq_headers r)")
  case None
  then show ?thesis by (simp add: resolve_auth_def exec)
next
  case (Some raw)
  then have "is_ascii raw" using cookie_value_ascii[OF assms] by (simp add: session_id_from_headers_def)
  then have "session_id_from_hex raw \<noteq> Panicked" by (rule session_id_from_hex_ascii)
  then obtain x where x: "session_id_from_hex raw = Returned x" by (cases "session_id_from_hex raw") auto
  show ?thesis
  proof (cases x)
    case None
    then show ?thesis using x Some by (simp add: resolve_auth_def exec)
  next
    case (Some sess)
    then show ?thesis using x \<open>session_id_from_headers _ = Some raw\<close>
      by (cases "resolve_session E sess w") (auto simp: resolve_auth_def exec split: sum.split option.split)
  qed
qed

text \<open>The principal is one the session table vouches for.\<close>

lemma resolve_auth_user:
  assumes "resolve_auth E r w = (Inr a, v)"
  shows "case wa_user a of
      None \<Rightarrow> wa_csrf a = None
    | Some u \<Rightarrow> (\<exists>tok. wa_csrf a = Some tok \<and> (\<exists>s \<in> set (sessions w).
        sr_user s = au_id u \<and> sr_revoked_at s = None \<and> now w \<le> sr_expires_at s
        \<and> b64_decode (ax_b64 E) (sr_csrf s) = Some tok))"
proof -
  have base: "wa_user (base_auth r) = None" "wa_csrf (base_auth r) = None"
    by (simp_all add: base_auth_def default_auth_def)
  show ?thesis
  proof (cases "\<exists>sess rs w'. resolve_session E sess w = (Inr (Some rs), w') \<and> wa_user a = Some (rs_user rs)
      \<and> wa_csrf a = Some (rs_csrf rs)")
    case True
    then show ?thesis using resolve_session_csrf by fastforce
  next
    case False
    with assms base show ?thesis
      by (fastforce simp: resolve_auth_def exec split: option.splits outcome.splits sum.splits prod.splits)
  qed
qed

section \<open>Cross-site requests\<close>

text \<open>C15: A state-changing request reaches its handler only with the right token.  Whatever
  the handler is, a request by any method but GET, HEAD and OPTIONS is either answered with 403 or 413,
  or it submitted a token that decodes to the one stored with a live session of the user it
  is handled for, or, when it is handled for nobody, one that equals its own cookie.\<close>

theorem state_changes_need_token:
  assumes "headers_law (rq_headers r)" and "\<not> is_safe_method (rq_method r)"
    and "auth_middleware E nxt r w = (res, w')"
  shows "(\<exists>a. resolve_auth E r w = (Inr a, w')
        \<and> (res = Inr (deny E a 403 ''error.csrf'') \<or> res = Inr (deny E a 413 ''error.too_large'')))
    \<or> (\<exists>a v sub r'. resolve_auth E r w = (Inr a, v) \<and> submitted_token r = Some (Some sub, r') \<and> nxt a r' v = (res, w')
        \<and> (case wa_user a of
             Some u \<Rightarrow> \<exists>s \<in> set (sessions w). sr_user s = au_id u \<and> sr_revoked_at s = None \<and> now w \<le> sr_expires_at s
               \<and> b64_decode (ax_b64 E) (sr_csrf s) = b64_decode (ax_b64 E) sub \<and> b64_decode (ax_b64 E) sub \<noteq> None
           | None \<Rightarrow> \<exists>c. csrf_cookie_value (rq_headers r) = Some c \<and> as_bytes c = as_bytes sub))"
proof -
  obtain a v where a: "resolve_auth E r w = (Inr a, v)" using resolve_auth_returns[OF assms(1)] by blast
  note user = resolve_auth_user[OF a]
  show ?thesis
  proof (cases "submitted_token r")
    case None
    then show ?thesis using a assms(2,3) by (auto simp: auth_middleware_def exec)
  next
    case (Some p)
    then obtain sub r' where p: "submitted_token r = Some (sub, r')" by (cases p) auto
    show ?thesis
    proof (cases "csrf_ok E a (rq_headers r) sub")
      case True
      then have "nxt a r' v = (res, w')" using a p assms(2,3) by (simp add: auth_middleware_def exec)
      moreover from True obtain t where t: "sub = Some t"
        by (auto simp: csrf_ok_def split: option.splits prod.splits)
      moreover have "case wa_user a of
             Some u \<Rightarrow> \<exists>s \<in> set (sessions w). sr_user s = au_id u \<and> sr_revoked_at s = None \<and> now w \<le> sr_expires_at s
               \<and> b64_decode (ax_b64 E) (sr_csrf s) = b64_decode (ax_b64 E) t \<and> b64_decode (ax_b64 E) t \<noteq> None
           | None \<Rightarrow> \<exists>c. csrf_cookie_value (rq_headers r) = Some c \<and> as_bytes c = as_bytes t"
        using True user unfolding t csrf_ok_def
        by (fastforce simp: csrf_verify_iff constant_time_eq_iff split: option.splits)
      ultimately show ?thesis using a p by blast
    next
      case False
      then show ?thesis using a p assms(2,3) by (auto simp: auth_middleware_def exec)
    qed
  qed
qed

text \<open>The places a page of the site puts its token in: the header htmx sends, the query of a
  multipart form's action, and the first field of a form.\<close>

definition submits :: "web_request \<Rightarrow> ustring \<Rightarrow> bool" where
  "submits r tok \<longleftrightarrow>
     csrf_from_headers (rq_headers r) = Some tok
   \<or> csrf_from_headers (rq_headers r) = None \<and> rq_query r = Some (lit ''csrf='' @ tok)
   \<or> csrf_from_headers (rq_headers r) = None \<and> csrf_from_query (rq_query r) = None
     \<and> (\<exists>ct rest. header_text (rq_headers r) ''content-type'' = Some ct
          \<and> starts_with ct (lit ''application/x-www-form-urlencoded'')
          \<and> rq_body r csrf_body_limit = Some (as_bytes (lit ''csrf='' @ tok) @ rest) \<and> (rest = [] \<or> hd rest = 38))"

lemma submits_token:
  assumes "submits r tok" "plain_token tok" "\<forall>n bs. rq_body r n = Some bs \<longrightarrow> length bs \<le> n"
  shows "\<exists>r'. submitted_token r = Some (Some tok, r') \<and> rq_body r' csrf_body_limit = rq_body r csrf_body_limit
    \<and> r' = r\<lparr>rq_body := rq_body r'\<rparr>"
proof -
  consider "csrf_from_headers (rq_headers r) = Some tok"
    | "csrf_from_headers (rq_headers r) = None" "rq_query r = Some (lit ''csrf='' @ tok)"
    | ct rest where "csrf_from_headers (rq_headers r) = None" "csrf_from_query (rq_query r) = None"
        "header_text (rq_headers r) ''content-type'' = Some ct"
        "starts_with ct (lit ''application/x-www-form-urlencoded'')"
        "rq_body r csrf_body_limit = Some (as_bytes (lit ''csrf='' @ tok) @ rest)" "rest = [] \<or> hd rest = 38"
    using assms(1) unfolding submits_def by metis
  then show ?thesis
  proof cases
    case 1
    then show ?thesis by (intro exI[of _ r]) (simp add: submitted_token_def)
  next
    case 2
    then show ?thesis by (intro exI[of _ r]) (simp add: submitted_token_def csrf_from_query_token[OF assms(2)])
  next
    case 3
    let ?b = "as_bytes (lit ''csrf='' @ tok) @ rest"
    have "rest = [] \<or> (\<exists>t. rest = 38 # t)" using 3(6) by (cases rest) auto
    then have "csrf_from_form_body ?b (Some ct) = Some tok"
      using csrf_from_form_token[OF assms(2) 3(4)] by auto
    moreover have "length ?b \<le> csrf_body_limit" using assms(3) 3(5) by blast
    ultimately show ?thesis using 3
      by (intro exI[of _ "r\<lparr>rq_body := (\<lambda>n. if length ?b \<le> n then Some ?b else None)\<rparr>"]) (simp add: submitted_token_def)
  qed
qed

text \<open>C16: The site's own requests pass.  A request that carries the token its principal's
  pages were rendered with, in the header, in the action's query or as the form's first
  field, reaches the handler, with its body still there to be read.\<close>

theorem own_forms_pass:
  assumes "resolve_auth E r w = (Inr a, v)" and "b64_law (ax_b64 E)"
    and "case wa_csrf a of Some c \<Rightarrow> tok = b64_encode (ax_b64 E) c | None \<Rightarrow> csrf_cookie_value (rq_headers r) = Some tok"
    and "plain_token tok" and "submits r tok" and "\<forall>n bs. rq_body r n = Some bs \<longrightarrow> length bs \<le> n"
  shows "\<exists>r'. auth_middleware E nxt r w = nxt a r' v \<and> r' = r\<lparr>rq_body := rq_body r'\<rparr>
    \<and> rq_body r' csrf_body_limit = rq_body r csrf_body_limit"
proof -
  obtain r' where r': "submitted_token r = Some (Some tok, r')" "rq_body r' csrf_body_limit = rq_body r csrf_body_limit"
      "r' = r\<lparr>rq_body := rq_body r'\<rparr>"
    using submits_token[OF assms(5,4,6)] by blast
  have "csrf_ok E a (rq_headers r) (Some tok)"
    using assms(2,3) by (auto simp: csrf_ok_def csrf_verify_iff constant_time_eq_iff b64_law_def split: option.splits)
  then have "auth_middleware E nxt r w = (if is_safe_method (rq_method r) then nxt a r v else nxt a r' v)"
    using assms(1) r'(1) by (simp add: auth_middleware_def exec)
  then show ?thesis using r' by (cases "is_safe_method (rq_method r)") (auto intro: exI[of _ r])
qed

section \<open>Response headers\<close>

lemma map_of_removed: "n \<noteq> m \<Longrightarrow> map_of (filter (\<lambda>(k, _). k \<noteq> n) hs) m = map_of hs m"
  "map_of (filter (\<lambda>(k, _). k \<noteq> n) hs) n = None"
  by (induction hs) auto

lemma response_header_set [simp]:
  "response_header (set_header n v res) m = (if m = n then Some v else response_header res m)"
  by (auto simp: response_header_def set_header_def map_add_def map_of_removed split: option.split)

lemma response_header_append:
  "m \<noteq> n \<Longrightarrow> response_header (append_header n v res) m = response_header res m"
  by (simp add: response_header_def append_header_def map_add_def split: option.split)

lemma response_header_vary [simp]: "m \<noteq> ''vary'' \<Longrightarrow> response_header (add_vary res) m = response_header res m"
  by (auto simp: add_vary_def response_header_append)

text \<open>A header that a response carries once, with the value \<open>v\<close>.\<close>

definition only_header :: "'p web_response \<Rightarrow> string \<Rightarrow> ustring \<Rightarrow> bool" where
  "only_header res n v \<longleftrightarrow> filter (\<lambda>(m, _). m = lit n) (re_headers res) = [(lit n, v)]"

lemma filter_removed: "n \<noteq> m \<Longrightarrow> filter (\<lambda>(k, _). k = m) (filter (\<lambda>(k, _). k \<noteq> n) hs) = filter (\<lambda>(k, _). k = m) hs"
  "filter (\<lambda>(k, _). k = n) (filter (\<lambda>(k, _). k \<noteq> n) hs) = []"
  by (induction hs) auto

lemma only_header_set [simp]:
  "only_header (set_header n v res) m x = (if m = n then x = v else only_header res m x)"
  by (auto simp: only_header_def set_header_def filter_removed simp del: filter_filter)

lemma only_header_vary [simp]: "m \<noteq> ''vary'' \<Longrightarrow> only_header (add_vary res) m x = only_header res m x"
  by (simp add: only_header_def add_vary_def append_header_def)

text \<open>The handler answers never with the header \<open>n\<close>.\<close>

definition silent :: "string \<Rightarrow> ('w, 'p) web_handler \<Rightarrow> bool" where
  "silent n handler \<longleftrightarrow> (\<forall>a r w x v. handler a r w = (Inr x, v) \<longrightarrow> response_header x n = None)"

lemma error_response_silent:
  "n \<notin> {''vary'', ''content-type''} \<Longrightarrow> response_header (error_response E h a l st msg) n = None"
  by (simp add: error_response_def error_body_def response_header_append)
    (simp add: html_def response_header_def)

lemma restyle_silent:
  fixes x :: "'p web_response"
  assumes "n \<notin> {''vary'', ''content-type'', ''content-length''}" "response_header x n = None"
  shows "response_header (restyle E a r x) n = None"
proof -
  have "map_of (filter (\<lambda>(m, _). m \<noteq> lit ''content-type'' \<and> m \<noteq> lit ''content-length'') (re_headers x)) (lit n) = None"
    using assms(2) by (auto simp: response_header_def map_of_eq_None_iff)
  moreover have "map_of (re_headers (error_response E (rq_headers r) a l st msg :: 'p web_response)) (lit n) = None" for l st msg
    using error_response_silent[of n E "rq_headers r" a l st msg, where ?'a = 'p] assms(1) by (simp add: response_header_def)
  ultimately show ?thesis
    using assms(2) by (simp add: restyle_def Let_def response_header_def map_add_def)
qed

lemma middleware_silent:
  assumes "silent n handler" "n \<notin> {''vary'', ''content-type'', ''content-length''}"
    and "auth_middleware E (styled_errors E handler) r w = (Inr x, u)"
  shows "response_header x n = None"
proof -
  have s: "response_header y n = None" if "styled_errors E handler a r' v = (Inr y, u')" for a r' v y u'
    using that unfolding styled_errors_def
  proof (elim bindM_InrE retM_InrE)
    fix b v' assume "handler a r' v = (Inr b, v')" and "restyle E a r' b = y"
    moreover have "response_header b n = None" using calculation(1) assms(1) unfolding silent_def by blast
    ultimately show ?thesis using restyle_silent[OF assms(2)] by metis
  qed
  show ?thesis
    using assms(3) unfolding auth_middleware_def
    by (elim bindM_InrE) (use s assms(2) in \<open>auto simp: deny_def error_response_silent split: if_splits option.splits
      elim!: retM_InrE\<close>)
qed

lemma add_vary_names:
  assumes "response_header (add_vary res) ''content-type'' = Some ct" "starts_with ct (lit ''text/html'')"
  shows "\<exists>v. (lit ''vary'', v) \<in> set (re_headers (add_vary res))
    \<and> (v = lit ''Accept-Language, Cookie'' \<or> after_str (lit ''hx-request'') (to_ascii_lowercase v) \<noteq> None)"
proof (cases "\<exists>(n, v) \<in> set (re_headers res). n = lit ''vary'' \<and> after_str (lit ''hx-request'') (to_ascii_lowercase v) \<noteq> None")
  case True
  then show ?thesis by (auto simp: add_vary_def append_header_def)
next
  case False
  have "response_header res ''content-type'' = Some ct" using assms(1) by simp
  then have "add_vary res = append_header ''vary'' (lit ''Accept-Language, Cookie'') res"
    using assms(2) False by (auto simp: add_vary_def)
  then show ?thesis by (auto simp: append_header_def)
qed

text \<open>C18: Every response the stack produces, refusals and errors included, whatever the
  handler answers, carries each security header exactly once and with its value: the
  content policy templated from the configuration, framing and sniffing forbidden, the
  referrer policy and the permissions policy.  It promises TLS exactly where TLS is on and
  keeps exactly the private pages out of indexes, unless the handler itself sets those two
  headers; every HTML answer names what it varies by; and the stack panics only where the
  handler does.\<close>

theorem responses_are_hardened:
  assumes "headers_law (rq_headers r)" and "valid_header_value (csp s)"
    and "app_stack E s handler r w = (res, w')"
  shows "case res of
      Inr res \<Rightarrow>
        only_header res ''content-security-policy'' (csp s)
      \<and> only_header res ''x-frame-options'' (lit ''DENY'')
      \<and> only_header res ''x-content-type-options'' (lit ''nosniff'')
      \<and> only_header res ''referrer-policy'' (lit ''strict-origin-when-cross-origin'')
      \<and> only_header res ''permissions-policy'' (lit ''camera=(), microphone=(), geolocation=(self), interest-cohort=()'')
      \<and> (if sh_tls_on s then only_header res ''strict-transport-security'' (lit ''max-age=31536000; includeSubDomains'')
         else silent ''strict-transport-security'' handler \<longrightarrow> response_header res ''strict-transport-security'' = None)
      \<and> (if is_private_path (rq_path r) then only_header res ''x-robots-tag'' (lit ''noindex, nofollow'')
         else silent ''x-robots-tag'' handler \<longrightarrow> response_header res ''x-robots-tag'' = None)
      \<and> (\<forall>ct. response_header res ''content-type'' = Some ct \<and> starts_with ct (lit ''text/html'') \<longrightarrow>
           (\<exists>v. (lit ''vary'', v) \<in> set (re_headers res)
              \<and> (v = lit ''Accept-Language, Cookie'' \<or> after_str (lit ''hx-request'') (to_ascii_lowercase v) \<noteq> None)))
    | Inl p \<Rightarrow> \<exists>a r' v. handler a r' v = (Inl p, w')"
proof -
  obtain a v where a: "resolve_auth E r w = (Inr a, v)" using resolve_auth_returns[OF assms(1)] by blast
  have stack: "app_stack E s handler r w =
      (case auth_middleware E (styled_errors E handler) r w of
         (Inl p, u) \<Rightarrow> (Inl p, u) | (Inr x, u) \<Rightarrow> (Inr (harden s (rq_path r) x), u))"
    using assms(2) by (simp add: app_stack_def security_middleware_def exec split: prod.split sum.split)
  show ?thesis
  proof (cases res)
    case (Inr x)
    then obtain y u where y: "x = harden s (rq_path r) y" "auth_middleware E (styled_errors E handler) r w = (Inr y, u)"
      using assms(3) stack by (auto split: prod.splits sum.splits)
    obtain z where z: "x = add_vary z" using y(1) by (simp add: harden_def Let_def)
    note silent = middleware_silent[OF _ _ y(2)]
    have "\<forall>ct. response_header x ''content-type'' = Some ct \<and> starts_with ct (lit ''text/html'') \<longrightarrow>
        (\<exists>v. (lit ''vary'', v) \<in> set (re_headers x)
           \<and> (v = lit ''Accept-Language, Cookie'' \<or> after_str (lit ''hx-request'') (to_ascii_lowercase v) \<noteq> None))"
      using add_vary_names[of z] unfolding z by blast
    moreover have "silent ''strict-transport-security'' handler \<Longrightarrow> response_header y ''strict-transport-security'' = None"
      "silent ''x-robots-tag'' handler \<Longrightarrow> response_header y ''x-robots-tag'' = None"
      by (rule silent; simp)+
    ultimately show ?thesis by (simp add: Inr) (simp add: y(1) harden_def Let_def)
  next
    case (Inl p)
    then have "auth_middleware E (styled_errors E handler) r w = (Inl p, w')"
      using assms(3) stack by (auto split: prod.splits sum.splits)
    then have "\<exists>r' u. styled_errors E handler a r' u = (Inl p, w')"
      using a by (auto simp: auth_middleware_def exec split: if_splits option.splits prod.splits)
    then show ?thesis using Inl by (fastforce simp: styled_errors_def exec split: prod.splits sum.splits)
  qed
qed

section \<open>Signing in\<close>

lemma bytes_to_hex_inject: "length a = 32 \<Longrightarrow> length b = 32 \<Longrightarrow> bytes_to_hex a = bytes_to_hex b \<Longrightarrow> a = b"
  using hex_chunks_bytes_to_hex[of a] hex_chunks_bytes_to_hex[of b] by simp

lemma anon_cookie_is_not_session: "set_anon_csrf_cookie tok \<noteq> set_session_cookie sess"
  by (simp add: set_anon_csrf_cookie_def set_session_cookie_def anon_csrf_cookie_def session_cookie_def) (simp add: lit_def)

lemma login_failed_cookie: "response_header (login_failed cfg l nxt tok) ''set-cookie'' \<noteq> Some (set_session_cookie sess)"
proof -
  have "lit ''content-type'' \<noteq> lit ''set-cookie''" by simp
  then show ?thesis using anon_cookie_is_not_session[of tok sess]
    by (auto simp: login_failed_def login_view_def render_anon_def Let_def render_def html_def response_header_def[of "\<lparr>re_status = _, re_headers = _, re_body = _\<rparr>"])
qed

lemma login_post_fails:
  assumes "wa_user a = None"
    and "login E (request_ip cfg r) (lf_email form) (lf_password form) w = (Inl err, v)"
  shows "fst (login_post E cfg q form a r w) =
      Inr (login_failed cfg (request_locale r) (if lf_next form = [] then ln_next q else lf_next form)
             (b64_encode (ax_b64 E) (entropy w (drawn v))))"
  using assms login_drawn[OF assms(2)] by (simp add: login_post_def anon_csrf_token_def exec Let_def)

text \<open>C17: A failed login says nothing about the account.  Fix the page to return to, the
  locale and the query of the form: then there is one page, a function of a random token
  alone, that answers every failed login, whoever asks, whatever address and password
  were typed, in whatever world, and whatever made it fail: a wrong password, an unknown
  address, a suspended account, a rate limit or the database.  The token is the
  next random block or the third, and the page sets no session cookie.\<close>

theorem failed_logins_look_alike:
  "\<exists>page. (\<forall>form a r (w :: 'w auth_world_scheme) err v.
        lf_next form = nxt \<and> request_locale r = l \<and> wa_user a = None
        \<and> login E (request_ip cfg r) (lf_email form) (lf_password form) w = (Inl err, v) \<longrightarrow>
        (\<exists>k \<in> {drawn w, drawn w + 2}.
           fst (login_post E cfg q form a r w) = Inr (page (b64_encode (ax_b64 E) (entropy w k)))))
    \<and> (\<forall>tok sess. response_header (page tok) ''set-cookie'' \<noteq> Some (set_session_cookie sess))"
proof (intro exI conjI allI impI)
  fix form :: login_form and a :: web_auth and r :: web_request and w v :: "'w auth_world_scheme" and err
  assume f: "lf_next form = nxt \<and> request_locale r = l \<and> wa_user a = None
        \<and> login E (request_ip cfg r) (lf_email form) (lf_password form) w = (Inl err, v)"
  then have "fst (login_post E cfg q form a r w) =
      Inr (login_failed cfg l (if nxt = [] then ln_next q else nxt) (b64_encode (ax_b64 E) (entropy w (drawn v))))"
    using login_post_fails[of a E cfg r form w err v q] by simp
  moreover have "drawn v \<in> {drawn w, drawn w + 2}" using f login_drawn by blast
  ultimately show "\<exists>k \<in> {drawn w, drawn w + 2}. fst (login_post E cfg q form a r w) =
      Inr (login_failed cfg l (if nxt = [] then ln_next q else nxt) (b64_encode (ax_b64 E) (entropy w k)))"
    by blast
qed (rule login_failed_cookie)

lemma find_by_id_returns:
  assumes "faults w = []" "select_one (\<lambda>r. ur_id r = i) (users w) = Some x" "account_of E w x = Some u"
  shows "find_by_id E i w = (Inr (Some u), w)"
  using assms
  by (auto simp: find_by_id_def load_optional_def load_user_def roles_by_sql_def account_of_def exec Let_def
        split: sum.splits option.splits)

lemma select_one_appended: "\<forall>r \<in> set t. \<not> P r \<Longrightarrow> P x \<Longrightarrow> select_one P (t @ [x]) = Some x"
  by (induction t) (simp_all add: select_one_def)

text \<open>A session resolves while the database answers: the row is the first of its hash, alive and
  within its limits, its account exists and may use the site.\<close>

lemma resolve_session_returns:
  assumes "faults w = []" and "select_one (\<lambda>r. sr_hash r = sha256_hex E raw) (sessions w) = Some s"
    and "session_verdict E (now w) (Some s) = Inr (Some x)"
    and "select_one (\<lambda>r. ur_id r = s_user x) (users w) = Some y" and "account_of E w y = Some u"
    and "can_access_account (u_state u)"
  shows "fst (resolve_session E raw w) = Inr (Some \<lparr>rs_user = from_user u, rs_csrf = s_csrf x\<rparr>)"
proof -
  let ?w = "w\<lparr>sessions := update_where (slides (sha256_hex E raw) (now w)) (\<lambda>r. r\<lparr>sr_last_seen_at := now w\<rparr>) (sessions w)\<rparr>"
  have "session_resolve E raw (now w) w = (Inr (Some x), ?w)"
    using assms(1-3) by (simp add: session_resolve_def exec Let_def)
  moreover have "account_of E ?w y = Some u" using assms(5) by (simp add: account_of_def split: sum.splits option.splits)
  then have "find_by_id E (s_user x) ?w = (Inr (Some u), ?w)"
    using assms(1,4) by (intro find_by_id_returns) simp_all
  ultimately show ?thesis using assms(6) by (simp add: resolve_session_def exec)
qed

lemma login_session:
  assumes "login E ip raw_email pw w = (Inr out, w')"
  obtains u x ss t where "lo_user out = from_user u" "select_one (\<lambda>r. ur_id r = u_id u) (users w') = Some x"
    "account_of E w' x = Some u" "can_log_in (u_state u)"
    "sessions w' = ss @ [fresh_session E (u_id u) (lo_session out) (lo_csrf out) (now w')]"
    "sha256_hex E (lo_session out) \<notin> sr_hash ` set ss"
    "lo_session out = entropy w t" "lo_csrf out = entropy w (Suc t)"
proof (rule login_needs[OF assms])
  fix email u v
  assume v: "quiet w v" "open_session E u (now v) v = (Inr out, w')"
    and "\<exists>idn r h. select_one (\<lambda>x. ir_provider x = provider_code PasswordProvider \<and> ir_subject x = email) (identities w) = Some idn
      \<and> ir_hash idn = Some h \<and> ax_verify E pw h = Some True
      \<and> select_one (\<lambda>x. ur_id x = ir_user idn) (users w) = Some r \<and> account_of E w r = Some u \<and> can_log_in (u_state u)"
  then obtain idn :: identity_row and r where r: "select_one (\<lambda>x. ur_id x = ir_user idn) (users w) = Some r" "account_of E w r = Some u"
      "can_log_in (u_state u)" by blast
  note o = open_session_opens[OF v(2)]
  note f = quiet_fields[OF v(1)]
  have same: "users w' = users w" "user_roles w' = user_roles w" "now w' = now v"
    using o f by (simp_all add: same_accounts_def)
  have "u_id u = ur_id r" "ur_id r = ir_user idn" using account_of_parts(1)[OF r(2)] select_one_SomeD[OF r(1)] by auto
  then have sel: "select_one (\<lambda>x. ur_id x = u_id u) (users w') = Some r" using r(1) by (simp add: same)
  have acc: "account_of E w' r = Some u" using r(2) by (simp add: account_of_def same split: sum.splits option.splits)
  show thesis
    by (rule that[of u r "sessions v" "drawn v"]; insert o f same sel acc r(3); elim conjE; simp)
qed

lemma cookie_value_session:
  assumes "header_text h ''cookie'' = Some (session_cookie @ lit ''='' @ bytes_to_hex sess)"
  shows "session_id_from_headers h = Some (bytes_to_hex sess)"
proof -
  have plain: "c \<noteq> 59 \<and> \<not> is_whitespace c" if c: "c \<in> set (bytes_to_hex sess)" for c
  proof -
    from c obtain b where "c = hex_digit (unat (b :: byte) div 16) \<or> c = hex_digit (unat b mod 16)"
      by (auto simp: bytes_to_hex_def byte_to_hex_def)
    moreover have "hex_digit n \<noteq> 59 \<and> \<not> is_whitespace (hex_digit n)" if "n < 16" for n
      using that by (auto simp: hex_digit_def is_whitespace_def)
    ultimately show ?thesis using byte_nibbles[of b] by auto
  qed
  have "trim (bytes_to_hex sess) = bytes_to_hex sess"
  proof (rule trim_id)
    show "bytes_to_hex sess = [] \<or> \<not> is_whitespace (hd (bytes_to_hex sess)) \<and> \<not> is_whitespace (last (bytes_to_hex sess))"
      using plain by (cases "bytes_to_hex sess") auto
  qed
  moreover have "59 \<notin> set (session_cookie @ 61 # bytes_to_hex sess)" using plain by (auto simp: session_cookie_def lit_def)
  then have "split_on 59 (session_cookie @ 61 # bytes_to_hex sess) = [session_cookie @ 61 # bytes_to_hex sess]"
    by (rule split_on_single)
  moreover have "split_once 61 (session_cookie @ 61 # bytes_to_hex sess) = Some (session_cookie, bytes_to_hex sess)"
    by (rule split_once_first) (simp add: session_cookie_def lit_def)
  moreover have "lit ''='' = [61]" by (simp add: lit_def)
  moreover have "trim session_cookie = session_cookie"
    by (rule trim_id) (simp add: session_cookie_def lit_def is_whitespace_def)
  ultimately show ?thesis using assms
    by (simp add: session_id_from_headers_def cookie_value_def cookie_find_def cookie_pairs_def map_filter_simps)
qed

lemma set_session_cookie_inject:
  assumes "length a = 32" "length b = 32" "set_session_cookie a = set_session_cookie b"
  shows "a = b"
proof -
  have "length (bytes_to_hex c) = 2 * length c" for c
    by (induction c) (simp_all add: bytes_to_hex_def byte_to_hex_def)
  then have "bytes_to_hex a = bytes_to_hex b"
    using assms by (simp add: set_session_cookie_def append_eq_append_conv)
  then show ?thesis using assms(1,2) by (rule bytes_to_hex_inject[rotated 2])
qed

text \<open>C14: The cookie a login sets signs the user in.  When the login form answers with a
  session cookie, a login has proved the password, and a request that carries that cookie back
  while the database answers, at any time within the next 30 days, is handled for the
  account that logged in, under the session's own CSRF token.\<close>

theorem signed_in_after_login:
  assumes "\<forall>k. length (entropy w k) = 32" and "b64_law (ax_b64 E)" and "length sess = 32"
    and "login_post E cfg q form a r w = (Inr res, w')"
    and "response_header res ''set-cookie'' = Some (set_session_cookie sess)"
    and "header_text (rq_headers r2) ''cookie'' = Some (session_cookie @ lit ''='' @ bytes_to_hex sess)"
    and "now w' \<le> t" "t \<le> now w' + days 30"
  shows "\<exists>out. login E (request_ip cfg r) (lf_email form) (lf_password form) w = (Inr out, w') \<and> lo_session out = sess
    \<and> fst (resolve_auth E r2 (w'\<lparr>now := t, faults := []\<rparr>)) =
        Inr ((base_auth r2)\<lparr>wa_user := Some (lo_user out), wa_csrf := Some (lo_csrf out), wa_session := Some sess\<rparr>)"
proof -
  let ?w = "w'\<lparr>now := t, faults := []\<rparr>"
  have "lit ''set-cookie'' \<noteq> lit ''location''" by simp
  then have no: "response_header (redirect_to url :: account_page web_response) ''set-cookie'' = None" for url
    by (simp add: response_header_def redirect_to_def)
  from assms(4,5) no login_failed_cookie obtain out where
    out: "login E (request_ip cfg r) (lf_email form) (lf_password form) w = (Inr out, w')"
    and cookie: "set_session_cookie (lo_session out) = set_session_cookie sess"
    by (fastforce simp: login_post_def exec Let_def redirect_with_cookie_def anon_csrf_token_def
          split: if_splits sum.splits prod.splits)
  from login_session[OF out] obtain u x ss k where
    u: "lo_user out = from_user u" "select_one (\<lambda>r. ur_id r = u_id u) (users w') = Some x" "account_of E w' x = Some u"
      "can_log_in (u_state u)"
    and ss: "sessions w' = ss @ [fresh_session E (u_id u) (lo_session out) (lo_csrf out) (now w')]"
      "sha256_hex E (lo_session out) \<notin> sr_hash ` set ss"
    and k: "lo_session out = entropy w k" "lo_csrf out = entropy w (Suc k)" by blast
  have len: "length (lo_session out) = 32" "length (lo_csrf out) = 32" using assms(1) k by simp_all
  have sess: "lo_session out = sess" by (rule set_session_cookie_inject[OF len(1) assms(3) cookie])
  let ?s = "fresh_session E (u_id u) sess (lo_csrf out) (now w')"
  let ?x = "\<lparr>s_user = u_id u, s_csrf = lo_csrf out, s_created_at = now w', s_last_seen_at = now w',
    s_expires_at = now w' + absolute_cap, s_revoked_at = None\<rparr>"
  have "select_one (\<lambda>r. sr_hash r = sha256_hex E sess) (sessions ?w) = Some ?s"
  proof -
    have "\<forall>r \<in> set ss. sr_hash r \<noteq> sha256_hex E sess" using ss(2) unfolding sess by (metis imageI)
    then have "select_one (\<lambda>r. sr_hash r = sha256_hex E sess) (ss @ [?s]) = Some ?s"
      by (rule select_one_appended) (simp add: fresh_session_def)
    then show ?thesis using ss(1) sess by simp
  qed
  moreover have "session_verdict E (now ?w) (Some ?s) = Inr (Some ?x)"
    using assms(2,7,8) len(2)
    by (simp add: session_verdict_def fresh_session_def token_from_base64url_def b64_law_def absolute_cap_def
          inactive_idle_def time_units)
  moreover have "account_of E ?w x = Some u" using u(3) by (simp add: account_of_def split: sum.splits option.splits)
  moreover have "can_access_account (u_state u)" using u(4) by (simp add: can_log_in_def can_access_account_def split: account_state.splits)
  ultimately have "fst (resolve_session E sess ?w) = Inr (Some \<lparr>rs_user = from_user u, rs_csrf = lo_csrf out\<rparr>)"
    using u(2) resolve_session_returns[of ?w E sess ?s ?x x u] by simp
  moreover have "session_id_from_hex (bytes_to_hex sess) = Returned (Some sess)"
    using hex_chunks_bytes_to_hex[of sess] assms(3) by (simp add: session_id_from_hex_def)
  ultimately have "fst (resolve_auth E r2 ?w) =
      Inr ((base_auth r2)\<lparr>wa_user := Some (lo_user out), wa_csrf := Some (lo_csrf out), wa_session := Some sess\<rparr>)"
    using cookie_value_session[OF assms(6)] u(1)
    by (cases "resolve_session E sess ?w") (simp add: resolve_auth_def exec)
  then show ?thesis using out sess by blast
qed

end
