(* ===== verification/Web_Demo.thy ===== *)
theory Web_Demo
  imports Web_Guarantees Auth_Demo
begin

text \<open>
  The guarantees of the web layer on the small instance of \<open>Auth_Demo\<close>: requests to the
  login form, with the connection's peer as the address.
\<close>

definition demo_request :: "http_method \<Rightarrow> header_map \<Rightarrow> ustring option \<Rightarrow> web_request" where
  "demo_request mt h q =
     \<lparr>rq_method = mt, rq_path = lit ''/login'', rq_path_and_query = Some (lit ''/login''), rq_query = q, rq_headers = h,
      rq_body = (\<lambda>n. Some []), rq_peer = Some (lit ''ip'')\<rparr>"

definition demo_config :: web_config where
  "demo_config = \<lparr>wc_is_ip = (\<lambda>s. True), wc_hops = 0, wc_google = False\<rparr>"

definition demo_form :: "string \<Rightarrow> login_form" where
  "demo_form pw = \<lparr>lf_email = lit '' A@b.c '', lf_password = lit pw, lf_next = lit ''/parking/7''\<rparr>"

definition demo_notices :: login_notices where
  "demo_notices = \<lparr>ln_registered = None, ln_verified = None, ln_reset = None, ln_resend = None, ln_oauth = None, ln_next = []\<rparr>"

lemma demo_request_simps [simp]:
  "rq_method (demo_request mt h q) = mt" "rq_headers (demo_request mt h q) = h" "rq_query (demo_request mt h q) = q"
  "rq_body (demo_request mt h q) n = Some []" "rq_path (demo_request mt h q) = lit ''/login''"
  "request_ip demo_config (demo_request mt h q) = lit ''ip''"
  by (simp_all add: demo_request_def request_ip_def client_ip_def demo_config_def resolve_client_ip_def)

definition demo_handler :: "(unit auth_world_scheme, account_page) web_handler" where
  "demo_handler a r = retM (redirect_to (lit ''/''))"

definition demo_headers :: security_headers where
  "demo_headers = \<lparr>sh_tls_on = True, sh_tile_hosts = [lit ''https://t''], sh_geocode_hosts = [], sh_media_hosts = []\<rparr>"

lemma printable_header_value: "list_all (\<lambda>c. 32 \<le> c \<and> c < 127) s \<Longrightarrow> valid_header_value s"
proof -
  assume p: "list_all (\<lambda>c. 32 \<le> c \<and> c < 127) s"
  then have "is_ascii s" by (auto simp: is_ascii_def list_all_iff)
  moreover have "32 \<le> (of_nat c :: byte) \<and> (of_nat c :: byte) \<noteq> 127" if "32 \<le> c" "c < 127" for c
    using that by (simp add: word_le_nat_alt unat_of_nat_byte word_unat_eq_iff)
  ultimately show ?thesis using p by (auto simp: valid_header_value_def as_bytes_ascii list_all_iff)
qed

lemma demo_csp_valid: "valid_header_value (csp demo_headers)"
  by (rule printable_header_value) (simp add: csp_def demo_headers_def join_hosts_def quoted_def lit_def Let_def)

theorem state_changes_need_token_witness:
  "fst (auth_middleware demo_E demo_handler (demo_request POST [] None) demo_auth)
     \<noteq> Inr (redirect_to (lit ''/''))"
proof -
  let ?m = "auth_middleware demo_E demo_handler (demo_request POST [] None) demo_auth"
  have "?m = (fst ?m, snd ?m)" by simp
  from state_changes_need_token[OF _ _ this]
  have "(\<exists>a. fst ?m = Inr (deny demo_E a 403 ''error.csrf'') \<or> fst ?m = Inr (deny demo_E a 413 ''error.too_large''))
    \<or> (\<exists>sub r'. submitted_token (demo_request POST [] None) = Some (Some sub, r'))"
    by (auto simp: headers_law_def is_safe_method_def)
  moreover have "submitted_token (demo_request POST [] None) \<noteq> Some (Some sub, r')" for sub r'
    by (simp add: submitted_token_def csrf_from_headers_def header_text_def header_def csrf_from_query_def
        csrf_from_form_body_def starts_with_def map_filter_simps split_once_def)
  ultimately show ?thesis
    by (auto simp: deny_def error_response_def error_body_def append_header_def html_def redirect_to_def)
qed

theorem own_forms_pass_witness:
  "\<exists>r'. auth_middleware demo_E demo_handler
     (demo_request POST [(lit ''cookie'', Text (lit ''csrf=A''))] (Some (lit ''csrf=A''))) demo_auth = demo_handler
     (base_auth (demo_request POST [(lit ''cookie'', Text (lit ''csrf=A''))] (Some (lit ''csrf=A'')))) r' demo_auth"
proof -
  let ?r = "demo_request POST [(lit ''cookie'', Text (lit ''csrf=A''))] (Some (lit ''csrf=A''))"
  have h: "session_id_from_headers (rq_headers ?r) = None" "csrf_cookie_value (rq_headers ?r) = Some (lit ''A'')"
      "csrf_from_headers (rq_headers ?r) = None"
  proof -
    have "cookie_pairs (lit ''csrf=A'') = [(lit ''csrf'', lit ''A'')]"
      by (simp add: cookie_pairs_def lit_def split_once_def map_filter_simps)
    moreover have "trim (lit ''csrf'') = lit ''csrf''" "trim (lit ''A'') = lit ''A''"
      by (rule trim_id, simp add: lit_def is_whitespace_def)+
    moreover have "lit ''csrf'' \<noteq> lit ''session_id''" by simp
    ultimately show "session_id_from_headers (rq_headers ?r) = None" "csrf_cookie_value (rq_headers ?r) = Some (lit ''A'')"
      "csrf_from_headers (rq_headers ?r) = None"
      by (simp_all add: session_id_from_headers_def csrf_cookie_value_def cookie_value_def cookie_find_def header_text_def
          header_def csrf_from_headers_def session_cookie_def anon_csrf_cookie_def)
  qed
  have q: "rq_query ?r = Some (lit ''csrf='' @ lit ''A'')" by (simp add: lit_def)
  have "resolve_auth demo_E ?r demo_auth = (Inr (base_auth ?r), demo_auth)" using h(1) by (simp add: resolve_auth_def exec)
  moreover have "b64_law (ax_b64 demo_E)" by (simp add: b64_law_def demo_E_def comp_def)
  moreover have "wa_csrf (base_auth ?r) = None" by (simp add: base_auth_def default_auth_def)
  moreover have "plain_token (lit ''A'')" by code_simp
  moreover have "submits ?r (lit ''A'')" using h(3) q unfolding submits_def by blast
  ultimately show ?thesis using own_forms_pass[of demo_E ?r demo_auth "base_auth ?r" demo_auth "lit ''A''" demo_handler] h(2)
    by auto
qed

theorem responses_are_hardened_witness:
  "\<exists>res w'. app_stack demo_E demo_headers demo_handler (demo_request GET [] None) demo_auth = (Inr res, w')
     \<and> only_header res ''permissions-policy'' (lit ''camera=(), microphone=(), geolocation=(self), interest-cohort=()'')
     \<and> response_header res ''x-robots-tag'' = None"
proof -
  let ?m = "app_stack demo_E demo_headers demo_handler (demo_request GET [] None) demo_auth"
  have m: "?m = (fst ?m, snd ?m)" by simp
  have "headers_law (rq_headers (demo_request GET [] None))" by (simp add: headers_law_def)
  note h = responses_are_hardened[OF this demo_csp_valid m]
  show ?thesis
  proof (cases "fst ?m")
    case (Inl p)
    with h show ?thesis by (auto simp: demo_handler_def exec)
  next
    case (Inr res)
    have "silent ''x-robots-tag'' (demo_handler :: (unit auth_world_scheme, account_page) web_handler)"
      by (auto simp: silent_def demo_handler_def exec response_header_def redirect_to_def)
    moreover have "\<not> is_private_path (rq_path (demo_request GET [] None))"
      by (simp add: is_private_path_def starts_with_def lit_def)
    ultimately have "only_header res ''permissions-policy'' (lit ''camera=(), microphone=(), geolocation=(self), interest-cohort=()'')
        \<and> response_header res ''x-robots-tag'' = None"
      using h by (simp add: Inr)
    with Inr m show ?thesis by (metis)
  qed
qed

text \<open>A wrong password and a text that is no address get the same page.\<close>

theorem failed_logins_look_alike_witness:
  "\<exists>page k k'. fst (login_post demo_E demo_config demo_notices (demo_form ''other'') default_auth (demo_request POST [] None) demo_auth)
       = Inr (page (b64_encode (ax_b64 demo_E) (block_of k)))
     \<and> fst (login_post demo_E demo_config demo_notices ((demo_form ''other'')\<lparr>lf_email := []\<rparr>) default_auth (demo_request POST [] None) demo_auth)
       = Inr (page (b64_encode (ax_b64 demo_E) (block_of k')))"
proof -
  let ?r = "demo_request POST [] None" and ?f = "demo_form ''other''" and ?g = "(demo_form ''other'')\<lparr>lf_email := []\<rparr>"
  have "fst (login demo_E (request_ip demo_config ?r) (lf_email ?f) (lf_password ?f) demo_auth) = Inl InvalidCredentials"
    using demo_refused by (simp add: demo_form_def)
  then obtain v where v: "login demo_E (request_ip demo_config ?r) (lf_email ?f) (lf_password ?f) demo_auth = (Inl InvalidCredentials, v)"
    by (metis prod.collapse)
  have "fst (login demo_E (request_ip demo_config ?r) (lf_email ?g) (lf_password ?g) demo_auth) = Inl InvalidCredentials"
  proof -
    have "parse_email (ax_lower demo_E) [] = Inl EmptyEmail"
      by (simp add: parse_email_def to_lowercase_def trim_def trim_start_def trim_end_def)
    then show ?thesis by (simp add: login_def exec)
  qed
  then obtain v' where v': "login demo_E (request_ip demo_config ?r) (lf_email ?g) (lf_password ?g) demo_auth = (Inl InvalidCredentials, v')"
    by (metis prod.collapse)
  obtain page where page: "\<forall>form a r w err v.
      lf_next form = lit ''/parking/7'' \<and> request_locale r = request_locale ?r \<and> wa_user a = None
      \<and> login demo_E (request_ip demo_config r) (lf_email form) (lf_password form) (w :: unit auth_world_scheme) = (Inl err, v) \<longrightarrow>
      (\<exists>k \<in> {drawn w, drawn w + 2}.
         fst (login_post demo_E demo_config demo_notices form a r w) = Inr (page (b64_encode (ax_b64 demo_E) (entropy w k))))"
    using failed_logins_look_alike[where nxt = "lit ''/parking/7''" and l = "request_locale ?r" and E = demo_E
      and cfg = demo_config and q = demo_notices and 'w = unit]
    by blast
  have "lf_next ?f = lit ''/parking/7''" "lf_next ?g = lit ''/parking/7''" "wa_user default_auth = None"
    by (simp_all add: demo_form_def default_auth_def)
  with page v v' show ?thesis by (metis demo_fields(3))
qed

theorem signed_in_after_login_witness:
  "\<exists>sess out w' a. login_post demo_E demo_config demo_notices (demo_form ''password12'') default_auth (demo_request POST [] None) demo_auth
       = (Inr out, w')
     \<and> fst (resolve_auth demo_E
         (demo_request GET [(lit ''cookie'', Text (session_cookie @ lit ''='' @ bytes_to_hex sess))] None)
         (w'\<lparr>now := now w', faults := []\<rparr>)) = Inr a
     \<and> wa_session a = Some sess"
proof -
  let ?r = "demo_request POST [] None" and ?f = "demo_form ''password12''"
  obtain o1 w' where o1: "login demo_E (request_ip demo_config ?r) (lf_email ?f) (lf_password ?f) demo_auth = (Inr o1, w')"
    using demo_login by (auto simp: demo_form_def)
  obtain out where p: "login_post demo_E demo_config demo_notices ?f default_auth ?r demo_auth = (Inr out, w')"
      "response_header out ''set-cookie'' = Some (set_session_cookie (lo_session o1))"
    using o1 by (auto simp: login_post_def exec Let_def redirect_with_cookie_def default_auth_def)
  obtain k where k: "lo_session o1 = block_of k" using login_session[OF o1] by (metis demo_fields(3))
  let ?r2 = "demo_request GET [(lit ''cookie'', Text (session_cookie @ lit ''='' @ bytes_to_hex (lo_session o1)))] None"
  have c: "header_text (rq_headers ?r2) ''cookie'' = Some (session_cookie @ lit ''='' @ bytes_to_hex (lo_session o1))"
    by (simp add: header_text_def header_def)
  have "\<exists>a. fst (resolve_auth demo_E ?r2 (w'\<lparr>now := now w', faults := []\<rparr>)) = Inr a \<and> wa_session a = Some (lo_session o1)"
    using signed_in_after_login[OF _ _ _ p c, of "now w'"] k
    by (auto simp: b64_law_def demo_E_def comp_def block_of_def days_def hours_def minutes_def seconds_def)
  with p(1) show ?thesis by blast
qed

end
