(* ===== verification/Search_Request.thy ===== *)
theory Search_Request
  imports Community_Service "HOL-Library.Product_Lexorder"
begin

text \<open>
  What a search asks for (\<open>application/src/ports.rs\<close>): sorts, filters, the opaque keyset
  cursor, the validated request and the map viewport of browse mode.

  Outside the repository, and so fields of \<open>search_externals\<close>: base64, serde's JSON printer
  and parser, the parsing of a number, the rounding of a floating-point result, the time
  zone database, the database's average of a column, and PostGIS' overlap of a point with a
  box and snapping to a grid.  A
  floating-point value is an exact rational or one of the three special values; it is
  ordered as PostgreSQL orders \<open>float8\<close>, with \<open>NaN\<close> last.
\<close>

section \<open>The order of float8\<close>

definition f64_rank :: "f64 \<Rightarrow> int \<times> rat" where
  "f64_rank x = (case x of NegInf \<Rightarrow> (0, 0) | Fin q \<Rightarrow> (1, q) | PosInf \<Rightarrow> (2, 0) | NaN \<Rightarrow> (3, 0))"

lemma f64_rank_inject: "f64_rank x = f64_rank y \<longleftrightarrow> x = y"
  by (cases x; cases y) (simp_all add: f64_rank_def)

instantiation f64 :: linorder
begin

definition less_eq_f64 :: "f64 \<Rightarrow> f64 \<Rightarrow> bool" where
  "less_eq_f64 x y \<longleftrightarrow> f64_rank x \<le> f64_rank y"

definition less_f64 :: "f64 \<Rightarrow> f64 \<Rightarrow> bool" where
  "less_f64 x y \<longleftrightarrow> f64_rank x < f64_rank y"

instance
proof
  fix x y :: f64
  assume "x \<le> y" "y \<le> x"
  then have "f64_rank x = f64_rank y" unfolding less_eq_f64_def by (rule antisym)
  then show "x = y" by (simp add: f64_rank_inject)
qed (auto simp: less_eq_f64_def less_f64_def intro: order_trans)

end

record search_externals =
  sx_geo :: geo_externals
  sx_b64 :: b64_codec
  sx_print :: "json \<Rightarrow> byte list"
  sx_parse :: "byte list \<Rightarrow> json option"
  sx_number :: "ustring \<Rightarrow> f64 option"
  sx_round :: "rat \<Rightarrow> rat"
  sx_local :: "ustring \<Rightarrow> int \<Rightarrow> int"
  sx_in_box :: "rat \<times> rat \<times> rat \<times> rat \<Rightarrow> geo_point \<Rightarrow> bool"
  sx_snap :: "rat \<Rightarrow> geo_point \<Rightarrow> int \<times> int"
  sx_mean :: "f64 list \<Rightarrow> f64"

section \<open>Criteria\<close>

definition radius_options_m :: "nat list" where "radius_options_m = [250, 500, 1000, 2000, 5000]"
definition default_page_size :: nat where "default_page_size = 20"
definition max_page_size :: nat where "max_page_size = 100"

datatype search_sort = Recommended | ByDistance | BySecurity | ByRating | ByVerification

definition search_sort_code :: "search_sort \<Rightarrow> ustring" where
  "search_sort_code s =
     (case s of Recommended \<Rightarrow> lit ''recommended'' | ByDistance \<Rightarrow> lit ''distance'' | BySecurity \<Rightarrow> lit ''security''
      | ByRating \<Rightarrow> lit ''rating'' | ByVerification \<Rightarrow> lit ''recently_verified'')"

definition search_sort_from :: "ustring \<Rightarrow> search_sort option" where
  "search_sort_from c =
     (if c = lit ''recommended'' then Some Recommended
      else if c = lit ''distance'' then Some ByDistance
      else if c = lit ''security'' then Some BySecurity
      else if c = lit ''rating'' then Some ByRating
      else if c = lit ''recently_verified'' then Some ByVerification else None)"

interpretation search_sort: code_enum search_sort_code search_sort_from
  by unfold_locales (auto simp: search_sort_code_def search_sort_from_def split: search_sort.splits if_splits)

datatype cost_filter = FilterFree | FilterPaid | FilterUnknown

definition cost_filter_from :: "ustring \<Rightarrow> cost_filter option" where
  "cost_filter_from c =
     (if c = lit ''free'' then Some FilterFree
      else if c = lit ''paid'' then Some FilterPaid
      else if c = lit ''unknown'' then Some FilterUnknown else None)"

definition cost_filter_matches :: "cost_filter \<Rightarrow> cost \<Rightarrow> bool" where
  "cost_filter_matches f c =
     (case (f, c) of (FilterFree, FreeCost) \<Rightarrow> True | (FilterPaid, PaidCost _) \<Rightarrow> True
      | (FilterUnknown, UnknownCost) \<Rightarrow> True | _ \<Rightarrow> False)"

record search_filters =
  fi_cost :: "cost_filter option"
  fi_types :: "parking_type list"
  fi_security_all :: "ustring list"
  fi_open_now :: bool

section \<open>Cursors\<close>

record search_cursor =
  cu_sort :: search_sort
  cu_v :: f64
  cu_id :: int

definition cursor_json :: "search_cursor \<Rightarrow> json" where
  "cursor_json c =
     JObject [(lit ''s'', JString (search_sort_code (cu_sort c))), (lit ''v'', json_of_f64 (cu_v c)), (lit ''id'', JInt (cu_id c))]"

definition cursor_encode :: "search_externals \<Rightarrow> search_cursor \<Rightarrow> ustring" where
  "cursor_encode X c = b64_encode (sx_b64 X) (sx_print X (cursor_json c))"

text \<open>\<open>Value::as_i64\<close> of an integer that fits.\<close>

definition as_i64 :: "json \<Rightarrow> int option" where
  "as_i64 j = (case j of JInt n \<Rightarrow> if - (2 ^ 63) \<le> n \<and> n < 2 ^ 63 then Some n else None | _ \<Rightarrow> None)"

definition cursor_decode :: "search_externals \<Rightarrow> ustring \<Rightarrow> search_cursor option" where
  "cursor_decode X raw =
     Option.bind (b64_decode (sx_b64 X) raw) (\<lambda>bytes.
     Option.bind (sx_parse X bytes) (\<lambda>j.
     Option.bind (Option.bind (Option.bind (jget (lit ''s'') j) as_str) search_sort_from) (\<lambda>s.
     Option.bind (Option.bind (jget (lit ''v'') j) as_f64) (\<lambda>v.
     Option.bind (Option.bind (jget (lit ''id'') j) as_i64) (\<lambda>i.
       Some \<lparr>cu_sort = s, cu_v = v, cu_id = i\<rparr>)))))"

section \<open>Input and validated request\<close>

record search_input =
  si_query :: "ustring option"
  si_lat :: "f64 option"
  si_lon :: "f64 option"
  si_radius_m :: "nat option"
  si_cost :: "ustring option"
  si_types :: "ustring option"
  si_security :: "ustring option"
  si_open_now :: bool
  si_sort :: "ustring option"
  si_page_size :: "nat option"
  si_cursor :: "ustring option"
  si_bbox :: "ustring option"

definition or_empty :: "ustring option \<Rightarrow> ustring" where
  "or_empty s = (case s of Some t \<Rightarrow> t | None \<Rightarrow> [])"

definition input_filters :: "search_input \<Rightarrow> search_filters" where
  "input_filters x =
     \<lparr>fi_cost = Option.bind (si_cost x) cost_filter_from,
      fi_types = List.map_filter (ok \<circ> parking_type_from) (split_on 44 (or_empty (si_types x))),
      fi_security_all = filter (\<lambda>s. s \<noteq> []) (map trim (split_on 44 (or_empty (si_security x)))),
      fi_open_now = si_open_now x\<rparr>"

record search_request =
  sq_origin :: geo_point
  sq_label :: "ustring option"
  sq_radius_m :: nat
  sq_filters :: search_filters
  sq_sort :: search_sort
  sq_page_size :: nat
  sq_cursor :: "search_cursor option"

definition search_request_new ::
  "search_externals \<Rightarrow> geo_point \<Rightarrow> ustring option \<Rightarrow> nat \<Rightarrow> search_filters \<Rightarrow> search_sort \<Rightarrow> nat \<Rightarrow> ustring option \<Rightarrow> search_request" where
  "search_request_new X origin label radius f srt psize cursor_raw =
     \<lparr>sq_origin = origin, sq_label = label,
      sq_radius_m = (if radius \<in> set radius_options_m then radius else default_radius_m),
      sq_filters =
        \<lparr>fi_cost = fi_cost f,
         fi_types = remdups_adj (sort_key parking_type_code (fi_types f)),
         fi_security_all = remdups_adj (sort (filter is_known_security_code (map trim (fi_security_all f)))),
         fi_open_now = fi_open_now f\<rparr>,
      sq_sort = srt,
      sq_page_size = max 1 (min max_page_size psize),
      sq_cursor =
        (case Option.bind cursor_raw (cursor_decode X) of
           Some c \<Rightarrow> if cu_sort c = srt then Some c else None | None \<Rightarrow> None)\<rparr>"

section \<open>Browse mode\<close>

definition browse_marker_cap :: nat where "browse_marker_cap = 200"
definition browse_list_cap :: nat where "browse_list_cap = 50"
definition max_browse_span_deg :: rat where "max_browse_span_deg = 1"
definition browse_grid_columns :: rat where "browse_grid_columns = 12"

text \<open>The bounds of a validated viewport are finite.\<close>

record bounds_query =
  bq_west :: rat
  bq_south :: rat
  bq_east :: rat
  bq_north :: rat
  bq_filters :: search_filters
  bq_limit :: nat

text \<open>The checks on four finite numbers.\<close>

definition viewport_ok :: "search_externals \<Rightarrow> rat \<Rightarrow> rat \<Rightarrow> rat \<Rightarrow> rat \<Rightarrow> bool" where
  "viewport_ok X w s e n \<longleftrightarrow>
     \<not> (\<bar>w\<bar> > 180 \<or> \<bar>e\<bar> > 180 \<or> \<bar>s\<bar> > 90 \<or> \<bar>n\<bar> > 90)
   \<and> \<not> (w \<ge> e \<or> s \<ge> n)
   \<and> \<not> (sx_round X (e - w) > max_browse_span_deg \<or> sx_round X (n - s) > max_browse_span_deg)"

definition bounds_parse :: "search_externals \<Rightarrow> ustring \<Rightarrow> search_filters \<Rightarrow> nat \<Rightarrow> bounds_query option" where
  "bounds_parse X raw f limit =
     (case those (map (sx_number X \<circ> trim) (split_on 44 raw)) of
        Some [Fin w, Fin s, Fin e, Fin n] \<Rightarrow>
          if viewport_ok X w s e n
          then Some \<lparr>bq_west = w, bq_south = s, bq_east = e, bq_north = n, bq_filters = f,
                     bq_limit = max 1 (min browse_marker_cap limit)\<rparr>
          else None
      | _ \<Rightarrow> None)"

text \<open>The midpoint; the code expects it to be a point of the globe and panics otherwise.\<close>

definition bounds_center :: "search_externals \<Rightarrow> bounds_query \<Rightarrow> geo_point outcome" where
  "bounds_center X q =
     (case geo_point_new (Fin (sx_round X (sx_round X (bq_south q + bq_north q) / 2)))
             (Fin (sx_round X (sx_round X (bq_west q + bq_east q) / 2))) of
        Inr p \<Rightarrow> Returned p | Inl _ \<Rightarrow> Panicked)"

definition cell_deg :: "search_externals \<Rightarrow> bounds_query \<Rightarrow> rat" where
  "cell_deg X q = sx_round X (sx_round X (bq_east q - bq_west q) / browse_grid_columns)"

section \<open>What the constructors guarantee\<close>

definition valid_request :: "search_request \<Rightarrow> bool" where
  "valid_request r \<longleftrightarrow>
     sq_radius_m r \<in> set radius_options_m \<and> 1 \<le> sq_page_size r \<and> sq_page_size r \<le> max_page_size
   \<and> distinct (fi_types (sq_filters r))
   \<and> (\<forall>c \<in> set (fi_security_all (sq_filters r)). is_known_security_code c)
   \<and> (case sq_cursor r of Some c \<Rightarrow> cu_sort c = sq_sort r | None \<Rightarrow> True)"

lemma remdups_adj_sorted_key:
  "sorted (map f xs) \<Longrightarrow> inj f \<Longrightarrow> distinct (remdups_adj xs)"
  for f :: "'a \<Rightarrow> 'b :: linorder"
proof (induction xs rule: remdups_adj.induct)
  case (3 x y xs)
  show ?case
  proof (cases "x = y")
    case False
    then have "f x < f y" using "3.prems" by (auto simp: order_less_le dest: injD)
    then have "x \<notin> set (y # xs)" using "3.prems"(1) by (auto dest: leD)
    with False "3.IH"(2) "3.prems" show ?thesis by simp
  qed (use "3.IH"(1) "3.prems" in simp)
qed simp_all

lemma parking_type_code_inj: "inj parking_type_code"
  by (rule injI) (auto simp: parking_type_code_def split: parking_type.splits)

lemma search_request_valid: "valid_request (search_request_new X origin label radius f srt psize raw)"
  unfolding valid_request_def search_request_new_def
  by (auto simp: radius_options_m_def default_radius_m_def max_page_size_def
       intro!: remdups_adj_sorted_key[of parking_type_code] parking_type_code_inj split: option.splits if_splits)

text \<open>Rounding keeps the order and the whole degrees that bound the globe.\<close>

definition rounding_law :: "(rat \<Rightarrow> rat) \<Rightarrow> bool" where
  "rounding_law fl \<longleftrightarrow> mono fl \<and> (\<forall>q \<in> {- 360, - 180, - 90, 90, 180, 360}. fl q = q)"

lemma rounded_within:
  assumes fl: "rounding_law fl" and b: "b \<in> {90, 180, 360}" and x: "\<bar>x\<bar> \<le> b"
  shows "\<bar>fl x\<bar> \<le> b"
proof -
  have m: "mono fl" and e: "fl b = b" "fl (- b) = - b" using fl b unfolding rounding_law_def by auto
  have "- b \<le> x" "x \<le> b" using x by auto
  then have "fl (- b) \<le> fl x" "fl x \<le> fl b" using m by (simp_all only: monoD)
  then show ?thesis unfolding e by simp
qed

lemma midpoint_within:
  assumes fl: "rounding_law fl" and b: "b = 90 \<or> b = 180" and xy: "\<bar>x\<bar> \<le> b" "\<bar>y\<bar> \<le> b"
  shows "\<bar>fl (fl (x + y) / 2)\<bar> \<le> b"
proof -
  have "\<bar>x + y\<bar> \<le> 2 * b" using xy by linarith
  then have "\<bar>fl (x + y)\<bar> \<le> 2 * b" using b by (intro rounded_within[OF fl]) auto
  then show ?thesis using b by (intro rounded_within[OF fl]) auto
qed

lemma bounds_center_returns:
  assumes "rounding_law (sx_round X)" "bounds_parse X raw f limit = Some q"
  shows "\<exists>p. bounds_center X q = Returned p"
proof -
  from assms(2) have v: "viewport_ok X (bq_west q) (bq_south q) (bq_east q) (bq_north q)"
    by (auto simp: bounds_parse_def split: option.splits list.splits f64.splits if_splits)
  have "\<bar>sx_round X (sx_round X (bq_south q + bq_north q) / 2)\<bar> \<le> 90"
       "\<bar>sx_round X (sx_round X (bq_west q + bq_east q) / 2)\<bar> \<le> 180"
    using v by (auto simp: viewport_ok_def intro!: midpoint_within[OF assms(1)])
  then show ?thesis by (simp add: bounds_center_def geo_point_new_def f64_within_def abs_le_iff)
qed

end
