(* ===== verification/Search_Store.thy ===== *)
theory Search_Store
  imports Search_Request
begin

text \<open>
  The search repository (\<open>infrastructure/src/parking/search.rs\<close>): the rule that decides whether
  a location matches, the five sort keys, a keyset page with its count, and the viewport of
  browse mode as rows or as clusters; and the readers of photos and of the sitemap beside
  it (\<open>parking/photos.rs, sitemap.rs\<close>).

  A statement's candidate rows are carried as rows of the table, since \<open>id\<close> is its primary key.
  Floating-point expressions of the SQL are written out with \<open>sx_round\<close> at every operation;
  texts are ordered by code point.
\<close>

section \<open>Matching\<close>

text \<open>The binds that mean "no such filter" are \<open>None\<close>.\<close>

definition filter_binds :: "search_filters \<Rightarrow> ustring option \<times> ustring list option \<times> ustring list option" where
  "filter_binds f =
     (map_option (\<lambda>c. case c of FilterFree \<Rightarrow> lit ''free'' | FilterPaid \<Rightarrow> lit ''paid'' | FilterUnknown \<Rightarrow> lit ''unknown'')
        (fi_cost f),
      if fi_types f \<noteq> [] then Some (map parking_type_code (fi_types f)) else None,
      if fi_security_all f \<noteq> [] then Some (fi_security_all f) else None)"

text \<open>\<open>bikesnest_is_open_at\<close>: the location's rows at the wall clock of its zone.\<close>

definition open_rows :: "'w content_world_scheme \<Rightarrow> int \<Rightarrow> (nat \<times> time_range) list" where
  "open_rows w i =
     map (\<lambda>h. (nat (hr_day h), \<lparr>opens_at = hr_opens h, closes_at = hr_closes h, all_day = hr_all_day h\<rparr>))
       (filter (\<lambda>h. hr_location h = i) (hours_table w))"

definition is_open_row :: "search_externals \<Rightarrow> 'w content_world_scheme \<Rightarrow> int \<Rightarrow> location_row \<Rightarrow> bool" where
  "is_open_row X w t l \<longleftrightarrow> sql_is_open_at (open_rows w (lr_id l)) (sx_local X (lr_timezone l)) t"

definition security_confirmed :: "'w content_world_scheme \<Rightarrow> int \<Rightarrow> ustring \<Rightarrow> bool" where
  "security_confirmed w i code \<longleftrightarrow>
     (\<exists>s \<in> set (security_table w). se_location s = i \<and> se_code s = code \<and> se_state s = 1)"

text \<open>The two filter texts differ only in the area.\<close>

definition row_matches ::
  "search_externals \<Rightarrow> search_filters \<Rightarrow> int \<Rightarrow> (location_row \<Rightarrow> bool) \<Rightarrow> 'w content_world_scheme \<Rightarrow> location_row \<Rightarrow> bool" where
  "row_matches X f t area w l \<longleftrightarrow>
     (let (c, types, security_all) = filter_binds f in
        lr_state l = lit ''ACTIVE''
      \<and> area l
      \<and> (case c of None \<Rightarrow> True | Some k \<Rightarrow> lr_cost_kind l = k)
      \<and> (case types of None \<Rightarrow> True | Some ts \<Rightarrow> lr_type l \<in> set ts)
      \<and> (\<not> fi_open_now f \<or> is_open_row X w t l)
      \<and> (case security_all of None \<Rightarrow> True | Some cs \<Rightarrow> \<forall>code \<in> set cs. security_confirmed w (lr_id l) code))"

definition in_radius :: "search_externals \<Rightarrow> search_request \<Rightarrow> location_row \<Rightarrow> bool" where
  "in_radius X r l \<longleftrightarrow> gx_distance (sx_geo X) (row_point l) (sq_origin r) \<le> of_nat (sq_radius_m r)"

definition in_viewport :: "search_externals \<Rightarrow> bounds_query \<Rightarrow> location_row \<Rightarrow> bool" where
  "in_viewport X q l \<longleftrightarrow> sx_in_box X (bq_west q, bq_south q, bq_east q, bq_north q) (row_point l)"

definition search_matching :: "search_externals \<Rightarrow> search_request \<Rightarrow> int \<Rightarrow> 'w content_world_scheme \<Rightarrow> location_row list" where
  "search_matching X r t w = filter (row_matches X (sq_filters r) t (in_radius X r) w) (locations w)"

definition bounds_matching :: "search_externals \<Rightarrow> bounds_query \<Rightarrow> int \<Rightarrow> 'w content_world_scheme \<Rightarrow> location_row list" where
  "bounds_matching X q t w = filter (row_matches X (bq_filters q) t (in_viewport X q) w) (locations w)"

section \<open>Sort keys\<close>

record recommendation_config =
  w_distance :: rat
  w_security :: rat
  w_rating :: rat
  w_freshness :: rat
  w_verification :: rat

definition default_recommendation_config :: "search_externals \<Rightarrow> recommendation_config" where
  "default_recommendation_config X =
     \<lparr>w_distance = sx_round X (35 / 100), w_security = sx_round X (25 / 100), w_rating = sx_round X (20 / 100),
      w_freshness = sx_round X (15 / 100), w_verification = sx_round X (5 / 100)\<rparr>"

record search_config =
  sc_weights :: recommendation_config
  sc_thresholds :: freshness_thresholds

definition security_yes :: "'w content_world_scheme \<Rightarrow> int \<Rightarrow> nat" where
  "security_yes w i = length (filter (\<lambda>s. se_location s = i \<and> se_state s = 1) (security_table w))"

definition trunc :: "rat \<Rightarrow> int" where
  "trunc q = (if q < 0 then \<lceil>q\<rceil> else \<lfloor>q\<rfloor>)"

text \<open>Seconds as \<open>float8\<close>, and whole days since the verification, never negative.\<close>

definition epoch :: "search_externals \<Rightarrow> int \<Rightarrow> rat" where
  "epoch X us = sx_round X (of_int us / 1000000)"

definition freshness_days :: "search_externals \<Rightarrow> int \<Rightarrow> int \<Rightarrow> int" where
  "freshness_days X t verified = max (trunc (sx_round X (epoch X (t - verified) / 86400))) 0"

definition distance_score :: "search_externals \<Rightarrow> search_request \<Rightarrow> location_row \<Rightarrow> rat" where
  "distance_score X r l =
     sx_round X (1 - min (max (sx_round X (gx_distance (sx_geo X) (row_point l) (sq_origin r) / of_nat (sq_radius_m r))) 0) 1)"

definition security_score :: "search_externals \<Rightarrow> nat \<Rightarrow> rat" where
  "security_score X yes = (if 0 < yes then min (sx_round X (of_nat yes / 8)) 1 else 1 / 2)"

definition rating_score :: "search_externals \<Rightarrow> location_row \<Rightarrow> rat" where
  "rating_score X l =
     (case lr_rating_avg l of None \<Rightarrow> 1 / 2 | Some n \<Rightarrow> sx_round X (sx_round X (of_int n / 100) / 5))"

definition freshness_score :: "search_externals \<Rightarrow> freshness_thresholds \<Rightarrow> int \<Rightarrow> location_row \<Rightarrow> rat" where
  "freshness_score X th t l =
     (case lr_verified_at l of
        None \<Rightarrow> 1 / 2
      | Some v \<Rightarrow>
          (let d = freshness_days X t v in
           if d < fresh_days th then 1
           else if d < recent_days th then 3 / 4
           else if d < aging_days th then 1 / 2
           else if d < stale_days th then 1 / 4 else sx_round X (1 / 10)))"

definition verification_score :: "location_row \<Rightarrow> rat" where
  "verification_score l = (case lr_verified_at l of None \<Rightarrow> 1 / 2 | Some _ \<Rightarrow> 1)"

definition recommended_score :: "search_externals \<Rightarrow> search_config \<Rightarrow> search_request \<Rightarrow> int \<Rightarrow> nat \<Rightarrow> location_row \<Rightarrow> rat" where
  "recommended_score X cfg r t yes l =
     (let fl = sx_round X; w = sc_weights cfg in
      fl (fl (fl (fl (fl (w_distance w * distance_score X r l)
                    + fl (w_security w * security_score X yes))
                + fl (w_rating w * rating_score X l))
            + fl (w_freshness w * freshness_score X (sc_thresholds cfg) t l))
        + fl (w_verification w * verification_score l)))"

text \<open>Every key is ascending: the distance keeps its value, the others are negated.\<close>

definition sort_key_of ::
  "search_externals \<Rightarrow> search_config \<Rightarrow> search_request \<Rightarrow> int \<Rightarrow> 'w content_world_scheme \<Rightarrow> location_row \<Rightarrow> f64" where
  "sort_key_of X cfg r t w l =
     Fin (case sq_sort r of
            ByDistance \<Rightarrow> gx_knn (sx_geo X) (row_point l) (sq_origin r)
          | BySecurity \<Rightarrow> - of_nat (security_yes w (lr_id l))
          | ByRating \<Rightarrow> - (case lr_rating_avg l of Some n \<Rightarrow> sx_round X (of_int n / 100) | None \<Rightarrow> 5 / 2)
          | ByVerification \<Rightarrow> - (case lr_verified_at l of Some v \<Rightarrow> epoch X v | None \<Rightarrow> 0)
          | Recommended \<Rightarrow> - recommended_score X cfg r t (security_yes w (lr_id l)) l)"

section \<open>Rows and their decoding\<close>

record search_row =
  sr_location :: location_row
  sr_distance :: rat
  sr_codes :: "ustring list"
  sr_is_open :: bool
  sr_photo :: "ustring option"
  sr_sort_key :: "f64 option"

record parking_summary =
  sm_id :: int
  sm_name :: ustring
  sm_address :: ustring
  sm_type :: parking_type
  sm_cost :: cost
  sm_point :: geo_point
  sm_distance_m :: f64
  sm_security_yes :: "ustring list"
  sm_rating :: rating
  sm_verified_at :: "int option"
  sm_timezone :: ustring
  sm_open_now :: bool
  sm_photo_key :: "ustring option"
  sm_sort_key :: "f64 option"

definition cost_of :: "location_row \<Rightarrow> ('s, reader_error, cost) m" where
  "cost_of l = bindM (price_of l) (\<lambda>price. expectD (cost_from_kind_and_price (lr_cost_kind l) price))"

definition summary_of :: "geo_externals \<Rightarrow> search_row \<Rightarrow> ('s, reader_error, parking_summary) m" where
  "summary_of G row =
     (let l = sr_location row in
      thenM (requireM (gx_tz_known G (lr_timezone l)) (ReaderUnexpected (lit ''bad timezone '' @ lr_timezone l))) (
      bindM (cost_of l) (\<lambda>c.
      bindM (expectD (parking_type_from (lr_type l))) (\<lambda>ty.
      bindM (expectD (geo_point_new (lr_lat l) (lr_lon l))) (\<lambda>pt.
      bindM (expectD (rating_new (rating_of_hundredths (lr_rating_avg l)) (lr_rating_count l))) (\<lambda>rt.
        retM \<lparr>sm_id = lr_id l, sm_name = lr_name l, sm_address = lr_address l, sm_type = ty, sm_cost = c,
              sm_point = pt, sm_distance_m = Fin (sr_distance row), sm_security_yes = sr_codes row, sm_rating = rt,
              sm_verified_at = lr_verified_at l, sm_timezone = lr_timezone l, sm_open_now = sr_is_open row,
              sm_photo_key = sr_photo row, sm_sort_key = sr_sort_key row\<rparr>))))))"

text \<open>Approved photos in display order.\<close>

definition approved_photos :: "'w content_world_scheme \<Rightarrow> int \<Rightarrow> parking_photo_row list" where
  "approved_photos w i =
     sort_key (\<lambda>p. sint (ph_position p)) (sort_key ph_id
       (filter (\<lambda>p. ph_parent p = i \<and> ph_state p = lit ''APPROVED'') (parking_photos w)))"

text \<open>The laterals that decorate a row of the page.\<close>

definition confirmed_codes :: "'w content_world_scheme \<Rightarrow> int \<Rightarrow> ustring list" where
  "confirmed_codes w i = sort (map se_code (filter (\<lambda>s. se_location s = i \<and> se_state s = 1) (security_table w)))"

definition decorate ::
  "search_externals \<Rightarrow> geo_point \<Rightarrow> int \<Rightarrow> 'w content_world_scheme \<Rightarrow> f64 option \<Rightarrow> location_row \<Rightarrow> search_row" where
  "decorate X origin t w k l =
     \<lparr>sr_location = l, sr_distance = gx_distance (sx_geo X) (row_point l) origin,
      sr_codes = confirmed_codes w (lr_id l), sr_is_open = is_open_row X w t l,
      sr_photo = (case approved_photos w (lr_id l) of [] \<Rightarrow> None | p # _ \<Rightarrow> Some (ph_key p)), sr_sort_key = k\<rparr>"

section \<open>Radius search\<close>

definition search_candidates :: "(location_row \<Rightarrow> f64) \<Rightarrow> (f64 \<times> int) option \<Rightarrow> location_row list \<Rightarrow> location_row list" where
  "search_candidates k after rows =
     sort_key (\<lambda>l. (k l, lr_id l))
       (filter (\<lambda>l. case after of None \<Rightarrow> True | Some c \<Rightarrow> c < (k l, lr_id l)) rows)"

definition search_count :: "search_externals \<Rightarrow> search_request \<Rightarrow> int \<Rightarrow> ('w content_world_scheme, reader_error, int) m" where
  "search_count X r t = query reader_of_db (\<lambda>w. int (length (search_matching X r t w)))"

definition search_rows ::
  "search_externals \<Rightarrow> search_config \<Rightarrow> search_request \<Rightarrow> int \<Rightarrow> search_cursor option \<Rightarrow> nat
   \<Rightarrow> ('w content_world_scheme, reader_error, parking_summary list) m" where
  "search_rows X cfg r t cursor limit =
     bindM (query reader_of_db (\<lambda>w.
       let k = sort_key_of X cfg r t w in
       map (\<lambda>l. decorate X (sq_origin r) t w (Some (k l)) l)
         (take limit (search_candidates k (map_option (\<lambda>c. (cu_v c, cu_id c)) cursor) (search_matching X r t w)))))
     (mapM (summary_of (sx_geo X)))"

record search_page =
  pg_items :: "parking_summary list"
  pg_total :: int
  pg_next :: "search_cursor option"

definition search_at ::
  "search_externals \<Rightarrow> search_config \<Rightarrow> search_request \<Rightarrow> nat \<Rightarrow> bool \<Rightarrow> int \<Rightarrow> ('w content_world_scheme, reader_error, search_page) m" where
  "search_at X cfg r limit apply_cursor t =
     bindM (search_count X r t) (\<lambda>total.
     bindM (search_rows X cfg r t (if apply_cursor then sq_cursor r else None) limit) (\<lambda>items.
       retM \<lparr>pg_items = items, pg_total = total, pg_next = None\<rparr>))"

definition search_read ::
  "search_externals \<Rightarrow> search_config \<Rightarrow> search_request \<Rightarrow> nat \<Rightarrow> bool \<Rightarrow> ('w content_world_scheme, reader_error, search_page) m" where
  "search_read X cfg r limit apply_cursor = bindM (getM now) (search_at X cfg r limit apply_cursor)"

section \<open>Browse mode\<close>

record cluster =
  cl_lat :: f64
  cl_lon :: f64
  cl_count :: int

record bounds_page =
  bp_items :: "parking_summary list"
  bp_total :: nat
  bp_clusters :: "cluster list"

definition bounds_count :: "search_externals \<Rightarrow> bounds_query \<Rightarrow> int \<Rightarrow> ('w content_world_scheme, reader_error, int) m" where
  "bounds_count X q t = query reader_of_db (\<lambda>w. int (length (bounds_matching X q t w)))"

text \<open>The rows nearest the centre; computing the centre can panic.\<close>

definition bounds_rows ::
  "search_externals \<Rightarrow> bounds_query \<Rightarrow> int \<Rightarrow> ('w content_world_scheme, reader_error, parking_summary list outcome) m" where
  "bounds_rows X q t =
     (case bounds_center X q of
        Panicked \<Rightarrow> retM Panicked
      | Returned center \<Rightarrow>
          bindM (query reader_of_db (\<lambda>w.
            map (decorate X center t w None)
              (take (bq_limit q)
                (search_candidates (\<lambda>l. Fin (gx_distance (sx_geo X) (row_point l) center)) None (bounds_matching X q t w)))))
          (\<lambda>rows. bindM (mapM (summary_of (sx_geo X)) rows) (\<lambda>items. retM (Returned items))))"

text \<open>One cluster per cell of the grid: the mean position of its members and their number.\<close>

definition cell_of :: "search_externals \<Rightarrow> bounds_query \<Rightarrow> location_row \<Rightarrow> int \<times> int" where
  "cell_of X q l = sx_snap X (cell_deg X q) (row_point l)"

definition clusters_of :: "search_externals \<Rightarrow> bounds_query \<Rightarrow> location_row list \<Rightarrow> cluster list" where
  "clusters_of X q rows =
     sort_key (\<lambda>c. (- cl_count c, cl_lat c, cl_lon c))
       (map (\<lambda>cell. let members = filter (\<lambda>l. cell_of X q l = cell) rows in
                    \<lparr>cl_lat = sx_mean X (map lr_lat members), cl_lon = sx_mean X (map lr_lon members),
                     cl_count = int (length members)\<rparr>)
         (remdups (map (cell_of X q) rows)))"

definition bounds_clusters :: "search_externals \<Rightarrow> bounds_query \<Rightarrow> int \<Rightarrow> ('w content_world_scheme, reader_error, cluster list) m" where
  "bounds_clusters X q t = query reader_of_db (\<lambda>w. clusters_of X q (bounds_matching X q t w))"

definition in_bounds_at ::
  "search_externals \<Rightarrow> bounds_query \<Rightarrow> int \<Rightarrow> ('w content_world_scheme, reader_error, bounds_page outcome) m" where
  "in_bounds_at X q t =
     bindM (bounds_count X q t) (\<lambda>total.
       if bq_limit q < nat total
       then bindM (bounds_clusters X q t) (\<lambda>cs. retM (Returned \<lparr>bp_items = [], bp_total = nat total, bp_clusters = cs\<rparr>))
       else bindM (bounds_rows X q t) (\<lambda>res. case res of
              Panicked \<Rightarrow> retM Panicked
            | Returned items \<Rightarrow> retM (Returned \<lparr>bp_items = items, bp_total = nat total, bp_clusters = []\<rparr>)))"

definition in_bounds :: "search_externals \<Rightarrow> bounds_query \<Rightarrow> ('w content_world_scheme, reader_error, bounds_page outcome) m" where
  "in_bounds X q = bindM (getM now) (in_bounds_at X q)"

section \<open>Photos and sitemap\<close>

definition location_photos :: "int \<Rightarrow> ('w content_world_scheme, reader_error, stored_photo list) m" where
  "location_photos i =
     query reader_of_db (\<lambda>w. map (\<lambda>p. \<lparr>sp_key = ph_key p, sp_thumbnail = ph_thumbnail p,
       sp_content_type = ph_content_type p, sp_alt = ph_alt p\<rparr>) (approved_photos w i))"

definition active_parking_ids :: "('w content_world_scheme, reader_error, int list) m" where
  "active_parking_ids = query reader_of_db (\<lambda>w. sort (map lr_id (filter (\<lambda>l. lr_state l = lit ''ACTIVE'') (locations w))))"

end
