(* ===== verification/Search_Service.thy ===== *)
theory Search_Service
  imports Search_Store
begin

text \<open>
  The search use cases (\<open>application/src/search.rs\<close>): a page around a destination, the map
  viewport, and the details of a location.  The geocoder is a port, the parameter \<open>geocode\<close>.
\<close>

section \<open>Searching around a destination\<close>

record geo_hit =
  gh_label :: ustring
  gh_point :: geo_point

datatype geocode_error = GeocoderUnavailable | GeocoderUnexpected ustring

type_synonym 'w geocoder = "ustring \<Rightarrow> ('w, geocode_error, geo_hit option) m"

datatype search_error =
  MissingDestination | InvalidOrigin | InvalidBounds | BoundsNotPaginated
  | SearchGeocode geocode_error | SearchRead reader_error

text \<open>The origin: explicit coordinates win over the query.\<close>

definition search_query :: "search_input \<Rightarrow> ustring option" where
  "search_query x =
     (case map_option trim (si_query x) of Some q \<Rightarrow> if q = [] then None else Some q | None \<Rightarrow> None)"

definition resolve_origin ::
  "('w content_world_scheme) geocoder \<Rightarrow> search_input \<Rightarrow> ('w content_world_scheme, search_error, geo_point \<times> geo_hit option) m" where
  "resolve_origin geocode x =
     (case (si_lat x, si_lon x) of
        (Some lat, Some lon) \<Rightarrow>
          (case geo_point_new lat lon of Inl _ \<Rightarrow> throwM InvalidOrigin | Inr p \<Rightarrow> retM (p, None))
      | _ \<Rightarrow>
          (case search_query x of
             None \<Rightarrow> throwM MissingDestination
           | Some q \<Rightarrow>
               bindM (mapErrM SearchGeocode (geocode q)) (\<lambda>found. case found of
                 None \<Rightarrow> throwM MissingDestination
               | Some hit \<Rightarrow> retM (gh_point hit, Some hit))))"

definition request_of :: "search_externals \<Rightarrow> search_input \<Rightarrow> geo_point \<Rightarrow> geo_hit option \<Rightarrow> search_request" where
  "request_of X x origin hit =
     search_request_new X origin
       (case hit of Some h \<Rightarrow> Some (gh_label h) | None \<Rightarrow> search_query x)
       (case si_radius_m x of Some m \<Rightarrow> m | None \<Rightarrow> default_radius_m)
       (input_filters x)
       (case Option.bind (si_sort x) search_sort_from of Some s \<Rightarrow> s | None \<Rightarrow> Recommended)
       (case si_page_size x of Some n \<Rightarrow> n | None \<Rightarrow> default_page_size)
       (si_cursor x)"

definition resolve_search ::
  "search_externals \<Rightarrow> ('w content_world_scheme) geocoder \<Rightarrow> search_input
   \<Rightarrow> ('w content_world_scheme, search_error, search_request \<times> geo_hit option) m" where
  "resolve_search X geocode x =
     bindM (resolve_origin geocode x) (\<lambda>(p, hit). retM (request_of X x p hit, hit))"

text \<open>One row more than the page is read; the last row shown gives the next cursor, and a row
  without a sort key panics.\<close>

definition cut_page :: "search_request \<Rightarrow> search_page \<Rightarrow> search_page outcome" where
  "cut_page r page =
     (if length (pg_items page) > sq_page_size r
      then (let items = take (sq_page_size r) (pg_items page) in
            if items = [] then Panicked
            else (case sm_sort_key (last items) of
                    None \<Rightarrow> Panicked
                  | Some v \<Rightarrow> Returned \<lparr>pg_items = items, pg_total = pg_total page,
                        pg_next = Some \<lparr>cu_sort = sq_sort r, cu_v = v, cu_id = sm_id (last items)\<rparr>\<rparr>))
      else Returned \<lparr>pg_items = pg_items page, pg_total = pg_total page, pg_next = None\<rparr>)"

definition page_of ::
  "search_externals \<Rightarrow> search_config \<Rightarrow> search_request \<Rightarrow> ('w content_world_scheme, search_error, search_page outcome) m" where
  "page_of X cfg r =
     bindM (mapErrM SearchRead (search_read X cfg r (sq_page_size r + 1) True)) (\<lambda>page. retM (cut_page r page))"

definition search_execute ::
  "search_externals \<Rightarrow> search_config \<Rightarrow> ('w content_world_scheme) geocoder \<Rightarrow> search_input
   \<Rightarrow> ('w content_world_scheme, search_error, (search_page \<times> geo_hit option) outcome) m" where
  "search_execute X cfg geocode x =
     bindM (resolve_search X geocode x) (\<lambda>(r, hit).
     bindM (page_of X cfg r) (\<lambda>page. case page of
         Panicked \<Rightarrow> retM Panicked
       | Returned p \<Rightarrow> retM (Returned (p, hit))))"

section \<open>Browsing the map\<close>

definition browse_map ::
  "search_externals \<Rightarrow> search_input \<Rightarrow> ('w content_world_scheme, search_error, (bounds_query \<times> bounds_page) outcome) m" where
  "browse_map X x =
     thenM (requireM (case si_cursor x of Some c \<Rightarrow> trim c = [] | None \<Rightarrow> True) BoundsNotPaginated) (
     bindM (okOrM InvalidBounds (bounds_parse X (or_empty (si_bbox x)) (input_filters x) browse_marker_cap)) (\<lambda>q.
     bindM (mapErrM SearchRead (in_bounds X q)) (\<lambda>res. case res of
         Panicked \<Rightarrow> retM Panicked
       | Returned page \<Rightarrow> retM (Returned (q, page)))))"

section \<open>The details page\<close>

record details_view =
  dv_location :: parking_location
  dv_freshness :: freshness
  dv_open_now :: open_status

definition parking_details ::
  "search_externals \<Rightarrow> freshness_thresholds \<Rightarrow> int \<Rightarrow> ('w content_world_scheme, reader_error, details_view option) m" where
  "parking_details X th i =
     bindM (details (sx_geo X) i) (\<lambda>found. case found of
       None \<Rightarrow> retM None
     | Some l \<Rightarrow>
         bindM (getM now) (\<lambda>t.
           retM (Some \<lparr>dv_location = l, dv_freshness = categorize (pl_verified_at l) t th,
                       dv_open_now = status_at (pl_hours l) (sx_local X (pl_timezone l)) t\<rparr>)))"

end
