(* ===== verification/Search_Paging.thy ===== *)
theory Search_Paging
  imports Search_Service Content_Decoding
begin

text \<open>
  What a search returns: every row shown matches the filters the way the domain reads
  them, the card's open flag is the details page's, the pages of one search
  are disjoint and together complete when cursors survive their encoding, and a viewport is
  answered by bounded rows or by clusters that count everything.
\<close>

section \<open>What a row shows\<close>

text \<open>\<open>shown row s\<close>: the summary is the row decoded.\<close>

definition shown :: "search_row \<Rightarrow> parking_summary \<Rightarrow> bool" where
  "shown row s \<longleftrightarrow>
     (let l = sr_location row in
        sm_id s = lr_id l \<and> sm_name s = lr_name l \<and> parking_type_code (sm_type s) = lr_type l
      \<and> cost_kind_code (sm_cost s) = lr_cost_kind l \<and> sm_point s = row_point l
      \<and> sm_distance_m s = Fin (sr_distance row) \<and> sm_security_yes s = sr_codes row
      \<and> sm_open_now s = sr_is_open row \<and> sm_sort_key s = sr_sort_key row)"

lemma expectD_InrE:
  assumes "expectD r w = (Inr a, w')"
  obtains "r = Inr a" "w' = w"
  using assms unfolding expectD_def by (elim mapErrM_InrE liftR_InrE)

lemma cost_from_kind: "cost_from_kind_and_price k p = Inr c \<Longrightarrow> cost_kind_code c = k"
  by (auto simp: cost_from_kind_and_price_def cost_kind_code_def split: if_splits)

lemma price_of_pure: "price_of l w = (Inr p, w') \<Longrightarrow> w' = w"
  unfolding price_of_def by (auto split: option.splits elim!: InrEs expectD_InrE)

lemma summary_of_shown:
  assumes "summary_of G row w = (Inr s, w')"
  shows "w' = w \<and> shown row s"
proof -
  from assms have c: "cost_kind_code (sm_cost s) = lr_cost_kind (sr_location row)"
      "parking_type_from (lr_type (sr_location row)) = Inr (sm_type s)"
      "geo_point_new (lr_lat (sr_location row)) (lr_lon (sr_location row)) = Inr (sm_point s)"
    and s: "w' = w" "sm_id s = lr_id (sr_location row)" "sm_name s = lr_name (sr_location row)"
      "sm_distance_m s = Fin (sr_distance row)" "sm_security_yes s = sr_codes row" "sm_open_now s = sr_is_open row"
      "sm_sort_key s = sr_sort_key row"
    unfolding summary_of_def cost_of_def Let_def
    by (auto elim!: InrEs expectD_InrE dest!: price_of_pure intro: cost_from_kind)
  have "parking_type_code (sm_type s) = lr_type (sr_location row)"
    using c(2) parking_type.as_from[of "lr_type (sr_location row)" "sm_type s"] by (simp add: ok_eq_Some)
  moreover have "sm_point s = row_point (sr_location row)"
    using c(3) by (auto simp: geo_point_new_def row_point_def split: if_splits)
  ultimately show ?thesis using c(1) s by (simp add: shown_def Let_def)
qed

lemma summaries_shown:
  "mapM (summary_of G) rows w = (Inr ss, w') \<Longrightarrow> w' = w \<and> list_all2 shown rows ss"
proof (induction rows arbitrary: ss)
  case (Cons row rows)
  from Cons.prems obtain s w1 ss' where s: "summary_of G row w = (Inr s, w1)"
    "mapM (summary_of G) rows w1 = (Inr ss', w')" "ss = s # ss'"
    by (auto elim!: bindM_InrE retM_InrE)
  then show ?case using summary_of_shown[OF s(1)] Cons.IH by auto
qed (auto elim: retM_InrE)

lemma summary_decodes:
  assumes "row_decodes G (sr_location row)"
  shows "\<exists>s. summary_of G row = (retM s :: ('s, reader_error, parking_summary) m)"
proof -
  from assms obtain c ty where c: "storable_cost c"
      "cost_parts c = (lr_cost_kind (sr_location row), lr_cents (sr_location row), lr_currency (sr_location row), lr_unit (sr_location row))"
      "lr_type (sr_location row) = parking_type_code ty"
    and l: "gx_tz_known G (lr_timezone (sr_location row))" "wf_geo_point (row_point (sr_location row))"
      "0 \<le> lr_rating_count (sr_location row)"
      "case lr_rating_avg (sr_location row) of None \<Rightarrow> True | Some n \<Rightarrow> 0 \<le> n \<and> n \<le> 500"
    by (auto simp: row_decodes_def)
  obtain r where "rating_new (rating_of_hundredths (lr_rating_avg (sr_location row))) (lr_rating_count (sr_location row)) = Inr r"
    using rating_decodes[OF l(3,4)] by blast
  then show ?thesis
    using l(1) by (simp add: summary_of_def cost_of_def Let_def price_decodes[OF c(1,2)] requireM_def thenM_def expectD_Inr
        code_decodes c(3) point_decodes[OF l(2)])
qed

lemma summaries_decode:
  "\<forall>row \<in> set rows. row_decodes G (sr_location row) \<Longrightarrow>
   \<exists>ss. mapM (summary_of G) rows = (retM ss :: ('s, reader_error, parking_summary list) m) \<and> list_all2 shown rows ss"
proof (induction rows)
  case (Cons row rows)
  then obtain ss where ss: "mapM (summary_of G) rows = (retM ss :: ('s, reader_error, parking_summary list) m)" "list_all2 shown rows ss"
    by auto
  obtain s where s: "summary_of G row = (retM s :: ('s, reader_error, parking_summary) m)"
    using summary_decodes[of G row] Cons.prems by auto
  moreover have "shown row s" using summary_of_shown[of G row "undefined :: 's" s] s by (simp add: exec)
  ultimately show ?case using ss by auto
qed auto

section \<open>Filters\<close>

text \<open>The fault schedule is not read.\<close>

lemma tables_faults [simp]:
  fixes w :: "'w content_world_scheme"
  shows "security_confirmed (w\<lparr>faults := fs\<rparr>) = security_confirmed w" "open_rows (w\<lparr>faults := fs\<rparr>) = open_rows w"
    "security_yes (w\<lparr>faults := fs\<rparr>) = security_yes w" "confirmed_codes (w\<lparr>faults := fs\<rparr>) = confirmed_codes w"
    "approved_photos (w\<lparr>faults := fs\<rparr>) = approved_photos w"
  by (intro ext; simp add: security_confirmed_def open_rows_def security_yes_def confirmed_codes_def approved_photos_def)+

lemma is_open_row_faults [simp]: "is_open_row X (w\<lparr>faults := fs\<rparr>) = is_open_row X w"
  by (intro ext) (simp add: is_open_row_def)

lemma row_matches_faults [simp]: "row_matches X f t area (w\<lparr>faults := fs\<rparr>) = row_matches X f t area w"
  by (rule ext) (auto simp: row_matches_def split: option.splits)

lemma search_matching_faults [simp]: "search_matching X r t (w\<lparr>faults := fs\<rparr>) = search_matching X r t w"
  by (simp add: search_matching_def)

lemma bounds_matching_faults [simp]: "bounds_matching X q t (w\<lparr>faults := fs\<rparr>) = bounds_matching X q t w"
  by (simp add: bounds_matching_def)

lemma sort_key_of_faults [simp]: "sort_key_of X cfg r t (w\<lparr>faults := fs\<rparr>) = sort_key_of X cfg r t w"
  by (rule ext) (simp add: sort_key_of_def split: search_sort.split)

lemma decorate_faults [simp]: "decorate X p t (w\<lparr>faults := fs\<rparr>) = decorate X p t w"
  by (intro ext) (simp add: decorate_def)

text \<open>The filters as a card would be read against them.\<close>

definition card_matches :: "search_filters \<Rightarrow> parking_summary \<Rightarrow> bool" where
  "card_matches f s \<longleftrightarrow>
     (case fi_cost f of None \<Rightarrow> True | Some c \<Rightarrow> cost_filter_matches c (sm_cost s))
   \<and> (fi_types f = [] \<or> sm_type s \<in> set (fi_types f))
   \<and> set (fi_security_all f) \<subseteq> set (sm_security_yes s)
   \<and> (fi_open_now f \<longrightarrow> sm_open_now s)"

lemma cost_code_matches:
  "cost_kind_code c = (case k of FilterFree \<Rightarrow> lit ''free'' | FilterPaid \<Rightarrow> lit ''paid'' | FilterUnknown \<Rightarrow> lit ''unknown'')
    \<longleftrightarrow> cost_filter_matches k c"
  by (cases k; cases c) (simp_all add: cost_kind_code_def cost_filter_matches_def)

lemma row_matches_card:
  assumes "shown (decorate X origin t w k l) s"
  shows "row_matches X f t area w l \<longleftrightarrow> lr_state l = lit ''ACTIVE'' \<and> area l \<and> card_matches f s"
proof -
  have s: "parking_type_code (sm_type s) = lr_type l" "cost_kind_code (sm_cost s) = lr_cost_kind l"
      "set (sm_security_yes s) = {c. security_confirmed w (lr_id l) c}" "sm_open_now s = is_open_row X w t l"
    using assms by (auto simp: shown_def decorate_def Let_def confirmed_codes_def security_confirmed_def)
  have ty: "lr_type l \<in> parking_type_code ` set ts \<longleftrightarrow> sm_type s \<in> set ts" for ts
    unfolding s(1)[symmetric] using parking_type_code_inj by (simp add: inj_image_mem_iff)
  show ?thesis
    unfolding row_matches_def card_matches_def filter_binds_def s(3,4)
    by (auto simp: ty s(2)[symmetric] cost_code_matches split: option.splits)
qed

section \<open>One page\<close>

lemma ascending_rest:
  fixes key :: "'r \<Rightarrow> 'k :: linorder"
  assumes d: "distinct (map key t)" and p: "take n (sort_key key (filter P t)) = p" "p \<noteq> []"
  shows "sort_key key (filter P t) = p @ sort_key key (filter (\<lambda>r. key (last p) < key r) (filter P t))"
proof -
  let ?S = "sort_key key (filter P t)"
  have S: "?S = p @ drop n ?S" using append_take_drop_id[of n ?S] p(1) by simp
  have "distinct (map key ?S)" using d by (auto simp: distinct_map distinct_sort inj_on_def)
  moreover have "sorted (map key ?S)" by simp
  ultimately have "sorted_wrt (\<lambda>r s. key r < key s) ?S" by (simp add: strict_sorted_iff flip: sorted_wrt_map)
  then have "sorted_wrt (\<lambda>r s. key r < key s) (butlast p @ last p # drop n ?S)"
    using S p(2) by (metis append.assoc append_Cons append_Nil append_butlast_last_id)
  then have "\<forall>r \<in> set (butlast p @ [last p]). \<not> key (last p) < key r" "\<forall>r \<in> set (drop n ?S). key (last p) < key r"
    by (auto simp: sorted_wrt_append)
  then have "filter (\<lambda>r. key (last p) < key r) p = []" "filter (\<lambda>r. key (last p) < key r) (drop n ?S) = drop n ?S"
    using p(2) by (simp_all add: filter_empty_conv)
  then have "filter (\<lambda>r. key (last p) < key r) (p @ drop n ?S) = drop n ?S" by simp
  then have "filter (\<lambda>r. key (last p) < key r) ?S = drop n ?S" using S by simp
  then show ?thesis using S by (simp add: filter_sort)
qed

lemma candidates_rest:
  assumes "distinct (map lr_id rows)" "take n (search_candidates k after rows) = p" "p \<noteq> []"
  shows "search_candidates k after rows = p @ search_candidates k (Some (k (last p), lr_id (last p))) rows"
proof -
  let ?key = "\<lambda>l. (k l, lr_id l)" and ?P = "\<lambda>l. case after of None \<Rightarrow> True | Some c \<Rightarrow> c < (k l, lr_id l)"
  have d: "distinct (map ?key rows)" using assms(1) by (auto simp: distinct_map inj_on_def)
  note r = ascending_rest[OF d assms(2)[unfolded search_candidates_def] assms(3)]
  have "last p \<in> set (search_candidates k after rows)" using assms(2,3) by (metis in_set_takeD last_in_set)
  then have "?P (last p)" by (simp add: search_candidates_def)
  then have "filter (\<lambda>l. ?key (last p) < ?key l) (filter ?P rows) = filter (\<lambda>l. ?key (last p) < ?key l) rows"
    by (auto simp: intro!: filter_cong split: option.splits)
  with r show ?thesis by (simp add: search_candidates_def)
qed

lemma set_candidates: "set (search_candidates k after rows) \<subseteq> set rows"
  by (auto simp: search_candidates_def)

lemma candidates_all: "set (search_candidates k None rows) = set rows" "length (search_candidates k None rows) = length rows"
  by (simp_all add: search_candidates_def)

definition cursor_at ::
  "search_externals \<Rightarrow> search_config \<Rightarrow> search_request \<Rightarrow> 'w content_world_scheme \<Rightarrow> location_row \<Rightarrow> search_cursor" where
  "cursor_at X cfg r w l = \<lparr>cu_sort = sq_sort r, cu_v = sort_key_of X cfg r (now w) w l, cu_id = lr_id l\<rparr>"

text \<open>The rows a request still has before it, and the summary of one of them.\<close>

definition remaining :: "search_externals \<Rightarrow> search_config \<Rightarrow> search_request \<Rightarrow> 'w content_world_scheme \<Rightarrow> location_row list" where
  "remaining X cfg r w =
     search_candidates (sort_key_of X cfg r (now w) w) (map_option (\<lambda>c. (cu_v c, cu_id c)) (sq_cursor r))
       (search_matching X r (now w) w)"

definition shows_row ::
  "search_externals \<Rightarrow> search_config \<Rightarrow> search_request \<Rightarrow> 'w content_world_scheme \<Rightarrow> location_row \<Rightarrow> parking_summary \<Rightarrow> bool" where
  "shows_row X cfg r w l s \<longleftrightarrow>
     shown (decorate X (sq_origin r) (now w) w (Some (sort_key_of X cfg r (now w) w l)) l) s"

lemma shows_row_key:
  "shows_row X cfg r w l s \<Longrightarrow> sm_id s = lr_id l \<and> sm_sort_key s = Some (sort_key_of X cfg r (now w) w l)"
  by (simp add: shows_row_def shown_def decorate_def Let_def)

lemma search_matching_rows: "set (search_matching X r t w) \<subseteq> set (locations w)"
  by (auto simp: search_matching_def)

lemma read_ok:
  assumes "faults w = []" "decodable (sx_geo X) w"
  shows "\<exists>items. search_read X cfg r n True w
      = (Inr \<lparr>pg_items = items, pg_total = int (length (search_matching X r (now w) w)), pg_next = None\<rparr>, w)
    \<and> list_all2 (shows_row X cfg r w) (take n (remaining X cfg r w)) items"
proof -
  let ?rows = "map (\<lambda>l. decorate X (sq_origin r) (now w) w (Some (sort_key_of X cfg r (now w) w l)) l) (take n (remaining X cfg r w))"
  have "\<forall>l \<in> set (take n (remaining X cfg r w)). row_decodes (sx_geo X) l"
    using assms(2) set_candidates search_matching_rows
    by (fastforce simp: decodable_def remaining_def dest!: in_set_takeD)
  then obtain ss where ss: "mapM (summary_of (sx_geo X)) ?rows = (retM ss :: ('a content_world_scheme, reader_error, parking_summary list) m)"
      "list_all2 shown ?rows ss"
    using summaries_decode[of ?rows "sx_geo X"] by (auto simp: decorate_def)
  from ss(2) have "list_all2 (shows_row X cfg r w) (take n (remaining X cfg r w)) ss"
    by (simp add: list_all2_map1 shows_row_def[abs_def])
  with ss(1) assms(1) show ?thesis
    by (simp add: search_read_def search_at_def search_count_def search_rows_def exec Let_def remaining_def)
qed

lemma page_ok:
  assumes "faults w = []" "decodable (sx_geo X) w" "1 \<le> sq_page_size r"
  shows "\<exists>items. page_of X cfg r w
      = (Inr (Returned \<lparr>pg_items = items, pg_total = int (length (search_matching X r (now w) w)),
           pg_next = (if sq_page_size r < length (remaining X cfg r w)
                      then Some (cursor_at X cfg r w (last (take (sq_page_size r) (remaining X cfg r w)))) else None)\<rparr>), w)
    \<and> list_all2 (shows_row X cfg r w) (take (sq_page_size r) (remaining X cfg r w)) items"
proof -
  let ?n = "sq_page_size r" and ?R = "remaining X cfg r w"
  obtain items where i: "search_read X cfg r (?n + 1) True w
      = (Inr \<lparr>pg_items = items, pg_total = int (length (search_matching X r (now w) w)), pg_next = None\<rparr>, w)"
      and a: "list_all2 (shows_row X cfg r w) (take (?n + 1) ?R) items"
    using read_ok[OF assms(1,2), of cfg r "?n + 1"] by blast
  then have len: "length items = min (length ?R) (?n + 1)" by (auto dest: list_all2_lengthD)
  have t: "list_all2 (shows_row X cfg r w) (take ?n ?R) (take ?n items)"
    using list_all2_takeI[OF a, of ?n] by (simp add: min_def)
  show ?thesis
  proof (cases "?n < length ?R")
    case True
    with len assms(3) have ne: "take ?n items \<noteq> []" "?n < length items" by auto
    from t ne(1) have "shows_row X cfg r w (last (take ?n ?R)) (last (take ?n items))"
      by (metis list_all2_lengthD length_0_conv last_conv_nth list_all2_nthD2 diff_less length_greater_0_conv zero_less_one)
    then have "sm_sort_key (last (take ?n items)) = Some (sort_key_of X cfg r (now w) w (last (take ?n ?R)))"
        "sm_id (last (take ?n items)) = lr_id (last (take ?n ?R))"
      using shows_row_key by blast+
    with True ne i t show ?thesis by (simp add: page_of_def exec cut_page_def cursor_at_def Let_def)
  next
    case False
    with len have "length items = length ?R" "take ?n items = items" by auto
    with False i t show ?thesis by (auto simp: page_of_def exec cut_page_def)
  qed
qed

section \<open>Following the cursors\<close>

text \<open>A reader who asks for page after page with the cursor of the page before; \<open>None\<close> when the
  fuel runs out or a page panics.\<close>

fun search_walk ::
  "search_externals \<Rightarrow> search_config \<Rightarrow> ('w content_world_scheme) geocoder \<Rightarrow> nat \<Rightarrow> search_input
   \<Rightarrow> ('w content_world_scheme, search_error, parking_summary list option) m" where
  "search_walk X cfg geocode 0 x = retM None"
| "search_walk X cfg geocode (Suc n) x =
     bindM (search_execute X cfg geocode x) (\<lambda>res. case res of
         Panicked \<Rightarrow> retM None
       | Returned (page, _) \<Rightarrow>
           (case pg_next page of
              None \<Rightarrow> retM (Some (pg_items page))
            | Some c \<Rightarrow>
                bindM (search_walk X cfg geocode n (x\<lparr>si_cursor := Some (cursor_encode X c)\<rparr>)) (\<lambda>rest.
                  retM (map_option ((@) (pg_items page)) rest))))"

definition json_keeps :: "search_externals \<Rightarrow> search_cursor \<Rightarrow> bool" where
  "json_keeps X c \<longleftrightarrow> sx_parse X (sx_print X (cursor_json c)) = Some (cursor_json c)"

definition is_i64 :: "int \<Rightarrow> bool" where "is_i64 n \<longleftrightarrow> - (2 ^ 63) \<le> n \<and> n < 2 ^ 63"

lemma cursor_roundtrip:
  assumes "b64_law (sx_b64 X)" "json_keeps X c" "cu_v c = Fin q" "is_i64 (cu_id c)"
  shows "cursor_decode X (cursor_encode X c) = Some c"
proof -
  have "jget (lit ''s'') (cursor_json c) = Some (JString (search_sort_code (cu_sort c)))"
       "jget (lit ''v'') (cursor_json c) = Some (JFloat (cu_v c))" "jget (lit ''id'') (cursor_json c) = Some (JInt (cu_id c))"
    by (simp_all add: cursor_json_def jget_def json_of_f64_def lit_def assms(3))
  then show ?thesis
    using assms by (simp add: cursor_decode_def cursor_encode_def b64_law_def json_keeps_def as_str_def as_f64_def as_i64_def
        is_i64_def search_sort.from_as)
qed

lemma page_size_positive: "1 \<le> sq_page_size (request_of X x p h)"
  by (simp add: request_of_def search_request_new_def max_page_size_def)

lemma request_of_next:
  assumes "cursor_decode X raw = Some c" "cu_sort c = sq_sort (request_of X x p h)"
  shows "request_of X (x\<lparr>si_cursor := Some raw\<rparr>) p h = (request_of X x p h)\<lparr>sq_cursor := Some c\<rparr>"
  using assms by (simp add: request_of_def search_request_new_def search_query_def input_filters_def split: option.split)

text \<open>The cursor decides where a page starts and nothing else.\<close>

lemma search_matching_cursor [simp]: "search_matching X (r\<lparr>sq_cursor := c\<rparr>) = search_matching X r"
  by (intro ext) (simp add: search_matching_def in_radius_def[abs_def])

lemma sort_key_of_cursor [simp]: "sort_key_of X cfg (r\<lparr>sq_cursor := c\<rparr>) = sort_key_of X cfg r"
  by (intro ext) (simp add: sort_key_of_def recommended_score_def distance_score_def Let_def split: search_sort.split)

lemma shows_row_cursor [simp]: "shows_row X cfg (r\<lparr>sq_cursor := c\<rparr>) = shows_row X cfg r"
  by (intro ext) (simp add: shows_row_def)

lemma cursor_at_cursor [simp]: "cursor_at X cfg (r\<lparr>sq_cursor := c\<rparr>) = cursor_at X cfg r"
  by (intro ext) (simp add: cursor_at_def)

lemma execute_at:
  assumes "si_lat x = Some lat" "si_lon x = Some lon" "geo_point_new lat lon = Inr p"
  shows "search_execute X cfg geocode x =
    bindM (page_of X cfg (request_of X x p None)) (\<lambda>page. case page of
         Panicked \<Rightarrow> retM Panicked | Returned q \<Rightarrow> retM (Returned (q, None)))"
  using assms by (simp add: search_execute_def resolve_search_def resolve_origin_def)

lemma walk_from:
  assumes w: "faults w = []" "decodable (sx_geo X) w" "distinct (map lr_id (locations w))" "\<forall>l \<in> set (locations w). is_i64 (lr_id l)"
    and b: "b64_law (sx_b64 X)" and p: "geo_point_new lat lon = Inr p"
    and js: "\<forall>l \<in> set (search_matching X r (now w) w). json_keeps X (cursor_at X cfg r w l)"
    and x: "si_lat x = Some lat" "si_lon x = Some lon" "request_of X x p None = r"
    and n: "length (remaining X cfg r w) \<le> n"
  shows "\<exists>items. search_walk X cfg geocode (Suc n) x w = (Inr (Some items), w)
    \<and> list_all2 (shows_row X cfg r w) (remaining X cfg r w) items"
  using js x n
proof (induction n arbitrary: x r rule: less_induct)
  case (less n)
  let ?R = "remaining X cfg r w" and ?n = "sq_page_size r"
  have pos: "1 \<le> ?n" using page_size_positive less.prems(4) by metis
  obtain items where page: "page_of X cfg r w
      = (Inr (Returned \<lparr>pg_items = items, pg_total = int (length (search_matching X r (now w) w)),
           pg_next = (if ?n < length ?R then Some (cursor_at X cfg r w (last (take ?n ?R))) else None)\<rparr>), w)"
    and items: "list_all2 (shows_row X cfg r w) (take ?n ?R) items"
    using page_ok[OF w(1,2) pos] by blast
  note ex = execute_at[OF less.prems(2,3) p, of X cfg geocode, unfolded less.prems(4)]
  show ?case
  proof (cases "?n < length ?R")
    case False
    with page items show ?thesis by (simp add: ex exec)
  next
    case True
    let ?l = "last (take ?n ?R)" and ?m = "n - ?n"
    let ?c = "cursor_at X cfg r w ?l"
    let ?x = "x\<lparr>si_cursor := Some (cursor_encode X ?c)\<rparr>" and ?r = "r\<lparr>sq_cursor := Some ?c\<rparr>"
    have ne: "take ?n ?R \<noteq> []" using True pos by auto
    then have l: "?l \<in> set (search_matching X r (now w) w)"
      using set_candidates by (metis last_in_set in_set_takeD remaining_def subsetD)
    then have "cursor_decode X (cursor_encode X ?c) = Some ?c"
      using less.prems(1) w(4) l subsetD[OF search_matching_rows l]
      by (intro cursor_roundtrip[OF b]) (auto simp: cursor_at_def sort_key_of_def)
    then have r: "request_of X ?x p None = ?r"
      using request_of_next[of X "cursor_encode X ?c" ?c x p None] less.prems(4) by (simp add: cursor_at_def)
    have d: "distinct (map lr_id (search_matching X r (now w) w))"
      using w(3) by (simp add: search_matching_def distinct_map_filter)
    have R: "?R = take ?n ?R @ remaining X cfg ?r w"
      using candidates_rest[OF d _ ne, unfolded remaining_def, OF refl] by (simp add: remaining_def cursor_at_def)
    then have rest: "length (remaining X cfg ?r w) = length ?R - ?n"
      using True by (metis length_drop append_eq_conv_conj append_take_drop_id)
    have fuel: "Suc ?m \<le> n" "?m < n" using pos True less.prems(5) by auto
    have "\<exists>rest. search_walk X cfg geocode (Suc (n - 1)) ?x w = (Inr (Some rest), w)
        \<and> list_all2 (shows_row X cfg ?r w) (remaining X cfg ?r w) rest"
      using less.prems fuel pos rest by (intro less.IH) (simp_all add: r)
    then obtain rs where rs: "search_walk X cfg geocode n ?x w = (Inr (Some rs), w)"
        "list_all2 (shows_row X cfg r w) (remaining X cfg ?r w) rs"
      using fuel by auto
    have "search_walk X cfg geocode (Suc n) x w = (Inr (Some (items @ rs)), w)"
      using True page rs(1) by (simp add: ex exec)
    moreover have "list_all2 (shows_row X cfg r w) ?R (items @ rs)"
      using list_all2_appendI[OF items rs(2)] R by simp
    ultimately show ?thesis by blast
  qed
qed

end
