(* ===== verification/Search_Guarantees.thy ===== *)
theory Search_Guarantees
  imports Search_Paging
begin

text \<open>
  The guarantees of the search: what a page holds under any faults, what a reader who
  follows the cursors sees and how an inexact cursor traps him, what a viewport
  answers, and that a card and the details page tell the same.
\<close>

section \<open>A page under any faults\<close>

lemma list_all2_source: "list_all2 P xs ys \<Longrightarrow> y \<in> set ys \<Longrightarrow> \<exists>x \<in> set xs. P x y"
  by (induction rule: list_all2_induct) auto

lemma remaining_faults [simp]: "remaining X cfg r (w\<lparr>faults := fs\<rparr>) = remaining X cfg r w"
  by (simp add: remaining_def)

lemma shows_row_faults [simp]: "shows_row X cfg r (w\<lparr>faults := fs\<rparr>) = shows_row X cfg r w"
  by (intro ext) (simp add: shows_row_def)

lemma read_sound:
  assumes "search_read X cfg r n True w = (Inr page, w')"
  shows "pg_total page = int (length (search_matching X r (now w') w')) \<and> now w' = now w
    \<and> list_all2 (shows_row X cfg r w') (take n (remaining X cfg r w')) (pg_items page)"
proof -
  let ?rows = "\<lambda>v. map (\<lambda>l. decorate X (sq_origin r) (now w) v (Some (sort_key_of X cfg r (now w) v l)) l)
    (take n (search_candidates (sort_key_of X cfg r (now w) v) (map_option (\<lambda>c. (cu_v c, cu_id c)) (sq_cursor r))
      (search_matching X r (now w) v)))"
  from assms obtain total w1 items where c: "search_count X r (now w) w = (Inr total, w1)"
    and m1: "search_rows X cfg r (now w) (sq_cursor r) n w1 = (Inr items, w')"
    and p: "pg_items page = items" "pg_total page = total"
    unfolding search_read_def search_at_def by (elim bindM_InrE getM_InrE retM_InrE) auto
  from c obtain fs where w1: "w1 = w\<lparr>faults := fs\<rparr>" and total: "total = int (length (search_matching X r (now w) w))"
    unfolding search_count_def by (elim query_InrE) simp
  from m1 obtain rows w2 where q: "query reader_of_db ?rows w1 = (Inr rows, w2)"
      "mapM (summary_of (sx_geo X)) rows w2 = (Inr items, w')"
    unfolding search_rows_def Let_def by (elim bindM_InrE) simp
  from q(1) obtain fs' where w': "w2 = w\<lparr>faults := fs\<rparr>\<lparr>faults := fs'\<rparr>" and rows: "rows = ?rows w"
    unfolding w1 by (elim query_InrE) simp
  have m: "mapM (summary_of (sx_geo X)) (?rows w) w2 = (Inr items, w')" using q(2) rows by simp
  have s: "list_all2 shown (?rows w) items" "w' = w2" using summaries_shown[OF m] by simp_all
  then have "list_all2 (shows_row X cfg r w) (take n (remaining X cfg r w)) items"
    by (simp add: list_all2_map1 shows_row_def[abs_def] remaining_def)
  then show ?thesis using p total w' s(2) by simp
qed

lemma read_frame:
  assumes "search_read X cfg r n True w = (Inr page, w')"
  shows "\<exists>fs. w' = w\<lparr>faults := fs\<rparr>"
proof -
  from assms obtain total w1 rows w2 items f where "search_count X r (now w) w = (Inr total, w1)"
    "query reader_of_db f w1 = (Inr rows, w2)" "mapM (summary_of (sx_geo X)) rows w2 = (Inr items, w')"
    unfolding search_read_def search_at_def search_rows_def by (elim bindM_InrE getM_InrE retM_InrE) blast
  then obtain fs fs' where "w1 = w\<lparr>faults := fs\<rparr>" "w' = w1\<lparr>faults := fs'\<rparr>"
    unfolding search_count_def by (auto elim!: query_InrE dest!: summaries_shown)
  then show ?thesis by (intro exI[of _ fs']) simp
qed

lemma page_sound:
  assumes "page_of X cfg r w = (Inr (Returned pg), w')"
  shows "pg_total pg = int (length (search_matching X r (now w') w')) \<and> now w' = now w
    \<and> list_all2 (shows_row X cfg r w') (take (sq_page_size r) (remaining X cfg r w')) (pg_items pg)
    \<and> (pg_next pg = None \<longleftrightarrow> length (remaining X cfg r w') \<le> sq_page_size r)"
proof -
  from assms obtain page where page: "search_read X cfg r (sq_page_size r + 1) True w = (Inr page, w')"
    and cut: "cut_page r page = Returned pg"
    unfolding page_of_def by (elim bindM_InrE mapErrM_InrE retM_InrE) auto
  note s = read_sound[OF page]
  then have len: "length (pg_items page) = min (length (remaining X cfg r w')) (sq_page_size r + 1)"
    by (auto dest: list_all2_lengthD)
  from s have "list_all2 (shows_row X cfg r w') (take (sq_page_size r) (remaining X cfg r w')) (take (sq_page_size r) (pg_items page))"
    using list_all2_takeI[of "shows_row X cfg r w'" "take (sq_page_size r + 1) (remaining X cfg r w')" "pg_items page" "sq_page_size r"]
    by (simp add: min_def)
  with cut len s show ?thesis
    by (auto simp: cut_page_def Let_def split: if_splits option.splits)
qed

lemma execute_page:
  assumes "search_execute X cfg geocode x w = (Inr (Returned (pg, hit)), w')"
  obtains p w1 where "resolve_origin geocode x w = (Inr (p, hit), w1)" "page_of X cfg (request_of X x p hit) w1 = (Inr (Returned pg), w')"
proof -
  from assms obtain r h w1 res where r: "resolve_search X geocode x w = (Inr (r, h), w1)"
    and p: "page_of X cfg r w1 = (Inr res, w')" "res = Returned pg" "h = hit"
    unfolding search_execute_def by (elim bindM_InrE) (fastforce elim!: bindM_InrE retM_InrE split: prod.splits outcome.splits)
  from r obtain p1 where "resolve_origin geocode x w = (Inr (p1, h), w1)" "r = request_of X x p1 h"
    unfolding resolve_search_def by (elim bindM_InrE) (auto elim!: retM_InrE split: prod.splits)
  with p that show ?thesis by blast
qed

lemma request_of_valid: "valid_request (request_of X x p h)"
  unfolding request_of_def by (rule search_request_valid)

lemma request_of_origin [simp]: "sq_origin (request_of X x p h) = p"
  by (simp add: request_of_def search_request_new_def)

lemma shows_row_matches:
  assumes "shows_row X cfg r w l s" "l \<in> set (locations w)"
  shows "l \<in> set (search_matching X r (now w) w) \<longleftrightarrow> lr_state l = lit ''ACTIVE'' \<and> in_radius X r l \<and> card_matches (sq_filters r) s"
  using row_matches_card[OF assms(1)[unfolded shows_row_def], of "sq_filters r" "in_radius X r"] assms(2)
  by (simp add: search_matching_def)

text \<open>Where a search looks: at the coordinates it was given, both of them, or else at the place the
  geocoder found for its text.\<close>

definition searched_at :: "('w content_world_scheme) geocoder \<Rightarrow> search_input \<Rightarrow> 'w content_world_scheme \<Rightarrow> geo_point \<Rightarrow> geo_hit option \<Rightarrow> bool" where
  "searched_at geocode x w p hit \<longleftrightarrow>
     (case (si_lat x, si_lon x) of
        (Some lat, Some lon) \<Rightarrow> p = \<lparr>gp_lat = lat, gp_lon = lon\<rparr> \<and> wf_geo_point p \<and> hit = None
      | _ \<Rightarrow> (case (si_query x, hit) of
                (Some q, Some h) \<Rightarrow> trim q \<noteq> [] \<and> fst (geocode (trim q) w) = Inr (Some h) \<and> p = gh_point h
              | _ \<Rightarrow> False))"

lemma resolve_searched_at:
  assumes "resolve_origin geocode x w = (Inr (p, hit), w1)"
  shows "searched_at geocode x w p hit"
proof (cases "\<exists>lat lon. si_lat x = Some lat \<and> si_lon x = Some lon")
  case True
  then obtain lat lon where x: "si_lat x = Some lat" "si_lon x = Some lon" by blast
  with assms have p: "geo_point_new lat lon = Inr p" "hit = None"
    by (auto simp: resolve_origin_def throwM_def elim!: retM_InrE split: sum.splits)
  then have "p = \<lparr>gp_lat = lat, gp_lon = lon\<rparr>" by (simp add: geo_point_new_def split: if_splits)
  with x p geo_point_new_wf[OF p(1)] show ?thesis by (simp add: searched_at_def)
next
  case False
  then have "(case search_query x of None \<Rightarrow> throwM MissingDestination
      | Some q \<Rightarrow> bindM (mapErrM SearchGeocode (geocode q)) (\<lambda>found. case found of
            None \<Rightarrow> throwM MissingDestination | Some hit \<Rightarrow> retM (gh_point hit, Some hit))) w = (Inr (p, hit), w1)"
    using assms by (auto simp: resolve_origin_def split: option.splits)
  then obtain q h where "search_query x = Some q" "fst (geocode q w) = Inr (Some h)" "p = gh_point h" "hit = Some h"
    by (auto elim!: bindM_InrE mapErrM_InrE retM_InrE throwM_InrE split: option.splits)
  with False show ?thesis
    by (auto simp: searched_at_def search_query_def split: option.splits if_splits)
qed

lemma execute_sound:
  assumes "search_execute X cfg geocode x w = (Inr (Returned (pg, hit)), w')"
  obtains r where "r = request_of X x (sq_origin r) hit" "valid_request r"
    "pg_total pg = int (length (search_matching X r (now w') w'))"
    "list_all2 (shows_row X cfg r w') (take (sq_page_size r) (remaining X cfg r w')) (pg_items pg)"
    "pg_next pg = None \<longleftrightarrow> length (remaining X cfg r w') \<le> sq_page_size r"
    "searched_at geocode x w (sq_origin r) hit"
proof -
  from assms obtain p w1 where o: "resolve_origin geocode x w = (Inr (p, hit), w1)"
    and "page_of X cfg (request_of X x p hit) w1 = (Inr (Returned pg), w')"
    by (rule execute_page)
  from page_sound[OF this(2)] resolve_searched_at[OF o] show ?thesis
    by (intro that[of "request_of X x p hit"]) (simp_all add: request_of_valid)
qed

text \<open>C22: Under any database faults and any answer of the geocoder, a returned page is
  that of a valid request: a radius of the allowlist, at most a hundred rows, around the
  coordinates the visitor gave or, without both of them, around the place the geocoder found
  for the text, which is then the hit the answer names.  Every card on
  it belongs to an active location within the radius and passes the filters as they read on the
  card; its total is the number of locations that do; and there is a next page exactly
  when rows are left.\<close>

theorem search_results_match:
  assumes "search_execute X cfg geocode x w = (Inr (Returned (pg, hit)), w')"
  shows "\<exists>r. r = request_of X x (sq_origin r) hit \<and> searched_at geocode x w (sq_origin r) hit
    \<and> sq_radius_m r \<in> {250, 500, 1000, 2000, 5000}
    \<and> length (pg_items pg) \<le> sq_page_size r \<and> sq_page_size r \<le> 100
    \<and> pg_total pg = int (length (search_matching X r (now w') w'))
    \<and> (pg_next pg = None \<longleftrightarrow> length (pg_items pg) = length (remaining X cfg r w'))
    \<and> (\<forall>s \<in> set (pg_items pg). card_matches (sq_filters r) s
        \<and> (\<exists>l \<in> set (locations w'). sm_id s = lr_id l \<and> lr_state l = lit ''ACTIVE''
             \<and> sm_distance_m s = Fin (gx_distance (sx_geo X) (row_point l) (sq_origin r))
             \<and> gx_distance (sx_geo X) (row_point l) (sq_origin r) \<le> of_nat (sq_radius_m r)))"
proof -
  obtain r where r: "r = request_of X x (sq_origin r) hit" "valid_request r"
    "pg_total pg = int (length (search_matching X r (now w') w'))"
    and a: "list_all2 (shows_row X cfg r w') (take (sq_page_size r) (remaining X cfg r w')) (pg_items pg)"
    and n: "pg_next pg = None \<longleftrightarrow> length (remaining X cfg r w') \<le> sq_page_size r"
    and o: "searched_at geocode x w (sq_origin r) hit"
    using execute_sound[OF assms] .
  have cards: "card_matches (sq_filters r) s
        \<and> (\<exists>l \<in> set (locations w'). sm_id s = lr_id l \<and> lr_state l = lit ''ACTIVE''
             \<and> sm_distance_m s = Fin (gx_distance (sx_geo X) (row_point l) (sq_origin r))
             \<and> gx_distance (sx_geo X) (row_point l) (sq_origin r) \<le> of_nat (sq_radius_m r))"
    if s: "s \<in> set (pg_items pg)" for s
  proof -
    obtain l where l: "l \<in> set (take (sq_page_size r) (remaining X cfg r w'))" "shows_row X cfg r w' l s"
      using list_all2_source[OF a s] by blast
    then have m: "l \<in> set (search_matching X r (now w') w')"
      using set_candidates unfolding remaining_def by (metis in_set_takeD subsetD)
    then have "l \<in> set (locations w')" using search_matching_rows by blast
    with m l(2) show ?thesis
      using shows_row_matches[OF l(2)] by (auto simp: in_radius_def shows_row_def shown_def decorate_def Let_def)
  qed
  have len: "length (pg_items pg) = min (length (remaining X cfg r w')) (sq_page_size r)"
    using a by (auto dest: list_all2_lengthD)
  have "pg_next pg = None \<longleftrightarrow> length (pg_items pg) = length (remaining X cfg r w')" using n len by auto
  moreover have "length (pg_items pg) \<le> sq_page_size r" using len by simp
  moreover note r(1) r(3) o
  moreover have "sq_radius_m r \<in> {250, 500, 1000, 2000, 5000}" "sq_page_size r \<le> 100"
    using r(2) by (auto simp: valid_request_def radius_options_m_def max_page_size_def)
  ultimately show ?thesis using cards by (intro exI[of _ r] conjI ballI) (assumption | simp only: cards)+
qed

section \<open>All pages\<close>

text \<open>A page under any faults is a failure or the page that the quiet database would give.\<close>

lemma page_of_outcome:
  assumes "page_of X cfg r w = (res, w')" "1 \<le> sq_page_size r"
  shows "(\<exists>e. res = Inl e) \<or> (\<exists>items total. res = Inr (Returned \<lparr>pg_items = items, pg_total = total,
      pg_next = (if sq_page_size r < length (remaining X cfg r w)
                 then Some (cursor_at X cfg r w (last (take (sq_page_size r) (remaining X cfg r w)))) else None)\<rparr>)
    \<and> list_all2 (shows_row X cfg r w) (take (sq_page_size r) (remaining X cfg r w)) items)"
proof (cases res)
  case (Inr out)
  let ?n = "sq_page_size r" and ?R = "remaining X cfg r w"
  from assms(1) obtain page where page: "search_read X cfg r (?n + 1) True w = (Inr page, w')" and out: "out = cut_page r page"
    unfolding page_of_def Inr by (elim bindM_InrE mapErrM_InrE retM_InrE) auto
  obtain fs where "w' = w\<lparr>faults := fs\<rparr>" using read_frame[OF page] by blast
  with read_sound[OF page] have a: "list_all2 (shows_row X cfg r w) (take (?n + 1) ?R) (pg_items page)" by simp
  then have len: "length (pg_items page) = min (length ?R) (?n + 1)" by (auto dest: list_all2_lengthD)
  have t: "list_all2 (shows_row X cfg r w) (take ?n ?R) (take ?n (pg_items page))"
    using list_all2_takeI[OF a, of ?n] by (simp add: min_def)
  show ?thesis
  proof (cases "?n < length ?R")
    case True
    with len assms(2) have ne: "take ?n (pg_items page) \<noteq> []" "?n < length (pg_items page)" by auto
    from t ne(1) have "shows_row X cfg r w (last (take ?n ?R)) (last (take ?n (pg_items page)))"
      by (metis list_all2_lengthD length_0_conv last_conv_nth list_all2_nthD2 diff_less length_greater_0_conv zero_less_one)
    from shows_row_key[OF this] True ne t Inr out show ?thesis by (auto simp: cut_page_def cursor_at_def Let_def)
  next
    case False
    with len have "length (pg_items page) = length ?R" "take ?n (pg_items page) = pg_items page" by auto
    with False t Inr out show ?thesis by (auto simp: cut_page_def)
  qed
qed simp

text \<open>A reader who hands back the cursor of each page, as it was made, until there is none; the
  requests meet the worlds of the list one after the other, and one that fails is asked again.\<close>

fun page_walk ::
  "search_externals \<Rightarrow> search_config \<Rightarrow> ('w content_world_scheme) list \<Rightarrow> search_request \<Rightarrow> parking_summary list option" where
  "page_walk X cfg [] r = None"
| "page_walk X cfg (w # ws) r =
     (case fst (page_of X cfg r w) of
        Inl _ \<Rightarrow> page_walk X cfg ws r
      | Inr Panicked \<Rightarrow> None
      | Inr (Returned page) \<Rightarrow>
          (case pg_next page of
             None \<Rightarrow> Some (pg_items page)
           | Some c \<Rightarrow> map_option ((@) (pg_items page)) (page_walk X cfg ws (r\<lparr>sq_cursor := Some c\<rparr>))))"

text \<open>Two worlds list the same places: what a sort and a filter read of them is the same, and the
  clock too where it is read.\<close>

definition lists_same :: "search_request \<Rightarrow> 'w content_world_scheme \<Rightarrow> 'w content_world_scheme \<Rightarrow> bool" where
  "lists_same r v w \<longleftrightarrow>
     locations w = locations v \<and> security_table w = security_table v \<and> hours_table w = hours_table v
   \<and> (now w = now v \<or> sq_sort r \<noteq> Recommended \<and> \<not> fi_open_now (sq_filters r))"

definition answers :: "search_externals \<Rightarrow> 'w content_world_scheme \<Rightarrow> bool" where
  "answers X w \<longleftrightarrow> faults w = [] \<and> decodable (sx_geo X) w"

lemma lists_same_matching:
  assumes "lists_same r v w"
  shows "search_matching X r (now w) w = search_matching X r (now v) v"
    "sort_key_of X cfg r (now w) w = sort_key_of X cfg r (now v) v"
  using assms
  by (auto simp: lists_same_def search_matching_def row_matches_def security_confirmed_def is_open_row_def open_rows_def
      sort_key_of_def security_yes_def fun_eq_iff split: search_sort.split option.split intro!: filter_cong)

lemma page_walk_rest:
  assumes "\<forall>w \<in> set ws. lists_same r v w" "distinct (map lr_id (locations v))" "1 \<le> sq_page_size r"
    and "length (remaining X cfg r v) < length (filter (answers X) ws)"
  shows "\<exists>items. page_walk X cfg ws r = Some items
    \<and> list_all2 (\<lambda>l s. sm_id s = lr_id l \<and> sm_sort_key s = Some (sort_key_of X cfg r (now v) v l)) (remaining X cfg r v) items"
  using assms
proof (induction ws arbitrary: r)
  case (Cons w ws)
  let ?R = "remaining X cfg r v" and ?n = "sq_page_size r"
  let ?tells = "\<lambda>l s. sm_id s = lr_id l \<and> sm_sort_key s = Some (sort_key_of X cfg r (now v) v l)"
  obtain res w' where p: "page_of X cfg r w = (res, w')" by (cases "page_of X cfg r w")
  have same: "search_matching X r (now w) w = search_matching X r (now v) v"
      "sort_key_of X cfg r (now w) w = sort_key_of X cfg r (now v) v"
    using lists_same_matching[of r v w] Cons.prems(1) by simp_all
  then have R: "remaining X cfg r w = ?R" "cursor_at X cfg r w = cursor_at X cfg r v"
    by (simp only: remaining_def, intro ext, simp add: cursor_at_def)
  have tells: "list_all2 ?tells ls ss" if "list_all2 (shows_row X cfg r w) ls ss" for ls ss
    using that by (rule list_all2_mono) (auto dest: shows_row_key simp: same(2))
  from page_of_outcome[OF p Cons.prems(3)] show ?case
  proof (elim disjE exE conjE)
    fix e assume e: "res = Inl e"
    have "\<not> answers X w"
      using page_ok[of w X r cfg] Cons.prems(3) p e by (auto simp: answers_def)
    with Cons.prems have "\<exists>items. page_walk X cfg ws r = Some items \<and> list_all2 ?tells ?R items"
      by (intro Cons.IH) auto
    then show ?thesis using p e by simp
  next
    fix items :: "parking_summary list" and total
    assume res: "res = Inr (Returned \<lparr>pg_items = items, pg_total = total, pg_next = (if ?n < length (remaining X cfg r w)
          then Some (cursor_at X cfg r w (last (take ?n (remaining X cfg r w)))) else None)\<rparr>)"
      and items: "list_all2 (shows_row X cfg r w) (take ?n (remaining X cfg r w)) items"
    note items = tells[OF items, unfolded R]
    show ?thesis
    proof (cases "?n < length ?R")
      case False
      with p res items show ?thesis by (simp add: R)
    next
      case True
      let ?r = "r\<lparr>sq_cursor := Some (cursor_at X cfg r v (last (take ?n ?R)))\<rparr>"
      have ne: "take ?n ?R \<noteq> []" using True Cons.prems(3) by auto
      have d: "distinct (map lr_id (search_matching X r (now v) v))"
        using Cons.prems(2) by (simp add: search_matching_def distinct_map_filter)
      have parts: "?R = take ?n ?R @ remaining X cfg ?r v"
        using candidates_rest[OF d _ ne, unfolded remaining_def, OF refl] by (simp add: remaining_def cursor_at_def)
      then have "length (remaining X cfg ?r v) = length ?R - ?n"
        using True by (metis length_drop append_eq_conv_conj append_take_drop_id)
      then have "length (remaining X cfg ?r v) < length (filter (answers X) ws)"
        using Cons.prems(3,4) True by (auto split: if_splits)
      moreover have "\<forall>w \<in> set ws. lists_same ?r v w" using Cons.prems(1) by (simp add: lists_same_def)
      ultimately obtain rest where rest: "page_walk X cfg ws ?r = Some rest" "list_all2 ?tells (remaining X cfg ?r v) rest"
        using Cons.IH[of ?r] Cons.prems(2,3) by auto
      have "page_walk X cfg (w # ws) r = Some (items @ rest)" using p res rest(1) True by (simp add: R)
      moreover have "list_all2 ?tells ?R (items @ rest)"
        using list_all2_appendI[OF items rest(2)] parts by simp
      ultimately show ?thesis by blast
    qed
  qed
qed simp


section \<open>Cursors as text\<close>

text \<open>Over the URL a reader sees all that is left where every key survives its JSON text
  (\<open>walk_from\<close>), and not otherwise: with one row per page, a key that is read back as a smaller
  number leads to the same page again, and the reader never gets to the end.\<close>

lemma inexact_cursor_repeats:
  assumes w: "faults w = []" "decodable (sx_geo X) w"
    and x: "si_lat x = Some lat" "si_lon x = Some lon" "geo_point_new lat lon = Inr p"
    and r: "r = request_of X x p None" "sq_page_size r = 1" "sq_cursor r = c"
    and first: "remaining X cfg r w = l # l' # ls"
    and inexact: "cursor_decode X (cursor_encode X (cursor_at X cfg r w l)) = Some \<lparr>cu_sort = sq_sort r, cu_v = v, cu_id = lr_id l\<rparr>"
    and again: "remaining X cfg (r\<lparr>sq_cursor := Some \<lparr>cu_sort = sq_sort r, cu_v = v, cu_id = lr_id l\<rparr>\<rparr>) w = l # l' # ls"
  shows "search_walk X cfg geocode n x w = (Inr None, w)"
  using x r first inexact again
proof (induction n arbitrary: x r c)
  case (Suc n)
  let ?d = "\<lparr>cu_sort = sq_sort r, cu_v = v, cu_id = lr_id l\<rparr>"
  let ?x = "x\<lparr>si_cursor := Some (cursor_encode X (cursor_at X cfg r w l))\<rparr>"
  obtain items where page: "page_of X cfg r w = (Inr (Returned \<lparr>pg_items = items,
      pg_total = int (length (search_matching X r (now w) w)), pg_next = Some (cursor_at X cfg r w l)\<rparr>), w)"
    using page_ok[OF w, of r cfg] Suc.prems(5,7) by auto
  have r: "request_of X ?x p None = r\<lparr>sq_cursor := Some ?d\<rparr>"
    using request_of_next[OF Suc.prems(8), of x p None] Suc.prems(4) by simp
  have "search_walk X cfg geocode n ?x w = (Inr None, w)"
    using Suc.prems by (intro Suc.IH[OF _ _ Suc.prems(3) r[symmetric]]) simp_all
  with page Suc.prems(4) show ?case
    by (simp add: execute_at[OF Suc.prems(1-3)] exec)
qed (simp add: exec)

section \<open>Browsing\<close>

lemma sum_over_groups:
  "finite A \<Longrightarrow> f ` set xs \<subseteq> A \<Longrightarrow> (\<Sum>c\<in>A. int (length (filter (\<lambda>l. f l = c) xs))) = int (length xs)"
proof (induction xs)
  case (Cons x xs)
  have "(\<Sum>c\<in>A. int (length (filter (\<lambda>l. f l = c) (x # xs))))
      = (\<Sum>c\<in>A. (if f x = c then 1 else 0) + int (length (filter (\<lambda>l. f l = c) xs)))"
    by (intro sum.cong) auto
  with Cons show ?case by (simp add: sum.distrib)
qed simp

lemma sum_list_sort_key: "sum_list (map f (sort_key g xs)) = sum_list (map f xs)"
  for f :: "'a \<Rightarrow> 'b :: comm_monoid_add"
proof -
  have "sum_list (map f (insort_key g x ys)) = f x + sum_list (map f ys)" for x ys
    by (induction ys) (simp_all add: ac_simps)
  then show ?thesis by (induction xs) simp_all
qed

lemma clusters_count_all: "sum_list (map cl_count (clusters_of X q rows)) = int (length rows)"
proof -
  let ?count = "\<lambda>c. int (length (filter (\<lambda>l. cell_of X q l = c) rows))"
  have "sum_list (map cl_count (clusters_of X q rows)) = sum_list (map ?count (remdups (map (cell_of X q) rows)))"
    unfolding clusters_of_def sum_list_sort_key map_map by (simp add: comp_def Let_def)
  also have "\<dots> = sum ?count (set (map (cell_of X q) rows))"
    by (simp add: sum_list_distinct_conv_sum_set)
  also have "\<dots> = int (length rows)" by (intro sum_over_groups) auto
  finally show ?thesis .
qed

lemma clusters_nonempty: "c \<in> set (clusters_of X q rows) \<Longrightarrow> 1 \<le> cl_count c"
  by (auto simp: clusters_of_def Let_def Suc_le_eq filter_empty_conv length_greater_0_conv simp flip: of_nat_Suc)

lemma bounds_rows_sound:
  assumes "bounds_rows X q t w = (Inr res, w')" "bounds_center X q = Returned center"
  shows "\<exists>items fs. res = Returned items \<and> w' = w\<lparr>faults := fs\<rparr> \<and> list_all2 (\<lambda>l s. shown (decorate X center t w' None l) s)
    (take (bq_limit q) (sort_key (\<lambda>l. (Fin (gx_distance (sx_geo X) (row_point l) center), lr_id l)) (bounds_matching X q t w'))) items"
proof -
  let ?rows = "\<lambda>w. map (decorate X center t w None) (take (bq_limit q)
      (search_candidates (\<lambda>l. Fin (gx_distance (sx_geo X) (row_point l) center)) None (bounds_matching X q t w)))"
  from assms obtain rows w1 items where q: "query reader_of_db ?rows w = (Inr rows, w1)"
      "mapM (summary_of (sx_geo X)) rows w1 = (Inr items, w')" "res = Returned items"
    unfolding bounds_rows_def by (auto elim!: bindM_InrE retM_InrE)
  from q(1) obtain fs where fs: "w1 = w\<lparr>faults := fs\<rparr>" "rows = ?rows w"
    by (elim query_InrE) simp
  from summaries_shown[OF q(2)] have s: "w' = w\<lparr>faults := fs\<rparr>" "list_all2 shown (?rows w) items"
    using fs by simp_all
  then have "list_all2 (\<lambda>l s. shown (decorate X center t w' None l) s)
    (take (bq_limit q) (sort_key (\<lambda>l. (Fin (gx_distance (sx_geo X) (row_point l) center), lr_id l)) (bounds_matching X q t w'))) items"
    by (simp add: list_all2_map1 search_candidates_def)
  then show ?thesis using q(3) s(1) by (intro exI[of _ items] exI[of _ fs]) simp
qed

lemma in_bounds_sound:
  assumes "in_bounds X q w = (Inr res, w')" "bounds_center X q = Returned center"
  shows "\<exists>page. res = Returned page \<and> bp_total page = length (bounds_matching X q (now w') w')
    \<and> (if length (bounds_matching X q (now w') w') \<le> bq_limit q
       then bp_clusters page = []
         \<and> list_all2 (\<lambda>l s. shown (decorate X center (now w') w' None l) s)
             (sort_key (\<lambda>l. (Fin (gx_distance (sx_geo X) (row_point l) center), lr_id l)) (bounds_matching X q (now w') w'))
             (bp_items page)
       else bp_items page = [] \<and> bp_clusters page = clusters_of X q (bounds_matching X q (now w') w'))"
proof -
  let ?M = "bounds_matching X q (now w) w"
  have "in_bounds_at X q (now w) w = (Inr res, w')" using assms(1) by (simp add: in_bounds_def exec)
  then obtain total w1 where "bounds_count X q (now w) w = (Inr total, w1)"
    and rest: "(if bq_limit q < nat total
       then bindM (bounds_clusters X q (now w)) (\<lambda>cs. retM (Returned \<lparr>bp_items = [], bp_total = nat total, bp_clusters = cs\<rparr>))
       else bindM (bounds_rows X q (now w)) (\<lambda>res. case res of
              Panicked \<Rightarrow> retM Panicked
            | Returned items \<Rightarrow> retM (Returned \<lparr>bp_items = items, bp_total = nat total, bp_clusters = []\<rparr>))) w1 = (Inr res, w')"
    unfolding in_bounds_at_def by (elim bindM_InrE)
  then obtain fs where w1: "w1 = w\<lparr>faults := fs\<rparr>" "total = int (length ?M)"
    unfolding bounds_count_def by (elim query_InrE) simp
  show ?thesis
  proof (cases "bq_limit q < length ?M")
    case True
    with rest w1 obtain cs where "bounds_clusters X q (now w) w1 = (Inr cs, w')"
      "res = Returned \<lparr>bp_items = [], bp_total = length ?M, bp_clusters = cs\<rparr>"
      by (auto elim!: bindM_InrE retM_InrE)
    then show ?thesis using True w1 unfolding bounds_clusters_def by (elim query_InrE) simp
  next
    case False
    with rest w1 obtain r2 w2 where r2: "bounds_rows X q (now w) w1 = (Inr r2, w2)"
      and k: "w' = w2 \<and> res = (case r2 of Panicked \<Rightarrow> Panicked
            | Returned items \<Rightarrow> Returned \<lparr>bp_items = items, bp_total = length ?M, bp_clusters = []\<rparr>)"
      by (auto elim!: bindM_InrE retM_InrE split: outcome.splits)
    from bounds_rows_sound[OF r2 assms(2)] k False w1 show ?thesis
      by auto
  qed
qed

lemma bounds_parse_limit: "bounds_parse X raw f limit = Some q \<Longrightarrow> bq_limit q = max 1 (min browse_marker_cap limit)"
  by (auto simp: bounds_parse_def split: option.splits list.splits f64.splits if_splits)

text \<open>C23: Browsing the map never panics, and its answer is bounded and complete: at most two
  hundred matching locations are listed one by one, each as its card and nearest the centre
  first; more than that are answered by clusters alone, none of them empty, whose counts
  add up to the total.  Rounding need only keep the order and the whole degrees.\<close>

theorem browse_is_bounded:
  assumes "rounding_law (sx_round X)" "browse_map X x w = (Inr res, w')"
  shows "\<exists>q page center. res = Returned (q, page) \<and> bounds_center X q = Returned center
    \<and> bounds_parse X (or_empty (si_bbox x)) (input_filters x) 200 = Some q
    \<and> bp_total page = length (bounds_matching X q (now w') w')
    \<and> (if bp_total page \<le> 200
       then bp_clusters page = [] \<and> length (bp_items page) = bp_total page
         \<and> list_all2 (\<lambda>l s. shown (decorate X center (now w') w' None l) s)
             (sort_key (\<lambda>l. (Fin (gx_distance (sx_geo X) (row_point l) center), lr_id l)) (bounds_matching X q (now w') w'))
             (bp_items page)
       else bp_items page = [] \<and> sum_list (map cl_count (bp_clusters page)) = int (bp_total page)
         \<and> (\<forall>c \<in> set (bp_clusters page). 1 \<le> cl_count c))"
proof -
  from assms(2) obtain q w1 r1 where q: "bounds_parse X (or_empty (si_bbox x)) (input_filters x) browse_marker_cap = Some q"
    and b: "in_bounds X q w1 = (Inr r1, w')"
    and res: "res = (case r1 of Panicked \<Rightarrow> Panicked | Returned page \<Rightarrow> Returned (q, page))"
    unfolding browse_map_def
    by (elim thenM_InrE bindM_InrE okOrM_InrE mapErrM_InrE) (auto elim!: retM_InrE split: outcome.splits)
  obtain center where c: "bounds_center X q = Returned center" using bounds_center_returns[OF assms(1) q] by blast
  have lim: "bq_limit q = 200" using bounds_parse_limit[OF q] by (simp add: browse_marker_cap_def)
  obtain page where page: "r1 = Returned page" "bp_total page = length (bounds_matching X q (now w') w')"
    "if length (bounds_matching X q (now w') w') \<le> bq_limit q
     then bp_clusters page = []
       \<and> list_all2 (\<lambda>l s. shown (decorate X center (now w') w' None l) s)
           (sort_key (\<lambda>l. (Fin (gx_distance (sx_geo X) (row_point l) center), lr_id l)) (bounds_matching X q (now w') w'))
           (bp_items page)
     else bp_items page = [] \<and> bp_clusters page = clusters_of X q (bounds_matching X q (now w') w')"
    using in_bounds_sound[OF b c] by blast
  show ?thesis
  proof (intro exI[of _ q] exI[of _ page] exI[of _ center] conjI)
    show "bounds_parse X (or_empty (si_bbox x)) (input_filters x) 200 = Some q" using q by (simp add: browse_marker_cap_def)
  qed (use page res c lim in \<open>auto simp: clusters_count_all clusters_nonempty dest: list_all2_lengthD split: if_splits\<close>)
qed

section \<open>Card and details page\<close>

lemma security_row_shown:
  "security_of_row s w = (Inr f, w') \<Longrightarrow> w' = w \<and> sf_code f = se_code s \<and> (sf_state f = SecYes \<longleftrightarrow> se_state s = 1)"
  unfolding security_of_row_def security_state_from_smallint_def
  by (auto split: if_splits elim!: bindM_InrE retM_InrE expectD_InrE)

lemma security_rows_shown:
  "mapM security_of_row ss w = (Inr fs, w') \<Longrightarrow>
    w' = w \<and> map sf_code (filter (\<lambda>f. sf_state f = SecYes) fs) = map se_code (filter (\<lambda>s. se_state s = 1) ss)"
proof (induction ss arbitrary: fs)
  case (Cons s ss)
  from Cons.prems obtain f w1 fs' where f: "security_of_row s w = (Inr f, w1)"
    "mapM security_of_row ss w1 = (Inr fs', w')" "fs = f # fs'"
    by (auto elim!: bindM_InrE retM_InrE)
  then show ?case using security_row_shown[OF f(1)] Cons.IH by simp
qed (auto elim: retM_InrE)

lemma to_domain_shown:
  assumes "to_domain G l hs ss w = (Inr p, w')"
  shows "w' = w \<and> pl_id p = lr_id l \<and> parking_type_code (pl_type p) = lr_type l
    \<and> pl_timezone p = lr_timezone l \<and> pl_point p = row_point l
    \<and> pl_hours p = (if lr_hours_unknown l then UnknownHours else Weekly (map range_of_row hs))
    \<and> map sf_code (filter (\<lambda>f. sf_state f = SecYes) (pl_security p)) = map se_code (filter (\<lambda>s. se_state s = 1) ss)"
proof -
  from assms have p: "parking_type_from (lr_type l) = Inr (pl_type p)" "geo_point_new (lr_lat l) (lr_lon l) = Inr (pl_point p)"
    "mapM security_of_row ss w = (Inr (pl_security p), w)" "w' = w" "pl_id p = lr_id l" "pl_timezone p = lr_timezone l"
    "pl_hours p = (if lr_hours_unknown l then UnknownHours else Weekly (map range_of_row hs))"
    unfolding to_domain_def
    by (auto elim!: InrEs expectD_InrE dest!: price_of_pure simp: parking_location_new_def split: if_splits)
      (auto dest: security_rows_shown)
  have "parking_type_code (pl_type p) = lr_type l"
    using p(1) parking_type.as_from[of "lr_type l" "pl_type p"] by (simp add: ok_eq_Some)
  moreover have "pl_point p = row_point l"
    using p(2) by (auto simp: geo_point_new_def row_point_def split: if_splits)
  ultimately show ?thesis using p security_rows_shown[OF p(3)] by simp
qed

lemma map_sort_key: "map f (sort_key f xs) = sort (map f xs)"
proof -
  have "map f (insort_key f x ys) = insort (f x) (map f ys)" for x ys by (induction ys) auto
  then show ?thesis by (induction xs) simp_all
qed

definition hours_sane :: "'w content_world_scheme \<Rightarrow> bool" where
  "hours_sane w \<longleftrightarrow> (\<forall>h \<in> set (hours_table w). 1 \<le> hr_day h \<and> hr_day h \<le> 7)
   \<and> (\<forall>l \<in> set (locations w). lr_hours_unknown l \<longrightarrow> (\<forall>h \<in> set (hours_table w). hr_location h \<noteq> lr_id l))"

lemma open_row_is_status:
  assumes "hours_sane w" "l \<in> set (locations w)"
  shows "is_open_row X w t l \<longleftrightarrow>
    status_at (if lr_hours_unknown l then UnknownHours else Weekly (map range_of_row (hours_of w (lr_id l))))
      (sx_local X (lr_timezone l)) t = OpenNow"
proof (cases "lr_hours_unknown l")
  case True
  with assms have "open_rows w (lr_id l) = []" by (auto simp: hours_sane_def open_rows_def filter_empty_conv)
  with True show ?thesis using status_at_sql[of "[]"] by (simp add: is_open_row_def)
next
  case False
  have "range_of_row h = (nat (hr_day h), \<lparr>opens_at = hr_opens h, closes_at = hr_closes h, all_day = hr_all_day h\<rparr>)"
    if "h \<in> set (hours_table w)" for h
    using assms(1) that by (auto simp: hours_sane_def range_of_row_def)
  then have "set (map range_of_row (hours_of w (lr_id l))) = set (open_rows w (lr_id l))"
    by (auto simp: hours_of_def open_rows_def image_iff)
  then have "sql_is_open_at (map range_of_row (hours_of w (lr_id l))) = sql_is_open_at (open_rows w (lr_id l))"
    by (intro ext) (simp add: sql_is_open_at_def Let_def list_ex_iff del: set_map)
  with False show ?thesis by (simp add: is_open_row_def status_at_sql)
qed

lemma details_shown:
  assumes "parking_details X th i w = (Inr (Some d), w')" "location_of w i = Some l"
  shows "pl_id (dv_location d) = lr_id l \<and> parking_type_code (pl_type (dv_location d)) = lr_type l
    \<and> pl_point (dv_location d) = row_point l
    \<and> dv_open_now d = status_at (if lr_hours_unknown l then UnknownHours else Weekly (map range_of_row (hours_of w (lr_id l))))
        (sx_local X (lr_timezone l)) (now w)
    \<and> map sf_code (filter (\<lambda>f. sf_state f = SecYes) (pl_security (dv_location d)))
      = map se_code (filter (\<lambda>s. se_state s = 1) (security_of w (lr_id l)))"
proof -
  have "lr_id l = i" using assms(2) by (auto simp: location_of_def dest: select_one_SomeD)
  from assms(1) obtain p w1 where d: "details (sx_geo X) i w = (Inr (Some p), w1)" and v: "dv_location d = p"
    "dv_open_now d = status_at (pl_hours p) (sx_local X (pl_timezone p)) (now w1)"
    unfolding parking_details_def by (auto elim!: bindM_InrE getM_InrE retM_InrE split: option.splits)
  from d obtain row v1 where row: "query reader_of_db (\<lambda>w. location_of w i) w = (Inr row, v1)"
    and rest: "(case row of None \<Rightarrow> retM None | Some l \<Rightarrow>
           bindM (query reader_of_db (\<lambda>w. hours_of w i)) (\<lambda>hs.
           bindM (query reader_of_db (\<lambda>w. security_of w i)) (\<lambda>ss.
           bindM (to_domain (sx_geo X) l hs ss) (\<lambda>p. retM (Some p))))) v1 = (Inr (Some p), w1)"
    unfolding details_def by (elim bindM_InrE)
  from row obtain fs where fs: "v1 = w\<lparr>faults := fs\<rparr>" "row = Some l"
    using assms(2) by (elim query_InrE) (simp add: location_of_def)
  with rest obtain hs v2 ss v3 where q: "query reader_of_db (\<lambda>w. hours_of w i) v1 = (Inr hs, v2)"
    "query reader_of_db (\<lambda>w. security_of w i) v2 = (Inr ss, v3)" "to_domain (sx_geo X) l hs ss v3 = (Inr p, w1)"
    by (auto elim!: bindM_InrE retM_InrE)
  from q(1) obtain fs2 where f2: "v2 = v1\<lparr>faults := fs2\<rparr>" "hs = hours_of w i"
    by (elim query_InrE) (simp add: fs hours_of_def)
  from q(2) obtain fs3 where f3: "v3 = v2\<lparr>faults := fs3\<rparr>" "ss = security_of w i"
    by (elim query_InrE) (simp add: fs f2 security_of_def)
  from to_domain_shown[OF q(3)] v fs f2 f3 \<open>lr_id l = i\<close> show ?thesis by simp
qed

text \<open>C24: A card and the details page opened from it tell the same: the same kind and place, the
  same confirmed security features in the same order, and the card says open exactly when the
  page does, provided the stored opening hours are ISO weekdays and unknown hours have
  no rows.\<close>

theorem card_agrees_with_details:
  assumes "search_execute X cfg geocode x w = (Inr (Returned (pg, hit)), w')" "s \<in> set (pg_items pg)"
    and "parking_details X th (sm_id s) w' = (Inr (Some d), w'')"
    and "distinct (map lr_id (locations w'))" "hours_sane w'"
  shows "pl_id (dv_location d) = sm_id s \<and> pl_type (dv_location d) = sm_type s \<and> pl_point (dv_location d) = sm_point s
    \<and> (sm_open_now s \<longleftrightarrow> dv_open_now d = OpenNow)
    \<and> sm_security_yes s = map sf_code (filter (\<lambda>f. sf_state f = SecYes) (pl_security (dv_location d)))"
proof -
  obtain r where a: "list_all2 (shows_row X cfg r w') (take (sq_page_size r) (remaining X cfg r w')) (pg_items pg)"
    using execute_sound[OF assms(1)] .
  obtain l where l: "l \<in> set (take (sq_page_size r) (remaining X cfg r w'))" "shows_row X cfg r w' l s"
    using list_all2_source[OF a assms(2)] by blast
  then have m: "l \<in> set (locations w')"
    using set_candidates search_matching_rows unfolding remaining_def by (metis in_set_takeD subsetD)
  have s: "sm_id s = lr_id l" "parking_type_code (sm_type s) = lr_type l" "sm_point s = row_point l"
      "sm_open_now s = is_open_row X w' (now w') l" "sm_security_yes s = confirmed_codes w' (lr_id l)"
    using l(2) by (simp_all add: shows_row_def shown_def decorate_def Let_def)
  have "location_of w' (sm_id s) = Some l"
    using select_one_unique[OF assms(4) m] by (simp add: s(1) location_of_def)
  note d = details_shown[OF assms(3) this]
  have "confirmed_codes w' (lr_id l) = map se_code (filter (\<lambda>s. se_state s = 1) (security_of w' (lr_id l)))"
    by (simp add: confirmed_codes_def security_of_def filter_sort map_sort_key conj_commute)
  moreover have "pl_type (dv_location d) = sm_type s"
    using d s(2) parking_type.as_code_inject by metis
  ultimately show ?thesis using d s open_row_is_status[OF assms(5) m] by simp
qed

end
