(* ===== verification/Search_Demo.thy ===== *)
theory Search_Demo
  imports Search_Guarantees Content_Demo
begin

text \<open>
  The guarantees of the search on two racks at the same place: a search by distance with one
  row per page, a map viewport, and the details page of a card.
\<close>

definition demo_two :: content_world where
  "demo_two = demo_content\<lparr>locations := [demo_location, demo_location\<lparr>lr_id := 2\<rparr>]\<rparr>"

definition demo_cursor :: "int \<Rightarrow> search_cursor" where
  "demo_cursor i = \<lparr>cu_sort = ByDistance, cu_v = Fin 0, cu_id = i\<rparr>"

text \<open>JSON is printed as one byte, and the codec writes each byte as a character.\<close>

definition demo_X :: search_externals where
  "demo_X =
     \<lparr>sx_geo = demo_geo, sx_b64 = \<lparr>b64_encode = map unat, b64_decode = (\<lambda>s. Some (map of_nat s))\<rparr>,
      sx_print = (\<lambda>j. if j = cursor_json (demo_cursor 1) then [1] else [2]),
      sx_parse = (\<lambda>bs. Some (cursor_json (demo_cursor (if bs = [1] then 1 else 2)))),
      sx_number = (\<lambda>s. Some (Fin (if s = lit ''0'' then 0 else 1))), sx_round = id, sx_local = (\<lambda>_. id),
      sx_in_box = (\<lambda>_ _. True), sx_snap = (\<lambda>_ _. (0, 0)), sx_mean = (\<lambda>xs. hd xs)\<rparr>"

definition demo_search_config :: search_config where
  "demo_search_config = \<lparr>sc_weights = default_recommendation_config demo_X, sc_thresholds = default_thresholds\<rparr>"

definition demo_input :: search_input where
  "demo_input =
     \<lparr>si_query = None, si_lat = Some (Fin 1), si_lon = Some (Fin 2), si_radius_m = Some 250, si_cost = None, si_types = None,
      si_security = None, si_open_now = False, si_sort = Some (lit ''distance''), si_page_size = Some 1, si_cursor = None,
      si_bbox = Some (lit ''0,0,1,1'')\<rparr>"

definition no_geocoder :: "content_world geocoder" where
  "no_geocoder q = retM None"

abbreviation demo_point :: geo_point where "demo_point \<equiv> \<lparr>gp_lat = Fin 1, gp_lon = Fin 2\<rparr>"

lemma demo_two_fields [simp]:
  "faults demo_two = []" "locations demo_two = [demo_location, demo_location\<lparr>lr_id := 2\<rparr>]" "hours_table demo_two = []"
  "now demo_two = 1000000" "security_table demo_two = []"
  by (simp_all add: demo_two_def)

lemma demo_two_decodes: "decodable (sx_geo demo_X) demo_two"
proof -
  have "row_decodes demo_geo demo_location" using demo_decodes by (simp add: decodable_def)
  then have "row_decodes demo_geo (demo_location\<lparr>lr_id := 2\<rparr>)" by (simp add: row_decodes_def row_point_def)
  with demo_decodes show ?thesis by (simp add: decodable_def demo_two_def demo_X_def)
qed

lemma demo_no_filters: "input_filters demo_input = \<lparr>fi_cost = None, fi_types = [], fi_security_all = [], fi_open_now = False\<rparr>"
  by (simp add: input_filters_def demo_input_def or_empty_def parking_type_from_def ok_def lit_def trim_def trim_start_def
      trim_end_def map_filter_simps)

lemma demo_search_request:
  "request_of demo_X demo_input demo_point None
   = \<lparr>sq_origin = demo_point, sq_label = None, sq_radius_m = 250,
      sq_filters = \<lparr>fi_cost = None, fi_types = [], fi_security_all = [], fi_open_now = False\<rparr>, sq_sort = ByDistance,
      sq_page_size = 1, sq_cursor = None\<rparr>"
  unfolding request_of_def demo_no_filters search_request_new_def
  by (simp add: demo_input_def search_query_def radius_options_m_def max_page_size_def search_sort.from_as
      search_sort_from_def lit_def)

lemma demo_matching: "search_matching demo_X (request_of demo_X demo_input demo_point None) t demo_two = locations demo_two"
  by (simp add: search_matching_def demo_search_request row_matches_def filter_binds_def in_radius_def)
    (simp add: demo_X_def demo_geo_def)

lemma demo_distance_key:
  "sort_key_of demo_X demo_search_config (request_of demo_X demo_input demo_point None) t demo_two l = Fin 0"
  by (simp add: sort_key_of_def demo_search_request) (simp add: demo_X_def demo_geo_def)

lemma demo_coordinates: "si_lat demo_input = Some (Fin 1)" "si_lon demo_input = Some (Fin 2)" "si_cursor demo_input = None"
  "geo_point_new (Fin 1) (Fin 2) = Inr demo_point"
  by (simp_all add: demo_input_def geo_point_new_def f64_within_def)

text \<open>The second request fails, and a second passes between the others.\<close>

definition demo_worlds :: "content_world list" where
  "demo_worlds = [demo_two, demo_two\<lparr>faults := [Some (DbUnavailable)]\<rparr>, demo_two\<lparr>now := 2000000\<rparr>, demo_two\<lparr>now := 3000000\<rparr>]"


lemma demo_search_returns:
  "\<exists>pg. search_execute demo_X demo_search_config no_geocoder demo_input demo_two = (Inr (Returned (pg, None)), demo_two)
    \<and> pg_items pg \<noteq> [] \<and> sm_id (hd (pg_items pg)) = 1"
proof -
  let ?r = "request_of demo_X demo_input demo_point None"
  have rem: "remaining demo_X demo_search_config ?r demo_two = locations demo_two"
    unfolding remaining_def search_candidates_def
    by (simp add: demo_matching demo_distance_key) (simp add: demo_search_request)
  obtain items where items: "page_of demo_X demo_search_config ?r demo_two
      = (Inr (Returned \<lparr>pg_items = items, pg_total = int (length (search_matching demo_X ?r (now demo_two) demo_two)),
           pg_next = (if sq_page_size ?r < length (remaining demo_X demo_search_config ?r demo_two)
                      then Some (cursor_at demo_X demo_search_config ?r demo_two
                        (last (take (sq_page_size ?r) (remaining demo_X demo_search_config ?r demo_two)))) else None)\<rparr>), demo_two)"
    and a: "list_all2 (shows_row demo_X demo_search_config ?r demo_two) (take (sq_page_size ?r) (locations demo_two)) items"
    using page_ok[OF demo_two_fields(1) demo_two_decodes page_size_positive[of demo_X demo_input demo_point None], of demo_search_config]
    unfolding rem by blast
  from a obtain s where "items = [s]" "shows_row demo_X demo_search_config ?r demo_two demo_location s"
    by (auto simp: demo_search_request list_all2_Cons1)
  then have "items \<noteq> [] \<and> sm_id (hd items) = 1" using shows_row_key by fastforce
  with items show ?thesis by (simp add: execute_at[OF demo_coordinates(1,2,4)] exec)
qed

theorem search_results_match_witness:
  "\<exists>pg. \<exists>r :: search_request. search_execute demo_X demo_search_config no_geocoder demo_input demo_two = (Inr (Returned (pg, None)), demo_two)
    \<and> length (pg_items pg) \<le> sq_page_size r \<and> sq_page_size r \<le> 100 \<and> sq_origin r = demo_point"
proof -
  obtain pg where pg: "search_execute demo_X demo_search_config no_geocoder demo_input demo_two = (Inr (Returned (pg, None)), demo_two)"
    using demo_search_returns by blast
  from search_results_match[OF this] show ?thesis
  proof (elim exE conjE)
    fix r :: search_request
    assume "length (pg_items pg) \<le> sq_page_size r" "sq_page_size r \<le> 100"
      and "searched_at no_geocoder demo_input demo_two (sq_origin r) None"
    moreover from this(3) have "sq_origin r = demo_point"
      by (simp add: searched_at_def demo_coordinates)
    ultimately show ?thesis using pg by blast
  qed
qed

theorem card_agrees_with_details_witness:
  "\<exists>pg s. \<exists>d :: details_view. search_execute demo_X demo_search_config no_geocoder demo_input demo_two = (Inr (Returned (pg, None)), demo_two)
    \<and> s \<in> set (pg_items pg) \<and> pl_id (dv_location d) = 1 \<and> \<not> sm_open_now s"
proof -
  obtain pg where pg: "search_execute demo_X demo_search_config no_geocoder demo_input demo_two = (Inr (Returned (pg, None)), demo_two)"
      "pg_items pg \<noteq> []" "sm_id (hd (pg_items pg)) = 1"
    using demo_search_returns by blast
  let ?s = "hd (pg_items pg)"
  obtain p where p: "details (sx_geo demo_X) 1 demo_two = (Inr (Some p), demo_two)"
    using details_decodes[OF demo_two_decodes, of 1] by (auto simp: location_exists_def)
  let ?d = "\<lparr>dv_location = p, dv_freshness = categorize (pl_verified_at p) (now demo_two) default_thresholds,
    dv_open_now = status_at (pl_hours p) (sx_local demo_X (pl_timezone p)) (now demo_two)\<rparr>"
  have d: "parking_details demo_X default_thresholds (sm_id ?s) demo_two = (Inr (Some ?d), demo_two)"
    using p by (simp add: parking_details_def exec pg(3))
  have hours: "distinct (map lr_id (locations demo_two))" "hours_sane demo_two" by (simp_all add: hours_sane_def)
  have s: "?s \<in> set (pg_items pg)" using pg(2) by simp
  note c = card_agrees_with_details[OF pg(1) s d hours]
  have "location_of demo_two 1 = Some demo_location" by (simp add: location_of_def select_one_def)
  then have "dv_open_now ?d \<noteq> OpenNow"
    using details_shown[of demo_X default_thresholds 1 demo_two ?d demo_two demo_location] d pg(3)
    by (simp add: demo_location_def status_at_def)
  with c pg(3) have "pl_id (dv_location ?d) = 1 \<and> \<not> sm_open_now ?s" by simp
  with pg(1) s show ?thesis by blast
qed

theorem browse_is_bounded_witness:
  "\<exists>q page. browse_map demo_X demo_input demo_two = (Inr (Returned (q, page)), demo_two) \<and> bp_total page = 2
    \<and> bp_clusters page = [] \<and> length (bp_items page) = 2"
proof -
  have law: "rounding_law (sx_round demo_X)" by (simp add: rounding_law_def demo_X_def mono_def)
  have "split_on 44 (lit ''0,0,1,1'') = [lit ''0'', lit ''0'', lit ''1'', lit ''1'']" by (simp add: lit_def)
  then have parse: "bounds_parse demo_X (or_empty (si_bbox demo_input)) (input_filters demo_input) browse_marker_cap
      = Some \<lparr>bq_west = 0, bq_south = 0, bq_east = 1, bq_north = 1, bq_filters = input_filters demo_input, bq_limit = 200\<rparr>"
    by (simp add: demo_input_def or_empty_def bounds_parse_def demo_X_def viewport_ok_def max_browse_span_deg_def browse_marker_cap_def
        lit_def trim_def trim_start_def trim_end_def is_whitespace_def)
  let ?q = "\<lparr>bq_west = 0, bq_south = 0, bq_east = 1, bq_north = 1, bq_filters = input_filters demo_input, bq_limit = 200\<rparr>"
  have m: "bounds_matching demo_X ?q t demo_two = locations demo_two" for t
    by (simp add: bounds_matching_def demo_no_filters row_matches_def filter_binds_def in_viewport_def demo_X_def)
  obtain c where c: "bounds_center demo_X ?q = Returned c"
    using bounds_center_returns[OF law parse] by blast
  let ?rows = "map (decorate demo_X c (now demo_two) demo_two None) (take 200
      (search_candidates (\<lambda>l. Fin (gx_distance (sx_geo demo_X) (row_point l) c)) None (locations demo_two)))"
  have "\<forall>row \<in> set ?rows. row_decodes (sx_geo demo_X) (sr_location row)"
    using demo_two_decodes set_candidates by (fastforce simp: decodable_def decorate_def dest!: in_set_takeD)
  then obtain ss where "mapM (summary_of (sx_geo demo_X)) ?rows = (retM ss :: (content_world, reader_error, parking_summary list) m)"
    using summaries_decode by blast
  then have "\<exists>page. browse_map demo_X demo_input demo_two = (Inr (Returned (?q, page)), demo_two)"
    by (simp add: browse_map_def exec parse in_bounds_def in_bounds_at_def bounds_count_def bounds_rows_def c m)
      (simp add: demo_input_def)
  then obtain page where page: "browse_map demo_X demo_input demo_two = (Inr (Returned (?q, page)), demo_two)" ..
  from browse_is_bounded[OF law page] have "bp_total page = 2 \<and> bp_clusters page = [] \<and> length (bp_items page) = 2"
    by (auto simp: m split: if_splits)
  with page show ?thesis by blast
qed

end
