(* ===== verification/Spec2Isabelle.thy ===== *)
theory Spec2Isabelle
  imports Dom_Parking Dom_Community Dom_Moderation Dom_Privacy Job_Lifecycle Auth_Demo Content_Demo Privacy_Demo Web_Demo Search_Demo
begin

text \<open>
  A verification development of bikenest, a directory of bicycle parking: a Rust workspace
  of crates under \<open>src/crates\<close> layered as domain (values and rules), application (use
  cases over ports), infrastructure (the ports over PostgreSQL, ValKey and mail providers)
  and web (handlers).  A handler calls a use case; a use case calls ports; a port runs SQL.
  Mail and maintenance are jobs in a table that workers claim.

  \<^bold>\<open>How the code is modelled.\<close>
  Strings are lists of Unicode scalars (\<open>ustring\<close>, theory Rust_Base, which also has the
  UTF-8 widths and byte slices that Rust's panics depend on); instants are microseconds as
  \<open>int\<close>; \<open>u64\<close> arithmetic is on \<open>64 word\<close> where it can saturate or wrap.  An async
  function that can fail is a state monad with exceptions over the world (theory Effects):
  it returns \<open>Inl error\<close> or \<open>Inr value\<close>, and what it wrote before an error stays.
  The world (theory Database) is a record that components extend with their tables; a table
  is the list of its rows.  \<open>sql\<close> is one statement: it takes the next entry of a schedule
  of database faults, and either fails there or runs, where a constraint of the schema may
  reject it; \<open>transaction\<close> restores every table when its body or its commit fails.  So a
  theorem about an operation holds for every placement of database failures.  Random bytes
  are an arbitrary stream in the world.  Calls of other crates (argon2, SHA-256, base64,
  the cron parser, time zones, Unicode lower-casing, the OAuth exchange, the mail provider,
  the ValKey connection) are parameters.

  \<^bold>\<open>Theories and the code they model.\<close>
  \<^item> Dom_Identity: \<open>domain/src/lib.rs\<close>, \<open>domain/src/auth.rs\<close>.  Dom_Time:
    \<open>domain/src/hours.rs\<close>, \<open>domain/src/freshness.rs\<close> and \<open>migrations/0020\<close>.  Dom_Parking,
    Dom_Community, Dom_Moderation (with \<open>photo.rs\<close>), Dom_Privacy: the files of those names
    in \<open>domain/src\<close>.  Every pair \<open>as_code\<close>/\<open>from_code\<close> interprets the locale \<open>code_enum\<close>.
  \<^item> Job_Queue: \<open>infrastructure/src/job/repo.rs\<close>, one definition per method on the job
    table; the locale \<open>claimed_write\<close> is the contract of the writes of a claiming worker.
    Job_Worker: \<open>job/worker.rs\<close>, \<open>job/schedule.rs\<close>, \<open>job/registry.rs\<close>, \<open>application/src/jobs.rs\<close>.
    Job_System: any interleaving of workers, producers and the collector as the step relation
    \<open>queue_step\<close> and its runs.  Job_Lifecycle: one job through claims and polls.
  \<^item> Rate_Limit: \<open>infrastructure/src/auth/rate_limit.rs\<close>, the in-memory buckets with their
    sweep and the Lua script; the locale \<open>sliding_window\<close> carries the proof that both keep
    the limit.
  \<^item> Auth_Types: errors, rows and the record of outside functions.  Account_Store:
    \<open>auth/account_repo.rs\<close>.  Session_Store: \<open>auth/session_store.rs\<close>, \<open>auth/token_store.rs\<close>;
    the locale \<open>single_use\<close> is what the service relies on for both kinds of token.
    Email_Queue: \<open>application/src/email.rs\<close>, \<open>email/queue.rs\<close>, \<open>job/email.rs\<close>.
    Auth_Service: \<open>application/src/auth.rs\<close>, one definition per use case.
  \<^item> Auth_System: the service as a system of actions (\<open>auth_act\<close>, \<open>auth_run\<close>); the locale
    \<open>auth_invariant\<close> proves once that an invariant kept by the repositories' methods is kept
    by every run, and \<open>credential_law\<close> is its sublocale for facts about single rows.
    Auth_Invariants: the two invariants that need more than one statement.  Auth_Guarantees:
    login.  Auth_Credentials: sessions, suspension, links, passwords and runs.  Auth_Demo: a
    small instance on which every guarantee is applied.
  \<^item> Content_Tables: the tables of the directory's content as an extension of the account
    world, with the object store and its schedule of faults.  Parking_Store:
    \<open>community/contribution.rs\<close>, \<open>parking/details.rs\<close>.  Community_Store: \<open>community/review.rs,
    verification.rs, favorite.rs, history.rs\<close>.  Time_Zones: \<open>timezone/offline.rs\<close>.
    Community_Service: \<open>application/src/community.rs\<close>.  Photo_Service: \<open>application/src/photo.rs\<close>,
    \<open>photo/repository.rs\<close> and the pipeline of \<open>photo/processor.rs\<close> over the image crate's
    operations.  Moderation_Store: \<open>moderation/report.rs, actions.rs, audit.rs\<close> and the merge
    rule; Moderation_Service: \<open>application/src/moderation.rs\<close>.
  \<^item> Content_System: accounts and content as one system of actions (\<open>content_act\<close>,
    \<open>content_run\<close>); the locale \<open>content_invariant\<close> carries an invariant along its runs and is
    put together from the repositories' contracts.  Content_Frames: which tables a method can
    touch; the locales \<open>location_invariant\<close>, \<open>photo_row_invariant\<close> and \<open>report_invariant\<close> ask
    only for the laws of the tables an invariant looks at.  Content_Effects: what a statement
    that returned did.  Content_Versions: versions and the revision log, with the locale
    \<open>versioned\<close>.  Content_Guarantees, Content_Decoding, Content_Moderation, Content_Photos,
    Content_Paging: the guarantees.  Content_Demo: the instance they are applied to.
  \<^item> Privacy_Store: the privacy tables as an extension of the content world, and
    \<open>privacy/request.rs, export.rs, anonymize.rs, policy.rs, policy_seed.rs\<close>.  Privacy_Service:
    \<open>application/src/privacy.rs\<close>.  Privacy_Jobs: \<open>privacy/retention.rs\<close> with the listing of
    \<open>storage.rs\<close>, and the retention job.  Privacy_Effects: a successful erasure as a function.
    Privacy_System: the whole program as one system of actions (\<open>privacy_act\<close>, \<open>privacy_run\<close>);
    the locale \<open>privacy_invariant\<close> carries an invariant along its runs.  Privacy_Erasure,
    Privacy_Accounts (the locale \<open>account_part\<close> lifts the account invariants over the content),
    Privacy_Exports (the locale \<open>export_law\<close>), Privacy_Availability, Privacy_Sweep,
    Privacy_Retention, Privacy_Policies: the guarantees.  Privacy_Demo: the instance.
  \<^item> Web_Text: the texts of a request (\<open>web/src/auth.rs\<close>, \<open>htmx.rs\<close>, \<open>routes/common.rs\<close>): percent
    encoding, headers, cookies and the places of a CSRF token.  Web_Request: local paths, htmx
    shapes, locale, client address, security headers (\<open>htmx.rs, client_ip.rs, security.rs,
    markdown.rs, i18n\<close>).  Web_Stack: the middleware (\<open>web/src/auth.rs\<close>, \<open>routes/errors.rs\<close>,
    \<open>wiring.rs\<close>) as functions on handlers over the account world.  Web_Accounts:
    \<open>routes/auth.rs\<close>.  Web_Guarantees: what stack and handlers guarantee; Web_Demo: the instance.
  \<^item> Search_Request: search criteria, cursors and map viewports of \<open>application/src/ports.rs\<close>.
    Search_Store: \<open>infrastructure/src/parking/search.rs, photos.rs, sitemap.rs\<close>.  Search_Service:
    \<open>application/src/search.rs\<close>.  Search_Paging: decoded rows, filters and the reader who follows
    the cursors of the URL (\<open>search_walk\<close>).  Search_Guarantees: what searching and browsing promise;
    Search_Demo: the instance.

  \<^bold>\<open>What is shown.\<close>
  Values: the open-now loop is membership in an interval of the week and agrees with the SQL
  function; freshness decays; confidence depends on the set of signals; proposal payloads
  survive storage.  Jobs: leases are exclusive, finished jobs stay, claims take the earliest
  work, the retry budget and the retry delay are exact; and two behaviours the comments do
  not announce: crashing workers are not bounded by the budget, and a recurring job runs
  once.  Limits: no window ever admits more than its limit, in ValKey always, and in memory as
  long as fewer other keys are used in it than an eviction keeps.
  Accounts: what a login proves and what a refusal leaves behind, completeness of the
  decision, the end of sessions, the immediacy of suspension, single use of links, the
  effect of links, and along every run with every fault: well-formed tables, an
  administrator, and a login key that equals the account's email.
  Content, along every run with every fault of database and object store: the revision log
  has no gap, stale edits are refused for good, what is stored can be read back, a rejected
  photo stays rejected, reports are resolved by someone else than their reporter, ratings
  are current as long as no review is hidden or restored (and are not afterwards), and nobody
  without the role or the verified address leaves a trace; uploads are all or nothing, in the
  object store too unless it fails twice, an approval that returned is a single equation for
  the whole world, and paging through favorites ends with each seen once.
  Privacy: deleting an account erases it or leaves it as it was, whatever fails, keeps what it
  contributed without a name, and succeeds exactly when it may; an administrator remains along
  every run of the whole system; an export lists the owner's rows of every table it has a section for, can be fetched
  with the token that was returned, and is handed out at most once; a retention run leaves
  nothing expired; the sweep of the object store removes exactly the orphans; legal pages are
  rendered with every placeholder resolved, and the page seeded last is in force.
  Web: a state-changing request reaches its handler only with the token of a live session or
  the visitor's own cookie, and the pages' own forms always do; all failed
  logins are answered by one page; the cookie a login sets is the session it opened; every response carries
  each security header once, and the one about TLS exactly where TLS is on; redirects of the login stay on the site; and the key of the rate
  limits is not the client's to choose.
  Search: a page shows matching locations around the place asked for only and counts them all;
  following its cursors shows each match once, however requests fail in between, and over the
  URL when the cursors survive their JSON text; a viewport is listed completely
  or counted in clusters, and a card agrees with its details page.

  \<^bold>\<open>Bounds and fuel.\<close>
  Only \<open>search_walk\<close> uses fuel, and as many steps as there are rows left, plus one, are shown
  to be enough (\<open>walk_from\<close>); \<open>page_walk\<close> is over the list of worlds its requests meet, and
  as many that answer as there are matches, plus one, are enough; the other loops are recursion on lists.  One iteration of the worker's
  endless loop is \<open>poll_once\<close>; \<open>auth_run\<close>, \<open>content_run\<close>, \<open>privacy_run\<close> and \<open>queue_run\<close> are over arbitrary
  finite sequences of actions.  The reader of pages (\<open>favorites_walk\<close>) terminates because the
  rows after the cursor get fewer, the sweep of the object store (\<open>sweep_uploads\<close>) because the
  keys still to be listed do, and \<open>fill_loop\<close> because the text that is left gets shorter.

  \<^bold>\<open>What is not modelled, and what comes next.\<close>
  The handlers outside the account pages, which forward to the modelled services.  Rendering,
  configuration, startup, the S3 client, image decoding, mail transport, geocoding, the
  geometry of PostGIS and the aggregate \<open>activity_for\<close> stay outside.  Statements
  are atomic and run one at a time, as row locks make them; transactions of different
  callers are not interleaved.  The CHECKs of \<open>migrations/0017\<close> on the price columns are not
  written out: only a paid cost has a price (\<open>cost_parts\<close>), but a negative price, which
  the database refuses, is stored here.  The counter of a job's attempts is unbounded.  Logging is dropped.
\<close>

end
